(* ===== verification/Frame_Prelude.thy ===== *)
theory Frame_Prelude
  imports Main "HOL-Library.List_Lexorder" "HOL-Library.Char_ord"
    "HOL-Library.Product_Lexorder" "HOL-Library.AList"
begin

text \<open>
  What the components share: the model's basic types, the parts of the Go language and of its
  standard library the sources use (decimal and quoted formatting, \<open>strings.Join\<close>, UTF-8 runes,
  fixed-width integers, sorting of strings), and the generic list lemmas.

  A Go string is a byte sequence, as is an Isabelle \<^typ>\<open>string\<close>: \<open>len\<close> is \<^const>\<open>length\<close> and
  \<open><\<close> on strings is the byte-wise lexicographic order of \<open>List_Lexorder\<close> over \<open>Char_ord\<close>, so
  \<open>sort.Strings\<close> is \<^const>\<open>sort\<close>. Instants and durations are integers (nanoseconds).
\<close>

section \<open>Types\<close>

type_synonym instant = int
type_synonym duration = int
type_synonym labels = "string \<rightharpoonup> string"

definition second :: duration where
  "second = 1000000000"

definition minute :: duration where
  "minute = 60 * second"

section \<open>Fixed-width integers\<close>

text \<open>The value a signed 32-bit or 64-bit Go integer holds after an operation whose exact result
  is \<open>x\<close>.\<close>

definition wrap32 :: "int \<Rightarrow> int" where
  "wrap32 x = (x + 2 ^ 31) mod 2 ^ 32 - 2 ^ 31"

definition wrap64 :: "int \<Rightarrow> int" where
  "wrap64 x = (x + 2 ^ 63) mod 2 ^ 64 - 2 ^ 63"

definition is_int32 :: "int \<Rightarrow> bool" where
  "is_int32 x \<longleftrightarrow> - (2 ^ 31) \<le> x \<and> x < 2 ^ 31"

definition is_int64 :: "int \<Rightarrow> bool" where
  "is_int64 x \<longleftrightarrow> - (2 ^ 63) \<le> x \<and> x < 2 ^ 63"

lemma wrap32_id [simp]: "is_int32 x \<Longrightarrow> wrap32 x = x"
  by (simp add: wrap32_def is_int32_def)

lemma wrap64_id [simp]: "is_int64 x \<Longrightarrow> wrap64 x = x"
  by (simp add: wrap64_def is_int64_def)

section \<open>Formatting\<close>

definition digit_char :: "nat \<Rightarrow> char" where
  "digit_char d = char_of (48 + d)"

fun nat_str :: "nat \<Rightarrow> string" where
  "nat_str n = (if n < 10 then [digit_char n] else nat_str (n div 10) @ [digit_char (n mod 10)])"

declare nat_str.simps [simp del]

lemma nat_str_not_Nil [simp]: "nat_str n \<noteq> []"
  by (subst nat_str.simps) simp

text \<open>The verb \<open>%d\<close>.\<close>

definition int_str :: "int \<Rightarrow> string" where
  "int_str i = (if i < 0 then ''-'' @ nat_str (nat (- i)) else nat_str (nat i))"

text \<open>The verb \<open>%t\<close>.\<close>

definition bool_str :: "bool \<Rightarrow> string" where
  "bool_str b = (if b then ''true'' else ''false'')"

definition byte :: "char \<Rightarrow> nat" where
  "byte c = of_char c"

definition hex_char :: "nat \<Rightarrow> char" where
  "hex_char d = (if d < 10 then char_of (48 + d) else char_of (87 + d))"

text \<open>The verb \<open>%q\<close>, byte by byte: quotes and backslashes escaped, control bytes as Go spells
  them, every other byte kept (the bytes of a printable multi-byte rune are kept by Go too).\<close>

definition quote_char :: "char \<Rightarrow> string" where
  "quote_char c =
     (let b = byte c in
      if b = 34 then [char_of (92::nat), c]
      else if b = 92 then [c, c]
      else if b = 7 then [char_of (92::nat), CHR ''a'']
      else if b = 8 then [char_of (92::nat), CHR ''b'']
      else if b = 9 then [char_of (92::nat), CHR ''t'']
      else if b = 10 then [char_of (92::nat), CHR ''n'']
      else if b = 11 then [char_of (92::nat), CHR ''v'']
      else if b = 12 then [char_of (92::nat), CHR ''f'']
      else if b = 13 then [char_of (92::nat), CHR ''r'']
      else if b < 32 \<or> b = 127
        then [char_of (92::nat), CHR ''x'', hex_char (b div 16), hex_char (b mod 16)]
      else [c])"

definition quoted :: "string \<Rightarrow> string" where
  "quoted s = [char_of (34::nat)] @ concat (map quote_char s) @ [char_of (34::nat)]"

text \<open>\<open>strings.Join\<close>.\<close>

fun join_with :: "string \<Rightarrow> string list \<Rightarrow> string" where
  "join_with sep [] = []"
| "join_with sep [x] = x"
| "join_with sep (x # y # ys) = x @ sep @ join_with sep (y # ys)"

lemma join_with_eq_Nil_iff [simp]:
  "sep \<noteq> [] \<Longrightarrow> join_with sep xs = [] \<longleftrightarrow> xs = [] \<or> xs = [[]]"
  by (induction sep xs rule: join_with.induct) auto

text \<open>\<open>strings.HasPrefix\<close>.\<close>

definition has_prefix :: "string \<Rightarrow> string \<Rightarrow> bool" where
  "has_prefix s p \<longleftrightarrow> take (length p) s = p"

lemma has_prefixD: "has_prefix s p \<Longrightarrow> s = p @ drop (length p) s"
  unfolding has_prefix_def by (metis append_take_drop_id)

text \<open>\<open>strconv.ParseInt(s, 10, 64)\<close>: an optional sign, at least one decimal digit and nothing else,
  and a value that fits; \<^const>\<open>None\<close> is the error.\<close>

definition is_digit :: "char \<Rightarrow> bool" where
  "is_digit c \<longleftrightarrow> 48 \<le> byte c \<and> byte c \<le> 57"

fun digits_val :: "nat \<Rightarrow> string \<Rightarrow> nat option" where
  "digits_val acc [] = Some acc"
| "digits_val acc (c # cs) =
     (if is_digit c then digits_val (acc * 10 + (byte c - 48)) cs else None)"

definition parse_digits :: "string \<Rightarrow> nat option" where
  "parse_digits s = (if s = [] then None else digits_val 0 s)"

definition parse_int64 :: "string \<Rightarrow> int option" where
  "parse_int64 s =
     (let body = (case s of c # cs \<Rightarrow> if c = CHR ''-'' \<or> c = CHR ''+'' then cs else s | [] \<Rightarrow> s);
          neg = (case s of c # _ \<Rightarrow> c = CHR ''-'' | [] \<Rightarrow> False)
      in case parse_digits body of None \<Rightarrow> None
         | Some n \<Rightarrow> (let v = (if neg then - int n else int n) in if is_int64 v then Some v else None))"

lemma byte_digit_char: "d < 10 \<Longrightarrow> byte (digit_char d) = 48 + d"
  by (simp add: byte_def digit_char_def)

lemma digits_val_append:
  "digits_val acc (s @ t) = (case digits_val acc s of None \<Rightarrow> None | Some n \<Rightarrow> digits_val n t)"
  by (induction acc s rule: digits_val.induct) simp_all

lemma digits_val_nat_str: "digits_val 0 (nat_str n) = Some n"
proof (induction n rule: nat_str.induct)
  case (1 n)
  show ?case
  proof (cases "n < 10")
    case True
    then show ?thesis by (subst nat_str.simps) (simp add: is_digit_def byte_digit_char)
  next
    case False
    with "1.IH" have "digits_val 0 (nat_str (n div 10)) = Some (n div 10)" by simp
    with False show ?thesis
      by (subst nat_str.simps) (simp add: digits_val_append is_digit_def byte_digit_char)
  qed
qed

lemma nat_str_hd_digit: "\<exists>c cs. nat_str n = c # cs \<and> is_digit c"
proof (induction n rule: nat_str.induct)
  case (1 n)
  show ?case
  proof (cases "n < 10")
    case True
    then show ?thesis by (subst nat_str.simps) (simp add: is_digit_def byte_digit_char)
  next
    case False
    then show ?thesis using 1 by (subst nat_str.simps) auto
  qed
qed

text \<open>Printing a 64-bit integer and parsing the text gives it back.\<close>

lemma parse_int64_int_str:
  assumes "is_int64 i"
  shows "parse_int64 (int_str i) = Some i"
proof (cases "i < 0")
  case True
  then show ?thesis
    using assms by (simp add: parse_int64_def int_str_def parse_digits_def digits_val_nat_str)
next
  case False
  obtain c cs where c: "nat_str (nat i) = c # cs" "is_digit c"
    using nat_str_hd_digit by blast
  then have "c \<noteq> CHR ''-''" "c \<noteq> CHR ''+''"
    by (auto simp: is_digit_def byte_def)
  then show ?thesis
    using False assms c digits_val_nat_str [of "nat i"]
    by (simp add: parse_int64_def int_str_def parse_digits_def)
qed

text \<open>The UTF-8 bytes of the em dash some messages hold.\<close>

definition em_dash :: string where
  "em_dash = [CHR 0xE2, CHR 0x80, CHR 0x94]"

section \<open>UTF-8 runes\<close>

text \<open>
  \<open>utf8.RuneCountInString\<close> and the conversion \<open>[]rune(s)\<close>: \<^term>\<open>rune_len s\<close> is the width of the
  well-formed encoding at the front of \<open>s\<close>, 0 when there is none, in which case Go takes one byte
  and yields U+FFFD.
\<close>

definition cont_byte :: "char \<Rightarrow> bool" where
  "cont_byte c \<longleftrightarrow> 128 \<le> byte c \<and> byte c \<le> 191"

definition tail3 :: "char \<Rightarrow> char \<Rightarrow> char \<Rightarrow> bool" where
  "tail3 a b c \<longleftrightarrow> cont_byte b \<and> (byte a = 224 \<longrightarrow> 160 \<le> byte b) \<and> (byte a = 237 \<longrightarrow> byte b \<le> 159)
     \<and> cont_byte c"

definition tail4 :: "char \<Rightarrow> char \<Rightarrow> char \<Rightarrow> char \<Rightarrow> bool" where
  "tail4 a b c d \<longleftrightarrow> cont_byte b \<and> (byte a = 240 \<longrightarrow> 144 \<le> byte b) \<and> (byte a = 244 \<longrightarrow> byte b \<le> 143)
     \<and> cont_byte c \<and> cont_byte d"

definition rune_len :: "string \<Rightarrow> nat" where
  "rune_len s = (case s of [] \<Rightarrow> 0 | a # t \<Rightarrow>
     if byte a < 128 then 1
     else if 194 \<le> byte a \<and> byte a \<le> 223 then
       (case t of b # _ \<Rightarrow> if cont_byte b then 2 else 0 | _ \<Rightarrow> 0)
     else if 224 \<le> byte a \<and> byte a \<le> 239 then
       (case t of b # c # _ \<Rightarrow> if tail3 a b c then 3 else 0 | _ \<Rightarrow> 0)
     else if 240 \<le> byte a \<and> byte a \<le> 244 then
       (case t of b # c # d # _ \<Rightarrow> if tail4 a b c d then 4 else 0 | _ \<Rightarrow> 0)
     else 0)"

definition rune_error :: string where
  "rune_error = [CHR 0xEF, CHR 0xBF, CHR 0xBD]"

function runes :: "string \<Rightarrow> string list" where
  "runes [] = []"
| "runes (a # t) =
     (if rune_len (a # t) = 0 then rune_error # runes t
      else take (rune_len (a # t)) (a # t) # runes (drop (rune_len (a # t) - 1) t))"
  by pat_completeness auto
termination
  by (relation "measure length") auto

declare runes.simps(2) [simp del]

lemma rune_len_le: "rune_len s \<le> length s"
  by (auto simp: rune_len_def split: list.splits)

text \<open>An encoded rune is recognised whatever follows it.\<close>

lemma rune_len_take_append:
  assumes "0 < rune_len s"
  shows "rune_len (take (rune_len s) s @ r) = rune_len s"
proof (cases s)
  case Nil
  with assms show ?thesis by (simp add: rune_len_def)
next
  case s: (Cons a t)
  consider "byte a < 128" | "194 \<le> byte a" "byte a \<le> 223" | "224 \<le> byte a" "byte a \<le> 239"
    | "240 \<le> byte a" "byte a \<le> 244"
    using assms unfolding s rune_len_def list.case by (force split: if_split_asm)
  then show ?thesis
  proof cases
    case 1
    then show ?thesis by (simp add: s rune_len_def)
  next
    case 2
    with assms obtain b u where "t = b # u" "cont_byte b"
      by (cases t) (simp_all add: s rune_len_def split: if_split_asm)
    with 2 show ?thesis by (simp add: s rune_len_def)
  next
    case 3
    with assms obtain b c u where "t = b # c # u" "tail3 a b c"
      by (cases t; cases "tl t") (simp_all add: s rune_len_def split: if_split_asm)
    with 3 show ?thesis by (simp add: s rune_len_def)
  next
    case 4
    with assms obtain b c d u where "t = b # c # d # u" "tail4 a b c d"
      by (cases t; cases "tl t"; cases "tl (tl t)") (simp_all add: s rune_len_def split: if_split_asm)
    with 4 show ?thesis by (simp add: s rune_len_def)
  qed
qed

definition is_rune :: "string \<Rightarrow> bool" where
  "is_rune c \<longleftrightarrow> 0 < length c \<and> rune_len c = length c"

lemma is_rune_append: "is_rune c \<Longrightarrow> rune_len (c @ r) = length c"
  using rune_len_take_append [of c r] by (simp add: is_rune_def)

lemma is_rune_error: "is_rune rune_error"
  by (simp add: is_rune_def rune_error_def rune_len_def tail3_def cont_byte_def byte_def)

lemma is_rune_take: "0 < rune_len s \<Longrightarrow> is_rune (take (rune_len s) s)"
  using rune_len_take_append [of s "[]"] rune_len_le [of s] by (simp add: is_rune_def)

lemma runes_are_runes: "c \<in> set (runes s) \<Longrightarrow> is_rune c"
proof (induction s rule: runes.induct)
  case 1
  then show ?case by simp
next
  case (2 a t)
  then show ?case
    by (auto simp: runes.simps(2) is_rune_error is_rune_take split: if_splits)
qed

lemma runes_rune_append: "is_rune c \<Longrightarrow> runes (c @ r) = c # runes r"
proof -
  assume c: "is_rune c"
  then obtain a t where c_eq: "c = a # t" by (cases c) (auto simp: is_rune_def)
  have "rune_len (a # t @ r) = Suc (length t)"
    using is_rune_append [OF c, of r] c_eq by simp
  then show ?thesis by (simp add: c_eq runes.simps(2))
qed

lemma runes_concat: "(\<And>c. c \<in> set cs \<Longrightarrow> is_rune c) \<Longrightarrow> runes (concat cs) = cs"
  by (induction cs) (simp_all add: runes_rune_append)

section \<open>Lists\<close>

lemma sort_key_eq_Nil_iff [simp]: "sort_key f xs = [] \<longleftrightarrow> xs = []"
  by (metis length_0_conv length_sort)

lemma map_update_named:
  "distinct (map f xs) \<Longrightarrow> x \<in> set xs \<Longrightarrow>
   (if f x = k then g x else x) \<in> set (map (\<lambda>y. if f y = k then g y else y) xs)"
  by auto

lemma distinct_map_unique:
  "distinct (map f xs) \<Longrightarrow> x \<in> set xs \<Longrightarrow> y \<in> set xs \<Longrightarrow> f x = f y \<Longrightarrow> x = y"
  by (auto simp: distinct_map dest: inj_onD)

section \<open>Node conditions\<close>

text \<open>The loop of \<open>nodeIsReady\<close>: the first condition of type Ready decides.\<close>

fun ready_condition :: "(string \<times> string) list \<Rightarrow> bool" where
  "ready_condition [] = False"
| "ready_condition ((t, s) # cs) = (if t = ''Ready'' then s = ''True'' else ready_condition cs)"

end
