(* ===== verification/Node_Tuning.thy ===== *)
theory Node_Tuning
  imports Frame_Prelude
begin

text \<open>
  The NodeTuning data and the side-effect-free half of its controller
  (\<open>api/frame/v1beta1/nodetuning_types.go\<close>, \<open>internal/controller/frame/nodetuning_controller.go\<close>,
  \<open>internal/agent/status.go\<close>, and \<open>IsRestartable\<close> of \<open>internal/agent/apply.go\<close>): selection,
  overlap, drift, approval, realization, and the two writers of \<open>status.nodes\<close>.

  A node annotation is modelled by what \<open>time.Parse(time.RFC3339Nano, _)\<close> makes of it: \<open>Stamp t\<close>
  is a text that parses to the instant \<open>t\<close>, \<open>Text s\<close> any other text. Label selectors belong to
  apimachinery: the type \<open>'s\<close> and the function \<open>as_selector\<close> (\<open>metav1.LabelSelectorAsSelector\<close>
  followed by \<open>Matches\<close>) are parameters.
\<close>

section \<open>Data\<close>

datatype anno = Stamp instant | Text string

record node =
  n_name :: string
  n_labels :: labels
  n_annotations :: "string \<rightharpoonup> anno"
  n_unschedulable :: bool
  n_conditions :: "(string \<times> string) list"

record pod =
  pod_name :: string
  pod_namespace :: string
  pod_phase :: string
  pod_annotations :: labels
  pod_ownerKinds :: "string list"
  pod_deletionTimestamp :: "instant option"
  pod_startTime :: "instant option"

datatype nt_phase = PhaseInSync | PhaseDrifted | PhaseRebootPending | PhaseApplying | PhaseFailed
  | PhaseNone

datatype realization = RealizationEffective | RealizationFullyRealized | RealizationPending
  | RealizationNone

record ksm_spec =
  ksm_enabled :: bool
  ksm_pagesToScan :: "int option"
  ksm_sleepMillisecs :: "int option"
  ksm_mergeAcrossNodes :: "bool option"

record 's nt_spec =
  sp_nodeSelector :: "'s option"
  sp_tunedProfile :: string
  sp_ksm :: "ksm_spec option"
  sp_migProfile :: string

record observed_ksm =
  ok_memoryKSM :: bool
  ok_generalProfit :: int
  ok_pagesSharing :: int

record observed_tuning =
  ob_ksm :: "observed_ksm option"
  ob_tunedProfile :: string

record node_status =
  ns_name :: string
  ns_phase :: nt_phase
  ns_appliedGeneration :: int
  ns_realization :: realization
  ns_observed :: observed_tuning
  ns_restartedAt :: "instant option"
  ns_restartedGeneration :: int
  ns_message :: string

text \<open>\<open>nt_finalizer\<close> is whether \<open>metadata.finalizers\<close> holds \<open>nodeTuningFinalizer\<close>,
  \<open>nt_deleting\<close> whether \<open>metadata.deletionTimestamp\<close> is set.\<close>

record 's node_tuning =
  nt_name :: string
  nt_generation :: int
  nt_finalizer :: bool
  nt_deleting :: bool
  nt_spec :: "'s nt_spec"
  nt_observedGeneration :: int
  nt_nodes :: "node_status list"

definition ApprovalAnnotation :: string where
  "ApprovalAnnotation = ''frame.plume-labs.io/tuning-approved''"

definition TuningRolloutStartedAnnotation :: string where
  "TuningRolloutStartedAnnotation = ''frame.plume-labs.io/tuning-rollout-started''"

definition TuningRolloutOwnerAnnotation :: string where
  "TuningRolloutOwnerAnnotation = ''frame.plume-labs.io/tuning-rollout-owner''"

definition TuningRolloutFailedAnnotation :: string where
  "TuningRolloutFailedAnnotation = ''frame.plume-labs.io/tuning-rollout-failed''"

definition TuningRestartBaselineAnnotation :: string where
  "TuningRestartBaselineAnnotation = ''frame.plume-labs.io/tuning-restart-baseline''"

definition TuningRestartRequestedAnnotation :: string where
  "TuningRestartRequestedAnnotation = ''frame.plume-labs.io/tuning-restart-requested''"

definition TuningUnitAnnotation :: string where
  "TuningUnitAnnotation = ''frame.plume-labs.io/tuning-unit''"

definition TuningUnitActiveEnterAnnotation :: string where
  "TuningUnitActiveEnterAnnotation = ''frame.plume-labs.io/tuning-unit-active-enter''"

lemmas annotation_keys =
  ApprovalAnnotation_def TuningRolloutStartedAnnotation_def TuningRolloutOwnerAnnotation_def
  TuningRolloutFailedAnnotation_def TuningRestartBaselineAnnotation_def
  TuningRestartRequestedAnnotation_def TuningUnitAnnotation_def TuningUnitActiveEnterAnnotation_def

lemma annotation_keys_distinct [simp]:
  "distinct [ApprovalAnnotation, TuningRolloutStartedAnnotation, TuningRolloutOwnerAnnotation,
     TuningRolloutFailedAnnotation, TuningRestartBaselineAnnotation,
     TuningRestartRequestedAnnotation, TuningUnitAnnotation, TuningUnitActiveEnterAnnotation]"
  by (simp add: annotation_keys)

section \<open>Selection and overlap\<close>

definition selectNodes ::
  "('s \<Rightarrow> string + (labels \<Rightarrow> bool)) \<Rightarrow> node list \<Rightarrow> 's option \<Rightarrow> string + node list" where
  "selectNodes as_selector nodes sel =
     (case sel of None \<Rightarrow> Inr []
      | Some s \<Rightarrow>
          (case as_selector s of Inl e \<Rightarrow> Inl (''invalid nodeSelector: '' @ e)
           | Inr m \<Rightarrow> Inr (filter (\<lambda>n. m (n_labels n)) nodes)))"

definition overlappingNodeTunings ::
  "('s \<Rightarrow> string + (labels \<Rightarrow> bool)) \<Rightarrow> 's node_tuning list \<Rightarrow> string \<Rightarrow> node \<Rightarrow> string list" where
  "overlappingNodeTunings as_selector all selfName n =
     sort (map nt_name (filter
       (\<lambda>other. nt_name other \<noteq> selfName \<and>
          (case sp_nodeSelector (nt_spec other) of None \<Rightarrow> False
           | Some s \<Rightarrow> (case as_selector s of Inl _ \<Rightarrow> False | Inr m \<Rightarrow> m (n_labels n)))) all))"

section \<open>Drift, approval, restart bookkeeping\<close>

definition diffTuning :: "'s nt_spec \<Rightarrow> observed_tuning \<Rightarrow> string \<times> bool" where
  "diffTuning spec observed =
     (let m1 = (if sp_tunedProfile spec \<noteq> '''' \<and> sp_tunedProfile spec \<noteq> ob_tunedProfile observed
                then [''tunedProfile: want '' @ quoted (sp_tunedProfile spec) @ '', observed ''
                        @ quoted (ob_tunedProfile observed)]
                else []);
          gotEnabled = (case ob_ksm observed of None \<Rightarrow> False | Some k \<Rightarrow> ok_memoryKSM k);
          (m2, needsRestart) =
            (case sp_ksm spec of None \<Rightarrow> ([], False)
             | Some k \<Rightarrow>
                 (if ksm_enabled k \<noteq> gotEnabled
                  then ([''ksm.enabled: want '' @ bool_str (ksm_enabled k) @ '', observed ''
                           @ bool_str gotEnabled], True)
                  else ([], False)))
      in (join_with ''; '' (m1 @ m2), needsRestart))"

definition approvedForGeneration :: "node \<Rightarrow> int \<Rightarrow> bool" where
  "approvedForGeneration n generation =
     (case n_annotations n ApprovalAnnotation of None \<Rightarrow> False
      | Some (Stamp _) \<Rightarrow> False
      | Some (Text raw) \<Rightarrow>
          (case parse_int64 raw of None \<Rightarrow> False
           | Some approved \<Rightarrow> if approved < 0 then False else approved = generation))"

definition restartedForGeneration :: "node_status \<Rightarrow> int \<Rightarrow> bool" where
  "restartedForGeneration ns generation \<longleftrightarrow>
     ns_restartedAt ns \<noteq> None \<and> ns_restartedGeneration ns = generation"

definition zero_node_status :: "string \<Rightarrow> node_status" where
  "zero_node_status nodeName =
     \<lparr>ns_name = nodeName, ns_phase = PhaseNone, ns_appliedGeneration = 0,
      ns_realization = RealizationNone, ns_observed = \<lparr>ob_ksm = None, ob_tunedProfile = ''''\<rparr>,
      ns_restartedAt = None, ns_restartedGeneration = 0, ns_message = ''''\<rparr>"

definition existingNodeStatus :: "node_status list \<Rightarrow> string \<Rightarrow> node_status" where
  "existingNodeStatus nodes nodeName =
     (case find (\<lambda>n. ns_name n = nodeName) nodes of Some n \<Rightarrow> n
      | None \<Rightarrow> zero_node_status nodeName)"

definition restartableUnits :: "string list" where
  "restartableUnits = [''k3s'', ''k3s-agent'', ''kubelet'', ''containerd'']"

definition IsRestartable :: "string \<Rightarrow> bool" where
  "IsRestartable unit \<longleftrightarrow> unit \<in> set restartableUnits"

section \<open>Realization\<close>

definition pod_finished :: "pod \<Rightarrow> bool" where
  "pod_finished p \<longleftrightarrow> pod_phase p = ''Succeeded'' \<or> pod_phase p = ''Failed''"

fun all_started_after :: "instant \<Rightarrow> pod list \<Rightarrow> bool" where
  "all_started_after r [] = True"
| "all_started_after r (p # ps) =
     (if pod_finished p then all_started_after r ps
      else (case pod_startTime p of None \<Rightarrow> False
            | Some t \<Rightarrow> if t > r then all_started_after r ps else False))"

text \<open>The argument \<open>pods\<close> is the answer of \<open>r.reader().List\<close> for the pods on the node.\<close>

definition realizeNode :: "string + pod list \<Rightarrow> node_status \<Rightarrow> node_status" where
  "realizeNode pods ns =
     (case ns_restartedAt ns of None \<Rightarrow> ns\<lparr>ns_realization := RealizationPending\<rparr>
      | Some r \<Rightarrow>
          (case pods of Inl _ \<Rightarrow> ns\<lparr>ns_realization := RealizationEffective\<rparr>
           | Inr ps \<Rightarrow>
               if all_started_after r ps then ns\<lparr>ns_realization := RealizationFullyRealized\<rparr>
               else ns\<lparr>ns_realization := RealizationEffective\<rparr>))"

section \<open>The two writers of status.nodes\<close>

definition preserveObserved :: "node_status list \<Rightarrow> node_status list \<Rightarrow> node_status list" where
  "preserveObserved computed current =
     (let observed = map_of (rev (map (\<lambda>ns. (ns_name ns, ns_observed ns)) current))
      in map (\<lambda>ns. case observed (ns_name ns) of Some o' \<Rightarrow> ns\<lparr>ns_observed := o'\<rparr> | None \<Rightarrow> ns)
           computed)"

text \<open>The list update of the node agent's \<open>PatchObserved\<close>: the first entry of that name, or a
  new one at the end.\<close>

fun patch_observed_nodes :: "string \<Rightarrow> observed_tuning \<Rightarrow> node_status list \<Rightarrow> node_status list" where
  "patch_observed_nodes nodeName o' [] = [(zero_node_status nodeName)\<lparr>ns_observed := o'\<rparr>]"
| "patch_observed_nodes nodeName o' (ns # rest) =
     (if ns_name ns = nodeName then ns\<lparr>ns_observed := o'\<rparr> # rest
      else ns # patch_observed_nodes nodeName o' rest)"

definition PatchObserved ::
  "string \<Rightarrow> observed_tuning \<Rightarrow> 's node_tuning \<Rightarrow> 's node_tuning" where
  "PatchObserved nodeName o' nt = nt\<lparr>nt_nodes := patch_observed_nodes nodeName o' (nt_nodes nt)\<rparr>"

section \<open>Lemmas\<close>

lemma quoted_not_Nil [simp]: "quoted s \<noteq> []"
  by (simp add: quoted_def)

lemma all_started_after_iff:
  "all_started_after r ps \<longleftrightarrow>
     (\<forall>p \<in> set ps. pod_finished p \<or> (\<exists>t. pod_startTime p = Some t \<and> t > r))"
  by (induction ps) (auto split: option.splits)

lemma observed_lookup:
  assumes "distinct (map ns_name cur)" "e \<in> set cur"
  shows "map_of (rev (map (\<lambda>ns. (ns_name ns, ns_observed ns)) cur)) (ns_name e) = Some (ns_observed e)"
proof -
  have "distinct (map fst (rev (map (\<lambda>ns. (ns_name ns, ns_observed ns)) cur)))"
    using assms(1) by (simp add: comp_def flip: rev_map)
  then show ?thesis using assms(2) by (auto intro!: map_of_is_SomeI)
qed

lemma preserveObserved_names [simp]:
  "map ns_name (preserveObserved computed current) = map ns_name computed"
  by (auto simp: preserveObserved_def Let_def split: option.splits)

lemma preserveObserved_observed:
  assumes "distinct (map ns_name current)" "e \<in> set current"
    and "e' \<in> set (preserveObserved computed current)" "ns_name e' = ns_name e"
  shows "ns_observed e' = ns_observed e"
proof -
  let ?m = "map_of (rev (map (\<lambda>ns. (ns_name ns, ns_observed ns)) current))"
  obtain c where c: "c \<in> set computed"
    "e' = (case ?m (ns_name c) of Some o' \<Rightarrow> c\<lparr>ns_observed := o'\<rparr> | None \<Rightarrow> c)"
    using assms(3) by (auto simp: preserveObserved_def Let_def)
  then have "ns_name c = ns_name e"
    using assms(4) by (auto split: option.splits)
  then show ?thesis
    using c(2) observed_lookup [OF assms(1,2)] by simp
qed

lemma patch_observed_nodes_names:
  "set (map ns_name (patch_observed_nodes n o' cur)) = insert n (set (map ns_name cur))"
  by (induction n o' cur rule: patch_observed_nodes.induct) (auto simp: zero_node_status_def)

lemma patch_observed_nodes_distinct:
  "distinct (map ns_name cur) \<Longrightarrow> distinct (map ns_name (patch_observed_nodes n o' cur))"
proof (induction n o' cur rule: patch_observed_nodes.induct)
  case (2 n o' ns rest)
  then show ?case
    using patch_observed_nodes_names [of n o' rest] by (auto simp: image_iff)
qed simp

lemma patch_observed_nodes_entry:
  "distinct (map ns_name cur) \<Longrightarrow> e \<in> set (patch_observed_nodes n o' cur) \<Longrightarrow> ns_name e = n \<Longrightarrow>
   ns_observed e = o'"
  by (induction n o' cur rule: patch_observed_nodes.induct)
    (auto simp: zero_node_status_def split: if_splits)

lemma patch_observed_nodes_other:
  "e \<in> set (patch_observed_nodes n o' cur) \<Longrightarrow> ns_name e \<noteq> n \<Longrightarrow> e \<in> set cur"
  by (induction n o' cur rule: patch_observed_nodes.induct)
    (auto simp: zero_node_status_def split: if_splits)

subsection \<open>The contract between the two writers\<close>

text \<open>
  Two programs write one list of keyed entries. \<open>theirs\<close> is the part of an entry the agent owns.
  The controller replaces the list by the one it computed and takes \<open>theirs\<close> from the list it
  read; the agent writes \<open>theirs\<close> of one entry.
\<close>

locale shared_status =
  fixes key :: "'e \<Rightarrow> string" and theirs :: "'e \<Rightarrow> 'f"
    and controller_write :: "'e list \<Rightarrow> 'e list \<Rightarrow> 'e list"
    and agent_write :: "string \<Rightarrow> 'f \<Rightarrow> 'e list \<Rightarrow> 'e list"
  assumes controller_keys: "map key (controller_write computed current) = map key computed"
    and controller_keeps: "distinct (map key current) \<Longrightarrow> e \<in> set current \<Longrightarrow>
      e' \<in> set (controller_write computed current) \<Longrightarrow> key e' = key e \<Longrightarrow> theirs e' = theirs e"
    and agent_keys: "set (map key (agent_write n v current)) = insert n (set (map key current))"
    and agent_distinct: "distinct (map key current) \<Longrightarrow> distinct (map key (agent_write n v current))"
    and agent_sets: "distinct (map key current) \<Longrightarrow> e \<in> set (agent_write n v current) \<Longrightarrow>
      key e = n \<Longrightarrow> theirs e = v"
begin

lemma controller_writes_keep:
  assumes "distinct (map key cur)" "n \<in> set (map key cur)"
    and "\<And>e. e \<in> set cur \<Longrightarrow> key e = n \<Longrightarrow> theirs e = v"
    and "\<And>c. c \<in> set computeds \<Longrightarrow> distinct (map key c) \<and> n \<in> set (map key c)"
    and "e \<in> set (fold controller_write computeds cur)" "key e = n"
  shows "theirs e = v"
  using assms
proof (induction computeds arbitrary: cur)
  case Nil
  then show ?case by simp
next
  case (Cons c cs)
  have d: "distinct (map key (controller_write c cur))" "n \<in> set (map key (controller_write c cur))"
    using Cons.prems(4) [of c] by (simp_all only: controller_keys list.set_intros)
  obtain e0 where e0: "e0 \<in> set cur" "key e0 = n"
    using Cons.prems(2) by auto
  have "theirs e' = v" if "e' \<in> set (controller_write c cur)" "key e' = n" for e'
    using controller_keeps [OF Cons.prems(1) e0(1) that(1)] that(2) e0 Cons.prems(3) by simp
  then show ?case
    using Cons.IH [OF d] Cons.prems(4-6) by simp
qed

lemma agent_value_survives:
  assumes "distinct (map key cur)"
    and "\<And>c. c \<in> set computeds \<Longrightarrow> distinct (map key c) \<and> n \<in> set (map key c)"
    and "e \<in> set (fold controller_write computeds (agent_write n v cur))" "key e = n"
  shows "theirs e = v"
proof (rule controller_writes_keep [OF _ _ _ assms(2-4)])
  show "distinct (map key (agent_write n v cur))"
    using assms(1) by (rule agent_distinct)
  show "n \<in> set (map key (agent_write n v cur))"
    by (simp only: agent_keys insertI1)
  show "theirs e = v" if "e \<in> set (agent_write n v cur)" "key e = n" for e
    using agent_sets [OF assms(1) that] .
qed

end

interpretation tuning_status:
  shared_status ns_name ns_observed preserveObserved patch_observed_nodes
  by unfold_locales
    (rule preserveObserved_names, erule preserveObserved_observed, assumption+,
      rule patch_observed_nodes_names, erule patch_observed_nodes_distinct,
      erule patch_observed_nodes_entry, assumption+)

end
