(* ===== verification/Go_Text.thy ===== *)
theory Go_Text
  imports Frame_Prelude
begin

text \<open>
  More of Go's standard library on strings: \<open>strings.TrimSpace\<close>, \<open>strings.HasSuffix\<close>,
  \<open>strings.Contains\<close>, integer division, which truncates toward zero, the text of a duration of whole
  seconds, and the whole seconds a \<open>metav1.Time\<close> keeps in JSON.
\<close>

definition quot :: "int \<Rightarrow> int \<Rightarrow> int" where
  "quot a b = (if (a < 0) = (b < 0) then \<bar>a\<bar> div \<bar>b\<bar> else - (\<bar>a\<bar> div \<bar>b\<bar>))"

lemma wrap32_range: "is_int32 (wrap32 x)"
  by (simp add: wrap32_def is_int32_def)

definition has_suffix :: "string \<Rightarrow> string \<Rightarrow> bool" where
  "has_suffix s t = has_prefix (rev s) (rev t)"

fun contains :: "string \<Rightarrow> string \<Rightarrow> bool" where
  "contains [] t = (t = [])"
| "contains (c # s) t = (has_prefix (c # s) t \<or> contains s t)"

section \<open>Times\<close>

definition trunc_second :: "instant \<Rightarrow> instant" where
  "trunc_second t = t - t mod second"

lemma trunc_second_le: "trunc_second t \<le> t" "t - trunc_second t < second"
  by (simp_all add: trunc_second_def second_def)

lemma trunc_second_idem [simp]: "trunc_second (trunc_second t) = trunc_second t"
  by (simp add: trunc_second_def mod_diff_eq [symmetric] second_def)

definition dur_secs_str :: "duration \<Rightarrow> string" where
  "dur_secs_str d =
     (let n = nat (\<bar>d\<bar> div second); sign = (if d < 0 then ''-'' else '''') in
      if n < 60 then sign @ nat_str n @ ''s''
      else if n < 3600 then sign @ nat_str (n div 60) @ ''m'' @ nat_str (n mod 60) @ ''s''
      else sign @ nat_str (n div 3600) @ ''h'' @ nat_str (n div 60 mod 60) @ ''m'' @ nat_str (n mod 60) @ ''s'')"

section \<open>White space\<close>

text \<open>The UTF-8 encodings of the runes of \<open>unicode.IsSpace\<close>.\<close>

definition space_codes :: "string list" where
  "space_codes =
     [[CHR 0x20], [CHR 0x09], [CHR 0x0A], [CHR 0x0B], [CHR 0x0C], [CHR 0x0D],
      [CHR 0xC2, CHR 0x85], [CHR 0xC2, CHR 0xA0], [CHR 0xE1, CHR 0x9A, CHR 0x80],
      [CHR 0xE2, CHR 0x80, CHR 0x80], [CHR 0xE2, CHR 0x80, CHR 0x81], [CHR 0xE2, CHR 0x80, CHR 0x82], [CHR 0xE2, CHR 0x80, CHR 0x83], [CHR 0xE2, CHR 0x80, CHR 0x84], [CHR 0xE2, CHR 0x80, CHR 0x85],
      [CHR 0xE2, CHR 0x80, CHR 0x86], [CHR 0xE2, CHR 0x80, CHR 0x87], [CHR 0xE2, CHR 0x80, CHR 0x88], [CHR 0xE2, CHR 0x80, CHR 0x89], [CHR 0xE2, CHR 0x80, CHR 0x8A],
      [CHR 0xE2, CHR 0x80, CHR 0xA8], [CHR 0xE2, CHR 0x80, CHR 0xA9], [CHR 0xE2, CHR 0x80, CHR 0xAF],
      [CHR 0xE2, CHR 0x81, CHR 0x9F], [CHR 0xE3, CHR 0x80, CHR 0x80]]"

lemma strip_shrinks:
  assumes "find (\<lambda>c. c \<noteq> [] \<and> has_prefix s c) codes = Some c"
  shows "length (drop (length c) s) < length s"
proof -
  have "c \<noteq> []" "has_prefix s c" using assms by (auto simp: find_Some_iff)
  then have "s \<noteq> []" by (auto simp: has_prefix_def)
  with \<open>c \<noteq> []\<close> show ?thesis by simp
qed

text \<open>Drop any of the given codes from the front, as long as there is one.\<close>

function strip_codes :: "string list \<Rightarrow> string \<Rightarrow> string" where
  "strip_codes codes s =
     (case find (\<lambda>c. c \<noteq> [] \<and> has_prefix s c) codes of
        None \<Rightarrow> s
      | Some c \<Rightarrow> strip_codes codes (drop (length c) s))"
  by pat_completeness auto
termination
  by (relation "measure (length \<circ> snd)") (auto dest: strip_shrinks)

declare strip_codes.simps [simp del]

definition trim_space :: "string \<Rightarrow> string" where
  "trim_space s = rev (strip_codes (map rev space_codes) (rev (strip_codes space_codes s)))"

lemma strip_codes_id:
  "(\<And>c. c \<in> set codes \<Longrightarrow> c = [] \<or> \<not> has_prefix s c) \<Longrightarrow> strip_codes codes s = s"
  by (subst strip_codes.simps) (auto simp: find_Some_iff in_set_conv_nth split: option.split)

lemma strip_codes_suffix: "\<exists>t. s = t @ strip_codes codes s"
proof (induction codes s rule: strip_codes.induct)
  case (1 codes s)
  show ?case
  proof (cases "find (\<lambda>c. c \<noteq> [] \<and> has_prefix s c) codes")
    case None
    then show ?thesis by (simp add: strip_codes.simps [of codes s])
  next
    case (Some c)
    with 1 [OF this] obtain t where "drop (length c) s = t @ strip_codes codes (drop (length c) s)" by auto
    then have "s = (take (length c) s @ t) @ strip_codes codes (drop (length c) s)"
      by (metis append.assoc append_take_drop_id)
    then show ?thesis using Some by (intro exI [of _ "take (length c) s @ t"]) (simp add: strip_codes.simps [of codes s])
  qed
qed

lemma trim_space_infix: "\<exists>a b. s = a @ trim_space s @ b"
proof -
  obtain a where a: "s = a @ strip_codes space_codes s" using strip_codes_suffix by blast
  obtain b where "rev (strip_codes space_codes s) = b @ strip_codes (map rev space_codes) (rev (strip_codes space_codes s))"
    using strip_codes_suffix by blast
  then have "strip_codes space_codes s = trim_space s @ rev b"
    unfolding trim_space_def by (metis rev_append rev_rev_ident)
  with a show ?thesis by metis
qed

end
