(* ===== verification/Node_Rollout.thy ===== *)
theory Node_Rollout
  imports Node_Tuning Go_Text
begin

text \<open>
  The disruptive half of the NodeTuning controller
  (\<open>internal/controller/frame/nodetuning_rollout.go\<close>) and the reconcile pass that drives it
  (\<open>Reconcile\<close>, \<open>patchStatus\<close>, \<open>finishDeletion\<close> of \<open>nodetuning_controller.go\<close>).

  The API server's objects are the \<open>cluster\<close> record; a pass works on a \<open>rollout_state\<close>, which adds
  the pass's own copy of the NodeTuning and the campaign lock. What the pass does not decide is an
  \<open>rollout_env\<close>: the clock, whether each API call fails (and with which text), the pods listed on a
  node, the timeouts, the selector semantics and the zone-dependent time formats. A merge patch
  that succeeds applies its change to the server's object, one that fails changes nothing there. A
  node is patched at most once per pass, so one answer per node and kind of call is enough.
\<close>

section \<open>State and environment\<close>

record 's cluster =
  c_nodes :: "node list"
  c_tunings :: "'s node_tuning list"
  c_events :: "(string \<times> string \<times> string) list"
  c_evictions :: "(string \<times> string) list"

record campaignLock =
  holder :: string

record 's rollout_state = "'s cluster" +
  r_nt :: "'s node_tuning"
  r_lock :: campaignLock

record 's rollout_env =
  e_as_selector :: "'s \<Rightarrow> string + (labels \<Rightarrow> bool)"
  e_now :: "string \<Rightarrow> instant"
  e_get_err :: "string option"
  e_list_nodes_err :: "string option"
  e_list_nts_err :: "string option"
  e_patch_err :: "string \<Rightarrow> string option"
  e_update_err :: "string \<Rightarrow> string option"
  e_status_err :: "string option"
  e_remove_err :: "string option"
  e_evict_pods :: "string \<Rightarrow> string + pod list"
  e_realize_pods :: "string \<Rightarrow> string + pod list"
  e_DrainTimeout :: duration
  e_RestartTimeout :: duration
  e_fmt_time :: "instant \<Rightarrow> string"
  e_fmt_dur :: "duration \<Rightarrow> string"

datatype outcome = Done | RequeueAfter duration | Failure string

section \<open>Timeouts, lock, predicates\<close>

definition defaultDrainTimeout :: duration where
  "defaultDrainTimeout = 10 * minute"

definition defaultRestartTimeout :: duration where
  "defaultRestartTimeout = 5 * minute"

definition rolloutRequeueInterval :: duration where
  "rolloutRequeueInterval = 10 * second"

definition drainTimeout :: "'s rollout_env \<Rightarrow> duration" where
  "drainTimeout env = (if e_DrainTimeout env > 0 then e_DrainTimeout env else defaultDrainTimeout)"

definition restartTimeout :: "'s rollout_env \<Rightarrow> duration" where
  "restartTimeout env =
     (if e_RestartTimeout env > 0 then e_RestartTimeout env else defaultRestartTimeout)"

definition releaseHaltHint :: "string \<Rightarrow> string" where
  "releaseHaltHint nodeName =
     ''release with `kubectl annotate node '' @ nodeName @ '' '' @ TuningRolloutStartedAnnotation
       @ ''-` to retry''"

definition rolloutInFlight :: "node \<Rightarrow> bool" where
  "rolloutInFlight n \<longleftrightarrow> n_annotations n TuningRolloutStartedAnnotation \<noteq> None"

definition rolloutOwnedBy :: "node \<Rightarrow> string \<Rightarrow> bool" where
  "rolloutOwnedBy n ntName \<longleftrightarrow> rolloutInFlight n \<and>
     (case n_annotations n TuningRolloutOwnerAnnotation of None \<Rightarrow> ntName = ''''
      | Some (Text s) \<Rightarrow> s = ntName | Some (Stamp _) \<Rightarrow> False)"

definition rolloutHalted :: "node \<Rightarrow> bool" where
  "rolloutHalted n \<longleftrightarrow> n_annotations n TuningRolloutFailedAnnotation \<noteq> None"

fun newCampaignLock :: "node list \<Rightarrow> campaignLock" where
  "newCampaignLock [] = \<lparr>holder = ''''\<rparr>"
| "newCampaignLock (n # ns) =
     (if rolloutInFlight n then \<lparr>holder = n_name n\<rparr> else newCampaignLock ns)"

definition heldByOther :: "campaignLock \<Rightarrow> string \<Rightarrow> string" where
  "heldByOther l name = (if holder l \<noteq> '''' \<and> holder l \<noteq> name then holder l else '''')"

definition acquire :: "string \<Rightarrow> campaignLock \<Rightarrow> campaignLock" where
  "acquire name l = l\<lparr>holder := name\<rparr>"

definition release :: "string \<Rightarrow> campaignLock \<Rightarrow> campaignLock" where
  "release name l = (if holder l = name then l\<lparr>holder := ''''\<rparr> else l)"

definition nodeIsReady :: "node \<Rightarrow> bool" where
  "nodeIsReady n = ready_condition (n_conditions n)"

definition notReadyNodes :: "node list \<Rightarrow> string list" where
  "notReadyNodes nodes = sort (map n_name (filter (\<lambda>n. \<not> nodeIsReady n) nodes))"

definition annotationTime :: "node \<Rightarrow> string \<Rightarrow> string + instant" where
  "annotationTime n key =
     (case n_annotations n key of
        None \<Rightarrow> Inl (''node '' @ n_name n @ '' has no '' @ key @ '' annotation'')
      | Some (Text raw) \<Rightarrow> Inl (''node '' @ n_name n @ '': '' @ key @ ''='' @ quoted raw
                               @ '' is not an RFC3339 timestamp'')
      | Some (Stamp t) \<Rightarrow> Inr t)"

definition anno_text :: "'s rollout_env \<Rightarrow> anno option \<Rightarrow> string" where
  "anno_text env a =
     (case a of None \<Rightarrow> '''' | Some (Text s) \<Rightarrow> s | Some (Stamp t) \<Rightarrow> e_fmt_time env t)"

section \<open>Node writes\<close>

definition patch_server :: "string \<Rightarrow> (node \<Rightarrow> node) \<Rightarrow> node list \<Rightarrow> node list" where
  "patch_server name mutate = map (\<lambda>m. if n_name m = name then mutate m else m)"

definition patchNode ::
  "'s rollout_env \<Rightarrow> ('s, 'z) cluster_scheme \<Rightarrow> node \<Rightarrow> (node \<Rightarrow> node) \<Rightarrow>
     string + ('s, 'z) cluster_scheme" where
  "patchNode env st n mutate =
     (case e_patch_err env (n_name n) of Some err \<Rightarrow> Inl err
      | None \<Rightarrow> Inr (st\<lparr>c_nodes := patch_server (n_name n) mutate (c_nodes st)\<rparr>))"

definition setNodeAnnotation :: "string \<Rightarrow> anno \<Rightarrow> node \<Rightarrow> node" where
  "setNodeAnnotation key value n = n\<lparr>n_annotations := (n_annotations n)(key \<mapsto> value)\<rparr>"

definition deleteNodeAnnotation :: "string \<Rightarrow> node \<Rightarrow> node" where
  "deleteNodeAnnotation key n = n\<lparr>n_annotations := (n_annotations n)(key := None)\<rparr>"

definition clearRolloutAnnotations :: "node \<Rightarrow> node" where
  "clearRolloutAnnotations =
     fold deleteNodeAnnotation
       [TuningRolloutStartedAnnotation, TuningRolloutOwnerAnnotation,
        TuningRolloutFailedAnnotation, TuningRestartBaselineAnnotation,
        TuningRestartRequestedAnnotation]"

definition uncordon_and_clear :: "node \<Rightarrow> node" where
  "uncordon_and_clear n = clearRolloutAnnotations (n\<lparr>n_unschedulable := False\<rparr>)"

definition releaseNode ::
  "'s rollout_env \<Rightarrow> ('s, 'z) cluster_scheme \<Rightarrow> node \<Rightarrow> string + ('s, 'z) cluster_scheme" where
  "releaseNode env st n = patchNode env st n uncordon_and_clear"

definition add_event ::
  "string \<Rightarrow> string \<Rightarrow> string \<Rightarrow> ('s, 'z) cluster_scheme \<Rightarrow> ('s, 'z) cluster_scheme" where
  "add_event kind reason msg st = st\<lparr>c_events := c_events st @ [(kind, reason, msg)]\<rparr>"

definition update_tuning ::
  "string \<Rightarrow> ('s node_tuning \<Rightarrow> 's node_tuning) \<Rightarrow> ('s, 'z) cluster_scheme \<Rightarrow>
     ('s, 'z) cluster_scheme" where
  "update_tuning name f st =
     st\<lparr>c_tunings := map (\<lambda>t. if nt_name t = name then f t else t) (c_tunings st)\<rparr>"

text \<open>\<open>AddFinalizer\<close> changes the pass's copy before \<open>Update\<close> is tried, and the copy keeps the
  change when \<open>Update\<close> fails.\<close>

definition ensureFinalizer ::
  "'s rollout_env \<Rightarrow> string \<Rightarrow> 's rollout_state \<Rightarrow> string option \<times> 's rollout_state" where
  "ensureFinalizer env nodeName st =
     (if nt_finalizer (r_nt st) then (None, st)
      else
        (let st1 = st\<lparr>r_nt := (r_nt st)\<lparr>nt_finalizer := True\<rparr>\<rparr>
         in case e_update_err env nodeName of Some err \<Rightarrow> (Some err, st1)
            | None \<Rightarrow> (None, update_tuning (nt_name (r_nt st)) (\<lambda>t. t\<lparr>nt_finalizer := True\<rparr>) st1)))"

definition removeFinalizer ::
  "'s rollout_env \<Rightarrow> 's node_tuning \<Rightarrow> ('s, 'z) cluster_scheme \<Rightarrow>
     string option \<times> ('s, 'z) cluster_scheme" where
  "removeFinalizer env nt st =
     (if \<not> nt_finalizer nt then (None, st)
      else case e_remove_err env of Some err \<Rightarrow> (Some err, st)
           | None \<Rightarrow> (None, update_tuning (nt_name nt) (\<lambda>t. t\<lparr>nt_finalizer := False\<rparr>) st))"

section \<open>Drain\<close>

definition MirrorPodAnnotationKey :: string where
  "MirrorPodAnnotationKey = ''kubernetes.io/config.mirror''"

definition blocksDrain :: "pod \<Rightarrow> bool" where
  "blocksDrain p =
     (if pod_phase p = ''Succeeded'' \<or> pod_phase p = ''Failed'' then False
      else if pod_annotations p MirrorPodAnnotationKey \<noteq> None then False
      else if ''DaemonSet'' \<in> set (pod_ownerKinds p) then False
      else True)"

fun evict_loop :: "pod list \<Rightarrow> int \<Rightarrow> (string \<times> string) list \<Rightarrow> int \<times> (string \<times> string) list" where
  "evict_loop [] remaining asked = (remaining, asked)"
| "evict_loop (p # ps) remaining asked =
     (if \<not> blocksDrain p then evict_loop ps remaining asked
      else if pod_deletionTimestamp p \<noteq> None then evict_loop ps (remaining + 1) asked
      else evict_loop ps (remaining + 1) (asked @ [(pod_namespace p, pod_name p)]))"

definition evictPods ::
  "'s rollout_env \<Rightarrow> 's rollout_state \<Rightarrow> string \<Rightarrow> string + (int \<times> 's rollout_state)" where
  "evictPods env st nodeName =
     (case e_evict_pods env nodeName of
        Inl err \<Rightarrow> Inl (''listing pods on '' @ nodeName @ '': '' @ err)
      | Inr ps \<Rightarrow>
          (let (remaining, asked) = evict_loop ps 0 []
           in Inr (remaining, st\<lparr>c_evictions := c_evictions st @ asked\<rparr>)))"

section \<open>The rollout of one node\<close>

definition set_ns :: "node_status \<Rightarrow> nt_phase \<Rightarrow> string \<Rightarrow> node_status" where
  "set_ns ns ph msg = ns\<lparr>ns_phase := ph, ns_message := msg\<rparr>"

definition cordon_mutate :: "'s rollout_env \<Rightarrow> string \<Rightarrow> node \<Rightarrow> node" where
  "cordon_mutate env ntName n =
     deleteNodeAnnotation TuningRolloutFailedAnnotation
       (deleteNodeAnnotation TuningRestartBaselineAnnotation
         (deleteNodeAnnotation TuningRestartRequestedAnnotation
           (setNodeAnnotation TuningRolloutOwnerAnnotation (Text ntName)
             (setNodeAnnotation TuningRolloutStartedAnnotation (Stamp (e_now env (n_name n)))
               (n\<lparr>n_unschedulable := True\<rparr>)))))"

definition startRollout ::
  "'s rollout_env \<Rightarrow> node \<Rightarrow> node_status \<Rightarrow> string \<Rightarrow> node list \<Rightarrow> 's rollout_state \<Rightarrow>
     node_status \<times> 's rollout_state" where
  "startRollout env n ns reason allNodes st =
     (let other = heldByOther (r_lock st) (n_name n);
          notReady = notReadyNodes allNodes;
          unit = anno_text env (n_annotations n TuningUnitAnnotation) in
      if other \<noteq> '''' then
        (set_ns ns PhaseRebootPending
           (''waiting: node '' @ other @ '' is mid-rollout or left cordoned by a failed one (one node at a time; a failed node halts the campaign until ''
              @ TuningRolloutStartedAnnotation @ '' is cleared from it)''), st)
      else if notReady \<noteq> [] then
        (set_ns ns PhaseRebootPending
           (''refusing to start: node(s) '' @ join_with '', '' notReady
              @ '' are not Ready; taking a second node down is an outage, not a rolling restart''), st)
      else if unit = '''' then
        (set_ns ns PhaseRebootPending
           (''waiting for the node agent to report '' @ TuningUnitAnnotation), st)
      else if \<not> IsRestartable unit then
        (set_ns ns PhaseFailed
           (''refusing to restart unit '' @ quoted unit @ '' on '' @ n_name n
              @ '': not on the compile-time restart allowlist''), st)
      else case annotationTime n TuningUnitActiveEnterAnnotation of
        Inl err \<Rightarrow> (set_ns ns PhaseRebootPending (''waiting for a verifiable baseline: '' @ err), st)
      | Inr _ \<Rightarrow>
          (case ensureFinalizer env (n_name n) st of
             (Some err, st1) \<Rightarrow>
               (set_ns ns PhaseRebootPending (''preparing to cordon '' @ n_name n @ '': '' @ err), st1)
           | (None, st1) \<Rightarrow>
               (case patchNode env st1 n (cordon_mutate env (nt_name (r_nt st1))) of
                  Inl err \<Rightarrow>
                    (set_ns ns PhaseRebootPending (''cordoning '' @ n_name n @ '': '' @ err), st1)
                | Inr st2 \<Rightarrow>
                    (set_ns ns PhaseApplying
                       (''cordoned; draining before restarting '' @ unit @ ''.service ('' @ reason @ '')''),
                     add_event ''Normal'' ''NodeCordoned''
                       (''Cordoned '' @ n_name n @ '' to restart '' @ unit @ ''.service: '' @ reason)
                       (st2\<lparr>r_lock := acquire (n_name n) (r_lock st2)\<rparr>)))))"

definition failRollout ::
  "'s rollout_env \<Rightarrow> node \<Rightarrow> node_status \<Rightarrow> string \<Rightarrow> 's rollout_state \<Rightarrow>
     node_status \<times> 's rollout_state" where
  "failRollout env n ns msg st =
     (let st1 = (case patchNode env st n
                   (setNodeAnnotation TuningRolloutFailedAnnotation (Stamp (e_now env (n_name n)))) of
                   Inl _ \<Rightarrow> st | Inr st' \<Rightarrow> st')
      in (set_ns ns PhaseFailed msg,
          add_event ''Warning'' ''RestartFailed'' (n_name n @ '': '' @ msg) st1))"

definition drainAndRequest ::
  "'s rollout_env \<Rightarrow> node \<Rightarrow> node_status \<Rightarrow> string \<Rightarrow> 's rollout_state \<Rightarrow>
     node_status \<times> 's rollout_state" where
  "drainAndRequest env n ns unit st =
     (case evictPods env st (n_name n) of
        Inl err \<Rightarrow> (set_ns ns PhaseApplying (''draining '' @ n_name n @ '': '' @ err), st)
      | Inr (remaining, st1) \<Rightarrow>
          if remaining > 0 then
            (case annotationTime n TuningRolloutStartedAnnotation of
               Inr started \<Rightarrow>
                 if e_now env (n_name n) - started > drainTimeout env then
                   failRollout env n ns
                     (''draining '' @ n_name n @ '' did not finish within ''
                        @ e_fmt_dur env (drainTimeout env) @ '' ('' @ int_str remaining
                        @ '' pod(s) still there); leaving it cordoned and halting the rollout (''
                        @ releaseHaltHint (n_name n) @ '')'') st1
                 else (set_ns ns PhaseApplying
                         (''draining: '' @ int_str remaining @ '' pod(s) still on '' @ n_name n), st1)
             | Inl _ \<Rightarrow> (set_ns ns PhaseApplying
                         (''draining: '' @ int_str remaining @ '' pod(s) still on '' @ n_name n), st1))
          else
            (case annotationTime n TuningUnitActiveEnterAnnotation of
               Inl err \<Rightarrow>
                 (set_ns ns PhaseApplying
                    (''drained; waiting for a verifiable baseline before requesting the restart: ''
                       @ err), st1)
             | Inr baseline \<Rightarrow>
                 (case patchNode env st1 n
                    (\<lambda>m. setNodeAnnotation TuningRestartRequestedAnnotation
                            (Stamp (e_now env (n_name n)))
                          (setNodeAnnotation TuningRestartBaselineAnnotation (Stamp baseline) m)) of
                    Inl err \<Rightarrow>
                      (set_ns ns PhaseApplying
                         (''requesting restart on '' @ n_name n @ '': '' @ err), st1)
                  | Inr st2 \<Rightarrow>
                      (set_ns ns PhaseApplying
                         (''drained; restart of '' @ unit @ ''.service requested''),
                       add_event ''Normal'' ''RestartRequested''
                         (''Asked the node agent on '' @ n_name n
                            @ '' to schedule a detached restart of '' @ unit @ ''.service'') st2))))"

text \<open>\<open>current.After(baseline)\<close> with both timestamps readable.\<close>

definition restart_seen :: "string + instant \<Rightarrow> string + instant \<Rightarrow> instant option" where
  "restart_seen baseline current =
     (case (baseline, current) of (Inr b, Inr c) \<Rightarrow> if c > b then Some c else None | _ \<Rightarrow> None)"

definition restart_wait_message ::
  "'s rollout_env \<Rightarrow> string \<Rightarrow> string + instant \<Rightarrow> string + instant \<Rightarrow> string" where
  "restart_wait_message env unit baseline current =
     (case current of
        Inl err \<Rightarrow> ''waiting for '' @ unit @ ''.service to restart (no readable timestamp yet: '' @ err @ '')''
      | Inr c \<Rightarrow>
          (case baseline of
             Inl err \<Rightarrow> ''waiting for '' @ unit @ ''.service to restart (no readable baseline yet: '' @ err @ '')''
           | Inr _ \<Rightarrow> ''waiting for '' @ unit @ ''.service to restart (still at '' @ e_fmt_time env c @ '')''))"

definition continueRollout ::
  "'s rollout_env \<Rightarrow> node \<Rightarrow> node_status \<Rightarrow> 's rollout_state \<Rightarrow>
     node_status \<times> 's rollout_state" where
  "continueRollout env n ns st =
     (let unit = anno_text env (n_annotations n TuningUnitAnnotation) in
      case annotationTime n TuningRestartRequestedAnnotation of
        Inl _ \<Rightarrow> drainAndRequest env n ns unit st
      | Inr requested \<Rightarrow>
         (let baseline = annotationTime n TuningRestartBaselineAnnotation;
              current = annotationTime n TuningUnitActiveEnterAnnotation;
              late = (e_now env (n_name n) - requested > restartTimeout env)
          in case restart_seen baseline current of
               Some c \<Rightarrow>
                 if \<not> nodeIsReady n then
                   (if late then
                      failRollout env n ns
                        (unit @ ''.service restarted at '' @ e_fmt_time env c @ '' but '' @ n_name n
                           @ '' never reported Ready within '' @ e_fmt_dur env (restartTimeout env)
                           @ ''; leaving it cordoned ('' @ releaseHaltHint (n_name n) @ '')'') st
                    else
                      (set_ns ns PhaseApplying
                         (unit @ ''.service restarted at '' @ e_fmt_time env c @ ''; waiting for ''
                            @ n_name n @ '' to report Ready before uncordoning''), st))
                 else
                   (case patchNode env st n uncordon_and_clear of
                      Inl err \<Rightarrow>
                        (set_ns ns PhaseApplying (''uncordoning '' @ n_name n @ '': '' @ err), st)
                    | Inr st1 \<Rightarrow>
                        ((set_ns ns PhaseApplying
                            (unit @ ''.service restarted at '' @ e_fmt_time env c
                               @ ''; uncordoned, waiting for the agent to re-observe''))
                           \<lparr>ns_restartedAt := Some c,
                            ns_restartedGeneration := nt_generation (r_nt st1),
                            ns_appliedGeneration := nt_generation (r_nt st1)\<rparr>,
                         add_event ''Normal'' ''RestartVerified''
                           (unit @ ''.service on '' @ n_name n @ '' restarted at ''
                              @ e_fmt_time env c @ ''; node uncordoned'')
                           (st1\<lparr>r_lock := release (n_name n) (r_lock st1)\<rparr>)))
             | None \<Rightarrow>
                 if late then
                   failRollout env n ns
                     (unit @ ''.service on '' @ n_name n @ '' did not come back within ''
                        @ e_fmt_dur env (restartTimeout env) @ '' of the restart request: ''
                        @ (case current of Inl err \<Rightarrow> err
                           | Inr _ \<Rightarrow> ''its ActiveEnterTimestamp has not advanced'')
                        @ ''; leaving it cordoned and halting the rollout (''
                        @ releaseHaltHint (n_name n) @ '')'') st
                 else
                   (set_ns ns PhaseApplying (restart_wait_message env unit baseline current), st)))"

section \<open>The reconcile pass\<close>

definition adoptOwnedNodes :: "node list \<Rightarrow> node list \<Rightarrow> string \<Rightarrow> node list" where
  "adoptOwnedNodes all matched ntName =
     filter (\<lambda>n. n_name n \<notin> set (map n_name matched) \<and> rolloutOwnedBy n ntName) all"

text \<open>One iteration of the loop over the work list, without the final \<open>realizeNode\<close>. The result
  holds the entry, the contributions to \<open>ownsNode\<close> and \<open>rolloutActive\<close>, and the state.\<close>

definition reconcile_node ::
  "'s rollout_env \<Rightarrow> 's node_tuning list \<Rightarrow> node list \<Rightarrow> node \<Rightarrow> node_status \<Rightarrow> 's rollout_state \<Rightarrow>
     node_status \<times> bool \<times> bool \<times> 's rollout_state" where
  "reconcile_node env all allNodes n ns st =
     (let nt = r_nt st; name = nt_name nt; generation = nt_generation nt;
          (reason, needsRestart) = diffTuning (nt_spec nt) (ns_observed ns);
          others = overlappingNodeTunings (e_as_selector env) all name n
      in if rolloutOwnedBy n name \<and> rolloutHalted n then
           ((if ns_message ns = ''''
             then set_ns ns PhaseFailed
                    (''rollout halted on '' @ n_name n @ '' and is waiting for a human (''
                       @ releaseHaltHint (n_name n) @ '')'')
             else ns\<lparr>ns_phase := PhaseFailed\<rparr>), True, True, st)
         else if rolloutOwnedBy n name then
           (let (ns', st') = continueRollout env n ns st in (ns', True, True, st'))
         else if rolloutInFlight n then
           (let owner = anno_text env (n_annotations n TuningRolloutOwnerAnnotation);
                owner' = (if owner = '''' then ''an unknown owner'' else owner)
            in (set_ns ns PhaseRebootPending
                  (''waiting: '' @ n_name n @ '' is mid-rollout under '' @ owner'),
                False, False, st))
         else if others \<noteq> [] then
           (set_ns ns PhaseFailed (''node also selected by NodeTuning '' @ join_with '', '' others),
            False, False, st)
         else if reason = '''' then
           ((set_ns ns PhaseInSync '''')\<lparr>ns_appliedGeneration := generation\<rparr>, False, False, st)
         else if needsRestart \<and> \<not> approvedForGeneration n generation then
           (set_ns ns PhaseRebootPending
              (''restart required to apply: '' @ reason @ ''; approve with `kubectl annotate node ''
                 @ n_name n @ '' '' @ ApprovalAnnotation @ ''='' @ int_str generation
                 @ '' --overwrite`''), False, False, st)
         else if needsRestart \<and> restartedForGeneration ns generation then
           ((set_ns ns PhaseDrifted
               (reason @ ''; restart already verified at ''
                  @ (case ns_restartedAt ns of Some t \<Rightarrow> e_fmt_time env t | None \<Rightarrow> '''')
                  @ '' for generation '' @ int_str generation
                  @ '' '' @ em_dash @ '' not restarting again (approve a new generation, or clear status.nodes[].restartedAt to retry)''))
              \<lparr>ns_appliedGeneration := generation\<rparr>, False, False, st)
         else if needsRestart then
           (let (ns', st') = startRollout env n ns reason allNodes st
            in (ns', ns_phase ns' = PhaseApplying, ns_phase ns' = PhaseApplying, st'))
         else
           ((set_ns ns PhaseDrifted reason)\<lparr>ns_appliedGeneration := generation\<rparr>, False, False, st))"

fun reconcile_nodes ::
  "'s rollout_env \<Rightarrow> 's node_tuning list \<Rightarrow> node list \<Rightarrow> node_status list \<Rightarrow> node list \<Rightarrow>
     's rollout_state \<Rightarrow> node_status list \<times> bool \<times> bool \<times> 's rollout_state" where
  "reconcile_nodes env all allNodes prior [] st = ([], False, False, st)"
| "reconcile_nodes env all allNodes prior (n # ns) st =
     (let (e, own, act, st1) =
            reconcile_node env all allNodes n (existingNodeStatus prior (n_name n)) st;
          (es, owns, acts, st2) = reconcile_nodes env all allNodes prior ns st1
      in (realizeNode (e_realize_pods env (n_name n)) e # es, own \<or> owns, act \<or> acts, st2))"

text \<open>An entry as the API server keeps it: a \<open>metav1.Time\<close> has whole seconds.\<close>

definition stored_entry :: "node_status \<Rightarrow> node_status" where
  "stored_entry ns = ns\<lparr>ns_restartedAt := map_option trunc_second (ns_restartedAt ns)\<rparr>"

definition patchStatus ::
  "'s rollout_env \<Rightarrow> node_status list \<Rightarrow> 's rollout_state \<Rightarrow> string option \<times> 's rollout_state" where
  "patchStatus env nodes st =
     (case find (\<lambda>t. nt_name t = nt_name (r_nt st)) (c_tunings st) of
        None \<Rightarrow> (Some ''not found'', st)
      | Some fresh \<Rightarrow>
          (case e_status_err env of Some err \<Rightarrow> (Some err, st)
           | None \<Rightarrow>
               (let fresh' = fresh\<lparr>nt_observedGeneration := nt_generation (r_nt st),
                                   nt_nodes := map stored_entry (preserveObserved nodes (nt_nodes fresh))\<rparr>
                in (None, (update_tuning (nt_name (r_nt st)) (\<lambda>_. fresh') st)\<lparr>r_nt := fresh'\<rparr>))))"

fun release_owned ::
  "'s rollout_env \<Rightarrow> string \<Rightarrow> node list \<Rightarrow> ('s, 'z) cluster_scheme \<Rightarrow>
     string option \<times> ('s, 'z) cluster_scheme" where
  "release_owned env ntName [] st = (None, st)"
| "release_owned env ntName (n # ns) st =
     (if \<not> rolloutOwnedBy n ntName then release_owned env ntName ns st
      else case releaseNode env st n of
             Inl err \<Rightarrow>
               (Some (''releasing '' @ n_name n @ '' on NodeTuning deletion: '' @ err), st)
           | Inr st1 \<Rightarrow>
               release_owned env ntName ns
                 (add_event ''Warning'' ''RolloutAbandoned''
                    (''NodeTuning deleted mid-rollout; uncordoned '' @ n_name n
                       @ '' and cleared its restart request'') st1))"

definition finishDeletion ::
  "'s rollout_env \<Rightarrow> 's node_tuning \<Rightarrow> node list \<Rightarrow> ('s, 'z) cluster_scheme \<Rightarrow>
     string option \<times> ('s, 'z) cluster_scheme" where
  "finishDeletion env nt allNodes st =
     (case release_owned env (nt_name nt) allNodes st of
        (Some err, st1) \<Rightarrow> (Some err, st1)
      | (None, st1) \<Rightarrow> removeFinalizer env nt st1)"

definition err_outcome :: "string option \<Rightarrow> outcome" where
  "err_outcome e = (case e of None \<Rightarrow> Done | Some m \<Rightarrow> Failure m)"

definition begin_pass :: "'s cluster \<Rightarrow> 's node_tuning \<Rightarrow> 's rollout_state" where
  "begin_pass cl nt =
     \<lparr>c_nodes = c_nodes cl, c_tunings = c_tunings cl, c_events = c_events cl,
      c_evictions = c_evictions cl, r_nt = nt, r_lock = newCampaignLock (c_nodes cl)\<rparr>"

definition end_pass :: "'s rollout_state \<Rightarrow> 's cluster" where
  "end_pass st = \<lparr>c_nodes = c_nodes st, c_tunings = c_tunings st, c_events = c_events st,
      c_evictions = c_evictions st\<rparr>"

definition Reconcile :: "'s rollout_env \<Rightarrow> string \<Rightarrow> 's cluster \<Rightarrow> outcome \<times> 's cluster" where
  "Reconcile env req cl =
     (case e_get_err env of Some err \<Rightarrow> (Failure err, cl)
      | None \<Rightarrow>
     (case find (\<lambda>t. nt_name t = req) (c_tunings cl) of
        None \<Rightarrow> (Done, cl)
      | Some nt \<Rightarrow>
     (case e_list_nodes_err env of Some err \<Rightarrow> (Failure (''listing nodes: '' @ err), cl)
      | None \<Rightarrow>
     (let allNodes = c_nodes cl in
      if nt_deleting nt then
        (let (err, cl') = finishDeletion env nt allNodes cl in (err_outcome err, cl'))
      else
     (case selectNodes (e_as_selector env) allNodes (sp_nodeSelector (nt_spec nt)) of
        Inl err \<Rightarrow> (Failure (''listing nodes for selector: '' @ err), cl)
      | Inr matched \<Rightarrow>
     (case e_list_nts_err env of Some err \<Rightarrow> (Failure (''listing NodeTunings: '' @ err), cl)
      | None \<Rightarrow>
         (let work = matched @ adoptOwnedNodes allNodes matched (nt_name nt);
              (entries, ownsNode, rolloutActive, st1) =
                reconcile_nodes env (c_tunings cl) allNodes (nt_nodes nt) work (begin_pass cl nt);
              (err, st2) = patchStatus env (sort_key ns_name entries) st1
          in case err of Some m \<Rightarrow> (Failure m, end_pass st2)
             | None \<Rightarrow>
                 (let (err', st3) = (if ownsNode then (None, st2) else removeFinalizer env (r_nt st2) st2)
                  in case err' of Some m \<Rightarrow> (Failure m, end_pass st3)
                     | None \<Rightarrow>
                         ((if rolloutActive then RequeueAfter rolloutRequeueInterval else Done),
                          end_pass st3)))))))))"

text \<open>The requests a watch event fans out to: every NodeTuning but the excluded one.\<close>

definition nodeTuningRequests :: "string option \<Rightarrow> 's node_tuning list \<Rightarrow> string \<Rightarrow> string list" where
  "nodeTuningRequests list_err all exclude =
     (case list_err of Some _ \<Rightarrow> [] | None \<Rightarrow> map nt_name (filter (\<lambda>t. nt_name t \<noteq> exclude) all))"

definition allNodeTunings :: "string option \<Rightarrow> 's node_tuning list \<Rightarrow> string list" where
  "allNodeTunings list_err all = nodeTuningRequests list_err all ''''"

definition otherNodeTunings :: "string option \<Rightarrow> 's node_tuning list \<Rightarrow> string \<Rightarrow> string list" where
  "otherNodeTunings list_err all objName = nodeTuningRequests list_err all objName"

end
