(* ===== verification/Rollout_Safety.thy ===== *)
theory Rollout_Safety
  imports Node_Rollout
begin

text \<open>
  What a reconcile pass may do to the nodes. The abstract machine \<open>rollout_step\<close> lists the only five
  things that can happen to one node in a pass, each with its guard; \<open>reconcile_node_step\<close> shows
  that the controller's code implements it. The campaign lock is an \<open>exclusive_lock\<close>; mutual
  exclusion is proved once for that interface and holds for the code by interpretation.
\<close>

section \<open>The abstract machine\<close>

type_synonym lock_view = "node list \<times> campaignLock"

inductive rollout_step ::
  "'s rollout_env \<Rightarrow> string \<Rightarrow> int \<Rightarrow> node list \<Rightarrow> node \<Rightarrow> node_status \<Rightarrow> lock_view \<Rightarrow> lock_view \<Rightarrow> bool"
  for env name gen allNodes n ns where
  skip: "rollout_step env name gen allNodes n ns v v"
| cordon: "rollout_step env name gen allNodes n ns (nodes, l)
     (patch_server (n_name n) (cordon_mutate env name) nodes, acquire (n_name n) l)"
  if "\<not> rolloutInFlight n" "heldByOther l (n_name n) = ''''" "\<forall>m \<in> set allNodes. nodeIsReady m"
    "IsRestartable (anno_text env (n_annotations n TuningUnitAnnotation))"
    "\<exists>t. annotationTime n TuningUnitActiveEnterAnnotation = Inr t"
    "approvedForGeneration n gen" "\<not> restartedForGeneration ns gen"
| request: "rollout_step env name gen allNodes n ns (nodes, l)
     (patch_server (n_name n)
        (\<lambda>m. setNodeAnnotation TuningRestartRequestedAnnotation (Stamp (e_now env (n_name n)))
              (setNodeAnnotation TuningRestartBaselineAnnotation (Stamp b) m)) nodes, l)"
  if "rolloutOwnedBy n name" "\<not> rolloutHalted n"
    "\<exists>e. annotationTime n TuningRestartRequestedAnnotation = Inl e"
    "annotationTime n TuningUnitActiveEnterAnnotation = Inr b"
    "\<exists>ps. e_evict_pods env (n_name n) = Inr ps \<and> (\<forall>p \<in> set ps. \<not> blocksDrain p)"
| fail: "rollout_step env name gen allNodes n ns (nodes, l)
     (patch_server (n_name n)
        (setNodeAnnotation TuningRolloutFailedAnnotation (Stamp (e_now env (n_name n)))) nodes, l)"
  if "rolloutOwnedBy n name" "\<not> rolloutHalted n"
| finish: "rollout_step env name gen allNodes n ns (nodes, l)
     (patch_server (n_name n) uncordon_and_clear nodes, release (n_name n) l)"
  if "rolloutOwnedBy n name" "\<not> rolloutHalted n" "nodeIsReady n"
    "annotationTime n TuningRestartRequestedAnnotation = Inr r"
    "annotationTime n TuningRestartBaselineAnnotation = Inr b"
    "annotationTime n TuningUnitActiveEnterAnnotation = Inr c" "b < c"

section \<open>The code implements the abstract machine\<close>

definition view :: "'s rollout_state \<Rightarrow> lock_view" where
  "view st = (c_nodes st, r_lock st)"

lemma add_event_view [simp]:
  "c_nodes (add_event k r m st) = c_nodes st" "c_tunings (add_event k r m st) = c_tunings st"
  "r_lock (add_event k r m st') = r_lock st'" "r_nt (add_event k r m st') = r_nt st'"
  by (simp_all add: add_event_def)

lemma update_tuning_view [simp]:
  "c_nodes (update_tuning nm f st) = c_nodes st"
  "r_lock (update_tuning nm f st') = r_lock st'" "r_nt (update_tuning nm f st') = r_nt st'"
  by (simp_all add: update_tuning_def)

lemma ensureFinalizer_view:
  "ensureFinalizer env nm st = (r, st') \<Longrightarrow>
   c_nodes st' = c_nodes st \<and> r_lock st' = r_lock st \<and> nt_name (r_nt st') = nt_name (r_nt st)
   \<and> nt_generation (r_nt st') = nt_generation (r_nt st) \<and> nt_spec (r_nt st') = nt_spec (r_nt st)"
  by (auto simp: ensureFinalizer_def Let_def split: if_splits option.splits)

lemma notReadyNodes_Nil: "notReadyNodes nodes = [] \<longleftrightarrow> (\<forall>m \<in> set nodes. nodeIsReady m)"
  by (auto simp: notReadyNodes_def filter_empty_conv)

lemma evict_loop_remaining:
  "fst (evict_loop ps r asked) = r + int (length (filter blocksDrain ps))"
  by (induction ps r asked rule: evict_loop.induct) auto

lemma evictPods_view:
  assumes "evictPods env st nm = Inr (remaining, st')"
  shows "view st' = view st" "r_nt st' = r_nt st" "c_tunings st' = c_tunings st"
    "\<exists>ps. e_evict_pods env nm = Inr ps \<and> remaining = int (length (filter blocksDrain ps))"
  using assms evict_loop_remaining
  by (auto simp: evictPods_def view_def split: sum.splits prod.splits) (metis fst_conv add_0)+

lemma patchNode_Inr:
  "patchNode env st n f = Inr st' \<Longrightarrow>
   st' = st\<lparr>c_nodes := patch_server (n_name n) f (c_nodes st)\<rparr>"
  by (simp add: patchNode_def split: option.splits)

lemma set_ns_simps [simp]:
  "ns_phase (set_ns ns ph m) = ph" "ns_message (set_ns ns ph m) = m" "ns_name (set_ns ns ph m) = ns_name ns"
  "ns_observed (set_ns ns ph m) = ns_observed ns" "ns_restartedAt (set_ns ns ph m) = ns_restartedAt ns"
  "ns_restartedGeneration (set_ns ns ph m) = ns_restartedGeneration ns"
  by (simp_all add: set_ns_def)

lemma failRollout_step:
  assumes "failRollout env n ns msg st = (ns', st')" "rolloutOwnedBy n name" "\<not> rolloutHalted n"
  shows "rollout_step env name gen allNodes n ns0 (view st) (view st')"
  using assms
  by (auto simp: failRollout_def Let_def view_def
      dest!: patchNode_Inr intro: rollout_step.intros split: sum.splits)

lemma startRollout_step:
  assumes "startRollout env n ns reason allNodes st = (ns', st')" "\<not> rolloutInFlight n"
    "approvedForGeneration n gen" "\<not> restartedForGeneration ns gen"
  shows "rollout_step env (nt_name (r_nt st)) gen allNodes n ns (view st) (view st')"
proof (cases "view st' = view st")
  case True
  then show ?thesis by (simp add: rollout_step.skip)
next
  case False
  then obtain t st1 where s:
    "heldByOther (r_lock st) (n_name n) = ''''" "notReadyNodes allNodes = []"
    "IsRestartable (anno_text env (n_annotations n TuningUnitAnnotation))"
    "annotationTime n TuningUnitActiveEnterAnnotation = Inr t"
    "ensureFinalizer env (n_name n) st = (None, st1)"
    "view st' = (patch_server (n_name n) (cordon_mutate env (nt_name (r_nt st1))) (c_nodes st1),
       acquire (n_name n) (r_lock st1))"
    using assms(1) ensureFinalizer_view
    by (fastforce simp: startRollout_def Let_def view_def
        dest!: patchNode_Inr split: if_splits sum.splits prod.splits option.splits)
  with ensureFinalizer_view [OF s(5)] show ?thesis
    using assms(2-4) by (auto simp: view_def notReadyNodes_Nil intro: rollout_step.cordon)
qed

lemma drainAndRequest_step:
  assumes "drainAndRequest env n ns unit st = (ns', st')" "rolloutOwnedBy n name" "\<not> rolloutHalted n"
    "annotationTime n TuningRestartRequestedAnnotation = Inl e"
  shows "rollout_step env name gen allNodes n ns0 (view st) (view st')"
proof (cases "evictPods env st (n_name n)")
  case (Inl err)
  with assms(1) show ?thesis by (auto simp: drainAndRequest_def intro: rollout_step.skip)
next
  case (Inr p)
  obtain remaining st1 where p: "p = (remaining, st1)" by (cases p)
  note ev = evictPods_view [OF Inr [unfolded p]]
  obtain ps where ps: "e_evict_pods env (n_name n) = Inr ps"
    "remaining = int (length (filter blocksDrain ps))"
    using ev(4) by blast
  show ?thesis
  proof (cases "remaining > 0")
    case True
    have "rollout_step env name gen allNodes n ns0 (view st1) (view st')"
      using assms(1) Inr p True failRollout_step [OF _ assms(2,3)]
      by (auto simp: drainAndRequest_def intro: rollout_step.skip split: sum.splits if_splits)
    then show ?thesis by (simp add: ev(1))
  next
    case False
    then have "\<forall>p \<in> set ps. \<not> blocksDrain p" using ps(2) by (simp add: filter_empty_conv)
    with ps(1) have drained: "\<exists>ps. e_evict_pods env (n_name n) = Inr ps \<and> (\<forall>p \<in> set ps. \<not> blocksDrain p)"
      by blast
    have "rollout_step env name gen allNodes n ns0 (view st1) (view st')"
    proof (cases "annotationTime n TuningUnitActiveEnterAnnotation")
      case (Inl err)
      with assms(1) Inr p False show ?thesis
        by (auto simp: drainAndRequest_def intro: rollout_step.skip)
    next
      case b: (Inr b)
      have "view st' = view st1 \<or> view st' = (patch_server (n_name n)
        (\<lambda>m. setNodeAnnotation TuningRestartRequestedAnnotation (Stamp (e_now env (n_name n)))
              (setNodeAnnotation TuningRestartBaselineAnnotation (Stamp b) m)) (c_nodes st1), r_lock st1)"
        using assms(1) Inr p False b
        by (auto simp: drainAndRequest_def view_def dest!: patchNode_Inr split: sum.splits)
      then show ?thesis
        using rollout_step.request [OF assms(2,3) _ b drained] assms(4)
        by (auto simp: view_def intro: rollout_step.skip)
    qed
    then show ?thesis by (simp add: ev(1))
  qed
qed

lemma restart_seen_Some:
  "restart_seen b c = Some t \<longleftrightarrow> (\<exists>bt. b = Inr bt \<and> c = Inr t \<and> bt < t)"
  by (auto simp: restart_seen_def split: sum.splits)

lemma continueRollout_step:
  assumes "continueRollout env n ns st = (ns', st')" "rolloutOwnedBy n name" "\<not> rolloutHalted n"
  shows "rollout_step env name gen allNodes n ns0 (view st) (view st')"
proof (cases "annotationTime n TuningRestartRequestedAnnotation")
  case (Inl e)
  with assms(1) have "drainAndRequest env n ns (anno_text env (n_annotations n TuningUnitAnnotation)) st
      = (ns', st')"
    by (simp add: continueRollout_def Let_def)
  then show ?thesis using assms(2,3) Inl by (rule drainAndRequest_step)
next
  case (Inr r)
  show ?thesis
  proof (cases "restart_seen (annotationTime n TuningRestartBaselineAnnotation)
      (annotationTime n TuningUnitActiveEnterAnnotation)")
    case None
    with Inr assms show ?thesis
      by (auto simp: continueRollout_def Let_def intro: rollout_step.skip failRollout_step
          split: if_splits)
  next
    case (Some c)
    then obtain b where "annotationTime n TuningRestartBaselineAnnotation = Inr b" "b < c"
      "annotationTime n TuningUnitActiveEnterAnnotation = Inr c"
      by (auto simp: restart_seen_Some)
    with Some Inr assms show ?thesis
      by (auto simp: continueRollout_def Let_def view_def dest!: patchNode_Inr
          intro: rollout_step.intros failRollout_step [unfolded view_def]
          split: if_splits sum.splits)
  qed
qed

theorem reconcile_node_step:
  assumes "reconcile_node env all allNodes n ns st = (e, own, act, st')"
  shows "rollout_step env (nt_name (r_nt st)) (nt_generation (r_nt st)) allNodes n ns (view st) (view st')"
proof -
  obtain reason needs where d: "diffTuning (nt_spec (r_nt st)) (ns_observed ns) = (reason, needs)"
    by (cases "diffTuning (nt_spec (r_nt st)) (ns_observed ns)")
  show ?thesis
  proof (cases "view st' = view st")
    case True
    then show ?thesis by (simp add: rollout_step.skip)
  next
    case False
    consider (continue) "rolloutOwnedBy n (nt_name (r_nt st))" "\<not> rolloutHalted n"
        "\<exists>ns'. continueRollout env n ns st = (ns', st')"
      | (start) "\<not> rolloutInFlight n" "approvedForGeneration n (nt_generation (r_nt st))"
        "\<not> restartedForGeneration ns (nt_generation (r_nt st))"
        "\<exists>ns'. startRollout env n ns reason allNodes st = (ns', st')"
      using assms d False
      by (fastforce simp: reconcile_node_def Let_def split: if_splits prod.splits)
    then show ?thesis
      by cases (auto intro: continueRollout_step startRollout_step)
  qed
qed

section \<open>Nodes in flight\<close>

definition in_flight :: "node list \<Rightarrow> string set" where
  "in_flight nodes = n_name ` {n \<in> set nodes. rolloutInFlight n}"

definition at_most_one :: "'a set \<Rightarrow> bool" where
  "at_most_one F \<longleftrightarrow> (\<forall>a \<in> F. \<forall>b \<in> F. a = b)"

definition nodes_named :: "node list \<Rightarrow> bool" where
  "nodes_named nodes \<longleftrightarrow> distinct (map n_name nodes) \<and> '''' \<notin> set (map n_name nodes)"

lemma node_write_names [simp]:
  "n_name (setNodeAnnotation k v n) = n_name n" "n_name (deleteNodeAnnotation k n) = n_name n"
  "n_name (cordon_mutate env nm n) = n_name n" "n_name (uncordon_and_clear n) = n_name n"
  by (simp_all add: setNodeAnnotation_def deleteNodeAnnotation_def cordon_mutate_def
      uncordon_and_clear_def clearRolloutAnnotations_def)

lemma node_write_annotations [simp]:
  "n_annotations (setNodeAnnotation k v n) = (n_annotations n)(k \<mapsto> v)"
  "n_annotations (deleteNodeAnnotation k n) = (n_annotations n)(k := None)"
  by (simp_all add: setNodeAnnotation_def deleteNodeAnnotation_def)

lemma cordon_mutate_annotations:
  "n_annotations (cordon_mutate env nm n) TuningRolloutStartedAnnotation = Some (Stamp (e_now env (n_name n)))"
  "n_annotations (cordon_mutate env nm n) TuningRolloutOwnerAnnotation = Some (Text nm)"
  "n_annotations (cordon_mutate env nm n) TuningRestartRequestedAnnotation = None"
  "n_annotations (cordon_mutate env nm n) TuningRestartBaselineAnnotation = None"
  "n_annotations (cordon_mutate env nm n) TuningRolloutFailedAnnotation = None"
  by (simp_all add: cordon_mutate_def annotation_keys)

lemma uncordon_not_in_flight [simp]: "\<not> rolloutInFlight (uncordon_and_clear n)"
  by (simp add: rolloutInFlight_def uncordon_and_clear_def clearRolloutAnnotations_def annotation_keys)

lemma cordon_in_flight [simp]: "rolloutInFlight (cordon_mutate env nm n)"
  by (simp add: rolloutInFlight_def cordon_mutate_annotations)

lemma mark_in_flight [simp]:
  "rolloutInFlight (setNodeAnnotation TuningRolloutFailedAnnotation v n) = rolloutInFlight n"
  "rolloutInFlight (setNodeAnnotation TuningRestartRequestedAnnotation v n) = rolloutInFlight n"
  "rolloutInFlight (setNodeAnnotation TuningRestartBaselineAnnotation v n) = rolloutInFlight n"
  by (simp_all add: rolloutInFlight_def annotation_keys)

lemma patch_server_names [simp]:
  "(\<And>m. n_name (f m) = n_name m) \<Longrightarrow> map n_name (patch_server nm f nodes) = map n_name nodes"
  by (simp add: patch_server_def)

lemma patch_server_set:
  "m \<in> set (patch_server nm f nodes) \<longleftrightarrow>
     (\<exists>m0 \<in> set nodes. m = (if n_name m0 = nm then f m0 else m0))"
  by (simp only: patch_server_def set_map image_iff)

lemma in_flight_simps [simp]:
  "in_flight [] = {}"
  "in_flight (n # ns) = (if rolloutInFlight n then insert (n_name n) (in_flight ns) else in_flight ns)"
  by (auto simp: in_flight_def)

lemma patch_server_simps [simp]:
  "patch_server nm f [] = []"
  "patch_server nm f (n # ns) = (if n_name n = nm then f n else n) # patch_server nm f ns"
  by (simp_all add: patch_server_def)

lemma in_flight_patch_keep:
  "(\<And>m. n_name (f m) = n_name m) \<Longrightarrow> (\<And>m. rolloutInFlight (f m) = rolloutInFlight m) \<Longrightarrow>
   in_flight (patch_server nm f nodes) = in_flight nodes"
  by (induction nodes) simp_all

lemma in_flight_cordon:
  "in_flight (patch_server nm (cordon_mutate env name) nodes) \<subseteq> insert nm (in_flight nodes)"
  by (induction nodes) auto

lemma in_flight_cordon_mono:
  "in_flight nodes \<subseteq> in_flight (patch_server nm (cordon_mutate env name) nodes)"
  by (induction nodes) auto

lemma in_flight_uncordon:
  "in_flight (patch_server nm uncordon_and_clear nodes) = in_flight nodes - {nm}"
  by (induction nodes) auto

section \<open>The lock\<close>

text \<open>
  The interface of the campaign lock: \<open>covers l F\<close> says that \<open>l\<close> knows every member of \<open>F\<close>, the
  nodes in flight. Every write of the rollout moves lock and nodes together in one of three ways.
\<close>

locale exclusive_lock =
  fixes covers :: "'l \<Rightarrow> string set \<Rightarrow> bool"
    and held_by_other :: "'l \<Rightarrow> string \<Rightarrow> string"
    and acq :: "string \<Rightarrow> 'l \<Rightarrow> 'l" and rel :: "string \<Rightarrow> 'l \<Rightarrow> 'l"
  assumes covers_unique: "covers l F \<Longrightarrow> at_most_one F"
    and covers_subset: "covers l F \<Longrightarrow> F' \<subseteq> F \<Longrightarrow> covers l F'"
    and covers_acq: "covers l F \<Longrightarrow> held_by_other l n = '''' \<Longrightarrow> n \<noteq> '''' \<Longrightarrow> covers (acq n l) (insert n F)"
    and covers_rel: "covers l F \<Longrightarrow> covers (rel n l) (F - {n})"
    and held: "covers l F \<Longrightarrow> a \<in> F \<Longrightarrow> a \<noteq> n \<Longrightarrow> held_by_other l n = a"
begin

definition moves :: "'l \<times> string set \<Rightarrow> 'l \<times> string set \<Rightarrow> bool" where
  "moves v w \<longleftrightarrow>
     (fst w = fst v \<and> snd w \<subseteq> snd v)
     \<or> (\<exists>n. n \<noteq> '''' \<and> held_by_other (fst v) n = '''' \<and> fst w = acq n (fst v) \<and> snd w \<subseteq> insert n (snd v))
     \<or> (\<exists>n. fst w = rel n (fst v) \<and> snd w \<subseteq> snd v - {n})"

lemma moves_covers:
  assumes "covers (fst v) (snd v)" "moves v w"
  shows "covers (fst w) (snd w)"
proof -
  consider "fst w = fst v" "snd w \<subseteq> snd v"
    | n where "n \<noteq> ''''" "held_by_other (fst v) n = ''''" "fst w = acq n (fst v)" "snd w \<subseteq> insert n (snd v)"
    | n where "fst w = rel n (fst v)" "snd w \<subseteq> snd v - {n}"
    using assms(2) unfolding moves_def by blast
  then show ?thesis
  proof cases
    case 1
    with covers_subset [OF assms(1) 1(2)] show ?thesis by simp
  next
    case (2 n)
    with covers_subset [OF covers_acq [OF assms(1) 2(2,1)] 2(4)] show ?thesis by simp
  next
    case (3 n)
    with covers_subset [OF covers_rel [OF assms(1)] 3(2)] show ?thesis by simp
  qed
qed

lemma run_unique:
  assumes "moves\<^sup>*\<^sup>* v w" "covers (fst v) (snd v)"
  shows "covers (fst w) (snd w)" "at_most_one (snd w)"
proof -
  show "covers (fst w) (snd w)"
    using assms by (induction rule: rtranclp_induct) (assumption, rule moves_covers)
  then show "at_most_one (snd w)" by (rule covers_unique)
qed

lemma no_second_start:
  "covers l F \<Longrightarrow> a \<in> F \<Longrightarrow> a \<noteq> n \<Longrightarrow> a \<noteq> '''' \<Longrightarrow> held_by_other l n \<noteq> ''''"
  using held [of l F a n] by simp

end

definition lock_covers :: "campaignLock \<Rightarrow> string set \<Rightarrow> bool" where
  "lock_covers l F \<longleftrightarrow> F \<subseteq> {holder l} - {''''}"

interpretation campaign: exclusive_lock lock_covers heldByOther acquire release
proof unfold_locales
  show "lock_covers l F \<Longrightarrow> at_most_one F" for l F
    unfolding lock_covers_def at_most_one_def by blast
  show "lock_covers l F \<Longrightarrow> F' \<subseteq> F \<Longrightarrow> lock_covers l F'" for l F F'
    unfolding lock_covers_def by blast
  show "lock_covers l F \<Longrightarrow> heldByOther l n = '''' \<Longrightarrow> n \<noteq> '''' \<Longrightarrow> lock_covers (acquire n l) (insert n F)"
    for l F n
    by (auto simp: lock_covers_def heldByOther_def acquire_def split: if_splits)
  show "lock_covers l F \<Longrightarrow> lock_covers (release n l) (F - {n})" for l F n
    by (auto simp: lock_covers_def release_def)
  show "lock_covers l F \<Longrightarrow> a \<in> F \<Longrightarrow> a \<noteq> n \<Longrightarrow> heldByOther l n = a" for l F a n
    by (auto simp: lock_covers_def heldByOther_def)
qed

lemma newCampaignLock_covers:
  "at_most_one (in_flight nodes) \<Longrightarrow> '''' \<notin> set (map n_name nodes) \<Longrightarrow>
   lock_covers (newCampaignLock nodes) (in_flight nodes)"
proof (induction nodes)
  case Nil
  then show ?case by (simp add: lock_covers_def)
next
  case (Cons n ns)
  show ?case
  proof (cases "rolloutInFlight n")
    case True
    then have "n_name n \<in> in_flight (n # ns)" by simp
    with Cons.prems(1) have "in_flight (n # ns) \<subseteq> {n_name n}"
      unfolding at_most_one_def by blast
    with True Cons.prems(2) show ?thesis by (simp add: lock_covers_def)
  next
    case False
    with Cons show ?thesis by simp
  qed
qed

end
