(* ===== verification/Rollout_Pass.thy ===== *)
theory Rollout_Pass
  imports Rollout_Safety
begin

text \<open>
  Whole reconcile passes: the loop of \<open>Reconcile\<close> is a sequence of abstract rollout steps, one per
  node of the work list, so what the abstract machine guarantees holds for every pass, every
  failure of the API server and every interleaving of passes of several NodeTunings.
\<close>

section \<open>A pass is a sequence of abstract steps\<close>

fun pass_steps ::
  "'s rollout_env \<Rightarrow> string \<Rightarrow> int \<Rightarrow> node list \<Rightarrow> node_status list \<Rightarrow> node list \<Rightarrow>
     lock_view \<Rightarrow> lock_view \<Rightarrow> bool" where
  "pass_steps env name gen allNodes prior [] v w \<longleftrightarrow> w = v"
| "pass_steps env name gen allNodes prior (n # ns) v w \<longleftrightarrow>
     (\<exists>u. rollout_step env name gen allNodes n (existingNodeStatus prior (n_name n)) v u
        \<and> pass_steps env name gen allNodes prior ns u w)"

lemma drainAndRequest_nt: "drainAndRequest env n ns unit st = (ns', st') \<Longrightarrow> r_nt st' = r_nt st"
  by (auto simp: drainAndRequest_def failRollout_def Let_def evictPods_def
      dest!: patchNode_Inr split: sum.splits if_splits prod.splits)

lemma continueRollout_nt: "continueRollout env n ns st = (ns', st') \<Longrightarrow> r_nt st' = r_nt st"
  by (auto simp: continueRollout_def failRollout_def Let_def
      dest!: patchNode_Inr drainAndRequest_nt split: sum.splits if_splits option.splits)

definition same_nt :: "'s node_tuning \<Rightarrow> 's node_tuning \<Rightarrow> bool" where
  "same_nt t u \<longleftrightarrow> nt_name u = nt_name t \<and> nt_generation u = nt_generation t \<and> nt_spec u = nt_spec t"

lemma same_nt_refl [simp]: "same_nt t t"
  by (simp add: same_nt_def)

lemma ensureFinalizer_same: "ensureFinalizer env nm st = (r, st') \<Longrightarrow> same_nt (r_nt st) (r_nt st')"
  by (auto simp: same_nt_def dest: ensureFinalizer_view)

lemma startRollout_nt:
  "startRollout env n ns reason allNodes st = (ns', st') \<Longrightarrow> same_nt (r_nt st) (r_nt st')"
  by (auto simp: startRollout_def Let_def dest!: patchNode_Inr ensureFinalizer_same
      split: sum.splits if_splits option.splits prod.splits)

lemma reconcile_node_nt:
  "reconcile_node env all allNodes n ns st = (e, own, act, st') \<Longrightarrow> same_nt (r_nt st) (r_nt st')"
  by (auto simp: reconcile_node_def Let_def dest!: continueRollout_nt startRollout_nt
      split: if_splits prod.splits)

lemma reconcile_nodes_steps:
  "reconcile_nodes env all allNodes prior work st = (es, owns, acts, st') \<Longrightarrow>
   pass_steps env (nt_name (r_nt st)) (nt_generation (r_nt st)) allNodes prior work (view st) (view st')"
proof (induction work arbitrary: st es owns acts)
  case Nil
  then show ?case by simp
next
  case (Cons n ns)
  obtain e own act st1 where e:
    "reconcile_node env all allNodes n (existingNodeStatus prior (n_name n)) st = (e, own, act, st1)"
    by (metis surj_pair)
  obtain es' owns' acts' st2 where r:
    "reconcile_nodes env all allNodes prior ns st1 = (es', owns', acts', st2)"
    by (metis surj_pair)
  have "st2 = st'" using Cons.prems e r by simp
  with r have "pass_steps env (nt_name (r_nt st1)) (nt_generation (r_nt st1)) allNodes prior ns
      (view st1) (view st')"
    using Cons.IH by blast
  with reconcile_node_step [OF e] reconcile_node_nt [OF e] show ?case
    by (auto simp: same_nt_def simp del: split_paired_Ex)
qed

text \<open>What a pass does to the nodes: nothing, the releases of a deletion, or abstract steps over a
  work list of nodes as they were read.\<close>

definition work_list :: "'s rollout_env \<Rightarrow> 's cluster \<Rightarrow> 's node_tuning \<Rightarrow> node list" where
  "work_list env cl nt =
     (case selectNodes (e_as_selector env) (c_nodes cl) (sp_nodeSelector (nt_spec nt)) of
        Inl _ \<Rightarrow> []
      | Inr matched \<Rightarrow> matched @ adoptOwnedNodes (c_nodes cl) matched (nt_name nt))"

lemma patchStatus_nodes: "patchStatus env ns st = (r, st') \<Longrightarrow> c_nodes st' = c_nodes st"
  by (auto simp: patchStatus_def Let_def split: option.splits)

lemma removeFinalizer_nodes: "removeFinalizer env nt st = (r, st') \<Longrightarrow> c_nodes st' = c_nodes st"
  by (auto simp: removeFinalizer_def split: if_splits option.splits)

lemma view_begin_pass [simp]: "view (begin_pass cl nt) = (c_nodes cl, newCampaignLock (c_nodes cl))"
  by (simp add: view_def begin_pass_def)

lemma begin_pass_nt [simp]: "r_nt (begin_pass cl nt) = nt"
  by (simp add: begin_pass_def)

lemma Reconcile_cases:
  assumes "Reconcile env req cl = (o', cl')"
  obtains (idle) "cl' = cl"
  | (deletion) nt where "find (\<lambda>t. nt_name t = req) (c_tunings cl) = Some nt" "nt_deleting nt"
      "\<exists>r. finishDeletion env nt (c_nodes cl) cl = (r, cl')"
  | (pass) nt es owns acts st1 r st2 st3 where
      "find (\<lambda>t. nt_name t = req) (c_tunings cl) = Some nt"
      "\<not> nt_deleting nt \<and>
       (\<exists>ms. selectNodes (e_as_selector env) (c_nodes cl) (sp_nodeSelector (nt_spec nt)) = Inr ms)"
      "reconcile_nodes env (c_tunings cl) (c_nodes cl) (nt_nodes nt) (work_list env cl nt)
         (begin_pass cl nt) = (es, owns, acts, st1)"
      "patchStatus env (sort_key ns_name es) st1 = (r, st2)"
      "st3 = st2 \<or> r = None \<and> \<not> owns \<and> (\<exists>r'. removeFinalizer env (r_nt st2) st2 = (r', st3))"
      "cl' = end_pass st3"
proof -
  show thesis
  proof (cases "cl' = cl")
    case True
    then show thesis by (rule idle)
  next
    case False
    obtain nt where nt: "find (\<lambda>t. nt_name t = req) (c_tunings cl) = Some nt"
      using assms False by (auto simp: Reconcile_def split: option.splits)
    show thesis
    proof (cases "nt_deleting nt")
      case True
      then show thesis
        using assms False nt
        by (intro deletion [OF nt True]) (auto simp: Reconcile_def Let_def split: option.splits prod.splits)
    next
      case nd: False
      obtain matched where m:
        "selectNodes (e_as_selector env) (c_nodes cl) (sp_nodeSelector (nt_spec nt)) = Inr matched"
        using assms False nt nd by (auto simp: Reconcile_def Let_def split: option.splits sum.splits)
      obtain es owns acts st1 where r:
        "reconcile_nodes env (c_tunings cl) (c_nodes cl) (nt_nodes nt) (work_list env cl nt)
           (begin_pass cl nt) = (es, owns, acts, st1)"
        by (metis surj_pair)
      obtain r' st2 where ps: "patchStatus env (sort_key ns_name es) st1 = (r', st2)"
        by fastforce
      have "\<exists>st3. (st3 = st2 \<or> r' = None \<and> \<not> owns \<and> (\<exists>r''. removeFinalizer env (r_nt st2) st2 = (r'', st3)))
          \<and> cl' = end_pass st3"
        using assms False nt nd m r ps
        by (auto simp: Reconcile_def Let_def work_list_def split: option.splits prod.splits if_splits)
      then show thesis using pass [OF nt _ r ps] nd m by blast
    qed
  qed
qed

lemma end_pass_nodes [simp]: "c_nodes (end_pass st) = c_nodes st" "c_tunings (end_pass st) = c_tunings st"
  by (simp_all add: end_pass_def)

lemma Reconcile_nodes_cases:
  assumes "Reconcile env req cl = (o', cl')"
  obtains (idle) "c_nodes cl' = c_nodes cl"
  | (deletion) nt where "find (\<lambda>t. nt_name t = req) (c_tunings cl) = Some nt" "nt_deleting nt"
      "\<exists>r. finishDeletion env nt (c_nodes cl) cl = (r, cl')"
  | (pass) nt l' where "find (\<lambda>t. nt_name t = req) (c_tunings cl) = Some nt" "\<not> nt_deleting nt"
      "pass_steps env (nt_name nt) (nt_generation nt) (c_nodes cl) (nt_nodes nt) (work_list env cl nt)
         (c_nodes cl, newCampaignLock (c_nodes cl)) (c_nodes cl', l')"
proof (rule Reconcile_cases [OF assms])
  fix nt es owns acts st1 r st2 st3
  assume a: "find (\<lambda>t. nt_name t = req) (c_tunings cl) = Some nt"
    and b: "\<not> nt_deleting nt \<and>
       (\<exists>ms. selectNodes (e_as_selector env) (c_nodes cl) (sp_nodeSelector (nt_spec nt)) = Inr ms)"
    and r: "reconcile_nodes env (c_tunings cl) (c_nodes cl) (nt_nodes nt) (work_list env cl nt)
         (begin_pass cl nt) = (es, owns, acts, st1)"
    and ps: "patchStatus env (sort_key ns_name es) st1 = (r, st2)"
    and st3: "st3 = st2 \<or> r = None \<and> \<not> owns \<and> (\<exists>r'. removeFinalizer env (r_nt st2) st2 = (r', st3))"
    and cl': "cl' = end_pass st3"
  have "c_nodes cl' = c_nodes st1"
    using st3 cl' patchStatus_nodes [OF ps] removeFinalizer_nodes by fastforce
  with reconcile_nodes_steps [OF r]
  show thesis by (intro pass [OF a b [THEN conjunct1], of "r_lock st1"]) (simp add: view_def begin_pass_def)
qed (auto intro: idle deletion)

lemma work_list_subset: "set (work_list env cl nt) \<subseteq> set (c_nodes cl)"
  by (auto simp: work_list_def selectNodes_def adoptOwnedNodes_def split: sum.splits option.splits)

section \<open>One node at a time\<close>

lemma rollout_step_moves:
  "rollout_step env name gen allNodes n ns v w \<Longrightarrow> n_name n \<noteq> '''' \<Longrightarrow>
   campaign.moves (snd v, in_flight (fst v)) (snd w, in_flight (fst w))"
  by (induction rule: rollout_step.induct)
    (auto simp: campaign.moves_def in_flight_patch_keep in_flight_uncordon dest: in_flight_cordon [THEN subsetD])

lemma pass_steps_moves:
  assumes "pass_steps env name gen allNodes prior work v w" "\<forall>n \<in> set work. n_name n \<noteq> ''''"
  shows "campaign.moves\<^sup>*\<^sup>* (snd v, in_flight (fst v)) (snd w, in_flight (fst w))"
  using assms
proof (induction work arbitrary: v)
  case Nil
  then show ?case by simp
next
  case (Cons n ns)
  then obtain u where u: "rollout_step env name gen allNodes n (existingNodeStatus prior (n_name n)) v u"
    "pass_steps env name gen allNodes prior ns u w"
    by (auto simp del: split_paired_Ex)
  have "campaign.moves (snd v, in_flight (fst v)) (snd u, in_flight (fst u))"
    using u(1) Cons.prems(2) by (intro rollout_step_moves) auto
  moreover have "campaign.moves\<^sup>*\<^sup>* (snd u, in_flight (fst u)) (snd w, in_flight (fst w))"
    using u(2) Cons.prems(2) by (intro Cons.IH) auto
  ultimately show ?case by (rule converse_rtranclp_into_rtranclp)
qed

lemma release_owned_in_flight:
  "release_owned env nm ns st = (r, st') \<Longrightarrow>
   in_flight (c_nodes st') \<subseteq> in_flight (c_nodes st) \<and> map n_name (c_nodes st') = map n_name (c_nodes st)"
proof (induction env nm ns st arbitrary: r st' rule: release_owned.induct)
  case (2 env nm n ns st)
  show ?case
  proof (cases "rolloutOwnedBy n nm")
    case True
    show ?thesis
    proof (cases "releaseNode env st n")
      case (Inl e)
      with True "2.prems" show ?thesis by simp
    next
      case (Inr st1)
      then have "st1 = st\<lparr>c_nodes := patch_server (n_name n) uncordon_and_clear (c_nodes st)\<rparr>"
        unfolding releaseNode_def by (rule patchNode_Inr)
      with "2.IH"(2) [OF _ Inr] True "2.prems" Inr show ?thesis
        by (auto simp: in_flight_uncordon)
    qed
  next
    case False
    with 2 show ?thesis by simp
  qed
qed simp

lemma finishDeletion_in_flight:
  assumes "finishDeletion env nt all st = (r, st')"
  shows "in_flight (c_nodes st') \<subseteq> in_flight (c_nodes st) \<and>
    map n_name (c_nodes st') = map n_name (c_nodes st)"
proof -
  obtain r1 st1 where rel: "release_owned env (nt_name nt) all st = (r1, st1)"
    by (cases "release_owned env (nt_name nt) all st")
  with assms have "c_nodes st' = c_nodes st1"
    by (auto simp: finishDeletion_def split: option.splits dest: removeFinalizer_nodes)
  with release_owned_in_flight [OF rel] show ?thesis by simp
qed

lemma rollout_step_names:
  "rollout_step env name gen allNodes n ns v w \<Longrightarrow> map n_name (fst w) = map n_name (fst v)"
  by (induction rule: rollout_step.induct) auto

lemma pass_steps_names:
  "pass_steps env name gen allNodes prior work v w \<Longrightarrow> map n_name (fst w) = map n_name (fst v)"
  by (induction work arbitrary: v) (auto simp del: split_paired_Ex dest!: rollout_step_names)

lemma Reconcile_names:
  assumes "Reconcile env req cl = (o', cl')"
  shows "map n_name (c_nodes cl') = map n_name (c_nodes cl)"
  using assms
  by (rule Reconcile_nodes_cases) (auto dest: finishDeletion_in_flight pass_steps_names)

lemma Reconcile_at_most_one:
  assumes "Reconcile env req cl = (o', cl')" "nodes_named (c_nodes cl)"
    "at_most_one (in_flight (c_nodes cl))"
  shows "at_most_one (in_flight (c_nodes cl'))"
  using assms(1)
proof (cases rule: Reconcile_nodes_cases)
  case idle
  with assms(3) show ?thesis by simp
next
  case (deletion nt)
  then show ?thesis
    using assms(3) finishDeletion_in_flight unfolding at_most_one_def by blast
next
  case (pass nt l')
  have named: "\<forall>n \<in> set (work_list env cl nt). n_name n \<noteq> ''''"
    using assms(2) work_list_subset [of env cl nt] by (force simp: nodes_named_def)
  have cov: "lock_covers (newCampaignLock (c_nodes cl)) (in_flight (c_nodes cl))"
    using assms(2,3) by (intro newCampaignLock_covers) (auto simp: nodes_named_def)
  show ?thesis
    using campaign.run_unique(2) [OF pass_steps_moves [OF pass(3) named]] cov by simp
qed

section \<open>The cluster over time\<close>

text \<open>
  The cluster as a state machine: reconcile passes of any NodeTuning under any environment,
  interleaved with everything else that writes these objects. Agents, kubelets and humans change
  nodes freely, except that nobody but the controller adds the started annotation; nodes join and
  leave; NodeTunings are created, edited, deleted and their status patched.
\<close>

inductive cluster_step :: "'s cluster \<Rightarrow> 's cluster \<Rightarrow> bool" where
  reconcile: "cluster_step cl cl'" if "Reconcile env req cl = (o', cl')"
| node_write: "cluster_step cl (cl\<lparr>c_nodes := patch_server nm f (c_nodes cl)\<rparr>)"
  if "\<And>m. n_name (f m) = n_name m" "\<And>m. rolloutInFlight (f m) \<Longrightarrow> rolloutInFlight m"
| node_join: "cluster_step cl (cl\<lparr>c_nodes := c_nodes cl @ [n]\<rparr>)"
  if "n_name n \<noteq> ''''" "n_name n \<notin> set (map n_name (c_nodes cl))" "\<not> rolloutInFlight n"
| node_leave: "cluster_step cl (cl\<lparr>c_nodes := filter P (c_nodes cl)\<rparr>)"
| tunings: "cluster_step cl (cl\<lparr>c_tunings := ts\<rparr>)"

lemma in_flight_patch_subset:
  "(\<And>m. n_name (f m) = n_name m) \<Longrightarrow> (\<And>m. rolloutInFlight (f m) \<Longrightarrow> rolloutInFlight m) \<Longrightarrow>
   in_flight (patch_server nm f nodes) \<subseteq> in_flight nodes"
  by (induction nodes) auto

lemma in_flight_append [simp]: "in_flight (xs @ ys) = in_flight xs \<union> in_flight ys"
  by (auto simp: in_flight_def)

lemma at_most_one_subset: "at_most_one F \<Longrightarrow> F' \<subseteq> F \<Longrightarrow> at_most_one F'"
  unfolding at_most_one_def by blast

lemma cluster_step_invariant:
  assumes "cluster_step cl cl'" "nodes_named (c_nodes cl)" "at_most_one (in_flight (c_nodes cl))"
  shows "nodes_named (c_nodes cl') \<and> at_most_one (in_flight (c_nodes cl'))"
  using assms
proof (induction rule: cluster_step.induct)
  case (reconcile env req cl o' cl')
  then show ?case
    using Reconcile_names [OF reconcile(1)] Reconcile_at_most_one by (simp add: nodes_named_def)
next
  case (node_write f cl nm)
  then show ?case
    using in_flight_patch_subset [of f nm "c_nodes cl"] at_most_one_subset by (auto simp: nodes_named_def)
next
  case (node_join n cl)
  then show ?case by (simp add: nodes_named_def)
next
  case (node_leave cl P)
  then have "in_flight (filter P (c_nodes cl)) \<subseteq> in_flight (c_nodes cl)"
    by (auto simp: in_flight_def)
  with node_leave show ?case
    using at_most_one_subset by (auto simp: nodes_named_def distinct_map_filter)
next
  case (tunings cl ts)
  then show ?case by simp
qed

lemma cluster_run_invariant:
  assumes "cluster_step\<^sup>*\<^sup>* cl cl'" "nodes_named (c_nodes cl)" "at_most_one (in_flight (c_nodes cl))"
  shows "nodes_named (c_nodes cl') \<and> at_most_one (in_flight (c_nodes cl'))"
  using assms
  by (induction rule: rtranclp_induct) (auto dest: cluster_step_invariant)

end
