(* ===== verification/Rollout_Claims.thy ===== *)
theory Rollout_Claims
  imports Rollout_Pass
begin

text \<open>
  The promises of the NodeTuning rollout over whole reconcile passes: which node a pass may take
  down, when it may bring one back, what a halted campaign does, and what the finalizer protects.
\<close>

section \<open>What one pass does to the set of nodes in flight\<close>

definition cordon_guard ::
  "'s rollout_env \<Rightarrow> int \<Rightarrow> node list \<Rightarrow> node_status list \<Rightarrow> node \<Rightarrow> bool" where
  "cordon_guard env gen allNodes prior n \<longleftrightarrow>
     \<not> rolloutInFlight n \<and> (\<forall>m \<in> set allNodes. nodeIsReady m)
     \<and> approvedForGeneration n gen
     \<and> \<not> restartedForGeneration (existingNodeStatus prior (n_name n)) gen
     \<and> IsRestartable (anno_text env (n_annotations n TuningUnitAnnotation))"

definition finish_guard :: "string \<Rightarrow> node \<Rightarrow> bool" where
  "finish_guard name n \<longleftrightarrow>
     rolloutOwnedBy n name \<and> \<not> rolloutHalted n \<and> nodeIsReady n
     \<and> (\<exists>b c. annotationTime n TuningRestartBaselineAnnotation = Inr b
          \<and> annotationTime n TuningUnitActiveEnterAnnotation = Inr c \<and> b < c)"

lemma rollout_step_started:
  "rollout_step env name gen allNodes n (existingNodeStatus prior (n_name n)) v w \<Longrightarrow>
   x \<in> in_flight (fst w) \<Longrightarrow>
   x \<in> in_flight (fst v) \<or> x = n_name n \<and> cordon_guard env gen allNodes prior n"
  by (induction rule: rollout_step.induct)
    (auto simp: cordon_guard_def in_flight_patch_keep in_flight_uncordon
      dest: in_flight_cordon [THEN subsetD])

lemma rollout_step_finished:
  "rollout_step env name gen allNodes n ns v w \<Longrightarrow> x \<in> in_flight (fst v) \<Longrightarrow>
   x \<in> in_flight (fst w) \<or> x = n_name n \<and> finish_guard name n"
  by (induction rule: rollout_step.induct)
    (auto simp: finish_guard_def in_flight_patch_keep in_flight_uncordon
      dest: in_flight_cordon_mono [THEN subsetD])

lemma pass_steps_started:
  "pass_steps env name gen allNodes prior work v w \<Longrightarrow> x \<in> in_flight (fst w) \<Longrightarrow>
   x \<in> in_flight (fst v) \<or> (\<exists>n \<in> set work. x = n_name n \<and> cordon_guard env gen allNodes prior n)"
  by (induction work arbitrary: v) (auto simp del: split_paired_Ex dest: rollout_step_started)

lemma pass_steps_finished:
  "pass_steps env name gen allNodes prior work v w \<Longrightarrow> x \<in> in_flight (fst v) \<Longrightarrow>
   x \<in> in_flight (fst w) \<or> (\<exists>n \<in> set work. x = n_name n \<and> finish_guard name n)"
  by (induction work arbitrary: v) (auto simp del: split_paired_Ex dest: rollout_step_finished)

section \<open>A halted node\<close>

lemma patch_server_other:
  "h \<in> set nodes \<Longrightarrow> nm \<noteq> n_name h \<Longrightarrow> h \<in> set (patch_server nm f nodes)"
  by (induction nodes) auto

lemma rollout_step_keeps_halted:
  assumes "rollout_step env name gen allNodes n ns v w" "h \<in> set (fst v)"
    "rolloutInFlight h" "rolloutHalted h" "n_name n = n_name h \<longrightarrow> n = h"
  shows "h \<in> set (fst w)"
  using assms
  by (induction rule: rollout_step.induct) (auto simp: rolloutOwnedBy_def intro: patch_server_other)

lemma pass_steps_keeps_halted:
  "pass_steps env name gen allNodes prior work v w \<Longrightarrow> h \<in> set (fst v) \<Longrightarrow> rolloutInFlight h \<Longrightarrow>
   rolloutHalted h \<Longrightarrow> \<forall>n \<in> set work. n_name n = n_name h \<longrightarrow> n = h \<Longrightarrow> h \<in> set (fst w)"
  by (induction work arbitrary: v)
    (auto simp del: split_paired_Ex dest: rollout_step_keeps_halted)

lemma release_owned_keeps:
  "release_owned env nm ns st = (r, st') \<Longrightarrow> h \<in> set (c_nodes st) \<Longrightarrow>
   \<forall>n \<in> set ns. n_name n = n_name h \<longrightarrow> \<not> rolloutOwnedBy n nm \<Longrightarrow> h \<in> set (c_nodes st')"
proof (induction env nm ns st arbitrary: r st' rule: release_owned.induct)
  case (2 env nm n ns st)
  show ?case
  proof (cases "rolloutOwnedBy n nm")
    case True
    then have ne: "n_name n \<noteq> n_name h" using "2.prems"(3) by auto
    show ?thesis
    proof (cases "releaseNode env st n")
      case (Inl e)
      with True "2.prems" show ?thesis by simp
    next
      case (Inr st1)
      then have "st1 = st\<lparr>c_nodes := patch_server (n_name n) uncordon_and_clear (c_nodes st)\<rparr>"
        unfolding releaseNode_def by (rule patchNode_Inr)
      then have "h \<in> set (c_nodes st1)" using "2.prems"(2) ne by (simp add: patch_server_other)
      with "2.IH"(2) [OF _ Inr] True "2.prems" Inr show ?thesis by simp
    qed
  next
    case False
    with 2 show ?thesis by simp
  qed
qed simp

lemma finishDeletion_keeps:
  assumes "finishDeletion env nt all st = (r, st')" "h \<in> set (c_nodes st)"
    "\<forall>n \<in> set all. n_name n = n_name h \<longrightarrow> \<not> rolloutOwnedBy n (nt_name nt)"
  shows "h \<in> set (c_nodes st')"
proof -
  obtain r1 st1 where rel: "release_owned env (nt_name nt) all st = (r1, st1)"
    by (cases "release_owned env (nt_name nt) all st")
  with assms(1) have "c_nodes st' = c_nodes st1"
    by (auto simp: finishDeletion_def split: option.splits dest: removeFinalizer_nodes)
  with release_owned_keeps [OF rel assms(2,3)] show ?thesis by simp
qed

lemma Reconcile_keeps_halted:
  assumes "Reconcile env req cl = (o', cl')" "nodes_named (c_nodes cl)" "h \<in> set (c_nodes cl)"
    "rolloutInFlight h" "rolloutHalted h"
    "\<forall>t \<in> set (c_tunings cl). nt_deleting t \<longrightarrow> \<not> rolloutOwnedBy h (nt_name t)"
  shows "h \<in> set (c_nodes cl')"
proof -
  have uniq: "n = h" if "n \<in> set (c_nodes cl)" "n_name n = n_name h" for n
    using distinct_map_unique [of n_name "c_nodes cl" n h] that assms(2,3) by (simp add: nodes_named_def)
  show ?thesis
    using assms(1)
  proof (cases rule: Reconcile_nodes_cases)
    case idle
    with assms(3) show ?thesis by simp
  next
    case (deletion nt)
    then have "\<not> rolloutOwnedBy h (nt_name nt)"
      using assms(6) by (auto simp: find_Some_iff)
    then show ?thesis using deletion(3) finishDeletion_keeps [OF _ assms(3)] uniq by blast
  next
    case (pass nt l')
    show ?thesis
      using pass_steps_keeps_halted [OF pass(3), of h] assms(3-5) uniq work_list_subset [of env cl nt]
      by auto
  qed
qed

definition run_passes ::
  "('s rollout_env \<times> string \<times> 's node_tuning list) list \<Rightarrow> 's cluster \<Rightarrow> 's cluster" where
  "run_passes = fold (\<lambda>(env, req, ts) cl. snd (Reconcile env req (cl\<lparr>c_tunings := ts\<rparr>)))"

lemma run_passes_halted:
  assumes "nodes_named (c_nodes cl)" "at_most_one (in_flight (c_nodes cl))" "h \<in> set (c_nodes cl)"
    "rolloutInFlight h" "rolloutHalted h"
    "\<forall>(env, req, ts) \<in> set passes. \<forall>t \<in> set ts. nt_deleting t \<longrightarrow> \<not> rolloutOwnedBy h (nt_name t)"
  shows "nodes_named (c_nodes (run_passes passes cl)) \<and> at_most_one (in_flight (c_nodes (run_passes passes cl)))
    \<and> h \<in> set (c_nodes (run_passes passes cl))"
  using assms
proof (induction passes arbitrary: cl)
  case Nil
  then show ?case by (simp add: run_passes_def)
next
  case (Cons p ps)
  obtain env req ts where p: "p = (env, req, ts)" by (cases p)
  obtain o' cl' where r: "Reconcile env req (cl\<lparr>c_tunings := ts\<rparr>) = (o', cl')"
    by (cases "Reconcile env req (cl\<lparr>c_tunings := ts\<rparr>)")
  have "nodes_named (c_nodes cl')" "at_most_one (in_flight (c_nodes cl'))" "h \<in> set (c_nodes cl')"
    using Reconcile_names [OF r] Reconcile_at_most_one [OF r] Reconcile_keeps_halted [OF r, of h] Cons.prems p
    by (simp_all add: nodes_named_def)
  with Cons.IH [of cl'] Cons.prems r p show ?case by (simp add: run_passes_def)
qed

end
