(* ===== verification/Rollout_Finalizer.thy ===== *)
theory Rollout_Finalizer
  imports Rollout_Claims
begin

text \<open>
  The finalizer. A NodeTuning that owns a cordoned node must carry \<open>nodeTuningFinalizer\<close> on the
  server, so that it cannot disappear and leave the node cordoned for good. Shown here for every
  pass whose \<open>Update\<close> calls succeed; a failing one breaks it, see the last section.
\<close>

definition owners :: "node list \<Rightarrow> string set" where
  "owners nodes = {x. \<exists>m \<in> set nodes. rolloutOwnedBy m x}"

definition unfinalized :: "'s node_tuning list \<Rightarrow> string set" where
  "unfinalized ts = nt_name ` {t \<in> set ts. \<not> nt_finalizer t}"

definition finalizer_protects :: "('s, 'z) cluster_scheme \<Rightarrow> bool" where
  "finalizer_protects cl \<longleftrightarrow> owners (c_nodes cl) \<inter> unfinalized (c_tunings cl) = {}"

definition finalizer_synced :: "'s rollout_state \<Rightarrow> bool" where
  "finalizer_synced st \<longleftrightarrow>
     (\<forall>t \<in> set (c_tunings st). nt_name t = nt_name (r_nt st) \<longrightarrow> nt_finalizer t = nt_finalizer (r_nt st))"

section \<open>Who owns the nodes after a step\<close>

lemma owned_by_cordon [simp]: "rolloutOwnedBy (cordon_mutate env nm n) x \<longleftrightarrow> x = nm"
  by (auto simp: rolloutOwnedBy_def cordon_mutate_annotations)

lemma owned_by_uncordon [simp]: "\<not> rolloutOwnedBy (uncordon_and_clear n) x"
  by (simp add: rolloutOwnedBy_def)

lemma owned_by_mark [simp]:
  "rolloutOwnedBy (setNodeAnnotation TuningRolloutFailedAnnotation v n) x = rolloutOwnedBy n x"
  "rolloutOwnedBy (setNodeAnnotation TuningRestartRequestedAnnotation v n) x = rolloutOwnedBy n x"
  "rolloutOwnedBy (setNodeAnnotation TuningRestartBaselineAnnotation v n) x = rolloutOwnedBy n x"
  by (simp_all add: rolloutOwnedBy_def) (simp_all add: annotation_keys)

lemma owners_simps [simp]:
  "owners [] = {}" "owners (n # ns) = {x. rolloutOwnedBy n x} \<union> owners ns"
  by (auto simp: owners_def)

lemma owners_patch:
  "(\<And>m x. rolloutOwnedBy (f m) x \<Longrightarrow> rolloutOwnedBy m x \<or> x \<in> A) \<Longrightarrow>
   owners (patch_server nm f nodes) \<subseteq> owners nodes \<union> A"
  by (induction nodes) auto

lemma owners_patch_keep:
  "(\<And>m x. rolloutOwnedBy (f m) x \<Longrightarrow> rolloutOwnedBy m x) \<Longrightarrow> owners (patch_server nm f nodes) \<subseteq> owners nodes"
  using owners_patch [of f "{}"] by simp

lemma rollout_step_owners:
  "rollout_step env name gen allNodes n ns v w \<Longrightarrow>
   owners (fst w) \<subseteq> owners (fst v) \<or> \<not> rolloutInFlight n \<and> owners (fst w) \<subseteq> owners (fst v) \<union> {name}"
proof (induction rule: rollout_step.induct)
  case (cordon l nodes)
  then show ?case using owners_patch [of "cordon_mutate env name" "{name}"] by simp
qed (rule disjI1, simp only: fst_conv, (rule owners_patch_keep, simp)?)+

section \<open>The finalizer through one node\<close>

lemma ensureFinalizer_set:
  assumes "ensureFinalizer env nm st = (None, st')"
  shows "nt_finalizer (r_nt st')"
  using assms by (auto simp: ensureFinalizer_def Let_def split: if_splits option.splits)

definition finalizer_kept :: "'s rollout_state \<Rightarrow> 's rollout_state \<Rightarrow> bool" where
  "finalizer_kept st st' \<longleftrightarrow> unfinalized (c_tunings st') \<subseteq> unfinalized (c_tunings st) \<and> finalizer_synced st'"

lemma finalizer_kept_same:
  "finalizer_synced st \<Longrightarrow> c_tunings st' = c_tunings st \<Longrightarrow> r_nt st' = r_nt st \<Longrightarrow> finalizer_kept st st'"
  by (simp add: finalizer_kept_def finalizer_synced_def)

lemma ensureFinalizer_kept:
  assumes "ensureFinalizer env nm st = (r, st')" "e_update_err env nm = None" "finalizer_synced st"
  shows "finalizer_kept st st'"
proof (cases "nt_finalizer (r_nt st)")
  case True
  with assms(1,3) show ?thesis by (simp add: ensureFinalizer_def finalizer_kept_same)
next
  case False
  then have "c_tunings st' = map (\<lambda>t. if nt_name t = nt_name (r_nt st) then t\<lparr>nt_finalizer := True\<rparr> else t) (c_tunings st)"
    "r_nt st' = (r_nt st)\<lparr>nt_finalizer := True\<rparr>"
    using assms(1,2) by (auto simp: ensureFinalizer_def Let_def update_tuning_def)
  then show ?thesis by (auto simp: finalizer_kept_def finalizer_synced_def unfinalized_def)
qed

lemma finalizer_kept_cong:
  "finalizer_kept st st1 \<Longrightarrow> c_tunings st2 = c_tunings st1 \<Longrightarrow> r_nt st2 = r_nt st1 \<Longrightarrow> finalizer_kept st st2"
  by (simp add: finalizer_kept_def finalizer_synced_def)

lemma startRollout_finalizer:
  assumes "startRollout env n ns reason allNodes st = (ns', st')" "e_update_err env (n_name n) = None"
    "finalizer_synced st"
  shows "finalizer_kept st st'"
    and "view st' = view st \<or> nt_finalizer (r_nt st') \<and> ns_phase ns' = PhaseApplying"
proof -
  consider "st' = st" | st1 where "ensureFinalizer env (n_name n) st = (None, st1)"
      "c_tunings st' = c_tunings st1" "r_nt st' = r_nt st1"
      "view st' = view st1 \<or> ns_phase ns' = PhaseApplying"
    using assms(1,2) ensureFinalizer_view
    by (fastforce simp: startRollout_def Let_def ensureFinalizer_def
        dest!: patchNode_Inr split: if_splits sum.splits prod.splits option.splits)
  then show "finalizer_kept st st'"
    "view st' = view st \<or> nt_finalizer (r_nt st') \<and> ns_phase ns' = PhaseApplying"
  proof (atomize (full), cases)
    case 1
    then show "finalizer_kept st st' \<and> (view st' = view st \<or> nt_finalizer (r_nt st') \<and> ns_phase ns' = PhaseApplying)"
      using assms(3) by (simp add: finalizer_kept_same)
  next
    case (2 st1)
    then show "finalizer_kept st st' \<and> (view st' = view st \<or> nt_finalizer (r_nt st') \<and> ns_phase ns' = PhaseApplying)"
      using ensureFinalizer_kept [OF 2(1) assms(2,3)] ensureFinalizer_set [OF 2(1)]
        ensureFinalizer_view [OF 2(1)] finalizer_kept_cong
      by (auto simp: view_def)
  qed
qed

lemma continueRollout_tunings:
  "continueRollout env n ns st = (ns', st') \<Longrightarrow> c_tunings st' = c_tunings st"
  by (auto simp: continueRollout_def drainAndRequest_def failRollout_def Let_def evictPods_def
      dest!: patchNode_Inr split: sum.splits if_splits option.splits prod.splits)

lemma reconcile_node_finalizer:
  assumes "reconcile_node env all allNodes n ns st = (e, own, act, st')"
    "e_update_err env (n_name n) = None" "finalizer_synced st"
  shows "finalizer_kept st st' \<and> (rolloutInFlight n \<or> view st' = view st \<or> nt_finalizer (r_nt st'))
    \<and> (own \<or> view st' = view st \<and> \<not> rolloutOwnedBy n (nt_name (r_nt st)))"
proof -
  obtain reason needs where d: "diffTuning (nt_spec (r_nt st)) (ns_observed ns) = (reason, needs)"
    by (cases "diffTuning (nt_spec (r_nt st)) (ns_observed ns)")
  consider (same) "st' = st" "own \<or> \<not> rolloutOwnedBy n (nt_name (r_nt st))"
    | (continue) "rolloutOwnedBy n (nt_name (r_nt st))" "own" "\<exists>ns'. continueRollout env n ns st = (ns', st')"
    | (start) ns' where "\<not> rolloutInFlight n" "own \<longleftrightarrow> ns_phase ns' = PhaseApplying"
      "startRollout env n ns reason allNodes st = (ns', st')"
    using assms(1) d
    by (fastforce simp: reconcile_node_def Let_def rolloutOwnedBy_def split: if_splits prod.splits)
  then show ?thesis
  proof cases
    case same
    with assms(3) show ?thesis by (auto simp: finalizer_kept_same)
  next
    case continue
    then show ?thesis
      using assms(3) by (auto simp: rolloutOwnedBy_def
        intro!: finalizer_kept_same dest: continueRollout_tunings continueRollout_nt)
  next
    case start
    then show ?thesis
      using startRollout_finalizer [OF start(3) assms(2,3)] by (auto simp: rolloutOwnedBy_def)
  qed
qed

section \<open>The finalizer through a pass\<close>

lemma synced_not_unfinalized:
  "finalizer_synced st \<Longrightarrow> nt_finalizer (r_nt st) \<Longrightarrow> nt_name (r_nt st) \<notin> unfinalized (c_tunings st)"
  by (auto simp: finalizer_synced_def unfinalized_def)

lemma reconcile_node_protects:
  assumes "reconcile_node env all allNodes n ns st = (e, own, act, st')"
    "e_update_err env (n_name n) = None" "finalizer_synced st" "finalizer_protects st"
  shows "finalizer_synced st' \<and> finalizer_protects st'"
proof -
  have k: "finalizer_kept st st'" and c: "rolloutInFlight n \<or> view st' = view st \<or> nt_finalizer (r_nt st')"
    using reconcile_node_finalizer [OF assms(1-3)] by auto
  have nm: "nt_name (r_nt st') = nt_name (r_nt st)"
    using reconcile_node_nt [OF assms(1)] by (simp add: same_nt_def)
  have "owners (c_nodes st') \<subseteq> owners (c_nodes st)
    \<or> nt_finalizer (r_nt st') \<and> owners (c_nodes st') \<subseteq> owners (c_nodes st) \<union> {nt_name (r_nt st)}"
    using rollout_step_owners [OF reconcile_node_step [OF assms(1)]] c by (auto simp: view_def)
  then show ?thesis
    using k synced_not_unfinalized [of st'] assms(4) nm
    unfolding finalizer_protects_def finalizer_kept_def by auto
qed

lemma reconcile_nodes_finalizer:
  assumes "reconcile_nodes env all allNodes prior work st = (es, owns, acts, st')"
    "\<forall>nm. e_update_err env nm = None" "finalizer_synced st" "finalizer_protects st"
  shows "finalizer_synced st' \<and> finalizer_protects st' \<and> nt_name (r_nt st') = nt_name (r_nt st)
    \<and> (owns \<or> view st' = view st \<and> (\<forall>n \<in> set work. \<not> rolloutOwnedBy n (nt_name (r_nt st))))"
  using assms
proof (induction work arbitrary: st es owns acts)
  case Nil
  then show ?case by simp
next
  case (Cons n ns)
  obtain e own act st1 where e:
    "reconcile_node env all allNodes n (existingNodeStatus prior (n_name n)) st = (e, own, act, st1)"
    by (metis surj_pair)
  obtain es' owns' acts' where r:
    "reconcile_nodes env all allNodes prior ns st1 = (es', owns', acts', st')" "owns \<longleftrightarrow> own \<or> owns'"
    using Cons.prems(1) e by (auto split: prod.splits)
  have up: "e_update_err env (n_name n) = None" using Cons.prems(2) by blast
  show ?case
    using Cons.IH [OF r(1) Cons.prems(2)] reconcile_node_protects [OF e up Cons.prems(3,4)]
      reconcile_node_finalizer [OF e up Cons.prems(3)] reconcile_node_nt [OF e] r(2)
    by (auto simp: same_nt_def)
qed

lemma unfinalized_update:
  "(\<And>t. nt_name (f t) = nt_name t) \<Longrightarrow>
   unfinalized (c_tunings (update_tuning nm f st)) \<subseteq> insert nm (unfinalized (c_tunings st))"
  by (auto simp: unfinalized_def update_tuning_def)

lemma find_Some_named:
  "find (\<lambda>t. nt_name t = x) ts = Some u \<Longrightarrow> u \<in> set ts \<and> nt_name u = x"
  by (auto simp: find_Some_iff)

lemma patchStatus_finalizer:
  assumes "patchStatus env ns st = (r, st')" "finalizer_synced st"
  shows "unfinalized (c_tunings st') \<subseteq> unfinalized (c_tunings st) \<and> nt_name (r_nt st') = nt_name (r_nt st)"
proof (cases "st' = st")
  case False
  with assms(1) obtain u where u: "find (\<lambda>t. nt_name t = nt_name (r_nt st)) (c_tunings st) = Some u"
    by (auto simp: patchStatus_def split: option.splits)
  define v where "v = u\<lparr>nt_observedGeneration := nt_generation (r_nt st), nt_nodes := map stored_entry (preserveObserved ns (nt_nodes u))\<rparr>"
  have v: "nt_name v = nt_name u" "nt_finalizer v = nt_finalizer u" by (simp_all add: v_def)
  have st': "st' = (update_tuning (nt_name (r_nt st)) (\<lambda>_. v) st)\<lparr>r_nt := v\<rparr>"
    using assms(1) False u by (auto simp: patchStatus_def Let_def v_def split: option.splits)
  note u' = find_Some_named [OF u]
  have "x \<in> unfinalized (c_tunings st)" if "x \<in> unfinalized (c_tunings st')" for x
  proof -
    have "(\<exists>t \<in> set (c_tunings st). \<not> nt_finalizer t \<and> nt_name t = x) \<or> nt_name v = x \<and> \<not> nt_finalizer v"
      using that by (auto simp: st' unfinalized_def update_tuning_def split: if_splits)
    with u' v show ?thesis by (auto simp: unfinalized_def image_iff)
  qed
  with u' v st' show ?thesis by auto
qed simp

lemma work_list_owned:
  assumes "selectNodes (e_as_selector env) (c_nodes cl) (sp_nodeSelector (nt_spec nt)) = Inr matched"
    "nodes_named (c_nodes cl)" "m \<in> set (c_nodes cl)" "rolloutOwnedBy m (nt_name nt)"
  shows "m \<in> set (work_list env cl nt)"
proof -
  have "set matched \<subseteq> set (c_nodes cl)"
    using assms(1) by (auto simp: selectNodes_def split: option.splits sum.splits)
  then have "m \<in> set matched" if "n_name m \<in> n_name ` set matched"
    using that assms(2,3) distinct_map_unique [of n_name "c_nodes cl" m] by (auto simp: nodes_named_def)
  then show ?thesis using assms by (auto simp: work_list_def adoptOwnedNodes_def)
qed

lemma patch_uncordon_owned:
  "m \<in> set (patch_server x uncordon_and_clear ns) \<Longrightarrow> rolloutOwnedBy m nm \<Longrightarrow> m \<in> set ns \<and> n_name m \<noteq> x"
  by (induction ns) (auto split: if_splits)

lemma releaseNode_eq:
  "releaseNode env st n = Inr st' \<Longrightarrow>
   c_nodes st' = patch_server (n_name n) uncordon_and_clear (c_nodes st) \<and> c_tunings st' = c_tunings st"
  by (auto simp: releaseNode_def dest: patchNode_Inr)

lemma release_owned_keep:
  "release_owned env nm ns st = (r, st') \<Longrightarrow> owners (c_nodes st') \<subseteq> owners (c_nodes st) \<and> c_tunings st' = c_tunings st"
proof (induction env nm ns st arbitrary: r st' rule: release_owned.induct)
  case (2 env nm n ns st)
  show ?case
  proof (cases "\<exists>st1. rolloutOwnedBy n nm \<and> releaseNode env st n = Inr st1")
    case True
    then obtain st1 where st1: "rolloutOwnedBy n nm" "releaseNode env st n = Inr st1" by blast
    with "2.IH"(2) [OF _ st1(2)] "2.prems" have
      "owners (c_nodes st') \<subseteq> owners (c_nodes st1) \<and> c_tunings st' = c_tunings st1" by simp
    with releaseNode_eq [OF st1(2)] show ?thesis
      using owners_patch_keep [of uncordon_and_clear "n_name n" "c_nodes st"] by simp blast
  next
    case False
    with 2 show ?thesis by (auto split: if_splits sum.splits)
  qed
qed simp

lemma release_owned_all:
  "release_owned env nm ns st = (None, st') \<Longrightarrow> m \<in> set (c_nodes st') \<Longrightarrow> rolloutOwnedBy m nm \<Longrightarrow>
   m \<in> set (c_nodes st) \<and> (\<forall>n \<in> set ns. rolloutOwnedBy n nm \<longrightarrow> n_name m \<noteq> n_name n)"
proof (induction env nm ns st arbitrary: st' rule: release_owned.induct)
  case (2 env nm n ns st)
  show ?case
  proof (cases "rolloutOwnedBy n nm")
    case True
    then obtain st1 where st1: "releaseNode env st n = Inr st1" using "2.prems"(1) by (auto split: sum.splits)
    with "2.IH"(2) [OF _ st1] True "2.prems" have
      "m \<in> set (c_nodes st1) \<and> (\<forall>n \<in> set ns. rolloutOwnedBy n nm \<longrightarrow> n_name m \<noteq> n_name n)" by simp
    with releaseNode_eq [OF st1] patch_uncordon_owned [of m] "2.prems"(3) show ?thesis by auto
  next
    case False
    with "2.IH"(1) [OF _ _ "2.prems"(2,3)] "2.prems"(1) show ?thesis by auto
  qed
qed simp

lemma finishDeletion_protects:
  assumes "finishDeletion env nt (c_nodes st) st = (r, st')" "finalizer_protects st"
  shows "finalizer_protects st'"
proof -
  obtain r1 st1 where rel: "release_owned env (nt_name nt) (c_nodes st) st = (r1, st1)"
    by (cases "release_owned env (nt_name nt) (c_nodes st) st")
  note keep = release_owned_keep [OF rel]
  show ?thesis
  proof (cases r1)
    case None
    then have own: "nt_name nt \<notin> owners (c_nodes st1)"
      using release_owned_all rel unfolding owners_def by fastforce
    have rm: "removeFinalizer env nt st1 = (r, st')"
      using assms(1) rel None by (simp add: finishDeletion_def)
    then have "unfinalized (c_tunings st') \<subseteq> insert (nt_name nt) (unfinalized (c_tunings st1))"
      using unfinalized_update [of "\<lambda>t. t\<lparr>nt_finalizer := False\<rparr>" "nt_name nt" st1]
      by (auto simp: removeFinalizer_def split: if_splits option.splits)
    with own keep assms(2) removeFinalizer_nodes [OF rm] show ?thesis
      unfolding finalizer_protects_def by auto
  next
    case (Some e)
    with rel keep assms show ?thesis
      by (auto simp: finishDeletion_def finalizer_protects_def)
  qed
qed

lemma Reconcile_protects:
  assumes "Reconcile env req cl = (o', cl')" "\<forall>nm. e_update_err env nm = None"
    "nodes_named (c_nodes cl)" "distinct (map nt_name (c_tunings cl))" "finalizer_protects cl"
  shows "finalizer_protects cl'"
  using assms(1)
proof (cases rule: Reconcile_cases)
  case idle
  with assms(5) show ?thesis by simp
next
  case (deletion nt)
  with assms(5) finishDeletion_protects show ?thesis by blast
next
  case (pass nt es owns acts st1 r st2 st3)
  have "finalizer_synced (begin_pass cl nt)"
    using find_Some_named [OF pass(1)] distinct_map_unique [OF assms(4)]
    by (auto simp: finalizer_synced_def begin_pass_def)
  moreover have "finalizer_protects (begin_pass cl nt)"
    using assms(5) by (simp add: finalizer_protects_def begin_pass_def)
  ultimately have st1: "finalizer_synced st1" "finalizer_protects st1" "nt_name (r_nt st1) = nt_name nt"
    "owns \<or> c_nodes st1 = c_nodes cl \<and> (\<forall>n \<in> set (work_list env cl nt). \<not> rolloutOwnedBy n (nt_name nt))"
    using reconcile_nodes_finalizer [OF pass(3) assms(2)] by (auto simp: view_def begin_pass_def)
  have not_owner: "owns \<or> nt_name nt \<notin> owners (c_nodes st1)"
    using st1(4) pass(2) work_list_owned [OF _ assms(3)] by (auto simp: owners_def)
  note st2 = patchStatus_finalizer [OF pass(4) st1(1)] patchStatus_nodes [OF pass(4)]
  have "finalizer_protects st2"
    using st1(2) st2 unfolding finalizer_protects_def by auto
  moreover have "finalizer_protects st3" if "\<not> owns" "removeFinalizer env (r_nt st2) st2 = (r', st3)" for r'
  proof -
    have "unfinalized (c_tunings st3) \<subseteq> insert (nt_name nt) (unfinalized (c_tunings st2))"
      using that(2) st2(1) st1(3)
        unfinalized_update [of "\<lambda>t. t\<lparr>nt_finalizer := False\<rparr>" "nt_name nt" st2]
      by (auto simp: removeFinalizer_def split: if_splits option.splits)
    with \<open>finalizer_protects st2\<close> not_owner that(1) st2(2) removeFinalizer_nodes [OF that(2)]
    show ?thesis unfolding finalizer_protects_def by auto
  qed
  ultimately have "finalizer_protects st3" using pass(5) by blast
  then show ?thesis using pass(6) by (simp add: finalizer_protects_def)
qed

end
