(* ===== verification/Rollout_Theorems.thy ===== *)
theory Rollout_Theorems
  imports Rollout_Finalizer
begin

text \<open>
  The theorems of the NodeTuning rollout, each with an instance on a small concrete cluster: two
  Ready nodes approved for generation 1 and one NodeTuning that selects both.
\<close>

section \<open>A concrete cluster\<close>

definition w_node :: "string \<Rightarrow> node" where
  "w_node nm = \<lparr>n_name = nm, n_labels = Map.empty,
     n_annotations = [ApprovalAnnotation \<mapsto> Text ''1'', TuningUnitAnnotation \<mapsto> Text ''k3s'',
       TuningUnitActiveEnterAnnotation \<mapsto> Stamp 5],
     n_unschedulable = False, n_conditions = [(''Ready'', ''True'')]\<rparr>"

definition w_tuning :: "unit node_tuning" where
  "w_tuning = \<lparr>nt_name = ''t'', nt_generation = 1, nt_finalizer = False, nt_deleting = False,
     nt_spec = \<lparr>sp_nodeSelector = Some (), sp_tunedProfile = '''',
       sp_ksm = Some \<lparr>ksm_enabled = True, ksm_pagesToScan = None, ksm_sleepMillisecs = None,
         ksm_mergeAcrossNodes = None\<rparr>, sp_migProfile = ''''\<rparr>,
     nt_observedGeneration = 0, nt_nodes = []\<rparr>"

definition w_cluster :: "unit cluster" where
  "w_cluster = \<lparr>c_nodes = [w_node ''a'', w_node ''b''], c_tunings = [w_tuning], c_events = [],
     c_evictions = []\<rparr>"

definition w_env :: "unit rollout_env" where
  "w_env = \<lparr>e_as_selector = (\<lambda>_. Inr (\<lambda>_. True)), e_now = (\<lambda>_. 100), e_get_err = None,
     e_list_nodes_err = None, e_list_nts_err = None, e_patch_err = (\<lambda>_. None),
     e_update_err = (\<lambda>_. None), e_status_err = None, e_remove_err = None,
     e_evict_pods = (\<lambda>_. Inr []), e_realize_pods = (\<lambda>_. Inr []), e_DrainTimeout = 0,
     e_RestartTimeout = 0, e_fmt_time = (\<lambda>_. ''then''), e_fmt_dur = (\<lambda>_. ''while'')\<rparr>"

lemmas w_defs = w_node_def w_tuning_def w_cluster_def w_env_def

lemma w_cluster_ok:
  "nodes_named (c_nodes w_cluster)" "in_flight (c_nodes w_cluster) = {}" "finalizer_protects w_cluster"
  "distinct (map nt_name (c_tunings w_cluster))"
  by (simp_all add: w_defs nodes_named_def rolloutInFlight_def annotation_keys finalizer_protects_def
      rolloutOwnedBy_def)

text \<open>The first pass cordons the first node and leaves the second one alone.\<close>

lemma w_pass_flights: "map rolloutInFlight (c_nodes (snd (Reconcile w_env ''t'' w_cluster))) = [True, False]"
  by code_simp

section \<open>Mutual exclusion\<close>

text \<open>C1. One node at a time: starting from a cluster with at most one node mid-rollout, after any
  interleaving of reconcile passes of any NodeTunings (under any clock, any failing API calls and
  any drain or restart timeout), node joins and departures, writes by agents and humans that do
  not add the started annotation themselves, and edits of the NodeTunings, at most one node is
  mid-rollout.\<close>

theorem rollout_one_node_at_a_time:
  assumes "cluster_step\<^sup>*\<^sup>* cl cl'" "nodes_named (c_nodes cl)" "at_most_one (in_flight (c_nodes cl))"
  shows "at_most_one (in_flight (c_nodes cl'))"
  using cluster_run_invariant [OF assms] by simp

lemma w_pass_step: "cluster_step w_cluster (snd (Reconcile w_env ''t'' w_cluster))"
  by (metis cluster_step.reconcile prod.collapse)

theorem rollout_one_node_at_a_time_witness:
  "in_flight (c_nodes (snd (Reconcile w_env ''t'' w_cluster))) \<noteq> {}
   \<and> at_most_one (in_flight (c_nodes (snd (Reconcile w_env ''t''
       (snd (Reconcile w_env ''t'' w_cluster))))))"
proof
  show "in_flight (c_nodes (snd (Reconcile w_env ''t'' w_cluster))) \<noteq> {}"
    by (cases "c_nodes (snd (Reconcile w_env ''t'' w_cluster))") (use w_pass_flights in auto)
  have "cluster_step\<^sup>*\<^sup>* w_cluster (snd (Reconcile w_env ''t'' (snd (Reconcile w_env ''t'' w_cluster))))"
    using w_pass_step cluster_step.reconcile prod.collapse
    by (metis rtranclp.rtrancl_into_rtrancl rtranclp.rtrancl_refl)
  then show "at_most_one (in_flight (c_nodes (snd (Reconcile w_env ''t''
       (snd (Reconcile w_env ''t'' w_cluster))))))"
    by (rule rollout_one_node_at_a_time) (simp_all add: w_cluster_ok at_most_one_def)
qed

section \<open>When a node is taken down\<close>

text \<open>C2. A pass takes a node down only with every guard met: every node of the cluster was Ready,
  the node was not mid-rollout, a human approved exactly the NodeTuning's current generation on
  it, its status does not already record a verified restart for that generation, the unit it
  reports is on the compile-time restart allowlist, and no other node was mid-rollout.\<close>

theorem cordon_only_when_safe:
  assumes "Reconcile env req cl = (o', cl')" "nodes_named (c_nodes cl)"
    "at_most_one (in_flight (c_nodes cl))"
    "x \<in> in_flight (c_nodes cl')" "x \<notin> in_flight (c_nodes cl)"
  shows "\<exists>nt n. find (\<lambda>t. nt_name t = req) (c_tunings cl) = Some nt \<and> n \<in> set (c_nodes cl) \<and> n_name n = x
    \<and> cordon_guard env (nt_generation nt) (c_nodes cl) (nt_nodes nt) n
    \<and> in_flight (c_nodes cl') = {x}"
proof -
  have one: "in_flight (c_nodes cl') = {x}"
    using Reconcile_at_most_one [OF assms(1-3)] assms(4) unfolding at_most_one_def by blast
  show ?thesis
    using assms(1)
  proof (cases rule: Reconcile_nodes_cases)
    case idle
    with assms(4,5) show ?thesis by simp
  next
    case (deletion nt)
    with assms(4,5) finishDeletion_in_flight show ?thesis by blast
  next
    case (pass nt l')
    then obtain n where "n \<in> set (work_list env cl nt)" "x = n_name n"
      "cordon_guard env (nt_generation nt) (c_nodes cl) (nt_nodes nt) n"
      using pass_steps_started [OF pass(3), of x] assms(4,5) by auto
    with pass(1) work_list_subset [of env cl nt] one show ?thesis by auto
  qed
qed

lemma w_pass_in_flight: "in_flight (c_nodes (snd (Reconcile w_env ''t'' w_cluster))) = {''a''}"
proof -
  have "map (\<lambda>n. (n_name n, rolloutInFlight n)) (c_nodes (snd (Reconcile w_env ''t'' w_cluster)))
      = [(''a'', True), (''b'', False)]"
    by code_simp
  then show ?thesis by (auto simp: map_eq_Cons_conv)
qed

theorem cordon_only_when_safe_witness:
  "\<exists>nt n. find (\<lambda>t. nt_name t = ''t'') (c_tunings w_cluster) = Some nt \<and> n \<in> set (c_nodes w_cluster)
    \<and> n_name n = ''a'' \<and> cordon_guard w_env (nt_generation nt) (c_nodes w_cluster) (nt_nodes nt) n
    \<and> in_flight (c_nodes (snd (Reconcile w_env ''t'' w_cluster))) = {''a''}"
  using cordon_only_when_safe [of w_env "''t''" w_cluster "fst (Reconcile w_env ''t'' w_cluster)"
      "snd (Reconcile w_env ''t'' w_cluster)" "''a''"]
  by (simp add: w_cluster_ok w_pass_in_flight at_most_one_def)

section \<open>When a node is brought back\<close>

lemma release_owned_left:
  "release_owned env nm ns st = (r, st') \<Longrightarrow> x \<in> in_flight (c_nodes st) \<Longrightarrow>
   x \<in> in_flight (c_nodes st') \<or> (\<exists>n \<in> set ns. n_name n = x \<and> rolloutOwnedBy n nm)"
proof (induction env nm ns st arbitrary: r st' rule: release_owned.induct)
  case (2 env nm n ns st)
  show ?case
  proof (cases "\<exists>st1. rolloutOwnedBy n nm \<and> releaseNode env st n = Inr st1")
    case True
    then obtain st1 where st1: "rolloutOwnedBy n nm" "releaseNode env st n = Inr st1" by blast
    show ?thesis
    proof (cases "x = n_name n")
      case False
      with "2.IH"(2) [OF _ st1(2)] "2.prems" st1 releaseNode_eq [OF st1(2)] show ?thesis
        by (auto simp: in_flight_uncordon)
    qed (use st1 in auto)
  next
    case False
    with 2 show ?thesis by (auto split: if_splits sum.splits)
  qed
qed simp

text \<open>C10. A node leaves the rollout only verified: unless its NodeTuning is being deleted, a node
  whose started annotation a pass removes was owned by that NodeTuning and not halted, reported
  Ready, and its unit's active-enter time had moved past the recorded baseline.\<close>

theorem uncordon_only_when_verified:
  assumes "Reconcile env req cl = (o', cl')" "x \<in> in_flight (c_nodes cl)" "x \<notin> in_flight (c_nodes cl')"
  shows "\<exists>nt n. find (\<lambda>t. nt_name t = req) (c_tunings cl) = Some nt \<and> n \<in> set (c_nodes cl) \<and> n_name n = x
    \<and> (if nt_deleting nt then rolloutOwnedBy n (nt_name nt) else finish_guard (nt_name nt) n)"
  using assms(1)
proof (cases rule: Reconcile_nodes_cases)
  case idle
  with assms(2,3) show ?thesis by simp
next
  case (deletion nt)
  then obtain r where fd: "finishDeletion env nt (c_nodes cl) cl = (r, cl')" by blast
  obtain r1 st1 where rel: "release_owned env (nt_name nt) (c_nodes cl) cl = (r1, st1)"
    by (cases "release_owned env (nt_name nt) (c_nodes cl) cl")
  with fd have "c_nodes cl' = c_nodes st1"
    by (auto simp: finishDeletion_def split: option.splits dest: removeFinalizer_nodes)
  with release_owned_left [OF rel assms(2)] assms(3) deletion(1,2) show ?thesis by auto
next
  case (pass nt l')
  then obtain n where "n \<in> set (work_list env cl nt)" "x = n_name n" "finish_guard (nt_name nt) n"
    using pass_steps_finished [OF pass(3), of x] assms(2,3) by auto
  with pass(1,2) work_list_subset [of env cl nt] show ?thesis by auto
qed

text \<open>The cluster with node \<open>a\<close> restarted and waiting to be uncordoned, and with it halted.\<close>

definition w_restarted :: node where
  "w_restarted = setNodeAnnotation TuningUnitActiveEnterAnnotation (Stamp 9)
     (setNodeAnnotation TuningRestartRequestedAnnotation (Stamp 8)
       (setNodeAnnotation TuningRestartBaselineAnnotation (Stamp 5) (cordon_mutate w_env ''t'' (w_node ''a''))))"

definition w_halted :: node where
  "w_halted = setNodeAnnotation TuningRolloutFailedAnnotation (Stamp 50) (cordon_mutate w_env ''t'' (w_node ''a''))"

definition w_with :: "node \<Rightarrow> unit cluster" where
  "w_with n = w_cluster\<lparr>c_nodes := [n, w_node ''b'']\<rparr>"

lemma w_states:
  "in_flight (c_nodes (w_with w_restarted)) = {''a''}" "in_flight (c_nodes (w_with w_halted)) = {''a''}"
  "nodes_named (c_nodes (w_with w_halted))" "w_halted \<in> set (c_nodes (w_with w_halted))"
  "n_name w_halted = ''a''" "rolloutInFlight w_halted" "rolloutHalted w_halted"
  by (simp_all add: w_with_def w_restarted_def w_halted_def w_cluster_def w_node_def nodes_named_def
      rolloutInFlight_def rolloutHalted_def annotation_keys cordon_mutate_def)

theorem uncordon_only_when_verified_witness:
  "\<exists>nt n. find (\<lambda>t. nt_name t = ''t'') (c_tunings (w_with w_restarted)) = Some nt
    \<and> n \<in> set (c_nodes (w_with w_restarted)) \<and> n_name n = ''a''
    \<and> (if nt_deleting nt then rolloutOwnedBy n (nt_name nt) else finish_guard (nt_name nt) n)"
proof (rule uncordon_only_when_verified)
  show "Reconcile w_env ''t'' (w_with w_restarted) =
      (fst (Reconcile w_env ''t'' (w_with w_restarted)), snd (Reconcile w_env ''t'' (w_with w_restarted)))"
    by simp
  show "''a'' \<in> in_flight (c_nodes (w_with w_restarted))" by (simp add: w_states)
  have "map (\<lambda>n. (n_name n, rolloutInFlight n)) (c_nodes (snd (Reconcile w_env ''t'' (w_with w_restarted))))
      = [(''a'', False), (''b'', True)]"
    by code_simp
  then show "''a'' \<notin> in_flight (c_nodes (snd (Reconcile w_env ''t'' (w_with w_restarted))))"
    by (auto simp: map_eq_Cons_conv)
qed

section \<open>A failed node halts the campaign\<close>

text \<open>A halted node stops everything: while a node mid-rollout carries the failed annotation,
  no sequence of reconcile passes, however the NodeTunings are edited in between, touches that
  node or takes another node down, as long as no NodeTuning that owns it is being deleted.\<close>

theorem halted_campaign_stays_halted:
  assumes "nodes_named (c_nodes cl)" "at_most_one (in_flight (c_nodes cl))"
    "h \<in> set (c_nodes cl)" "rolloutInFlight h" "rolloutHalted h"
    "\<forall>(env, req, ts) \<in> set passes. \<forall>t \<in> set ts. nt_deleting t \<longrightarrow> \<not> rolloutOwnedBy h (nt_name t)"
  shows "h \<in> set (c_nodes (run_passes passes cl)) \<and> in_flight (c_nodes (run_passes passes cl)) = {n_name h}"
proof -
  have run: "h \<in> set (c_nodes (run_passes passes cl))" "at_most_one (in_flight (c_nodes (run_passes passes cl)))"
    using run_passes_halted [OF assms] by auto
  then have "n_name h \<in> in_flight (c_nodes (run_passes passes cl))"
    using assms(4) by (auto simp: in_flight_def)
  with run show ?thesis unfolding at_most_one_def by blast
qed

theorem halted_campaign_stays_halted_witness:
  "w_halted \<in> set (c_nodes (run_passes [(w_env, ''t'', [w_tuning]), (w_env, ''t'', [w_tuning])] (w_with w_halted)))
   \<and> in_flight (c_nodes (run_passes [(w_env, ''t'', [w_tuning]), (w_env, ''t'', [w_tuning])] (w_with w_halted)))
     = {''a''}"
  using halted_campaign_stays_halted [of "w_with w_halted" w_halted
      "[(w_env, ''t'', [w_tuning]), (w_env, ''t'', [w_tuning])]"]
  by (simp add: w_states at_most_one_def w_tuning_def)

section \<open>The finalizer\<close>

text \<open>C11. The finalizer protects cordoned nodes: after a pass in which the API server accepts the
  finalizer updates, every NodeTuning that owns a node mid-rollout carries the finalizer on the
  server. In particular a pass drops the finalizer only once no node is owned.\<close>

theorem finalizer_protects_cordoned_nodes:
  assumes "Reconcile env req cl = (o', cl')" "\<forall>nm. e_update_err env nm = None"
    "nodes_named (c_nodes cl)" "distinct (map nt_name (c_tunings cl))" "finalizer_protects cl"
  shows "finalizer_protects cl'"
  using assms by (rule Reconcile_protects)

theorem finalizer_protects_cordoned_nodes_witness:
  "in_flight (c_nodes (snd (Reconcile w_env ''t'' w_cluster))) = {''a''}
   \<and> finalizer_protects (snd (Reconcile w_env ''t'' w_cluster))"
proof
  show "finalizer_protects (snd (Reconcile w_env ''t'' w_cluster))"
    by (rule finalizer_protects_cordoned_nodes [of w_env "''t''" w_cluster "fst (Reconcile w_env ''t'' w_cluster)"])
      (simp_all add: w_cluster_ok w_env_def)
qed (rule w_pass_in_flight)

text \<open>One failed \<open>Update\<close> breaks that protection: \<open>AddFinalizer\<close> has already marked the pass's
  copy of the NodeTuning, so when the update for the first node fails, the next node of the same
  pass is cordoned with no finalizer on the server.\<close>

definition w_env_conflict :: "unit rollout_env" where
  "w_env_conflict = w_env\<lparr>e_update_err := (\<lambda>nm. if nm = ''a'' then Some ''conflict'' else None)\<rparr>"

theorem failed_update_cordons_unprotected:
  "map (\<lambda>n. (n_name n, rolloutOwnedBy n ''t'')) (c_nodes (snd (Reconcile w_env_conflict ''t'' w_cluster)))
     = [(''a'', False), (''b'', True)]
   \<and> map (\<lambda>t. (nt_name t, nt_finalizer t)) (c_tunings (snd (Reconcile w_env_conflict ''t'' w_cluster)))
     = [(''t'', False)]"
  by code_simp

section \<open>Draining\<close>

text \<open>Once no pod blocks the drain, the drain deadline no longer applies: a node whose agent
  reports no readable baseline stays Applying in every later pass, whatever the clock says and
  however long ago the rollout started, and is never marked failed.\<close>

theorem drained_without_baseline_never_times_out:
  assumes "annotationTime n TuningRestartRequestedAnnotation = Inl e"
    "annotationTime n TuningUnitActiveEnterAnnotation = Inl e'"
    "e_evict_pods env (n_name n) = Inr ps" "\<forall>p \<in> set ps. \<not> blocksDrain p"
  shows "\<exists>ns' st'. continueRollout env n ns st = (ns', st') \<and> ns_phase ns' = PhaseApplying
    \<and> c_nodes st' = c_nodes st"
proof -
  have "fst (evict_loop ps 0 []) = 0" using assms(4) by (simp add: evict_loop_remaining)
  with assms show ?thesis
    by (auto simp: continueRollout_def drainAndRequest_def evictPods_def Let_def split: prod.splits)
qed

theorem drained_without_baseline_never_times_out_witness:
  "\<exists>ns' st'. continueRollout (w_env\<lparr>e_now := (\<lambda>_. 10 ^ 30)\<rparr>)
      (deleteNodeAnnotation TuningUnitActiveEnterAnnotation (cordon_mutate w_env ''t'' (w_node ''a'')))
      (zero_node_status ''a'') (begin_pass w_cluster w_tuning) = (ns', st')
    \<and> ns_phase ns' = PhaseApplying \<and> c_nodes st' = c_nodes (begin_pass w_cluster w_tuning)"
  by (rule drained_without_baseline_never_times_out [where ps = "[]"])
    (simp_all add: annotationTime_def cordon_mutate_def annotation_keys w_env_def)

section \<open>Approval, drift and realization\<close>

text \<open>The approval the controller asks for is the one it accepts: a node annotated with the
  generation as the pending message prints it is approved for that generation and for no other.\<close>

theorem approval_round_trip:
  assumes "is_int64 gen" "0 \<le> gen" "n_annotations n ApprovalAnnotation = Some (Text (int_str gen))"
  shows "approvedForGeneration n g \<longleftrightarrow> g = gen"
  using assms by (auto simp: approvedForGeneration_def parse_int64_int_str)

theorem approval_round_trip_witness:
  "approvedForGeneration (setNodeAnnotation ApprovalAnnotation (Text (int_str 7)) (w_node ''a'')) 7
   \<and> \<not> approvedForGeneration (setNodeAnnotation ApprovalAnnotation (Text (int_str 7)) (w_node ''a'')) 8"
  using approval_round_trip [of 7 "setNodeAnnotation ApprovalAnnotation (Text (int_str 7)) (w_node ''a'')"]
  by (simp add: is_int64_def)

text \<open>Drift is reported exactly when there is some: the reason is empty if and only if the
  requested profile is absent or observed and KSM is absent or observed as requested, and a restart
  is needed if and only if KSM is requested with the other setting.\<close>

theorem diffTuning_complete:
  "(fst (diffTuning spec ob) = '''' \<longleftrightarrow>
      (sp_tunedProfile spec = '''' \<or> sp_tunedProfile spec = ob_tunedProfile ob)
      \<and> (case sp_ksm spec of None \<Rightarrow> True
         | Some k \<Rightarrow> ksm_enabled k = (case ob_ksm ob of None \<Rightarrow> False | Some o' \<Rightarrow> ok_memoryKSM o')))
   \<and> (snd (diffTuning spec ob) \<longleftrightarrow>
      (case sp_ksm spec of None \<Rightarrow> False
       | Some k \<Rightarrow> ksm_enabled k \<noteq> (case ob_ksm ob of None \<Rightarrow> False | Some o' \<Rightarrow> ok_memoryKSM o')))"
  by (auto simp: diffTuning_def Let_def split: option.splits)

text \<open>A node is FullyRealized exactly when a restart has been verified on it, the pods could be
  listed, and every unfinished pod started after that restart; no restart leaves it Pending.\<close>

theorem realizeNode_complete:
  "(ns_realization (realizeNode pods ns) = RealizationFullyRealized \<longleftrightarrow>
      (\<exists>r ps. ns_restartedAt ns = Some r \<and> pods = Inr ps
         \<and> (\<forall>p \<in> set ps. pod_finished p \<or> (\<exists>t. pod_startTime p = Some t \<and> t > r))))
   \<and> (ns_realization (realizeNode pods ns) = RealizationPending \<longleftrightarrow> ns_restartedAt ns = None)"
  by (auto simp: realizeNode_def all_started_after_iff split: option.splits sum.splits)

theorem realizeNode_complete_witness:
  "ns_realization (realizeNode (Inr []) ((zero_node_status ''a'')\<lparr>ns_restartedAt := Some 9\<rparr>))
     = RealizationFullyRealized"
  using realizeNode_complete [of "Inr []" "(zero_node_status ''a'')\<lparr>ns_restartedAt := Some 9\<rparr>"] by simp

text \<open>What a node agent observed survives the controller: after the agent writes its entry, any
  number of status writes of the controller, each with freshly computed entries, keep that
  node's observation.\<close>

theorem agent_observation_survives:
  assumes "distinct (map ns_name cur)"
    "\<And>c. c \<in> set computeds \<Longrightarrow> distinct (map ns_name c) \<and> nm \<in> set (map ns_name c)"
    "e \<in> set (fold preserveObserved computeds (patch_observed_nodes nm ob cur))" "ns_name e = nm"
  shows "ns_observed e = ob"
  using assms by (rule tuning_status.agent_value_survives)

theorem agent_observation_survives_witness:
  "ns_observed ((zero_node_status ''a'')\<lparr>ns_observed := \<lparr>ob_ksm = None, ob_tunedProfile = ''x''\<rparr>\<rparr>)
     = \<lparr>ob_ksm = None, ob_tunedProfile = ''x''\<rparr>"
  by (rule agent_observation_survives [where cur = "[]" and computeds = "[[zero_node_status ''a'']]" and nm = "''a''"])
    (simp_all add: preserveObserved_def zero_node_status_def)

end
