(* ===== verification/Rollout_Progress.thy ===== *)
theory Rollout_Progress
  imports Rollout_Theorems
begin

text \<open>
  What whole passes do for a node mid-rollout: the lemmas that follow one node, and the stored status entry
  of one node, through \<open>Reconcile\<close>, and that a healthy rollout completes.
\<close>

section \<open>One node through a pass\<close>

definition node_at :: "string \<Rightarrow> node list \<Rightarrow> node option" where
  "node_at x nodes = find (\<lambda>n. n_name n = x) nodes"

lemma node_at_patch:
  "(\<And>m. n_name (f m) = n_name m) \<Longrightarrow>
   node_at x (patch_server nm f nodes) = (if x = nm then map_option f (node_at x nodes) else node_at x nodes)"
  by (induction nodes) (auto simp: node_at_def)

lemma node_at_member: "nodes_named nodes \<Longrightarrow> n \<in> set nodes \<Longrightarrow> node_at (n_name n) nodes = Some n"
  unfolding nodes_named_def by (induction nodes) (auto simp: node_at_def image_iff)

lemma node_at_Some: "node_at x nodes = Some n \<Longrightarrow> n \<in> set nodes \<and> n_name n = x"
  by (auto simp: node_at_def find_Some_iff)

lemma rollout_step_other:
  "rollout_step env name gen allNodes n ns v w \<Longrightarrow> x \<noteq> n_name n \<Longrightarrow> node_at x (fst w) = node_at x (fst v)"
  by (induction rule: rollout_step.induct) (simp_all add: node_at_patch)

lemma reconcile_node_other:
  assumes "reconcile_node env all allNodes n ns st = (e, own, act, st')" "x \<noteq> n_name n"
  shows "node_at x (c_nodes st') = node_at x (c_nodes st)"
  using rollout_step_other [OF reconcile_node_step [OF assms(1)] assms(2)] by (simp add: view_def)

text \<open>What nobody changes in a pass: the names, generations and specifications of the NodeTunings.\<close>

definition tuning_ids :: "'s node_tuning list \<Rightarrow> (string \<times> int \<times> bool \<times> 's nt_spec) list" where
  "tuning_ids ts = map (\<lambda>t. (nt_name t, nt_generation t, nt_deleting t, nt_spec t)) ts"

lemma tuning_ids_update:
  "(\<And>t. nt_name t = nm \<Longrightarrow> t \<in> set (c_tunings st) \<Longrightarrow>
      nt_name (f t) = nt_name t \<and> nt_generation (f t) = nt_generation t \<and> nt_deleting (f t) = nt_deleting t \<and> nt_spec (f t) = nt_spec t) \<Longrightarrow>
   tuning_ids (c_tunings (update_tuning nm f st)) = tuning_ids (c_tunings st)"
  by (simp add: tuning_ids_def update_tuning_def)

lemma tuning_ids_find:
  assumes "tuning_ids ts' = tuning_ids ts" "find (\<lambda>t. nt_name t = x) ts = Some t"
  shows "\<exists>t'. find (\<lambda>t. nt_name t = x) ts' = Some t' \<and> nt_name t' = nt_name t \<and> nt_generation t' = nt_generation t
    \<and> nt_deleting t' = nt_deleting t \<and> nt_spec t' = nt_spec t"
  using assms
proof (induction ts arbitrary: ts')
  case (Cons u us)
  then obtain u' us' where "ts' = u' # us'" by (cases ts') (auto simp: tuning_ids_def)
  with Cons show ?case by (auto simp: tuning_ids_def split: if_splits)
qed simp

lemma reconcile_node_tunings:
  assumes "reconcile_node env all allNodes n ns st = (e, own, act, st')"
  shows "tuning_ids (c_tunings st') = tuning_ids (c_tunings st)"
proof -
  have ef: "tuning_ids (c_tunings s') = tuning_ids (c_tunings s)" if "ensureFinalizer env nm s = (r, s')" for nm s r s'
    using that by (auto simp: ensureFinalizer_def Let_def tuning_ids_update split: if_splits option.splits)
  have "tuning_ids (c_tunings s') = tuning_ids (c_tunings s)" if "startRollout env n ns reason allNodes s = (x, s')" for reason s x s'
    using that by (auto simp: startRollout_def Let_def dest!: patchNode_Inr ef split: sum.splits if_splits option.splits prod.splits)
  then show ?thesis
    using assms by (auto simp: reconcile_node_def Let_def dest!: continueRollout_tunings split: if_splits prod.splits)
qed

lemma reconcile_node_name:
  assumes "reconcile_node env all allNodes n ns st = (e, own, act, st')"
  shows "ns_name e = ns_name ns"
proof -
  have "ns_name ns' = ns_name ns" if "continueRollout env n ns st = (ns', s')" for ns' s'
    using that by (auto simp: continueRollout_def drainAndRequest_def failRollout_def Let_def split: sum.splits if_splits option.splits)
  moreover have "ns_name ns' = ns_name ns" if "startRollout env n ns reason allNodes st = (ns', s')" for reason ns' s'
    using that by (auto simp: startRollout_def Let_def split: sum.splits if_splits option.splits prod.splits)
  ultimately show ?thesis
    using assms by (auto simp: reconcile_node_def Let_def split: if_splits prod.splits)
qed

lemma existingNodeStatus_name [simp]: "ns_name (existingNodeStatus nodes x) = x"
  by (auto simp: existingNodeStatus_def zero_node_status_def find_Some_iff split: option.splits)

lemma realizeNode_keeps [simp]:
  "ns_name (realizeNode pods ns) = ns_name ns" "ns_restartedAt (realizeNode pods ns) = ns_restartedAt ns"
  "ns_restartedGeneration (realizeNode pods ns) = ns_restartedGeneration ns"
  by (auto simp: realizeNode_def split: option.splits sum.splits)

text \<open>The turn of one node in the loop, between turns that leave it alone.\<close>

lemma reconcile_nodes_at:
  assumes "reconcile_nodes env all allNodes prior work st = (es, owns, acts, st')" "n \<in> set work" "distinct (map n_name work)"
  shows "\<exists>st0 st1 e own act. reconcile_node env all allNodes n (existingNodeStatus prior (n_name n)) st0 = (e, own, act, st1)
    \<and> same_nt (r_nt st) (r_nt st0) \<and> node_at (n_name n) (c_nodes st0) = node_at (n_name n) (c_nodes st)
    \<and> node_at (n_name n) (c_nodes st') = node_at (n_name n) (c_nodes st1)
    \<and> realizeNode (e_realize_pods env (n_name n)) e \<in> set es \<and> (own \<longrightarrow> owns) \<and> (act \<longrightarrow> acts)"
  using assms
proof (induction work arbitrary: st es owns acts)
  case (Cons m ms)
  obtain e own act st1 where e: "reconcile_node env all allNodes m (existingNodeStatus prior (n_name m)) st = (e, own, act, st1)"
    by (metis surj_pair)
  obtain es' owns' acts' where r: "reconcile_nodes env all allNodes prior ms st1 = (es', owns', acts', st')"
    and es: "es = realizeNode (e_realize_pods env (n_name m)) e # es'" "owns \<longleftrightarrow> own \<or> owns'" "acts \<longleftrightarrow> act \<or> acts'"
    using Cons.prems(1) e by (auto split: prod.splits)
  have keep: "node_at x (c_nodes st') = node_at x (c_nodes st1)" if "x \<notin> n_name ` set ms" for x
    using r that
  proof (induction ms arbitrary: st1 es' owns' acts')
    case (Cons k ks)
    obtain e' o' a' s1 where k: "reconcile_node env all allNodes k (existingNodeStatus prior (n_name k)) st1 = (e', o', a', s1)"
      by (metis surj_pair)
    with Cons.prems(1) obtain x1 x2 x3 where "reconcile_nodes env all allNodes prior ks s1 = (x1, x2, x3, st')"
      by (auto split: prod.splits)
    with Cons.IH [of s1] Cons.prems(2) reconcile_node_other [OF k] show ?case by simp
  qed simp
  show ?case
  proof (cases "m = n")
    case True
    then have "n_name n \<notin> n_name ` set ms" using Cons.prems(3) by auto
    with True e es keep show ?thesis by (intro exI [of _ st] exI [of _ st1] exI [of _ e] exI [of _ own] exI [of _ act]) simp
  next
    case False
    then have n: "n \<in> set ms" "distinct (map n_name ms)" "n_name n \<noteq> n_name m" using Cons.prems(2,3) by (auto simp: image_iff)
    from Cons.IH [OF r n(1,2)] reconcile_node_nt [OF e] reconcile_node_other [OF e n(3)] es show ?thesis
      unfolding same_nt_def by (metis (no_types, lifting) list.set_intros(2))
  qed
qed simp

lemma reconcile_nodes_keeps:
  assumes "reconcile_nodes env all allNodes prior work st = (es, owns, acts, st')"
  shows "tuning_ids (c_tunings st') = tuning_ids (c_tunings st) \<and> same_nt (r_nt st) (r_nt st') \<and> map ns_name es = map n_name work"
  using assms
proof (induction work arbitrary: st es owns acts)
  case (Cons m ms)
  obtain e own act st1 where e: "reconcile_node env all allNodes m (existingNodeStatus prior (n_name m)) st = (e, own, act, st1)"
    by (metis surj_pair)
  obtain es' owns' acts' where r: "reconcile_nodes env all allNodes prior ms st1 = (es', owns', acts', st')"
    "es = realizeNode (e_realize_pods env (n_name m)) e # es'"
    using Cons.prems(1) e by (auto split: prod.splits)
  from Cons.IH [OF r(1)] reconcile_node_tunings [OF e] reconcile_node_nt [OF e] reconcile_node_name [OF e] r(2)
  show ?case by (simp add: same_nt_def)
qed simp

lemma work_list_distinct:
  assumes "nodes_named (c_nodes cl)"
  shows "distinct (map n_name (work_list env cl nt))"
proof (cases "selectNodes (e_as_selector env) (c_nodes cl) (sp_nodeSelector (nt_spec nt))")
  case (Inr matched)
  have d: "distinct (map n_name (c_nodes cl))" using assms by (simp add: nodes_named_def)
  have "\<exists>P. matched = filter P (c_nodes cl)"
    using Inr by (auto simp: selectNodes_def split: option.splits sum.splits intro: exI [of _ "\<lambda>_. False"])
  then have "distinct (map n_name matched)" using d distinct_map_filter by blast
  then show ?thesis using Inr d by (auto simp: work_list_def adoptOwnedNodes_def distinct_map_filter image_iff)
qed (simp add: work_list_def)

section \<open>What is stored of the node\<close>

lemma existing_entry:
  assumes "distinct (map ns_name es)" "e \<in> set es"
  shows "existingNodeStatus es (ns_name e) = e"
  using assms by (induction es) (auto simp: existingNodeStatus_def image_iff)

lemma stored_entry_simps [simp]:
  "ns_name (stored_entry e) = ns_name e" "ns_restartedGeneration (stored_entry e) = ns_restartedGeneration e"
  "ns_restartedAt (stored_entry e) = map_option trunc_second (ns_restartedAt e)"
  by (simp_all add: stored_entry_def)

lemma patchStatus_stored:
  assumes "patchStatus env es st = (r, st')" "e_status_err env = None" "e \<in> set es" "distinct (map ns_name es)"
    and "find (\<lambda>t. nt_name t = nt_name (r_nt st)) (c_tunings st) = Some t"
  shows "\<exists>t'. r = None \<and> find (\<lambda>t. nt_name t = nt_name (r_nt st)) (c_tunings st') = Some t' \<and> nt_spec t' = nt_spec t
      \<and> nt_deleting t' = nt_deleting t \<and> nt_generation t' = nt_generation t \<and> nt_name t' = nt_name t
      \<and> ns_restartedAt (existingNodeStatus (nt_nodes t') (ns_name e)) = map_option trunc_second (ns_restartedAt e)
      \<and> ns_restartedGeneration (existingNodeStatus (nt_nodes t') (ns_name e)) = ns_restartedGeneration e"
proof -
  define t' where "t' = t\<lparr>nt_observedGeneration := nt_generation (r_nt st), nt_nodes := map stored_entry (preserveObserved es (nt_nodes t))\<rparr>"
  have nm: "nt_name t = nt_name (r_nt st)" using find_Some_named [OF assms(5)] by simp
  have st': "r = None" "st' = (update_tuning (nt_name (r_nt st)) (\<lambda>_. t') st)\<lparr>r_nt := t'\<rparr>"
    using assms(1,2,5) by (simp_all add: patchStatus_def Let_def t'_def)
  have same: "nt_spec t' = nt_spec t" "nt_deleting t' = nt_deleting t" "nt_generation t' = nt_generation t" "nt_name t' = nt_name t"
    by (simp_all add: t'_def)
  let ?o = "map_of (rev (map (\<lambda>ns. (ns_name ns, ns_observed ns)) (nt_nodes t)))"
  define e1 where "e1 = (case ?o (ns_name e) of Some o' \<Rightarrow> e\<lparr>ns_observed := o'\<rparr> | None \<Rightarrow> e)"
  have e1: "e1 \<in> set (preserveObserved es (nt_nodes t))" "ns_name e1 = ns_name e" "ns_restartedAt e1 = ns_restartedAt e"
    "ns_restartedGeneration e1 = ns_restartedGeneration e"
  proof -
    show "e1 \<in> set (preserveObserved es (nt_nodes t))"
      unfolding preserveObserved_def Let_def e1_def set_map by (rule imageI [OF assms(3)])
  qed (auto simp: e1_def split: option.split)
  have "map ns_name (map stored_entry xs) = map ns_name xs" for xs by simp
  then have "map ns_name (nt_nodes t') = map ns_name es" by (simp add: t'_def del: map_map)
  then have "existingNodeStatus (nt_nodes t') (ns_name (stored_entry e1)) = stored_entry e1"
    using assms(4) e1(1) by (intro existing_entry) (simp_all add: t'_def)
  then have "existingNodeStatus (nt_nodes t') (ns_name e) = stored_entry e1" using e1(2) by simp
  moreover have "find (\<lambda>t. nt_name t = nt_name (r_nt st)) (map (\<lambda>u. if nt_name u = nt_name (r_nt st) then t' else u) ts) = Some t'"
    if "find (\<lambda>t. nt_name t = nt_name (r_nt st)) ts = Some t" for ts
    using that nm by (induction ts) (auto simp: t'_def split: if_splits)
  ultimately show "\<exists>t'. r = None \<and> find (\<lambda>t. nt_name t = nt_name (r_nt st)) (c_tunings st') = Some t' \<and> nt_spec t' = nt_spec t
      \<and> nt_deleting t' = nt_deleting t \<and> nt_generation t' = nt_generation t \<and> nt_name t' = nt_name t
      \<and> ns_restartedAt (existingNodeStatus (nt_nodes t') (ns_name e)) = map_option trunc_second (ns_restartedAt e)
      \<and> ns_restartedGeneration (existingNodeStatus (nt_nodes t') (ns_name e)) = ns_restartedGeneration e"
    using assms(5) st' e1 same by (intro exI [of _ t']) (simp add: update_tuning_def)
qed

section \<open>A pass over a node mid-rollout\<close>

text \<open>The calls a pass makes for itself, and those for the node \<open>x\<close>, are answered.\<close>

definition pass_answers :: "'s rollout_env \<Rightarrow> 's node_tuning \<Rightarrow> string \<Rightarrow> bool" where
  "pass_answers env nt x \<longleftrightarrow> e_get_err env = None \<and> e_list_nodes_err env = None \<and> e_list_nts_err env = None \<and> e_status_err env = None
     \<and> e_patch_err env x = None
     \<and> (case sp_nodeSelector (nt_spec nt) of None \<Rightarrow> True | Some s \<Rightarrow> (case e_as_selector env s of Inl _ \<Rightarrow> False | Inr _ \<Rightarrow> True))"

lemma pass_over_node:
  assumes run: "Reconcile env req cl = (o', cl')" and env: "pass_answers env nt (n_name n)" and named: "nodes_named (c_nodes cl)"
    and nt: "find (\<lambda>t. nt_name t = req) (c_tunings cl) = Some nt" "\<not> nt_deleting nt"
    and n: "n \<in> set (c_nodes cl)" "rolloutOwnedBy n req" "\<not> rolloutHalted n"
  obtains st0 ns' st1 t' where "continueRollout env n (existingNodeStatus (nt_nodes nt) (n_name n)) st0 = (ns', st1)"
    "same_nt nt (r_nt st0)" "node_at (n_name n) (c_nodes st0) = Some n" "node_at (n_name n) (c_nodes cl') = node_at (n_name n) (c_nodes st1)"
    "o' = RequeueAfter rolloutRequeueInterval" "find (\<lambda>t. nt_name t = req) (c_tunings cl') = Some t'"
    "nt_deleting t' = nt_deleting nt" "nt_generation t' = nt_generation nt" "nt_spec t' = nt_spec nt"
    "ns_restartedAt (existingNodeStatus (nt_nodes t') (n_name n)) = map_option trunc_second (ns_restartedAt ns')"
    "ns_restartedGeneration (existingNodeStatus (nt_nodes t') (n_name n)) = ns_restartedGeneration ns'"
proof -
  have req: "nt_name nt = req" using find_Some_named [OF nt(1)] by simp
  obtain matched where m: "selectNodes (e_as_selector env) (c_nodes cl) (sp_nodeSelector (nt_spec nt)) = Inr matched"
    using env by (auto simp: pass_answers_def selectNodes_def split: option.splits sum.splits)
  obtain es owns acts st1 where r: "reconcile_nodes env (c_tunings cl) (c_nodes cl) (nt_nodes nt) (work_list env cl nt) (begin_pass cl nt)
      = (es, owns, acts, st1)" by (metis surj_pair)
  have work: "n \<in> set (work_list env cl nt)" using work_list_owned [OF m named n(1)] n(2) req by simp
  obtain st0 sta e own act where e: "reconcile_node env (c_tunings cl) (c_nodes cl) n (existingNodeStatus (nt_nodes nt) (n_name n)) st0 = (e, own, act, sta)"
    and at: "same_nt nt (r_nt st0)" "node_at (n_name n) (c_nodes st0) = Some n" "node_at (n_name n) (c_nodes st1) = node_at (n_name n) (c_nodes sta)"
    and es: "realizeNode (e_realize_pods env (n_name n)) e \<in> set es" "own \<longrightarrow> owns" "act \<longrightarrow> acts"
    using reconcile_nodes_at [OF r work work_list_distinct [OF named]] node_at_member [OF named n(1)] by (auto simp: begin_pass_def)
  have c: "continueRollout env n (existingNodeStatus (nt_nodes nt) (n_name n)) st0 = (e, sta)" "own" "act"
    using e n(2,3) at(1) req by (auto simp: reconcile_node_def Let_def same_nt_def split: prod.splits)
  note keeps = reconcile_nodes_keeps [OF r]
  have nm1: "nt_name (r_nt st1) = req" using keeps req by (simp add: same_nt_def)
  obtain t where t: "find (\<lambda>t. nt_name t = req) (c_tunings st1) = Some t" "nt_deleting t = nt_deleting nt"
    "nt_generation t = nt_generation nt" "nt_spec t = nt_spec nt"
    using tuning_ids_find [of "c_tunings st1" "c_tunings cl" req nt] keeps nt(1) by (auto simp: begin_pass_def)
  let ?es = "sort_key ns_name es" and ?e = "realizeNode (e_realize_pods env (n_name n)) e"
  have "distinct (map ns_name es)" using keeps work_list_distinct [OF named] by simp
  then have d: "distinct (map ns_name ?es)" by (simp add: distinct_map)
  obtain r' st2 where p: "patchStatus env ?es st1 = (r', st2)" by fastforce
  have err: "e_status_err env = None" using env by (simp add: pass_answers_def)
  obtain t' where t': "r' = None" "find (\<lambda>t. nt_name t = req) (c_tunings st2) = Some t'" "nt_spec t' = nt_spec t" "nt_deleting t' = nt_deleting t"
    "nt_generation t' = nt_generation t" "ns_restartedAt (existingNodeStatus (nt_nodes t') (ns_name ?e)) = map_option trunc_second (ns_restartedAt ?e)"
    "ns_restartedGeneration (existingNodeStatus (nt_nodes t') (ns_name ?e)) = ns_restartedGeneration ?e"
    using patchStatus_stored [OF p err _ d, of ?e t] es(1) t(1) nm1 by auto
  have out: "o' = RequeueAfter rolloutRequeueInterval" "cl' = end_pass st2"
    using run env nt m r p t'(1) es(2,3) c(2,3) by (auto simp: Reconcile_def pass_answers_def work_list_def Let_def)
  have "ns_name ?e = n_name n" using reconcile_node_name [OF e] by simp
  then show thesis
    using that [OF c(1) at(1,2)] at(3) out t t' patchStatus_nodes [OF p] by simp
qed

section \<open>A healthy rollout completes\<close>

lemma annotationTime_Inr: "annotationTime n k = Inr t \<longleftrightarrow> n_annotations n k = Some (Stamp t)"
  by (auto simp: annotationTime_def split: option.splits anno.splits)

lemma annotationTime_missing: "n_annotations n k = None \<Longrightarrow> \<exists>e. annotationTime n k = Inl e"
  by (simp add: annotationTime_def)

definition requested_mutate :: "instant \<Rightarrow> instant \<Rightarrow> node \<Rightarrow> node" where
  "requested_mutate now b n =
     setNodeAnnotation TuningRestartRequestedAnnotation (Stamp now) (setNodeAnnotation TuningRestartBaselineAnnotation (Stamp b) n)"

lemma continue_requests:
  assumes "continueRollout env n ns st = (ns', st')" "node_at (n_name n) (c_nodes st) = Some n" "e_patch_err env (n_name n) = None"
    and "n_annotations n TuningRestartRequestedAnnotation = None" "n_annotations n TuningUnitActiveEnterAnnotation = Some (Stamp b)"
    and "e_evict_pods env (n_name n) = Inr ps" "\<forall>p \<in> set ps. \<not> blocksDrain p"
  shows "node_at (n_name n) (c_nodes st') = Some (requested_mutate (e_now env (n_name n)) b n)"
proof -
  have "fst (evict_loop ps 0 []) = 0" using assms(7) by (simp add: evict_loop_remaining)
  moreover obtain e where "annotationTime n TuningRestartRequestedAnnotation = Inl e" using annotationTime_missing [OF assms(4)] by blast
  moreover have "annotationTime n TuningUnitActiveEnterAnnotation = Inr b" using assms(5) by (simp add: annotationTime_Inr)
  ultimately show ?thesis
    using assms(1-3,6) by (auto simp: continueRollout_def drainAndRequest_def evictPods_def patchNode_def requested_mutate_def Let_def node_at_patch
      split: prod.splits)
qed

lemma continue_verifies:
  assumes "continueRollout env n ns st = (ns', st')" "node_at (n_name n) (c_nodes st) = Some n" "e_patch_err env (n_name n) = None"
    and "n_annotations n TuningRestartRequestedAnnotation = Some (Stamp q)" "n_annotations n TuningRestartBaselineAnnotation = Some (Stamp b)"
    and "n_annotations n TuningUnitActiveEnterAnnotation = Some (Stamp c)" "b < c" "nodeIsReady n"
  shows "node_at (n_name n) (c_nodes st') = Some (uncordon_and_clear n)" "ns_restartedAt ns' = Some c"
    "ns_restartedGeneration ns' = nt_generation (r_nt st)"
proof -
  have "annotationTime n TuningRestartRequestedAnnotation = Inr q" "annotationTime n TuningRestartBaselineAnnotation = Inr b"
    "annotationTime n TuningUnitActiveEnterAnnotation = Inr c"
    using assms(4-6) by (simp_all add: annotationTime_Inr)
  moreover have "restart_seen (Inr b) (Inr c) = Some c" using assms(7) by (simp add: restart_seen_def)
  ultimately show "node_at (n_name n) (c_nodes st') = Some (uncordon_and_clear n)" "ns_restartedAt ns' = Some c"
    "ns_restartedGeneration ns' = nt_generation (r_nt st)"
    using assms(1-3,8) by (auto simp: continueRollout_def patchNode_def Let_def node_at_patch)
qed

definition rollout_annotations :: "string set" where
  "rollout_annotations = {TuningRolloutStartedAnnotation, TuningRolloutOwnerAnnotation, TuningRolloutFailedAnnotation,
     TuningRestartBaselineAnnotation, TuningRestartRequestedAnnotation}"

lemma uncordon_effect:
  "\<not> n_unschedulable (uncordon_and_clear n)"
  "n_annotations (uncordon_and_clear n) k = (if k \<in> rollout_annotations then None else n_annotations n k)"
  by (auto simp: uncordon_and_clear_def clearRolloutAnnotations_def rollout_annotations_def deleteNodeAnnotation_def)

text \<open>
  C12. A healthy rollout ends in two reconcile passes over a cluster with a node cordoned for a NodeTuning, once no
  pod blocks its drain. The first pass asks the agent for the restart, records the active-enter time as the
  baseline, and asks to be called again; when the agent then reports a later time and the node is Ready, the
  second leaves the node schedulable and without any rollout annotation, its other annotations as they
  were, and the NodeTuning's stored status records the restart, to the second, for its generation. Whatever
  the passes do to the other nodes does not matter.
\<close>

theorem healthy_rollout_completes:
  assumes "nodes_named (c_nodes cl)" "find (\<lambda>t. nt_name t = req) (c_tunings cl) = Some nt" "\<not> nt_deleting nt"
    and "n \<in> set (c_nodes cl)" "rolloutOwnedBy n req" "\<not> rolloutHalted n" "nodeIsReady n"
    and "n_annotations n TuningRestartRequestedAnnotation = None" "n_annotations n TuningUnitActiveEnterAnnotation = Some (Stamp b)"
    and "pass_answers env1 nt (n_name n)" "e_evict_pods env1 (n_name n) = Inr ps" "\<forall>p \<in> set ps. \<not> blocksDrain p"
    and "Reconcile env1 req cl = (o1, cl1)"
    and "cl2 = cl1\<lparr>c_nodes := patch_server (n_name n) (setNodeAnnotation TuningUnitActiveEnterAnnotation (Stamp c)) (c_nodes cl1)\<rparr>" "b < c"
    and "pass_answers env2 nt (n_name n)" "Reconcile env2 req cl2 = (o2, cl3)"
  shows "o1 = RequeueAfter rolloutRequeueInterval
    \<and> (\<exists>n1. node_at (n_name n) (c_nodes cl1) = Some n1
         \<and> n_annotations n1 TuningRestartRequestedAnnotation = Some (Stamp (e_now env1 (n_name n)))
         \<and> n_annotations n1 TuningRestartBaselineAnnotation = Some (Stamp b))
    \<and> (\<exists>n3. node_at (n_name n) (c_nodes cl3) = Some n3 \<and> \<not> n_unschedulable n3
         \<and> (\<forall>k. n_annotations n3 k = (if k \<in> rollout_annotations then None
               else if k = TuningUnitActiveEnterAnnotation then Some (Stamp c) else n_annotations n k)))
    \<and> (\<exists>t. find (\<lambda>t. nt_name t = req) (c_tunings cl3) = Some t
         \<and> ns_restartedAt (existingNodeStatus (nt_nodes t) (n_name n)) = Some (trunc_second c)
         \<and> restartedForGeneration (existingNodeStatus (nt_nodes t) (n_name n)) (nt_generation nt))"
proof -
  let ?x = "n_name n" and ?n1 = "requested_mutate (e_now env1 (n_name n)) b n"
  have up: "e_patch_err env1 ?x = None" "e_patch_err env2 ?x = None" using assms(10,16) by (simp_all add: pass_answers_def)
  obtain st0 ns1 st1 t1 where p1: "continueRollout env1 n (existingNodeStatus (nt_nodes nt) ?x) st0 = (ns1, st1)"
    "node_at ?x (c_nodes st0) = Some n" "node_at ?x (c_nodes cl1) = node_at ?x (c_nodes st1)" "o1 = RequeueAfter rolloutRequeueInterval"
    "find (\<lambda>t. nt_name t = req) (c_tunings cl1) = Some t1" "nt_deleting t1 = nt_deleting nt" "nt_generation t1 = nt_generation nt" "nt_spec t1 = nt_spec nt"
    by (rule pass_over_node [OF assms(13,10,1-6)]) blast
  have at1: "node_at ?x (c_nodes cl1) = Some ?n1"
    using continue_requests [OF p1(1,2) up(1) assms(8,9,11,12)] p1(3) by simp
  let ?n2 = "setNodeAnnotation TuningUnitActiveEnterAnnotation (Stamp c) ?n1"
  have x2: "n_name ?n2 = ?x" by (simp add: requested_mutate_def)
  have at2: "node_at ?x (c_nodes cl2) = Some ?n2" using at1 assms(14) by (simp add: node_at_patch)
  have named2: "nodes_named (c_nodes cl2)" using Reconcile_names [OF assms(13)] assms(1,14) by (simp add: nodes_named_def)
  have n2: "?n2 \<in> set (c_nodes cl2)" "rolloutOwnedBy ?n2 req" "\<not> rolloutHalted ?n2" "nodeIsReady ?n2"
    using node_at_Some [OF at2] assms(5-7)
    by (simp_all add: requested_mutate_def rolloutOwnedBy_def rolloutInFlight_def rolloutHalted_def nodeIsReady_def annotation_keys)
      (simp add: setNodeAnnotation_def)
  have t1: "find (\<lambda>t. nt_name t = req) (c_tunings cl2) = Some t1" "\<not> nt_deleting t1" "pass_answers env2 t1 (n_name ?n2)"
    using p1(5,6,8) assms(3,14,16) x2 by (simp_all add: pass_answers_def)
  obtain st2 ns3 st3 t3 where p2: "continueRollout env2 ?n2 (existingNodeStatus (nt_nodes t1) (n_name ?n2)) st2 = (ns3, st3)"
    "same_nt t1 (r_nt st2)" "node_at (n_name ?n2) (c_nodes st2) = Some ?n2" "node_at (n_name ?n2) (c_nodes cl3) = node_at (n_name ?n2) (c_nodes st3)"
    "find (\<lambda>t. nt_name t = req) (c_tunings cl3) = Some t3"
    "ns_restartedAt (existingNodeStatus (nt_nodes t3) (n_name ?n2)) = map_option trunc_second (ns_restartedAt ns3)"
    "ns_restartedGeneration (existingNodeStatus (nt_nodes t3) (n_name ?n2)) = ns_restartedGeneration ns3"
    by (rule pass_over_node [OF assms(17) t1(3) named2 t1(1,2) n2(1-3)]) blast
  have marks: "n_annotations ?n2 TuningRestartRequestedAnnotation = Some (Stamp (e_now env1 ?x))"
    "n_annotations ?n2 TuningRestartBaselineAnnotation = Some (Stamp b)" "n_annotations ?n2 TuningUnitActiveEnterAnnotation = Some (Stamp c)"
    "n_annotations ?n1 TuningRestartRequestedAnnotation = Some (Stamp (e_now env1 ?x))" "n_annotations ?n1 TuningRestartBaselineAnnotation = Some (Stamp b)"
    by (simp_all add: requested_mutate_def annotation_keys)
  have up2: "e_patch_err env2 (n_name ?n2) = None" using up(2) x2 by simp
  note v = continue_verifies [OF p2(1,3) up2 marks(1-3) assms(15) n2(4)]
  have "n_annotations (uncordon_and_clear ?n2) k = (if k \<in> rollout_annotations then None
      else if k = TuningUnitActiveEnterAnnotation then Some (Stamp c) else n_annotations n k)" for k
    unfolding uncordon_effect(2) by (auto simp: requested_mutate_def rollout_annotations_def)
  then show ?thesis
    using p1(4,7) at1 marks(4,5) v p2 x2 uncordon_effect(1) [of ?n2] by (auto simp: restartedForGeneration_def same_nt_def)
qed

text \<open>The sample cluster with node \<open>a\<close> just cordoned; its unit comes back 9.5 seconds into the epoch.\<close>

definition w_cordoned :: node where
  "w_cordoned = cordon_mutate w_env ''t'' (w_node ''a'')"

definition w_pass1 :: "unit cluster" where
  "w_pass1 = snd (Reconcile w_env ''t'' (w_with w_cordoned))"

definition w_back :: "unit cluster" where
  "w_back = w_pass1\<lparr>c_nodes := patch_server ''a'' (setNodeAnnotation TuningUnitActiveEnterAnnotation (Stamp 9500000000)) (c_nodes w_pass1)\<rparr>"

theorem healthy_rollout_completes_witness:
  "n_unschedulable w_cordoned
   \<and> (\<exists>n3 t. node_at ''a'' (c_nodes (snd (Reconcile w_env ''t'' w_back))) = Some n3 \<and> \<not> n_unschedulable n3
        \<and> find (\<lambda>t. nt_name t = ''t'') (c_tunings (snd (Reconcile w_env ''t'' w_back))) = Some t
        \<and> ns_restartedAt (existingNodeStatus (nt_nodes t) ''a'') = Some 9000000000)"
proof -
  have named: "nodes_named (c_nodes (w_with w_cordoned))"
    by (simp add: w_with_def w_cordoned_def w_cluster_def nodes_named_def) (simp add: w_node_def)
  have nt: "find (\<lambda>t. nt_name t = ''t'') (c_tunings (w_with w_cordoned)) = Some w_tuning" "\<not> nt_deleting w_tuning"
    by (simp_all add: w_with_def w_cluster_def w_tuning_def)
  have n: "w_cordoned \<in> set (c_nodes (w_with w_cordoned))" "rolloutOwnedBy w_cordoned ''t''" "\<not> rolloutHalted w_cordoned" "nodeIsReady w_cordoned"
    "n_annotations w_cordoned TuningRestartRequestedAnnotation = None" "n_annotations w_cordoned TuningUnitActiveEnterAnnotation = Some (Stamp 5)"
    "n_name w_cordoned = ''a''" "n_unschedulable w_cordoned"
    by (simp_all add: w_with_def w_cordoned_def rolloutHalted_def nodeIsReady_def cordon_mutate_def setNodeAnnotation_def deleteNodeAnnotation_def
        annotation_keys w_node_def rolloutOwnedBy_def rolloutInFlight_def)
  have env: "pass_answers w_env w_tuning (n_name w_cordoned)" "e_evict_pods w_env (n_name w_cordoned) = Inr []"
    by (simp_all add: pass_answers_def w_env_def w_tuning_def)
  have r1: "Reconcile w_env ''t'' (w_with w_cordoned) = (fst (Reconcile w_env ''t'' (w_with w_cordoned)), w_pass1)" by (simp add: w_pass1_def)
  have r2: "Reconcile w_env ''t'' w_back = (fst (Reconcile w_env ''t'' w_back), snd (Reconcile w_env ''t'' w_back))" by simp
  have "w_back = w_pass1\<lparr>c_nodes := patch_server (n_name w_cordoned) (setNodeAnnotation TuningUnitActiveEnterAnnotation (Stamp 9500000000)) (c_nodes w_pass1)\<rparr>"
    by (simp add: w_back_def n(7))
  moreover have "trunc_second 9500000000 = 9000000000" by (simp add: trunc_second_def second_def)
  ultimately show ?thesis
    using healthy_rollout_completes [OF named nt n(1-6) env _ r1 _ _ env(1) r2, of 9500000000] n(7,8) by auto
qed

end
