(* ===== verification/Storage_Join.thy ===== *)
theory Storage_Join
  imports Frame_Prelude
begin

text \<open>
  \<open>internal/storage/join.go\<close>: the disagreements between the drives a BMC lists and the disks a node's
  kernel reports, with the types of \<open>api/frame/v1beta1/framemachine_types.go\<close> both sides use.
\<close>

section \<open>Data\<close>

record drive_info =
  d_model :: string
  d_sizeGB :: int
  d_serialNumber :: string
  d_location :: string
  d_mediaType :: string
  d_ssdEnduranceUsedPercent :: "int option"

record disk_smart =
  sm_readAt :: "instant option"
  sm_passed :: "bool option"
  sm_wearUsedPercent :: "int option"
  sm_error :: string

record observed_disk =
  od_path :: string
  od_serialNumber :: string
  od_sizeGB :: int
  od_occupancy :: string
  od_wwn :: string
  od_byIDPath :: string
  od_model :: string
  od_rotational :: "bool option"
  od_mountPoint :: string
  od_fsType :: string
  od_members :: "string list"
  od_smart :: "disk_smart option"

record disk_divergence =
  dv_serialNumber :: string
  dv_reason :: string
  dv_detail :: string

definition MaxDivergences :: nat where
  "MaxDivergences = 64"

definition maxDetailLen :: nat where
  "maxDetailLen = 256"

definition clipRunes :: "string \<Rightarrow> nat \<Rightarrow> string" where
  "clipRunes s n = (if length (runes s) \<le> n then s else concat (take n (runes s)))"

section \<open>The join\<close>

text \<open>\<open>byBMC\<close> after the first loop: the last drive of a serial wins.\<close>

definition byBMC :: "drive_info list \<Rightarrow> string \<rightharpoonup> drive_info" where
  "byBMC bmc = map_of (rev (map (\<lambda>d. (d_serialNumber d, d)) (filter (\<lambda>d. d_serialNumber d \<noteq> '''') bmc)))"

definition bmc_unidentified :: "drive_info list \<Rightarrow> disk_divergence list" where
  "bmc_unidentified bmc =
     map (\<lambda>d. \<lparr>dv_serialNumber = '''', dv_reason = ''bmc-only'',
               dv_detail = ''bay '' @ d_location d @ '' reports no serial number, so it cannot be matched''\<rparr>)
       (filter (\<lambda>d. d_serialNumber d = '''') bmc)"

definition join_observed :: "(string \<rightharpoonup> drive_info) \<Rightarrow> observed_disk \<Rightarrow> disk_divergence list" where
  "join_observed m o' =
     (if od_serialNumber o' = '''' then
        [\<lparr>dv_serialNumber = '''', dv_reason = ''os-only'',
          dv_detail = od_path o' @ '' reports no serial number, so it cannot be matched''\<rparr>]
      else case m (od_serialNumber o') of
        None \<Rightarrow> [\<lparr>dv_serialNumber = od_serialNumber o', dv_reason = ''os-only'',
                  dv_detail = od_path o' @ '' is not in the BMC's drive list''\<rparr>]
      | Some b \<Rightarrow>
          (if d_sizeGB b \<noteq> od_sizeGB o' then
             [\<lparr>dv_serialNumber = od_serialNumber o', dv_reason = ''mismatch'',
               dv_detail = ''BMC says '' @ int_str (d_sizeGB b) @ '' GB, node says ''
                 @ int_str (od_sizeGB o') @ '' GB''\<rparr>]
           else []))"

definition bmc_unseen :: "drive_info list \<Rightarrow> string set \<Rightarrow> disk_divergence list" where
  "bmc_unseen bmc seen =
     map (\<lambda>d. \<lparr>dv_serialNumber = d_serialNumber d, dv_reason = ''bmc-only'',
               dv_detail = ''bay '' @ d_location d @ '': the BMC lists it, the node's kernel does not''\<rparr>)
       (filter (\<lambda>d. \<not> (d_serialNumber d = '''' \<or> d_serialNumber d \<in> seen)) bmc)"

definition seen_serials :: "observed_disk list \<Rightarrow> string set" where
  "seen_serials observed = set (filter (\<lambda>s. s \<noteq> '''') (map od_serialNumber observed))"

definition join_all :: "drive_info list \<Rightarrow> observed_disk list \<Rightarrow> disk_divergence list" where
  "join_all bmc observed =
     bmc_unidentified bmc @ concat (map (join_observed (byBMC bmc)) observed)
       @ bmc_unseen bmc (seen_serials observed)"

text \<open>The two nested loops that choose what survives the cap.\<close>

fun keep_reason :: "string \<Rightarrow> disk_divergence list \<Rightarrow> disk_divergence list \<Rightarrow> disk_divergence list" where
  "keep_reason reason [] kept = kept"
| "keep_reason reason (d # ds) kept =
     keep_reason reason ds (if dv_reason d = reason \<and> length kept < MaxDivergences then kept @ [d] else kept)"

definition dv_key :: "disk_divergence \<Rightarrow> string \<times> string" where
  "dv_key d = (dv_serialNumber d, dv_reason d)"

definition Join :: "drive_info list \<Rightarrow> observed_disk list \<Rightarrow> disk_divergence list" where
  "Join bmc observed =
     (let out = map (\<lambda>d. d\<lparr>dv_detail := clipRunes (dv_detail d) maxDetailLen\<rparr>) (join_all bmc observed);
          out = sort_key dv_key out
      in if length out \<le> MaxDivergences then out
         else
           (let kept = fold (\<lambda>reason kept. keep_reason reason out kept)
                         [''bmc-only'', ''mismatch'', ''os-only''] []
            in sort_key dv_key kept))"

section \<open>Clipping\<close>

lemma clipRunes_length: "length (runes (clipRunes s n)) \<le> n"
proof (cases "length (runes s) \<le> n")
  case False
  have "runes (concat (take n (runes s))) = take n (runes s)"
    by (rule runes_concat) (auto intro: runes_are_runes dest: in_set_takeD)
  with False show ?thesis by (simp add: clipRunes_def)
qed (simp add: clipRunes_def)

lemma clipRunes_idem: "clipRunes (clipRunes s n) n = clipRunes s n"
  using clipRunes_length [of s n] by (simp add: clipRunes_def)

section \<open>What survives\<close>

lemma keep_reason_eq:
  "length kept \<le> MaxDivergences \<Longrightarrow> keep_reason reason ds kept =
     kept @ take (MaxDivergences - length kept) (filter (\<lambda>d. dv_reason d = reason) ds)"
proof (induction reason ds kept rule: keep_reason.induct)
  case (2 reason d ds kept)
  show ?case
  proof (cases "dv_reason d = reason \<and> length kept < MaxDivergences")
    case True
    then obtain k where "MaxDivergences - length kept = Suc k" by (metis Suc_diff_Suc)
    moreover have "MaxDivergences - Suc (length kept) = k" using \<open>MaxDivergences - length kept = Suc k\<close> by simp
    ultimately show ?thesis using 2 True by simp
  next
    case False
    with 2 show ?thesis by (cases "dv_reason d = reason") auto
  qed
qed simp

definition by_reason :: "string \<Rightarrow> disk_divergence list \<Rightarrow> disk_divergence list" where
  "by_reason r ds = filter (\<lambda>d. dv_reason d = r) ds"

lemma keep_reason_take:
  "keep_reason reason ds (take MaxDivergences xs) = take MaxDivergences (xs @ by_reason reason ds)"
  by (simp add: keep_reason_eq by_reason_def min_def)

lemma kept_eq:
  "fold (\<lambda>reason kept. keep_reason reason out kept) [''bmc-only'', ''mismatch'', ''os-only''] [] =
   take MaxDivergences (by_reason ''bmc-only'' out @ by_reason ''mismatch'' out @ by_reason ''os-only'' out)"
  using keep_reason_take [of "''bmc-only''" out "[]"]
  by (simp add: keep_reason_take del: take_append)

lemma join_all_reasons:
  "d \<in> set (join_all bmc observed) \<Longrightarrow> dv_reason d \<in> {''bmc-only'', ''mismatch'', ''os-only''}"
  by (auto simp: join_all_def bmc_unidentified_def bmc_unseen_def join_observed_def
      split: if_splits option.splits)

definition clip_detail :: "disk_divergence \<Rightarrow> disk_divergence" where
  "clip_detail d = d\<lparr>dv_detail := clipRunes (dv_detail d) maxDetailLen\<rparr>"

lemma Join_eq:
  "Join bmc observed =
     (let out = sort_key dv_key (map clip_detail (join_all bmc observed))
      in if length out \<le> MaxDivergences then out
         else sort_key dv_key (take MaxDivergences
                (by_reason ''bmc-only'' out @ by_reason ''mismatch'' out @ by_reason ''os-only'' out)))"
  unfolding Join_def kept_eq clip_detail_def Let_def by simp

lemma clip_detail_simps [simp]:
  "dv_serialNumber (clip_detail d) = dv_serialNumber d" "dv_reason (clip_detail d) = dv_reason d"
  by (simp_all add: clip_detail_def)

lemma Join_subset: "set (Join bmc observed) \<subseteq> clip_detail ` set (join_all bmc observed)"
  unfolding Join_eq Let_def by (auto simp: by_reason_def dest!: in_set_takeD)

lemma byBMC_Some:
  "byBMC bmc s = Some b \<Longrightarrow> b \<in> set bmc \<and> d_serialNumber b = s \<and> s \<noteq> ''''"
  by (auto simp: byBMC_def dest!: map_of_SomeD)

lemma byBMC_None: "s \<noteq> '''' \<Longrightarrow> byBMC bmc s = None \<longleftrightarrow> s \<notin> d_serialNumber ` set bmc"
  by (auto simp: byBMC_def map_of_eq_None_iff image_iff)

section \<open>Theorems\<close>

text \<open>The join always fits its status field: at most 64 entries, every detail at most 256 runes
  long, in the order of serial number and then reason.\<close>

theorem Join_fits_schema:
  "length (Join bmc observed) \<le> MaxDivergences
   \<and> (\<forall>d \<in> set (Join bmc observed). length (runes (dv_detail d)) \<le> maxDetailLen)
   \<and> sorted (map dv_key (Join bmc observed))"
proof -
  have "length (runes (dv_detail d)) \<le> maxDetailLen" if "d \<in> set (Join bmc observed)" for d
    using that Join_subset [of bmc observed] by (auto simp: clip_detail_def clipRunes_length)
  then show ?thesis by (auto simp: Join_eq Let_def sorted_sort_key)
qed

theorem Join_fits_schema_witness:
  "length (runes (dv_detail (hd (Join [\<lparr>d_model = ''m'', d_sizeGB = 5, d_serialNumber = '''',
      d_location = ''1'', d_mediaType = '''', d_ssdEnduranceUsedPercent = None\<rparr>] [])))) \<le> maxDetailLen
   \<and> length (Join [\<lparr>d_model = ''m'', d_sizeGB = 5, d_serialNumber = '''',
      d_location = ''1'', d_mediaType = '''', d_ssdEnduranceUsedPercent = None\<rparr>] []) = 1"
proof -
  let ?J = "Join [\<lparr>d_model = ''m'', d_sizeGB = 5, d_serialNumber = '''',
      d_location = ''1'', d_mediaType = '''', d_ssdEnduranceUsedPercent = None\<rparr>] []"
  have one: "length ?J = 1" by code_simp
  then have "hd ?J \<in> set ?J" by (cases ?J) auto
  with one Join_fits_schema [of "[\<lparr>d_model = ''m'', d_sizeGB = 5, d_serialNumber = '''',
      d_location = ''1'', d_mediaType = '''', d_ssdEnduranceUsedPercent = None\<rparr>]" "[]"]
  show ?thesis by blast
qed

lemma Join_small:
  assumes "length (join_all bmc observed) \<le> MaxDivergences"
  shows "dv_key ` set (Join bmc observed) = dv_key ` set (join_all bmc observed)"
    and "length (filter (\<lambda>d. dv_serialNumber d = s) (Join bmc observed))
      = length (filter (\<lambda>d. dv_serialNumber d = s) (join_all bmc observed))"
proof -
  have J: "Join bmc observed = sort_key dv_key (map clip_detail (join_all bmc observed))"
    using assms by (simp add: Join_eq Let_def)
  show "dv_key ` set (Join bmc observed) = dv_key ` set (join_all bmc observed)"
    unfolding J by (simp add: image_image dv_key_def)
  show "length (filter (\<lambda>d. dv_serialNumber d = s) (Join bmc observed))
      = length (filter (\<lambda>d. dv_serialNumber d = s) (join_all bmc observed))"
    unfolding J by (simp add: filter_sort filter_map comp_def)
qed

lemma join_keys:
  "dv_key ` set (bmc_unidentified bmc) \<subseteq> {('''', ''bmc-only'')}"
  "dv_key ` set (bmc_unseen bmc seen) =
     (\<lambda>d. (d_serialNumber d, ''bmc-only'')) ` {d \<in> set bmc. d_serialNumber d \<noteq> '''' \<and> d_serialNumber d \<notin> seen}"
  "(s, r) \<in> dv_key ` set (join_observed m o') \<longleftrightarrow> s = od_serialNumber o' \<and>
     (if s = '''' then r = ''os-only''
      else case m s of None \<Rightarrow> r = ''os-only'' | Some b \<Rightarrow> d_sizeGB b \<noteq> od_sizeGB o' \<and> r = ''mismatch'')"
  by (auto simp: bmc_unidentified_def bmc_unseen_def join_observed_def dv_key_def image_image
      split: option.splits)

lemma join_all_key:
  "s \<noteq> '''' \<Longrightarrow> (s, r) \<in> dv_key ` set (join_all bmc observed) \<longleftrightarrow>
     (\<exists>o' \<in> set observed. (s, r) \<in> dv_key ` set (join_observed (byBMC bmc) o'))
     \<or> (s, r) \<in> dv_key ` set (bmc_unseen bmc (seen_serials observed))"
  using join_keys(1) [of bmc]
  unfolding join_all_def set_append set_concat set_map image_Un image_UN by blast

lemma join_all_bmc_only:
  "s \<noteq> '''' \<Longrightarrow> (s, ''bmc-only'') \<in> dv_key ` set (join_all bmc observed) \<longleftrightarrow>
     s \<in> d_serialNumber ` set bmc \<and> s \<notin> od_serialNumber ` set observed"
  by (cases "byBMC bmc s") (auto simp: join_all_key join_keys(2,3) seen_serials_def)

lemma join_all_os_only:
  "s \<noteq> '''' \<Longrightarrow> (s, ''os-only'') \<in> dv_key ` set (join_all bmc observed) \<longleftrightarrow>
     s \<in> od_serialNumber ` set observed \<and> byBMC bmc s = None"
  by (cases "byBMC bmc s") (auto simp: join_all_key join_keys(2,3))

lemma join_all_mismatch:
  "s \<noteq> '''' \<Longrightarrow> (s, ''mismatch'') \<in> dv_key ` set (join_all bmc observed) \<longleftrightarrow>
     (\<exists>b o'. byBMC bmc s = Some b \<and> o' \<in> set observed \<and> od_serialNumber o' = s \<and> d_sizeGB b \<noteq> od_sizeGB o')"
  by (cases "byBMC bmc s") (auto simp: join_all_key join_keys(2,3))

lemma join_observed_unidentified:
  "length (filter (\<lambda>d. dv_serialNumber d = '''') (concat (map (join_observed m) os))) =
   length (filter (\<lambda>o'. od_serialNumber o' = '''') os)"
  by (induction os) (auto simp: join_observed_def split: option.splits)

lemma join_all_unidentified:
  "length (filter (\<lambda>d. dv_serialNumber d = '''') (join_all bmc observed)) =
   length (filter (\<lambda>d. d_serialNumber d = '''') bmc) + length (filter (\<lambda>o'. od_serialNumber o' = '''') observed)"
  by (auto simp: join_all_def join_observed_unidentified bmc_unidentified_def bmc_unseen_def filter_map comp_def
      filter_empty_conv)

text \<open>Below the cap the join is exact: a non-empty serial is reported bmc-only (os-only) if and
  only if just the BMC (just the node) lists it, and mismatch if and only if both list it, the
  last drive the BMC lists under it having another size; and each disk with no serial number, on
  either side, is reported by an entry of its own, so two of them are never taken for a match.\<close>

theorem Join_exact:
  assumes "length (join_all bmc observed) \<le> MaxDivergences" "s \<noteq> ''''"
  shows "((s, ''bmc-only'') \<in> dv_key ` set (Join bmc observed) \<longleftrightarrow>
      s \<in> d_serialNumber ` set bmc \<and> s \<notin> od_serialNumber ` set observed)
    \<and> ((s, ''os-only'') \<in> dv_key ` set (Join bmc observed) \<longleftrightarrow>
      s \<in> od_serialNumber ` set observed \<and> s \<notin> d_serialNumber ` set bmc)
    \<and> ((s, ''mismatch'') \<in> dv_key ` set (Join bmc observed) \<longleftrightarrow>
      (\<exists>b o'. byBMC bmc s = Some b \<and> o' \<in> set observed \<and> od_serialNumber o' = s \<and> d_sizeGB b \<noteq> od_sizeGB o'))
    \<and> length (filter (\<lambda>d. dv_serialNumber d = '''') (Join bmc observed)) =
      length (filter (\<lambda>d. d_serialNumber d = '''') bmc)
      + length (filter (\<lambda>o'. od_serialNumber o' = '''') observed)"
  using assms(2) unfolding Join_small [OF assms(1)]
  by (simp add: join_all_bmc_only join_all_os_only join_all_mismatch join_all_unidentified byBMC_None)

definition w_drive :: drive_info where
  "w_drive = \<lparr>d_model = ''m'', d_sizeGB = 5, d_serialNumber = ''S'', d_location = ''1'', d_mediaType = ''SSD'',
     d_ssdEnduranceUsedPercent = None\<rparr>"

theorem Join_exact_witness:
  "(''S'', ''bmc-only'') \<in> dv_key ` set (Join [w_drive] [])"
proof -
  have "join_all [w_drive] [] = [\<lparr>dv_serialNumber = ''S'', dv_reason = ''bmc-only'',
      dv_detail = ''bay 1: the BMC lists it, the node's kernel does not''\<rparr>]"
    by (simp add: join_all_def bmc_unidentified_def bmc_unseen_def seen_serials_def w_drive_def)
  then show ?thesis
    using Join_exact [of "[w_drive]" "[]" "''S''"] by (simp add: MaxDivergences_def w_drive_def)
qed

definition reason_rank :: "disk_divergence \<Rightarrow> nat" where
  "reason_rank d = (if dv_reason d = ''bmc-only'' then 0 else if dv_reason d = ''mismatch'' then 1 else 2)"

lemma sorted_take_rank:
  "sorted (map f xs) \<Longrightarrow> x \<in> set xs \<Longrightarrow> x \<notin> set (take n xs) \<Longrightarrow> y \<in> set (take n xs) \<Longrightarrow> f y \<le> f x"
proof -
  assume a: "sorted (map f xs)" "x \<in> set xs" "x \<notin> set (take n xs)" "y \<in> set (take n xs)"
  have "x \<in> set (drop n xs)" using a(2,3) by (metis Un_iff append_take_drop_id set_append)
  moreover have "sorted (map f (take n xs) @ map f (drop n xs))"
    using a(1) by (simp flip: map_append)
  ultimately show ?thesis using a(4) by (auto simp: sorted_append)
qed

lemma by_reason_ranked:
  "sorted (map reason_rank (by_reason ''bmc-only'' ds @ by_reason ''mismatch'' ds @ by_reason ''os-only'' ds))"
proof -
  have c: "sorted (map reason_rank (by_reason r ds))" for r
    by (induction ds) (auto simp: by_reason_def reason_rank_def)
  show ?thesis
    unfolding map_append sorted_append using c by (auto simp: by_reason_def reason_rank_def)
qed

lemma by_reason_length:
  "(\<And>d. d \<in> set ds \<Longrightarrow> dv_reason d \<in> {''bmc-only'', ''mismatch'', ''os-only''}) \<Longrightarrow>
   length (by_reason ''bmc-only'' ds @ by_reason ''mismatch'' ds @ by_reason ''os-only'' ds) = length ds"
  by (induction ds) (auto simp: by_reason_def)

text \<open>Above the cap the join returns exactly 64 entries and keeps the important ones: a disk the
  node cannot see is dropped only when nothing but such disks is kept, and an os-only entry is
  kept only when no other kind was dropped.\<close>

theorem Join_keeps_most_important:
  assumes "length (join_all bmc observed) > MaxDivergences"
    and "x \<in> clip_detail ` set (join_all bmc observed)" "x \<notin> set (Join bmc observed)"
    and "y \<in> set (Join bmc observed)"
  shows "length (Join bmc observed) = MaxDivergences \<and> reason_rank y \<le> reason_rank x"
proof -
  define out where "out = sort_key dv_key (map clip_detail (join_all bmc observed))"
  define ranked where "ranked = by_reason ''bmc-only'' out @ by_reason ''mismatch'' out @ by_reason ''os-only'' out"
  have J: "Join bmc observed = sort_key dv_key (take MaxDivergences ranked)"
    using assms(1) by (simp add: Join_eq Let_def out_def ranked_def)
  have out: "d \<in> set out \<Longrightarrow> dv_reason d \<in> {''bmc-only'', ''mismatch'', ''os-only''}" for d
    using join_all_reasons [of _ bmc observed] by (force simp: out_def)
  have "x \<in> set ranked" using assms(2) out by (auto simp: ranked_def by_reason_def out_def)
  then have "reason_rank y \<le> reason_rank x"
    using sorted_take_rank [OF by_reason_ranked [of out], folded ranked_def] assms(3,4) by (simp add: J)
  moreover have "length ranked = length out"
    using by_reason_length out unfolding ranked_def by blast
  then have "length ranked = length (join_all bmc observed)" by (simp add: out_def)
  ultimately show ?thesis using assms(1) by (simp add: J)
qed

definition w_bays :: "drive_info list" where
  "w_bays = replicate 64 (w_drive\<lparr>d_serialNumber := ''''\<rparr>)"

definition w_disk :: observed_disk where
  "w_disk = \<lparr>od_path = ''/dev/sda'', od_serialNumber = ''T'', od_sizeGB = 5, od_occupancy = ''free'', od_wwn = '''', od_byIDPath = '''', od_model = ''m'',
     od_rotational = Some False, od_mountPoint = '''', od_fsType = '''', od_members = [], od_smart = None\<rparr>"

definition w_os_only :: disk_divergence where
  "w_os_only = hd (join_observed Map.empty w_disk)"

theorem Join_keeps_most_important_witness:
  "length (Join w_bays [w_disk]) = MaxDivergences
   \<and> reason_rank (hd (Join w_bays [w_disk])) \<le> reason_rank (clip_detail w_os_only)"
proof (rule Join_keeps_most_important)
  have j: "join_all w_bays [w_disk] = bmc_unidentified w_bays @ [w_os_only]"
    by (simp add: join_all_def bmc_unseen_def w_bays_def w_drive_def byBMC_def w_os_only_def
        join_observed_def w_disk_def)
  show "MaxDivergences < length (join_all w_bays [w_disk])"
    unfolding j by (simp add: bmc_unidentified_def w_bays_def w_drive_def MaxDivergences_def)
  show "clip_detail w_os_only \<in> clip_detail ` set (join_all w_bays [w_disk])"
    unfolding j by simp
  let ?out = "sort_key dv_key (map clip_detail (join_all w_bays [w_disk]))"
  have "length (by_reason ''bmc-only'' ?out) = MaxDivergences" "length ?out > MaxDivergences"
    unfolding j by (simp_all add: by_reason_def filter_sort bmc_unidentified_def w_bays_def w_drive_def
        MaxDivergences_def w_os_only_def join_observed_def w_disk_def)
  then have J: "Join w_bays [w_disk] = sort_key dv_key (by_reason ''bmc-only'' ?out)"
      "Join w_bays [w_disk] \<noteq> []"
    by (auto simp: Join_eq Let_def MaxDivergences_def)
  show "clip_detail w_os_only \<notin> set (Join w_bays [w_disk])"
  proof -
    have "dv_reason (clip_detail w_os_only) \<noteq> ''bmc-only''"
      by (simp add: w_os_only_def join_observed_def w_disk_def)
    then show ?thesis unfolding J(1) by_reason_def by simp
  qed
  show "hd (Join w_bays [w_disk]) \<in> set (Join w_bays [w_disk])"
    using J(2) by simp
qed

end
