(* ===== verification/Storage_Health.thy ===== *)
theory Storage_Health
  imports Storage_Join
begin

text \<open>
  \<open>internal/storage/health.go\<close>: what a machine's storage reading says, as findings. The readings
  are those of \<open>localstorage_types.go\<close> and \<open>framemachine_types.go\<close>, restricted to the fields the
  assessment looks at. \<open>Open\<close> is a Go map: here an association list, whose order (Go's iteration
  order) no result depends on. \<open>Held\<close> is a set of keys, \<open>Unread\<close> and \<open>Cut\<close> are maps.
\<close>

section \<open>Readings\<close>

record md_member =
  mm_device :: string
  mm_serial :: string
  mm_failed :: bool

record md_array =
  ma_name :: string
  ma_level :: string
  ma_state :: string
  ma_raidDisks :: int
  ma_activeDisks :: int
  ma_slots :: string
  ma_degraded :: bool
  ma_members :: "md_member list"

record md_status =
  md_state :: string
  md_error :: string
  md_arrays :: "md_array list"
  md_arraysOmitted :: int

record zvdev =
  zv_name :: string
  zv_state :: string
  zv_readErrors :: int
  zv_writeErrors :: int
  zv_checksumErrors :: int

record zpool =
  zp_name :: string
  zp_health :: string
  zp_capacityPercent :: "int option"
  zp_scan :: string
  zp_scrubErrors :: "int option"
  zp_lastScrub :: string
  zp_vdevs :: "zvdev list"
  zp_vdevsOmitted :: int

record zfs_status =
  zs_state :: string
  zs_error :: string
  zs_pools :: "zpool list"
  zs_poolsOmitted :: int

record local_storage =
  ls_zfs :: zfs_status
  ls_md :: md_status

record machine_storage =
  ms_observed :: "observed_disk list"
  ms_observedAt :: "instant option"
  ms_local :: "local_storage option"

section \<open>Checks, scopes, assessments\<close>

definition CheckDegraded :: string where "CheckDegraded = ''StorageDegraded''"
definition CheckScrubErrors :: string where "CheckScrubErrors = ''ScrubErrors''"
definition CheckCapacityHigh :: string where "CheckCapacityHigh = ''StorageCapacityHigh''"
definition CheckWearHigh :: string where "CheckWearHigh = ''DiskWearHigh''"
definition CheckNetDegraded :: string where "CheckNetDegraded = ''NetworkDegraded''"
definition CheckLinkSlow :: string where "CheckLinkSlow = ''LinkSpeedLow''"
definition CheckSaturated :: string where "CheckSaturated = ''LinkSaturated''"
definition CheckLinkErrors :: string where "CheckLinkErrors = ''LinkErrorsRising''"

lemmas check_names =
  CheckDegraded_def CheckScrubErrors_def CheckCapacityHigh_def CheckWearHigh_def CheckNetDegraded_def
  CheckLinkSlow_def CheckSaturated_def CheckLinkErrors_def

definition Checks :: "string list" where
  "Checks = [CheckDegraded, CheckScrubErrors, CheckCapacityHigh, CheckWearHigh, CheckNetDegraded,
     CheckLinkSlow, CheckSaturated, CheckLinkErrors]"

definition ScopeMD :: string where "ScopeMD = ''md''"
definition ScopeZFS :: string where "ScopeZFS = ''zfs''"
definition ScopeDrives :: string where "ScopeDrives = ''drives''"
definition ScopeSMART :: string where "ScopeSMART = ''smart''"
definition ScopeNet :: string where "ScopeNet = ''network''"
definition ScopeNetExpected :: string where "ScopeNetExpected = ''network-expected''"
definition scopeNetState :: string where "scopeNetState = ''network-state''"
definition scopeNetTraffic :: string where "scopeNetTraffic = ''network-traffic''"
definition scopeNetSustained :: string where "scopeNetSustained = ''network-sustained''"

lemmas scope_names =
  ScopeMD_def ScopeZFS_def ScopeDrives_def ScopeSMART_def ScopeNet_def ScopeNetExpected_def
  scopeNetState_def scopeNetTraffic_def scopeNetSustained_def

definition severityCritical :: string where "severityCritical = ''critical''"
definition severityWarning :: string where "severityWarning = ''warning''"

definition capacityHysteresis :: int where "capacityHysteresis = 2"
definition MaxInventoryDrives :: nat where "MaxInventoryDrives = 32"
definition MaxObservedDisks :: nat where "MaxObservedDisks = 64"
definition mediaSSD :: string where "mediaSSD = ''SSD''"
definition AgentSilentAfter :: duration where "AgentSilentAfter = 10 * minute"

record key =
  k_check :: string
  k_device :: string

abbreviation Key :: "string \<Rightarrow> string \<Rightarrow> key" where
  "Key c d \<equiv> \<lparr>k_check = c, k_device = d\<rparr>"

type_synonym open_alerts = "(key \<times> string) list"

definition open_has :: "open_alerts \<Rightarrow> key \<Rightarrow> bool" where
  "open_has opn k \<longleftrightarrow> k \<in> set (map fst opn)"

record finding =
  f_key :: key
  f_scope :: string
  f_severity :: string
  f_message :: string

record assessment =
  findings :: "finding list"
  unread :: "string \<rightharpoonup> string"
  cut :: "string \<rightharpoonup> string"
  held :: "key set"
  wearUnreported :: int
  smartSilent :: "string list"
  speedUnreported :: int
  capacityUnreported :: int

definition empty_assessment :: assessment where
  "empty_assessment = \<lparr>findings = [], unread = Map.empty, cut = Map.empty, held = {},
     wearUnreported = 0, smartSilent = [], speedUnreported = 0, capacityUnreported = 0\<rparr>"

record thresholds =
  t_ZFSCapacityPercent :: int
  t_SSDWearPercent :: int

text \<open>The policy is given by its two spec fields.\<close>

definition ThresholdsFrom :: "(int \<times> int) option \<Rightarrow> thresholds" where
  "ThresholdsFrom p =
     (case p of None \<Rightarrow> \<lparr>t_ZFSCapacityPercent = 80, t_SSDWearPercent = 80\<rparr>
      | Some (z, w) \<Rightarrow> \<lparr>t_ZFSCapacityPercent = (if z > 0 then z else 80),
                        t_SSDWearPercent = (if w > 0 then w else 80)\<rparr>)"

section \<open>Recording\<close>

definition add :: "string \<Rightarrow> string \<Rightarrow> string \<Rightarrow> string \<Rightarrow> string \<Rightarrow> assessment \<Rightarrow> assessment" where
  "add check device scope severity message a =
     a\<lparr>findings := findings a @
        [\<lparr>f_key = Key check device, f_scope = scope, f_severity = severity, f_message = message\<rparr>]\<rparr>"

definition set_unread :: "string \<Rightarrow> string \<Rightarrow> assessment \<Rightarrow> assessment" where
  "set_unread scope why a = a\<lparr>unread := (unread a)(scope \<mapsto> why)\<rparr>"

definition set_cut :: "string \<Rightarrow> string \<Rightarrow> assessment \<Rightarrow> assessment" where
  "set_cut scope why a = a\<lparr>cut := (cut a)(scope \<mapsto> why)\<rparr>"

text \<open>\<open>if open.has(k) { a.Held[k] = true }\<close>.\<close>

definition hold_open :: "open_alerts \<Rightarrow> key \<Rightarrow> assessment \<Rightarrow> assessment" where
  "hold_open opn k a = (if open_has opn k then a\<lparr>held := insert k (held a)\<rparr> else a)"

definition holdUnlisted :: "open_alerts \<Rightarrow> string \<Rightarrow> string list \<Rightarrow> assessment \<Rightarrow> assessment" where
  "holdUnlisted opn scope listed a =
     fold (\<lambda>(k, s) a. if s = scope \<and> k_device k \<notin> set listed then a\<lparr>held := insert k (held a)\<rparr> else a) opn a"

section \<open>md\<close>

definition stackUnread :: "string \<Rightarrow> string \<Rightarrow> string" where
  "stackUnread state errText =
     (if state = ''present'' \<or> state = ''absent'' then ''''
      else if state = ''error'' then ''read failed: '' @ errText
      else if state = ''busy'' then ''previous read still running on the node''
      else ''unknown stack state '' @ quoted state)"

definition serialNote :: "string \<Rightarrow> string" where
  "serialNote serial = (if serial = '''' then '''' else '' (serial '' @ serial @ '')'')"

definition mdMessage :: "md_array \<Rightarrow> string" where
  "mdMessage arr =
     (let failed = map (\<lambda>m. mm_device m @ serialNote (mm_serial m)) (filter mm_failed (ma_members arr));
          msg = ''md array '' @ ma_name arr @ '' ('' @ ma_level arr @ '') is degraded: state '' @ ma_state arr
            @ '', '' @ int_str (ma_activeDisks arr) @ '' of '' @ int_str (ma_raidDisks arr)
            @ '' disks active, slots ['' @ ma_slots arr @ '']''
      in if failed \<noteq> [] then msg @ ''; failed: '' @ join_with '', '' failed else msg)"

definition assess_array :: "md_array \<Rightarrow> assessment \<Rightarrow> assessment" where
  "assess_array arr a =
     (if ma_degraded arr then add CheckDegraded (ma_name arr) ScopeMD severityCritical (mdMessage arr) a
      else a)"

definition assessMD :: "md_status \<Rightarrow> open_alerts \<Rightarrow> assessment \<Rightarrow> assessment" where
  "assessMD md opn a =
     (let why = stackUnread (md_state md) (md_error md) in
      if why \<noteq> '''' then set_unread ScopeMD why a
      else
        (let a = fold assess_array (md_arrays md) a;
             a = holdUnlisted opn ScopeMD (map ma_name (md_arrays md)) a
         in if md_arraysOmitted md > 0
            then set_cut ScopeMD (int_str (md_arraysOmitted md) @ '' array(s) past the agent's list limit'') a
            else a))"

section \<open>zfs\<close>

definition vdev_problem :: "zvdev \<Rightarrow> string option" where
  "vdev_problem v =
     (if zv_state v \<in> set [''DEGRADED'', ''FAULTED'', ''OFFLINE'', ''UNAVAIL'', ''REMOVED'']
      then Some (zv_name v @ '' ('' @ zv_state v @ '')'')
      else if wrap64 (wrap64 (zv_readErrors v + zv_writeErrors v) + zv_checksumErrors v) > 0
      then Some (zv_name v @ '' (errors)'')
      else None)"

definition poolProblems :: "zpool \<Rightarrow> string" where
  "poolProblems p =
     (let bad = List.map_filter vdev_problem (zp_vdevs p) in
      if (zp_health p = '''' \<or> zp_health p = ''ONLINE'') \<and> bad = [] then ''''
      else
        (let msg = ''pool '' @ zp_name p @ '' is '' @ zp_health p
         in if bad \<noteq> [] then msg @ '': '' @ join_with '', '' bad else msg))"

definition pool_health :: "open_alerts \<Rightarrow> zpool \<Rightarrow> assessment \<Rightarrow> assessment" where
  "pool_health opn p a =
     (let msg = poolProblems p in
      if msg \<noteq> '''' then add CheckDegraded (zp_name p) ScopeZFS severityCritical msg a
      else if zp_vdevsOmitted p > 0 \<or> zp_health p = '''' then
        hold_open opn (Key CheckDegraded (zp_name p))
          (set_cut ScopeZFS (''pool '' @ zp_name p @ '' was not read in full'') a)
      else a)"

definition pool_scrub :: "open_alerts \<Rightarrow> zpool \<Rightarrow> assessment \<Rightarrow> assessment" where
  "pool_scrub opn p a =
     (case zp_scrubErrors p of
        Some n \<Rightarrow>
          if n > 0 then
            add CheckScrubErrors (zp_name p) ScopeZFS severityCritical
              (''pool '' @ zp_name p @ '': last scrub found '' @ int_str n @ '' errors ('' @ zp_lastScrub p @ '')'') a
          else a
      | None \<Rightarrow>
          if zp_scan p \<noteq> ''none requested'' then hold_open opn (Key CheckScrubErrors (zp_name p)) a else a)"

definition capacity_limit :: "thresholds \<Rightarrow> open_alerts \<Rightarrow> key \<Rightarrow> int" where
  "capacity_limit t opn k =
     (if open_has opn k then wrap32 (t_ZFSCapacityPercent t - capacityHysteresis) else t_ZFSCapacityPercent t)"

definition pool_capacity :: "thresholds \<Rightarrow> open_alerts \<Rightarrow> zpool \<Rightarrow> assessment \<Rightarrow> assessment" where
  "pool_capacity t opn p a =
     (let key = Key CheckCapacityHigh (zp_name p) in
      case zp_capacityPercent p of
        None \<Rightarrow> hold_open opn key a
      | Some c \<Rightarrow>
          if c \<ge> capacity_limit t opn key then
            add CheckCapacityHigh (zp_name p) ScopeZFS severityWarning
              (''pool '' @ zp_name p @ '' is over the capacity threshold of ''
                 @ int_str (t_ZFSCapacityPercent t) @ '' %'') a
          else a)"

definition assessPool :: "thresholds \<Rightarrow> open_alerts \<Rightarrow> zpool \<Rightarrow> assessment \<Rightarrow> assessment" where
  "assessPool t opn p a = pool_capacity t opn p (pool_scrub opn p (pool_health opn p a))"

definition assessZFS :: "zfs_status \<Rightarrow> thresholds \<Rightarrow> open_alerts \<Rightarrow> assessment \<Rightarrow> assessment" where
  "assessZFS z t opn a =
     (let why = stackUnread (zs_state z) (zs_error z) in
      if why \<noteq> '''' then set_unread ScopeZFS why a
      else
        (let a = fold (assessPool t opn) (zs_pools z) a;
             a = holdUnlisted opn ScopeZFS (map zp_name (zs_pools z)) a
         in if zs_poolsOmitted z > 0
            then set_cut ScopeZFS (int_str (zs_poolsOmitted z) @ '' pool(s) past the agent's list limit'') a
            else a))"

definition local_unread :: "machine_storage option \<Rightarrow> instant \<Rightarrow> string" where
  "local_unread s now =
     (case s of None \<Rightarrow> ''the agent has not reported the node's stacks''
      | Some st \<Rightarrow>
          if ms_local st = None then ''the agent has not reported the node's stacks''
          else (case ms_observedAt st of None \<Rightarrow> ''the agent has stopped reporting''
                | Some t \<Rightarrow> if now - t > AgentSilentAfter then ''the agent has stopped reporting'' else ''''))"

definition assessLocal ::
  "machine_storage option \<Rightarrow> thresholds \<Rightarrow> open_alerts \<Rightarrow> instant \<Rightarrow> assessment \<Rightarrow> assessment" where
  "assessLocal s t opn now a =
     (let why = local_unread s now in
      if why \<noteq> '''' then set_unread ScopeSMART why (set_unread ScopeZFS why (set_unread ScopeMD why a))
      else case s of
        Some st \<Rightarrow>
          (case ms_local st of
             Some l \<Rightarrow> assessZFS (ls_zfs l) t opn (assessMD (ls_md l) opn a)
           | None \<Rightarrow> a)
      | None \<Rightarrow> a)"

section \<open>Drives and SMART\<close>

definition smart_wear :: "observed_disk \<Rightarrow> int option" where
  "smart_wear d = (case od_smart d of None \<Rightarrow> None | Some m \<Rightarrow> sm_wearUsedPercent m)"

definition smart_passed :: "observed_disk \<Rightarrow> bool option" where
  "smart_passed d = (case od_smart d of None \<Rightarrow> None | Some m \<Rightarrow> sm_passed m)"

definition smartReportsWear :: "assessment \<Rightarrow> machine_storage option \<Rightarrow> string \<Rightarrow> bool" where
  "smartReportsWear a s serial =
     (case s of None \<Rightarrow> False
      | Some st \<Rightarrow> unread a ScopeSMART = None \<and>
          (\<exists>d \<in> set (ms_observed st). od_serialNumber d = serial \<and> smart_wear d \<noteq> None))"

definition drive_device :: "drive_info \<Rightarrow> string" where
  "drive_device d = (if d_serialNumber d = '''' then d_location d else d_serialNumber d)"

definition assess_drive ::
  "machine_storage option \<Rightarrow> thresholds \<Rightarrow> open_alerts \<Rightarrow> drive_info \<Rightarrow> assessment \<Rightarrow> assessment" where
  "assess_drive s t opn d a =
     (case d_ssdEnduranceUsedPercent d of
        Some used \<Rightarrow>
          if used \<ge> t_SSDWearPercent t then
            add CheckWearHigh (drive_device d) ScopeDrives severityWarning
              (''drive '' @ drive_device d @ '' (bay '' @ d_location d @ '', '' @ d_model d @ '') has used ''
                 @ int_str used @ '' % of its endurance'') a
          else a
      | None \<Rightarrow>
          (let reported = smartReportsWear a s (d_serialNumber d);
               a = (if reported then a else hold_open opn (Key CheckWearHigh (drive_device d)) a)
           in if d_mediaType d = mediaSSD \<and> \<not> reported then a\<lparr>wearUnreported := wearUnreported a + 1\<rparr> else a))"

text \<open>The inventory is given by its drive list.\<close>

definition assessDrives ::
  "drive_info list option \<Rightarrow> machine_storage option \<Rightarrow> thresholds \<Rightarrow> bool \<Rightarrow> open_alerts \<Rightarrow>
     assessment \<Rightarrow> assessment" where
  "assessDrives invn s t fresh opn a =
     (if \<not> fresh then set_unread ScopeDrives ''the BMC did not answer the last probe'' a
      else case invn of
        None \<Rightarrow> set_unread ScopeDrives ''the BMC lists no drives'' a
      | Some drives \<Rightarrow>
          if drives = [] then set_unread ScopeDrives ''the BMC lists no drives'' a
          else
            (let a = fold (assess_drive s t opn) drives a;
                 a = holdUnlisted opn ScopeDrives (map drive_device drives) a
             in if length drives \<ge> MaxInventoryDrives
                then set_cut ScopeDrives (''the inventory holds '' @ int_str (int MaxInventoryDrives)
                       @ '' drives at most'') a
                else a))"

definition maybeSolidState :: "observed_disk \<Rightarrow> bool" where
  "maybeSolidState d = (case od_rotational d of None \<Rightarrow> True | Some r \<Rightarrow> \<not> r)"

definition wearOwed :: "drive_info option \<Rightarrow> bool" where
  "wearOwed bmc =
     (case bmc of None \<Rightarrow> True
      | Some b \<Rightarrow> d_ssdEnduranceUsedPercent b = None \<and> d_mediaType b \<noteq> mediaSSD)"

definition bmcDrive :: "drive_info list option \<Rightarrow> string \<Rightarrow> drive_info option" where
  "bmcDrive invn serial =
     (case invn of None \<Rightarrow> None | Some drives \<Rightarrow> find (\<lambda>d. d_serialNumber d = serial) drives)"

definition smart_owed :: "observed_disk \<Rightarrow> drive_info option \<Rightarrow> bool" where
  "smart_owed d bmc \<longleftrightarrow> od_smart d \<noteq> None \<or> maybeSolidState d
     \<or> (case bmc of None \<Rightarrow> False | Some b \<Rightarrow> d_mediaType b = mediaSSD)"

definition disk_health :: "drive_info list option \<Rightarrow> open_alerts \<Rightarrow> observed_disk \<Rightarrow> assessment \<Rightarrow> assessment" where
  "disk_health invn opn d a =
     (let bmc = bmcDrive invn (od_serialNumber d);
          a = (if smart_owed d bmc \<and> smart_passed d = None
               then a\<lparr>smartSilent := smartSilent a @ [od_serialNumber d]\<rparr> else a)
      in case smart_passed d of
           None \<Rightarrow> hold_open opn (Key CheckDegraded (od_serialNumber d)) a
         | Some passed \<Rightarrow>
             if \<not> passed then
               add CheckDegraded (od_serialNumber d) ScopeSMART severityCritical
                 (''disk '' @ od_serialNumber d @ '' ('' @ od_path d @ '', '' @ od_model d
                    @ '') reports a failing SMART self-assessment'') a
             else a)"

definition disk_wear ::
  "drive_info list option \<Rightarrow> thresholds \<Rightarrow> open_alerts \<Rightarrow> observed_disk \<Rightarrow> assessment \<Rightarrow> assessment" where
  "disk_wear invn t opn d a =
     (let bmc = bmcDrive invn (od_serialNumber d) in
      if (case bmc of None \<Rightarrow> False | Some b \<Rightarrow> d_ssdEnduranceUsedPercent b \<noteq> None) then a
      else case smart_wear d of
        None \<Rightarrow>
          (let a = hold_open opn (Key CheckWearHigh (od_serialNumber d)) a
           in if smart_owed d bmc \<and> wearOwed bmc then a\<lparr>wearUnreported := wearUnreported a + 1\<rparr> else a)
      | Some w \<Rightarrow>
          if w \<ge> t_SSDWearPercent t then
            add CheckWearHigh (od_serialNumber d) ScopeSMART severityWarning
              (''disk '' @ od_serialNumber d @ '' ('' @ od_path d @ '', '' @ od_model d @ '') has used ''
                 @ int_str w @ '' % of its endurance'') a
          else a)"

definition assess_disk ::
  "drive_info list option \<Rightarrow> thresholds \<Rightarrow> open_alerts \<Rightarrow> observed_disk \<Rightarrow> assessment \<Rightarrow> assessment" where
  "assess_disk invn t opn d a = disk_wear invn t opn d (disk_health invn opn d a)"

definition assessSMART ::
  "machine_storage option \<Rightarrow> drive_info list option \<Rightarrow> thresholds \<Rightarrow> open_alerts \<Rightarrow>
     assessment \<Rightarrow> assessment" where
  "assessSMART s invn t opn a =
     (case s of None \<Rightarrow> a
      | Some st \<Rightarrow>
          if unread a ScopeSMART \<noteq> None then
            fold (\<lambda>d a. if maybeSolidState d \<and> wearOwed (bmcDrive invn (od_serialNumber d))
                        then a\<lparr>wearUnreported := wearUnreported a + 1\<rparr> else a) (ms_observed st) a
          else
            (let a = fold (assess_disk invn t opn) (ms_observed st) a;
                 a = holdUnlisted opn ScopeSMART (map od_serialNumber (ms_observed st)) a
             in if length (ms_observed st) \<ge> MaxObservedDisks
                then set_cut ScopeSMART (''the agent lists '' @ int_str (int MaxObservedDisks)
                       @ '' disks at most'') a
                else a))"

end
