(* ===== verification/Network_Health.thy ===== *)
theory Network_Health
  imports Storage_Health
begin

text \<open>
  \<open>internal/storage/network_health.go\<close>: what a node's links say. \<open>Links\<close> of the expectations is a Go
  map, here an association list in some iteration order.
\<close>

section \<open>Readings and expectations\<close>

record link_traffic =
  lt_historySeconds :: int
  lt_capacityMbps :: "int option"
  lt_sustainedUtilizationPercent :: "int option"
  lt_errorsPerMinute :: int

record network_interface =
  ni_name :: string
  ni_operState :: string
  ni_speedMbps :: "int option"
  ni_traffic :: "link_traffic option"

record bond_member =
  bm_name :: string
  bm_miiStatus :: string
  bm_aggregatorID :: int

record network_bond =
  nb_name :: string
  nb_mode :: string
  nb_miiStatus :: string
  nb_aggregatorID :: int
  nb_traffic :: "link_traffic option"
  nb_members :: "bond_member list"
  nb_membersOmitted :: int
  nb_membersUnread :: bool
  nb_adminDown :: bool

record machine_network =
  mn_observedAt :: "instant option"
  mn_error :: string
  mn_interfaces :: "network_interface list"
  mn_interfacesOmitted :: int
  mn_bonds :: "network_bond list"
  mn_bondsOmitted :: int

record expected_link =
  el_node :: string
  el_interface :: string
  el_speedMbps :: int
  el_members :: int

record network_policy =
  np_minLinkSpeedMbps :: int
  np_linkSaturatedPercent :: int
  np_linkErrorsPerMinute :: int
  np_links :: "expected_link list"

record net_expectations =
  ne_minSpeedMbps :: int
  ne_saturatedPercent :: int
  ne_errorsPerMinute :: int
  ne_links :: "(string \<times> expected_link) list"
  ne_unread :: string

definition modeLACP :: string where "modeLACP = ''802.3ad''"
definition saturationHysteresis :: int where "saturationHysteresis = 5"
definition FullHistorySeconds :: int where "FullHistorySeconds = 285"

definition NetExpectationsFrom :: "network_policy option \<Rightarrow> string \<Rightarrow> net_expectations" where
  "NetExpectationsFrom p node =
     (case p of
        None \<Rightarrow> \<lparr>ne_minSpeedMbps = 1000, ne_saturatedPercent = 80, ne_errorsPerMinute = 1,
                 ne_links = [], ne_unread = ''''\<rparr>
      | Some s \<Rightarrow>
          \<lparr>ne_minSpeedMbps = (if np_minLinkSpeedMbps s > 0 then np_minLinkSpeedMbps s else 1000),
           ne_saturatedPercent = (if np_linkSaturatedPercent s > 0 then np_linkSaturatedPercent s else 80),
           ne_errorsPerMinute = (if np_linkErrorsPerMinute s > 0 then np_linkErrorsPerMinute s else 1),
           ne_links = fold (\<lambda>l m. if el_node l = node then AList.update (el_interface l) l m else m) (np_links s) [],
           ne_unread = ''''\<rparr>)"

definition expected_of :: "net_expectations \<Rightarrow> string \<Rightarrow> expected_link option" where
  "expected_of e name = map_of (ne_links e) name"

definition memberDevice :: "string \<Rightarrow> string \<Rightarrow> string" where
  "memberDevice bond member = bond @ ''/'' @ member"

section \<open>Traffic, interfaces, bonds\<close>

definition unsure :: "key \<Rightarrow> open_alerts \<Rightarrow> string \<Rightarrow> assessment \<Rightarrow> assessment" where
  "unsure k opn why a = set_cut scopeNetState why (hold_open opn k a)"

definition traffic_errors ::
  "string \<Rightarrow> link_traffic \<Rightarrow> net_expectations \<Rightarrow> open_alerts \<Rightarrow> assessment \<Rightarrow> assessment" where
  "traffic_errors name t e opn a =
     (if lt_errorsPerMinute t \<ge> ne_errorsPerMinute e then
        add CheckLinkErrors name ScopeNet severityWarning (''link '' @ name @ '' is counting errors'') a
      else if lt_historySeconds t < FullHistorySeconds then
        set_cut scopeNetTraffic (''link '' @ name @ '' has under five minutes of readings'')
          (hold_open opn (Key CheckLinkErrors name) a)
      else a)"

definition saturation_limit :: "net_expectations \<Rightarrow> open_alerts \<Rightarrow> key \<Rightarrow> int" where
  "saturation_limit e opn k =
     (if open_has opn k then max 1 (wrap32 (ne_saturatedPercent e - saturationHysteresis))
      else ne_saturatedPercent e)"

definition traffic_load ::
  "string \<Rightarrow> link_traffic \<Rightarrow> bool \<Rightarrow> net_expectations \<Rightarrow> open_alerts \<Rightarrow> assessment \<Rightarrow> assessment" where
  "traffic_load name t up e opn a =
     (let k = Key CheckSaturated name in
      case lt_capacityMbps t of
        None \<Rightarrow>
          (let a = hold_open opn k a
           in if up then a\<lparr>capacityUnreported := capacityUnreported a + 1\<rparr> else a)
      | Some _ \<Rightarrow>
          (case lt_sustainedUtilizationPercent t of
             None \<Rightarrow> set_cut scopeNetSustained (''link '' @ name @ '' has under five minutes of readings'')
                       (hold_open opn k a)
           | Some u \<Rightarrow>
               if u \<ge> saturation_limit e opn k then
                 add CheckSaturated name ScopeNet severityWarning
                   (''link '' @ name @ '' is near its speed over five minutes, threshold ''
                      @ int_str (ne_saturatedPercent e) @ '' %'') a
               else a))"

definition assessTraffic ::
  "string \<Rightarrow> link_traffic option \<Rightarrow> bool \<Rightarrow> bool \<Rightarrow> net_expectations \<Rightarrow> open_alerts \<Rightarrow>
     assessment \<Rightarrow> assessment" where
  "assessTraffic name t carrying up e opn a =
     (let hold_both = (\<lambda>a. hold_open opn (Key CheckLinkErrors name) (hold_open opn (Key CheckSaturated name) a)) in
      if \<not> carrying then hold_both a
      else case t of
        None \<Rightarrow>
          set_cut scopeNetSustained (''link '' @ name @ '' has no rates'')
            (set_cut scopeNetTraffic (''link '' @ name @ '' has no rates'') (hold_both a))
      | Some tr \<Rightarrow> traffic_load name tr up e opn (traffic_errors name tr e opn a))"

definition carrying :: "network_interface \<Rightarrow> bool" where
  "carrying i \<longleftrightarrow> ni_operState i = ''up'' \<or> ni_operState i = ''unknown''"

definition interface_state ::
  "net_expectations \<Rightarrow> open_alerts \<Rightarrow> network_interface \<Rightarrow> assessment \<Rightarrow> assessment" where
  "interface_state e opn i a =
     (let named = (expected_of e (ni_name i) \<noteq> None) in
      if named \<and> ni_operState i = ''unknown'' then
        unsure (Key CheckNetDegraded (ni_name i)) opn (''link '' @ ni_name i @ '' gives no state'') a
      else if named \<and> ni_operState i \<noteq> ''up'' then
        add CheckNetDegraded (ni_name i) ScopeNet severityCritical
          (''expected link '' @ ni_name i @ '' is '' @ ni_operState i) a
      else a)"

definition wanted_speed :: "net_expectations \<Rightarrow> string \<Rightarrow> int" where
  "wanted_speed e name =
     (case expected_of e name of None \<Rightarrow> ne_minSpeedMbps e
      | Some l \<Rightarrow> if el_speedMbps l > 0 then el_speedMbps l else ne_minSpeedMbps e)"

definition interface_speed ::
  "net_expectations \<Rightarrow> open_alerts \<Rightarrow> network_interface \<Rightarrow> assessment \<Rightarrow> assessment" where
  "interface_speed e opn i a =
     (let k = Key CheckLinkSlow (ni_name i);
          silent = (let a = hold_open opn k a
                    in if ni_operState i = ''up'' then a\<lparr>speedUnreported := speedUnreported a + 1\<rparr> else a)
      in if \<not> carrying i then silent
         else case ni_speedMbps i of
           None \<Rightarrow> silent
         | Some v \<Rightarrow>
             if v < wanted_speed e (ni_name i) then
               add CheckLinkSlow (ni_name i) ScopeNet severityWarning
                 (''link '' @ ni_name i @ '' runs at '' @ int_str v @ '' Mb/s, ''
                    @ int_str (wanted_speed e (ni_name i)) @ '' expected'') a
             else a)"

definition assessInterface ::
  "net_expectations \<Rightarrow> open_alerts \<Rightarrow> network_interface \<Rightarrow> assessment \<Rightarrow> assessment" where
  "assessInterface e opn i a =
     (let a = assessTraffic (ni_name i) (ni_traffic i) (carrying i) (ni_operState i = ''up'') e opn a;
          why = ''link '' @ ni_name i @ '' gives no state''
      in if ni_operState i = '''' then
           set_cut ScopeNet why
             (unsure (Key CheckLinkSlow (ni_name i)) opn why
               (unsure (Key CheckNetDegraded (ni_name i)) opn why a))
         else interface_speed e opn i (interface_state e opn i a))"

text \<open>The bond's own status: the collected problems and the doubts recorded on the way.\<close>

definition bond_unused :: "net_expectations \<Rightarrow> network_bond \<Rightarrow> bool" where
  "bond_unused e b \<longleftrightarrow> expected_of e (nb_name b) = None \<and> nb_adminDown b \<and> \<not> nb_membersUnread b
     \<and> nb_members b = []"

definition bond_want :: "net_expectations \<Rightarrow> network_bond \<Rightarrow> int" where
  "bond_want e b = (case expected_of e (nb_name b) of None \<Rightarrow> 0 | Some l \<Rightarrow> el_members l)"

definition bond_problems :: "net_expectations \<Rightarrow> network_bond \<Rightarrow> string list" where
  "bond_problems e b =
     (if nb_miiStatus b = ''up'' \<or> bond_unused e b \<or> nb_miiStatus b = '''' then []
      else [''is '' @ nb_miiStatus b])
     @ (if nb_membersUnread b then []
        else if bond_want e b > 0 \<and>
          wrap32 (wrap32 (int (length (nb_members b))) + nb_membersOmitted b) < bond_want e b
        then [''holds '' @ int_str (int (length (nb_members b))) @ '' member(s), ''
                @ int_str (bond_want e b) @ '' expected'']
        else [])"

definition bond_doubts :: "net_expectations \<Rightarrow> open_alerts \<Rightarrow> network_bond \<Rightarrow> assessment \<Rightarrow> assessment" where
  "bond_doubts e opn b a =
     (let k = Key CheckNetDegraded (nb_name b);
          a = (if nb_miiStatus b = ''up'' \<or> bond_unused e b then a
               else if nb_miiStatus b = '''' then unsure k opn (''bond '' @ nb_name b @ '' gives no status'') a
               else a);
          a = (if nb_mode b = '''' then unsure k opn (''bond '' @ nb_name b @ '' gives no mode'') a else a)
      in if nb_membersUnread b
         then unsure k opn (''bond '' @ nb_name b @ '': its members could not be read'') a else a)"

definition bond_own :: "net_expectations \<Rightarrow> open_alerts \<Rightarrow> network_bond \<Rightarrow> assessment \<Rightarrow> assessment" where
  "bond_own e opn b a =
     (let a = bond_doubts e opn b a;
          bad = bond_problems e b;
          a = (if bad \<noteq> [] then
                 add CheckNetDegraded (nb_name b) ScopeNet severityCritical
                   (''bond '' @ nb_name b @ '' '' @ join_with '', '' bad) a
               else a)
      in if nb_membersOmitted b > 0 then
           set_cut ScopeNet (''bond '' @ nb_name b @ '': '' @ int_str (nb_membersOmitted b)
             @ '' member(s) past the agent's list limit'') a
         else a)"

definition member_problems :: "network_bond \<Rightarrow> bond_member \<Rightarrow> string list" where
  "member_problems b m =
     (if bm_miiStatus m \<noteq> '''' \<and> bm_miiStatus m \<noteq> ''up'' then [''link '' @ bm_miiStatus m] else [])
     @ (if nb_mode b = modeLACP \<and> nb_aggregatorID b > 0 \<and> bm_aggregatorID m > 0
           \<and> bm_aggregatorID m \<noteq> nb_aggregatorID b
        then [''in aggregator '' @ int_str (bm_aggregatorID m) @ '', the bond uses ''
                @ int_str (nb_aggregatorID b)] else [])"

definition member_silent :: "network_bond \<Rightarrow> bond_member \<Rightarrow> bool" where
  "member_silent b m \<longleftrightarrow> bm_miiStatus m = '''' \<or> nb_mode b = ''''
     \<or> (nb_mode b = modeLACP \<and> (nb_aggregatorID b = 0 \<or> bm_aggregatorID m = 0))"

definition assess_member ::
  "open_alerts \<Rightarrow> network_bond \<Rightarrow> bond_member \<Rightarrow> assessment \<Rightarrow> assessment" where
  "assess_member opn b m a =
     (let device = memberDevice (nb_name b) (bm_name m);
          problems = member_problems b m
      in if problems \<noteq> [] then
           add CheckNetDegraded device ScopeNet severityWarning
             (''bond '' @ nb_name b @ '' member '' @ bm_name m @ '': '' @ join_with '', '' problems) a
         else if member_silent b m then
           unsure (Key CheckNetDegraded device) opn
             (''bond '' @ nb_name b @ '' member '' @ bm_name m @ '' gives no status'') a
         else a)"

definition assessBond :: "net_expectations \<Rightarrow> open_alerts \<Rightarrow> network_bond \<Rightarrow> assessment \<Rightarrow> assessment" where
  "assessBond e opn b a =
     (let a = assessTraffic (nb_name b) (nb_traffic b) (nb_miiStatus b \<noteq> ''down'') (nb_miiStatus b = ''up'') e opn a
      in fold (assess_member opn b) (nb_members b) (bond_own e opn b a))"

section \<open>The whole network reading\<close>

definition network_listed :: "machine_network \<Rightarrow> string list" where
  "network_listed n = map ni_name (mn_interfaces n)
     @ concat (map (\<lambda>b. nb_name b # map (\<lambda>m. memberDevice (nb_name b) (bm_name m)) (nb_members b)) (mn_bonds n))"

definition network_unread :: "machine_network option \<Rightarrow> net_expectations \<Rightarrow> instant \<Rightarrow> string" where
  "network_unread n e now =
     (if ne_unread e \<noteq> '''' then ne_unread e
      else case n of None \<Rightarrow> ''the agent has not reported the node's links''
      | Some nw \<Rightarrow>
          if mn_error nw \<noteq> '''' then ''read failed: '' @ mn_error nw
          else (case mn_observedAt nw of None \<Rightarrow> ''the agent has stopped reporting''
                | Some t \<Rightarrow> if now - t > AgentSilentAfter then ''the agent has stopped reporting'' else ''''))"

definition network_cut :: "machine_network \<Rightarrow> string" where
  "network_cut n =
     (if mn_interfacesOmitted n > 0 \<or> mn_bondsOmitted n > 0 then
        int_str (mn_interfacesOmitted n) @ '' port(s) and '' @ int_str (mn_bondsOmitted n)
          @ '' bond(s) past the agent's list limit''
      else if network_listed n = [] then ''the agent lists no port and no bond''
      else '''')"

definition expected_missing ::
  "string list \<Rightarrow> bool \<Rightarrow> open_alerts \<Rightarrow> string \<Rightarrow> assessment \<Rightarrow> assessment" where
  "expected_missing listed is_cut opn name a =
     (if name \<in> set listed then a
      else if is_cut then hold_open opn (Key CheckNetDegraded name) a
      else add CheckNetDegraded name ScopeNetExpected severityCritical
             (''expected link '' @ name @ '' is not on the node'') a)"

definition assessNetwork ::
  "machine_network option \<Rightarrow> net_expectations \<Rightarrow> open_alerts \<Rightarrow> instant \<Rightarrow> assessment \<Rightarrow> assessment" where
  "assessNetwork n e opn now a =
     (let why = network_unread n e now in
      if why \<noteq> '''' then set_unread ScopeNetExpected why (set_unread ScopeNet why a)
      else case n of None \<Rightarrow> a
      | Some nw \<Rightarrow>
          (let a = fold (assessInterface e opn) (mn_interfaces nw) a;
               a = fold (assessBond e opn) (mn_bonds nw) a;
               is_cut = (network_cut nw \<noteq> '''');
               a = (if is_cut then set_cut ScopeNet (network_cut nw) a else a);
               a = fold (expected_missing (network_listed nw) is_cut opn) (map fst (ne_links e)) a
           in holdUnlisted opn ScopeNet (network_listed nw) a))"

record machine_status =
  mst_storage :: "machine_storage option"
  mst_inventory :: "drive_info list option"
  mst_network :: "machine_network option"

definition Assess ::
  "machine_status \<Rightarrow> thresholds \<Rightarrow> net_expectations \<Rightarrow> bool \<Rightarrow> open_alerts \<Rightarrow> instant \<Rightarrow> assessment" where
  "Assess st t net inventoryFresh opn now =
     assessNetwork (mst_network st) net opn now
       (assessSMART (mst_storage st) (mst_inventory st) t opn
         (assessDrives (mst_inventory st) (mst_storage st) t inventoryFresh opn
           (assessLocal (mst_storage st) t opn now empty_assessment)))"

end
