(* ===== verification/Health_Verdict.thy ===== *)
theory Health_Verdict
  imports Network_Health
begin

text \<open>
  \<open>Keeps\<close> and \<open>Verdict\<close> of \<open>internal/storage/health.go\<close>, and the contract every part of an
  assessment satisfies: a step only adds to what earlier steps found, and it leaves no open alert
  of a device it looked at undecided. The loops over arrays, pools, drives, disks, interfaces and
  bonds all meet the contract, so what it implies is proved once.
\<close>

section \<open>Verdicts\<close>

record verdict =
  v_status :: string
  v_reason :: string
  v_message :: string

definition maxConditionMessage :: nat where
  "maxConditionMessage = 1024"

definition checkScopes :: "string \<Rightarrow> string list" where
  "checkScopes check =
     (if check = CheckDegraded then [ScopeMD, ScopeZFS, ScopeSMART]
      else if check = CheckScrubErrors then [ScopeZFS]
      else if check = CheckCapacityHigh then [ScopeZFS]
      else if check = CheckWearHigh then [ScopeDrives]
      else if check = CheckNetDegraded then [ScopeNet, scopeNetState]
      else if check = CheckLinkSlow then [ScopeNet]
      else if check = CheckSaturated then [ScopeNet, scopeNetSustained]
      else if check = CheckLinkErrors then [ScopeNet, scopeNetTraffic]
      else [])"

definition Keeps :: "assessment \<Rightarrow> key \<Rightarrow> string \<Rightarrow> bool" where
  "Keeps a k scope \<longleftrightarrow> unread a scope \<noteq> None \<or> k \<in> held a"

definition scope_unread :: "assessment \<Rightarrow> string \<Rightarrow> string option" where
  "scope_unread a s =
     (case unread a s of Some why \<Rightarrow> Some (s @ '': '' @ why)
      | None \<Rightarrow> (case cut a s of Some why \<Rightarrow> Some (s @ '': '' @ why) | None \<Rightarrow> None))"

definition unread_notes :: "assessment \<Rightarrow> string \<Rightarrow> string list" where
  "unread_notes a check =
     List.map_filter (scope_unread a) (checkScopes check)
     @ (if check = CheckDegraded \<and> smartSilent a \<noteq> []
        then [ScopeSMART @ '': nothing read from '' @ join_with '', '' (smartSilent a)] else [])"

definition Verdict :: "assessment \<Rightarrow> string \<Rightarrow> open_alerts \<Rightarrow> verdict" where
  "Verdict a check opn =
     (let msgs = map f_message (filter (\<lambda>f. k_check (f_key f) = check) (findings a));
          unr = unread_notes a check
      in if msgs \<noteq> [] then
           \<lparr>v_status = ''True'', v_reason = ''Detected'',
            v_message = clipRunes (join_with ''; '' msgs) maxConditionMessage\<rparr>
         else if list_ex (\<lambda>(k, scope). k_check k = check \<and> Keeps a k scope) opn then
           \<lparr>v_status = ''True'', v_reason = ''LastReadHeld'',
            v_message = ''an open alert could not be re-read, it stays open''\<rparr>
         else if unr \<noteq> [] then
           \<lparr>v_status = ''Unknown'', v_reason = ''ReadUnavailable'',
            v_message = clipRunes (join_with ''; '' unr) maxConditionMessage\<rparr>
         else if check = CheckWearHigh \<and> cut a ScopeSMART \<noteq> None then
           \<lparr>v_status = ''Unknown'', v_reason = ''ReadUnavailable'',
            v_message = ScopeSMART @ '': '' @ (case cut a ScopeSMART of Some why \<Rightarrow> why | None \<Rightarrow> '''')\<rparr>
         else if check = CheckWearHigh \<and> wearUnreported a > 0 then
           \<lparr>v_status = ''Unknown'', v_reason = ''WearNotReported'',
            v_message = ''no current endurance figure for '' @ int_str (wearUnreported a) @ '' SSD(s)''\<rparr>
         else if check = CheckLinkSlow \<and> speedUnreported a > 0 then
           \<lparr>v_status = ''Unknown'', v_reason = ''SpeedNotReported'',
            v_message = int_str (speedUnreported a) @ '' link(s) up give no speed''\<rparr>
         else if check = CheckSaturated \<and> capacityUnreported a > 0 then
           \<lparr>v_status = ''Unknown'', v_reason = ''SpeedNotReported'',
            v_message = int_str (capacityUnreported a) @ '' link(s) up give no speed''\<rparr>
         else \<lparr>v_status = ''False'', v_reason = ''Healthy'', v_message = ''''\<rparr>)"

section \<open>The contract of a step\<close>

definition fires :: "assessment \<Rightarrow> key \<Rightarrow> bool" where
  "fires a k \<longleftrightarrow> k \<in> f_key ` set (findings a)"

text \<open>A later assessment keeps what an earlier one found.\<close>

definition extends :: "assessment \<Rightarrow> assessment \<Rightarrow> bool" where
  "extends a b \<longleftrightarrow> set (findings a) \<subseteq> set (findings b) \<and> held a \<subseteq> held b \<and> dom (unread a) \<subseteq> dom (unread b)
     \<and> dom (cut a) \<subseteq> dom (cut b) \<and> set (smartSilent a) \<subseteq> set (smartSilent b)
     \<and> wearUnreported a \<le> wearUnreported b"

lemma extends_refl [simp]: "extends a a"
  by (simp add: extends_def)

lemma extends_trans: "extends a b \<Longrightarrow> extends b c \<Longrightarrow> extends a c"
  unfolding extends_def by (meson dual_order.trans)

lemma extends_fires: "extends a b \<Longrightarrow> fires a k \<Longrightarrow> fires b k"
  unfolding extends_def fires_def by blast

lemma extends_Keeps: "extends a b \<Longrightarrow> Keeps a k s \<Longrightarrow> Keeps b k s"
  unfolding extends_def Keeps_def by blast

lemma extends_add [simp]: "extends a (add c d s sv m a)"
  by (auto simp: extends_def add_def)

lemma extends_set_unread [simp]: "extends a (set_unread s w a)"
  by (auto simp: extends_def set_unread_def)

lemma extends_set_cut [simp]: "extends a (set_cut s w a)"
  by (auto simp: extends_def set_cut_def)

lemma extends_hold [simp]: "extends a (hold_open opn k a)"
  by (auto simp: extends_def hold_open_def)

lemma extends_counts [simp]:
  "extends a (a\<lparr>wearUnreported := wearUnreported a + 1\<rparr>)" "extends a (a\<lparr>smartSilent := smartSilent a @ xs\<rparr>)"
  "extends a (a\<lparr>speedUnreported := n\<rparr>)" "extends a (a\<lparr>capacityUnreported := n\<rparr>)"
  by (simp_all add: extends_def)

lemma fires_add [simp]: "fires (add c d s sv m a) k \<longleftrightarrow> k = Key c d \<or> fires a k"
  by (auto simp: fires_def add_def)

lemma fires_other [simp]:
  "fires (set_unread s w a) k = fires a k" "fires (set_cut s w a) k = fires a k"
  "fires (hold_open opn k' a) k = fires a k"
  by (simp_all add: fires_def set_unread_def set_cut_def hold_open_def)

lemma held_hold [simp]: "k \<in> held (hold_open opn k' a) \<longleftrightarrow> k \<in> held a \<or> k = k' \<and> open_has opn k"
  by (auto simp: hold_open_def)

lemma held_other [simp]:
  "held (add c d s sv m a) = held a" "held (set_unread s w a) = held a" "held (set_cut s w a) = held a"
  by (simp_all add: add_def set_unread_def set_cut_def)

text \<open>
  The interface of the loops. A \<open>step\<close> looks at one device; \<open>speaks_for d k\<close> says that \<open>d\<close> is what the
  alert \<open>k\<close> is about, and \<open>clears d k\<close> that \<open>d\<close> was read and is healthy in that respect.
\<close>

locale reading_loop =
  fixes step :: "'d \<Rightarrow> assessment \<Rightarrow> assessment"
    and opn :: open_alerts
    and speaks_for :: "'d \<Rightarrow> key \<Rightarrow> bool"
    and clears :: "assessment \<Rightarrow> 'd \<Rightarrow> key \<Rightarrow> bool"
  assumes grows: "extends a (step d a)"
    and keeps_unread: "unread (step d a) = unread a"
    and decides: "speaks_for d k \<Longrightarrow> open_has opn k \<Longrightarrow> \<not> clears a d k \<Longrightarrow>
      fires (step d a) k \<or> k \<in> held (step d a)"
    and clears_cong: "unread a = unread b \<Longrightarrow> clears a d k = clears b d k"
begin

lemma fold_grows: "extends a (fold step ds a)"
  by (induction ds arbitrary: a) (auto intro: extends_trans grows)

lemma fold_unread: "unread (fold step ds a) = unread a"
  by (induction ds arbitrary: a) (simp_all add: keeps_unread)

lemma fold_stable:
  assumes "d \<in> set ds" "\<And>a. Q (step d a)" "\<And>a b. extends a b \<Longrightarrow> Q a \<Longrightarrow> Q b"
  shows "Q (fold step ds a)"
  using assms(1)
proof (induction ds arbitrary: a)
  case (Cons d' ds)
  show ?case
  proof (cases "d = d'")
    case True
    then show ?thesis using assms(2) assms(3) [OF fold_grows] by simp
  qed (use Cons in simp)
qed simp

lemma fold_decides:
  assumes "d \<in> set ds" "speaks_for d k" "open_has opn k" "\<not> clears a d k"
  shows "fires (fold step ds a) k \<or> k \<in> held (fold step ds a)"
  using assms
proof (induction ds arbitrary: a)
  case (Cons d' ds)
  show ?case
  proof (cases "d = d'")
    case True
    with Cons.prems decides have "fires (step d' a) k \<or> k \<in> held (step d' a)" by blast
    then show ?thesis
      using fold_grows [of "step d' a" ds] extends_fires by (auto simp: extends_def)
  next
    case False
    then have "\<not> clears (step d' a) d k"
      using Cons.prems(4) clears_cong [OF keeps_unread] by blast
    with False Cons.IH [of "step d' a"] Cons.prems show ?thesis by simp
  qed
qed simp

end

section \<open>Unlisted devices\<close>

lemma holdUnlisted_eq:
  "holdUnlisted opn s l a = a\<lparr>held := held a \<union> {k. (k, s) \<in> set opn \<and> k_device k \<notin> set l}\<rparr>"
proof -
  have "fold (\<lambda>(k, s') a. if s' = s \<and> k_device k \<notin> set l then a\<lparr>held := insert k (held a)\<rparr> else a) xs a
      = a\<lparr>held := held a \<union> {k. (k, s) \<in> set xs \<and> k_device k \<notin> set l}\<rparr>" for xs
  proof (induction xs arbitrary: a)
    case (Cons x xs)
    obtain k s' where x: "x = (k, s')" by (cases x)
    have "{k'. (k', s) \<in> set (x # xs) \<and> k_device k' \<notin> set l} =
        (if s' = s \<and> k_device k \<notin> set l then insert k {k'. (k', s) \<in> set xs \<and> k_device k' \<notin> set l}
         else {k'. (k', s) \<in> set xs \<and> k_device k' \<notin> set l})"
      unfolding x by auto
    with Cons x show ?case by simp
  qed simp
  then show ?thesis by (simp add: holdUnlisted_def)
qed

lemma holdUnlisted_grows [simp]: "extends a (holdUnlisted opn s l a)"
  by (simp add: holdUnlisted_eq extends_def)

lemma holdUnlisted_simps [simp]:
  "findings (holdUnlisted opn s l a) = findings a" "unread (holdUnlisted opn s l a) = unread a"
  "cut (holdUnlisted opn s l a) = cut a" "smartSilent (holdUnlisted opn s l a) = smartSilent a"
  "fires (holdUnlisted opn s l a) k = fires a k"
  by (simp_all add: holdUnlisted_eq fires_def)

lemma holdUnlisted_holds:
  "(k, s) \<in> set opn \<Longrightarrow> k_device k \<notin> set l \<Longrightarrow> k \<in> held (holdUnlisted opn s l a)"
  by (simp add: holdUnlisted_eq)

end
