(* ===== verification/Health_Evidence.thy ===== *)
theory Health_Evidence
  imports Health_Verdict
begin

text \<open>
  Every loop of the assessment meets the contract of \<open>reading_loop\<close>; an alert of a device therefore
  ends only when that device was read and reads healthy.
\<close>

section \<open>What counts as evidence\<close>

definition pool_clears :: "thresholds \<Rightarrow> open_alerts \<Rightarrow> zpool \<Rightarrow> key \<Rightarrow> bool" where
  "pool_clears t opn p k \<longleftrightarrow>
     (if k_check k = CheckDegraded then poolProblems p = '''' \<and> zp_vdevsOmitted p \<le> 0 \<and> zp_health p \<noteq> ''''
      else if k_check k = CheckScrubErrors then
        (case zp_scrubErrors p of Some n \<Rightarrow> n \<le> 0 | None \<Rightarrow> zp_scan p = ''none requested'')
      else (case zp_capacityPercent p of Some c \<Rightarrow> c < capacity_limit t opn k | None \<Rightarrow> False))"

definition drive_clears :: "machine_storage option \<Rightarrow> thresholds \<Rightarrow> assessment \<Rightarrow> drive_info \<Rightarrow> bool" where
  "drive_clears s t a d \<longleftrightarrow>
     (case d_ssdEnduranceUsedPercent d of Some u \<Rightarrow> u < t_SSDWearPercent t
      | None \<Rightarrow> smartReportsWear a s (d_serialNumber d))"

definition bmc_reports_wear :: "drive_info list option \<Rightarrow> string \<Rightarrow> bool" where
  "bmc_reports_wear invn serial \<longleftrightarrow>
     (case bmcDrive invn serial of None \<Rightarrow> False | Some b \<Rightarrow> d_ssdEnduranceUsedPercent b \<noteq> None)"

definition disk_clears :: "drive_info list option \<Rightarrow> thresholds \<Rightarrow> observed_disk \<Rightarrow> key \<Rightarrow> bool" where
  "disk_clears invn t d k \<longleftrightarrow>
     (if k_check k = CheckDegraded then smart_passed d = Some True
      else bmc_reports_wear invn (od_serialNumber d)
        \<or> (case smart_wear d of Some w \<Rightarrow> w < t_SSDWearPercent t | None \<Rightarrow> False))"

definition traffic_clears :: "net_expectations \<Rightarrow> open_alerts \<Rightarrow> bool \<Rightarrow> link_traffic option \<Rightarrow> key \<Rightarrow> bool" where
  "traffic_clears e opn carried t k \<longleftrightarrow> carried \<and>
     (case t of None \<Rightarrow> False
      | Some tr \<Rightarrow>
          if k_check k = CheckLinkErrors then
            lt_errorsPerMinute tr < ne_errorsPerMinute e \<and> FullHistorySeconds \<le> lt_historySeconds tr
          else lt_capacityMbps tr \<noteq> None \<and>
            (case lt_sustainedUtilizationPercent tr of Some u \<Rightarrow> u < saturation_limit e opn k | None \<Rightarrow> False))"

definition interface_clears :: "net_expectations \<Rightarrow> open_alerts \<Rightarrow> network_interface \<Rightarrow> key \<Rightarrow> bool" where
  "interface_clears e opn i k \<longleftrightarrow>
     (if k_check k = CheckNetDegraded then
        ni_operState i \<noteq> '''' \<and> (expected_of e (ni_name i) \<noteq> None \<longrightarrow> ni_operState i = ''up'')
      else if k_check k = CheckLinkSlow then
        carrying i \<and> (case ni_speedMbps i of Some v \<Rightarrow> wanted_speed e (ni_name i) \<le> v | None \<Rightarrow> False)
      else traffic_clears e opn (carrying i) (ni_traffic i) k)"

definition bond_clears :: "net_expectations \<Rightarrow> open_alerts \<Rightarrow> network_bond \<Rightarrow> key \<Rightarrow> bool" where
  "bond_clears e opn b k \<longleftrightarrow>
     (if k_check k = CheckNetDegraded then
        (if k_device k = nb_name b then
           (nb_miiStatus b = ''up'' \<or> bond_unused e b) \<and> nb_mode b \<noteq> '''' \<and> \<not> nb_membersUnread b
           \<and> bond_problems e b = []
         else \<forall>m \<in> set (nb_members b). k_device k = memberDevice (nb_name b) (bm_name m) \<longrightarrow>
                member_problems b m = [] \<and> \<not> member_silent b m)
      else traffic_clears e opn (nb_miiStatus b \<noteq> ''down'') (nb_traffic b) k)"

definition bond_speaks :: "network_bond \<Rightarrow> key \<Rightarrow> bool" where
  "bond_speaks b k \<longleftrightarrow>
     (k_device k = nb_name b \<and> k_check k \<in> {CheckNetDegraded, CheckSaturated, CheckLinkErrors})
     \<or> (k_check k = CheckNetDegraded \<and> (\<exists>m \<in> set (nb_members b). k_device k = memberDevice (nb_name b) (bm_name m)))"

section \<open>The loops meet the contract\<close>

lemma unread_simps [simp]:
  "unread (add c d s sv m a) = unread a" "unread (set_cut s w a) = unread a" "unread (hold_open opn k a) = unread a"
  "unread (a\<lparr>wearUnreported := n\<rparr>) = unread a"
  by (simp_all add: add_def set_cut_def hold_open_def)

lemma fires_counts [simp]:
  "fires (a\<lparr>wearUnreported := n\<rparr>) k = fires a k" "fires (a\<lparr>smartSilent := xs\<rparr>) k = fires a k"
  "fires (a\<lparr>speedUnreported := n\<rparr>) k = fires a k" "fires (a\<lparr>capacityUnreported := n\<rparr>) k = fires a k"
  by (simp_all add: fires_def)

lemma key_eq: "k = Key c d \<longleftrightarrow> k_check k = c \<and> k_device k = d"
  by (cases k) auto

interpretation md_loop: reading_loop assess_array opn "\<lambda>arr k. k = Key CheckDegraded (ma_name arr)"
  "\<lambda>_ arr _. \<not> ma_degraded arr" for opn
  by unfold_locales (auto simp: assess_array_def)

lemma pool_health_grows [simp]: "extends a (pool_health opn p a)"
  by (auto simp: pool_health_def Let_def intro: extends_trans [OF extends_set_cut extends_hold])

lemma pool_scrub_grows [simp]: "extends a (pool_scrub opn p a)"
  by (auto simp: pool_scrub_def split: option.splits)

lemma pool_capacity_grows [simp]: "extends a (pool_capacity t opn p a)"
  by (auto simp: pool_capacity_def Let_def split: option.splits)

lemma assessPool_grows: "extends a (assessPool t opn p a)"
  unfolding assessPool_def by (blast intro: extends_trans pool_health_grows pool_scrub_grows pool_capacity_grows)

lemma pool_unread [simp]:
  "unread (pool_health opn p a) = unread a" "unread (pool_scrub opn p a) = unread a"
  "unread (pool_capacity t opn p a) = unread a"
  by (auto simp: pool_health_def pool_scrub_def pool_capacity_def Let_def split: option.splits)

lemma check_neqs [simp]:
  "CheckDegraded \<noteq> CheckScrubErrors" "CheckScrubErrors \<noteq> CheckDegraded" "CheckDegraded \<noteq> CheckCapacityHigh"
  "CheckCapacityHigh \<noteq> CheckDegraded" "CheckCapacityHigh \<noteq> CheckScrubErrors" "CheckScrubErrors \<noteq> CheckCapacityHigh"
  "CheckWearHigh \<noteq> CheckDegraded" "CheckDegraded \<noteq> CheckWearHigh"
  "CheckLinkSlow \<noteq> CheckNetDegraded" "CheckNetDegraded \<noteq> CheckLinkSlow" "CheckSaturated \<noteq> CheckNetDegraded"
  "CheckSaturated \<noteq> CheckLinkSlow" "CheckLinkErrors \<noteq> CheckNetDegraded" "CheckLinkErrors \<noteq> CheckLinkSlow"
  "CheckLinkErrors \<noteq> CheckSaturated" "CheckSaturated \<noteq> CheckLinkErrors" "CheckNetDegraded \<noteq> CheckSaturated"
  "CheckNetDegraded \<noteq> CheckLinkErrors" "CheckLinkSlow \<noteq> CheckSaturated" "CheckLinkSlow \<noteq> CheckLinkErrors"
  by (simp_all add: check_names)

text \<open>An alert is decided when it fires or is held.\<close>

definition decided :: "assessment \<Rightarrow> key \<Rightarrow> bool" where
  "decided a k \<longleftrightarrow> fires a k \<or> k \<in> held a"

lemma extends_decided: "extends a b \<Longrightarrow> decided a k \<Longrightarrow> decided b k"
  unfolding decided_def using extends_fires by (auto simp: extends_def)

lemma pool_step_decides:
  "open_has opn (Key CheckDegraded (zp_name p)) \<Longrightarrow> \<not> pool_clears t opn p (Key CheckDegraded (zp_name p)) \<Longrightarrow>
     decided (pool_health opn p a) (Key CheckDegraded (zp_name p))"
  "open_has opn (Key CheckScrubErrors (zp_name p)) \<Longrightarrow> \<not> pool_clears t opn p (Key CheckScrubErrors (zp_name p)) \<Longrightarrow>
     decided (pool_scrub opn p a) (Key CheckScrubErrors (zp_name p))"
  "open_has opn (Key CheckCapacityHigh (zp_name p)) \<Longrightarrow> \<not> pool_clears t opn p (Key CheckCapacityHigh (zp_name p)) \<Longrightarrow>
     decided (pool_capacity t opn p a) (Key CheckCapacityHigh (zp_name p))"
  by (auto simp: decided_def pool_clears_def pool_health_def pool_scrub_def pool_capacity_def Let_def
      split: option.splits if_splits)

lemma assessPool_decides:
  assumes "k_device k = zp_name p" "k_check k \<in> {CheckDegraded, CheckScrubErrors, CheckCapacityHigh}"
    "open_has opn k" "\<not> pool_clears t opn p k"
  shows "decided (assessPool t opn p a) k"
proof -
  consider "k = Key CheckDegraded (zp_name p)" | "k = Key CheckScrubErrors (zp_name p)"
    | "k = Key CheckCapacityHigh (zp_name p)"
    using assms(1,2) by (auto simp: key_eq)
  then show ?thesis
    unfolding assessPool_def
    using assms(3,4) pool_step_decides by cases (blast intro: extends_decided pool_scrub_grows pool_capacity_grows)+
qed

interpretation zfs_loop: reading_loop "assessPool t opn" opn
  "\<lambda>p k. k_device k = zp_name p \<and> k_check k \<in> {CheckDegraded, CheckScrubErrors, CheckCapacityHigh}"
  "\<lambda>_ p k. pool_clears t opn p k" for t opn
proof unfold_locales
  show "extends a (assessPool t opn p a)" for p a by (rule assessPool_grows)
  show "unread (assessPool t opn p a) = unread a" for p a by (simp add: assessPool_def)
  show "fires (assessPool t opn p a) k \<or> k \<in> held (assessPool t opn p a)"
    if "k_device k = zp_name p \<and> k_check k \<in> {CheckDegraded, CheckScrubErrors, CheckCapacityHigh}"
      "open_has opn k" "\<not> pool_clears t opn p k" for p k a
    using assessPool_decides [of k p opn t a] that by (simp add: decided_def)
qed simp

lemma smartReportsWear_cong: "unread a = unread b \<Longrightarrow> smartReportsWear a s serial = smartReportsWear b s serial"
  by (simp add: smartReportsWear_def split: option.splits)

lemma assess_drive_grows [simp]: "extends a (assess_drive s t opn d a)"
  by (auto simp: assess_drive_def Let_def intro: extends_trans [OF extends_hold extends_counts(1)]
      split: option.splits)

lemma assess_drive_unread [simp]: "unread (assess_drive s t opn d a) = unread a"
  by (auto simp: assess_drive_def Let_def split: option.splits)

interpretation drive_loop: reading_loop "assess_drive s t opn" opn
  "\<lambda>d k. k = Key CheckWearHigh (drive_device d)" "\<lambda>a d _. drive_clears s t a d" for s t opn
proof unfold_locales
  show "drive_clears s t a d = drive_clears s t b d" if "unread a = unread b" for a b d
    using smartReportsWear_cong [OF that] by (simp add: drive_clears_def split: option.splits)
  show "fires (assess_drive s t opn d a) k \<or> k \<in> held (assess_drive s t opn d a)"
    if "k = Key CheckWearHigh (drive_device d)" "open_has opn k" "\<not> drive_clears s t a d" for d k a
    using that by (auto simp: assess_drive_def drive_clears_def Let_def hold_open_def split: option.splits)
qed simp_all

lemma disk_health_grows [simp]: "extends a (disk_health invn opn d a)"
  by (auto simp: disk_health_def Let_def intro: extends_trans [OF extends_counts(2) extends_hold] split: option.splits)

lemma disk_wear_grows [simp]: "extends a (disk_wear invn t opn d a)"
  by (auto simp: disk_wear_def Let_def intro: extends_trans [OF extends_hold extends_counts(1)] split: option.splits)

lemma disk_unread [simp]:
  "unread (disk_health invn opn d a) = unread a" "unread (disk_wear invn t opn d a) = unread a"
  by (auto simp: disk_health_def disk_wear_def Let_def split: option.splits)

lemma disk_step_decides:
  "open_has opn (Key CheckDegraded (od_serialNumber d)) \<Longrightarrow> smart_passed d \<noteq> Some True \<Longrightarrow>
     decided (disk_health invn opn d a) (Key CheckDegraded (od_serialNumber d))"
  "open_has opn (Key CheckWearHigh (od_serialNumber d)) \<Longrightarrow>
     \<not> disk_clears invn t d (Key CheckWearHigh (od_serialNumber d)) \<Longrightarrow>
     decided (disk_wear invn t opn d a) (Key CheckWearHigh (od_serialNumber d))"
  by (auto simp: decided_def disk_clears_def bmc_reports_wear_def disk_health_def disk_wear_def Let_def
      hold_open_def split: option.splits if_splits)

interpretation disk_loop: reading_loop "assess_disk invn t opn" opn
  "\<lambda>d k. k_device k = od_serialNumber d \<and> k_check k \<in> {CheckDegraded, CheckWearHigh}"
  "\<lambda>_ d k. disk_clears invn t d k" for invn t opn
proof unfold_locales
  show "extends a (assess_disk invn t opn d a)" for d a
    unfolding assess_disk_def by (blast intro: extends_trans disk_health_grows disk_wear_grows)
  show "unread (assess_disk invn t opn d a) = unread a" for d a by (simp add: assess_disk_def)
  show "fires (assess_disk invn t opn d a) k \<or> k \<in> held (assess_disk invn t opn d a)"
    if s: "k_device k = od_serialNumber d \<and> k_check k \<in> {CheckDegraded, CheckWearHigh}"
      "open_has opn k" "\<not> disk_clears invn t d k" for d k a
  proof -
    consider "k = Key CheckDegraded (od_serialNumber d)" | "k = Key CheckWearHigh (od_serialNumber d)"
      using s(1) by (auto simp: key_eq)
    then have "decided (assess_disk invn t opn d a) k"
    proof cases
      case 1
      then have "smart_passed d \<noteq> Some True" using s(3) by (simp add: disk_clears_def)
      with 1 s(2) show ?thesis
        unfolding assess_disk_def using disk_step_decides(1) extends_decided disk_wear_grows by blast
    next
      case 2
      with s(2,3) show ?thesis unfolding assess_disk_def using disk_step_decides(2) by blast
    qed
    then show ?thesis by (simp add: decided_def)
  qed
qed simp

section \<open>The network loops\<close>

lemma decided_mono [intro]:
  "decided a k \<Longrightarrow> decided (add c d s sv m a) k" "decided a k \<Longrightarrow> decided (set_cut s w a) k"
  "decided a k \<Longrightarrow> decided (hold_open opn k' a) k" "decided a k \<Longrightarrow> decided (a\<lparr>speedUnreported := n\<rparr>) k"
  "decided a k \<Longrightarrow> decided (a\<lparr>capacityUnreported := n\<rparr>) k"
  by (auto simp: decided_def)

lemma decided_hold: "open_has opn k \<Longrightarrow> decided (hold_open opn k a) k"
  by (simp add: decided_def)

lemma decided_add: "k = Key c d \<Longrightarrow> decided (add c d s sv m a) k"
  by (simp add: decided_def)

lemma decided_unsure: "open_has opn k \<Longrightarrow> decided (unsure k opn w a) k"
  by (simp add: unsure_def decided_def)

lemma unsure_grows [simp]: "extends a (unsure k opn w a)"
  unfolding unsure_def by (blast intro: extends_trans extends_hold extends_set_cut)

lemma unsure_unread [simp]: "unread (unsure k opn w a) = unread a"
  by (simp add: unsure_def)

lemma unread_counts [simp]:
  "unread (a\<lparr>speedUnreported := n\<rparr>) = unread a" "unread (a\<lparr>capacityUnreported := n\<rparr>) = unread a"
  by simp_all

lemma traffic_errors_grows [simp]: "extends a (traffic_errors name t e opn a)"
  by (auto simp: traffic_errors_def intro: extends_trans [OF extends_hold extends_set_cut])

lemma traffic_load_grows [simp]: "extends a (traffic_load name t up e opn a)"
  by (auto simp: traffic_load_def Let_def intro: extends_trans [OF extends_hold extends_counts(4)]
      extends_trans [OF extends_hold extends_set_cut] split: option.splits)

lemma assessTraffic_grows [simp]: "extends a (assessTraffic name t c up e opn a)"
proof (cases t)
  case None
  then show ?thesis
    by (simp add: assessTraffic_def)
      (meson extends_trans extends_hold extends_set_cut)
next
  case (Some tr)
  then show ?thesis
    by (simp add: assessTraffic_def)
      (meson extends_trans extends_hold traffic_errors_grows traffic_load_grows)
qed

lemma traffic_unread [simp]: "unread (assessTraffic name t c up e opn a) = unread a"
  by (auto simp: assessTraffic_def traffic_errors_def traffic_load_def Let_def split: option.splits)

lemma traffic_load_decides:
  "open_has opn (Key CheckSaturated name) \<Longrightarrow>
   \<not> traffic_clears e opn True (Some tr) (Key CheckSaturated name) \<Longrightarrow>
   decided (traffic_load name tr up e opn a) (Key CheckSaturated name)"
  by (auto simp: traffic_clears_def traffic_load_def Let_def intro: decided_hold decided_add split: option.splits)

lemma traffic_errors_decides:
  "open_has opn (Key CheckLinkErrors name) \<Longrightarrow>
   \<not> traffic_clears e opn True (Some tr) (Key CheckLinkErrors name) \<Longrightarrow>
   decided (traffic_errors name tr e opn a) (Key CheckLinkErrors name)"
  by (auto simp: traffic_clears_def traffic_errors_def intro: decided_hold decided_add)

lemma assessTraffic_decides:
  assumes "k = Key CheckSaturated name \<or> k = Key CheckLinkErrors name" "open_has opn k"
    "\<not> traffic_clears e opn c t k"
  shows "decided (assessTraffic name t c up e opn a) k"
proof (cases "c \<and> t \<noteq> None")
  case True
  then obtain tr where t: "t = Some tr" "c" by blast
  show ?thesis
    using assms traffic_load_decides [of opn name e tr up] traffic_errors_decides [of opn name e tr]
      extends_decided [OF traffic_load_grows]
    by (auto simp: assessTraffic_def t)
next
  case False
  then show ?thesis
    using assms(1,2) by (auto simp: assessTraffic_def Let_def intro: decided_hold)
qed

lemma interface_state_grows [simp]: "extends a (interface_state e opn i a)"
  by (simp add: interface_state_def Let_def)

lemma interface_speed_grows [simp]: "extends a (interface_speed e opn i a)"
  by (auto simp: interface_speed_def Let_def intro: extends_trans [OF extends_hold extends_counts(3)]
      split: option.splits)

lemma silent_grows [simp]: "extends a (set_cut s w (unsure k opn w' (unsure k' opn w'' a)))"
  by (meson extends_trans unsure_grows extends_set_cut)

lemma assessInterface_grows [simp]: "extends a (assessInterface e opn i a)"
proof (cases "ni_operState i = ''''")
  case True
  then show ?thesis
    by (simp add: assessInterface_def Let_def)
      (meson extends_trans assessTraffic_grows unsure_grows extends_set_cut)
next
  case False
  then show ?thesis
    by (simp add: assessInterface_def Let_def)
      (meson extends_trans assessTraffic_grows interface_state_grows interface_speed_grows)
qed

lemma interface_unread [simp]: "unread (assessInterface e opn i a) = unread a"
  by (auto simp: assessInterface_def interface_state_def interface_speed_def Let_def split: option.splits)

lemma interface_state_decides:
  "open_has opn (Key CheckNetDegraded (ni_name i)) \<Longrightarrow> ni_operState i \<noteq> '''' \<Longrightarrow>
   \<not> interface_clears e opn i (Key CheckNetDegraded (ni_name i)) \<Longrightarrow>
   decided (interface_state e opn i a) (Key CheckNetDegraded (ni_name i))"
  by (auto simp: interface_clears_def interface_state_def Let_def intro: decided_unsure decided_add)

lemma interface_speed_decides:
  "open_has opn (Key CheckLinkSlow (ni_name i)) \<Longrightarrow>
   \<not> interface_clears e opn i (Key CheckLinkSlow (ni_name i)) \<Longrightarrow>
   decided (interface_speed e opn i a) (Key CheckLinkSlow (ni_name i))"
  by (auto simp: interface_clears_def interface_speed_def Let_def intro: decided_hold decided_add split: option.splits)

lemma assessInterface_decides:
  assumes "k_device k = ni_name i" "k_check k \<in> {CheckNetDegraded, CheckLinkSlow, CheckSaturated, CheckLinkErrors}"
    "open_has opn k" "\<not> interface_clears e opn i k"
  shows "decided (assessInterface e opn i a) k"
proof -
  define b where "b = assessTraffic (ni_name i) (ni_traffic i) (carrying i) (ni_operState i = ''up'') e opn a"
  consider (net) "k = Key CheckNetDegraded (ni_name i)" | (slow) "k = Key CheckLinkSlow (ni_name i)"
    | (traffic) "k = Key CheckSaturated (ni_name i) \<or> k = Key CheckLinkErrors (ni_name i)"
    using assms(1,2) by (auto simp: key_eq)
  then show ?thesis
  proof cases
    case net
    then show ?thesis
      using assms(3,4) interface_state_decides [of opn i e b] extends_decided [OF interface_speed_grows]
        extends_decided [OF unsure_grows, OF decided_unsure]
      by (auto simp: assessInterface_def Let_def b_def [symmetric])
  next
    case slow
    then show ?thesis
      using assms(3,4) interface_speed_decides [of opn i e] decided_unsure
      by (auto simp: assessInterface_def Let_def)
  next
    case traffic
    then have "\<not> traffic_clears e opn (carrying i) (ni_traffic i) k"
      using assms(4) by (auto simp: interface_clears_def)
    with traffic assms(3) have "decided b k" unfolding b_def by (intro assessTraffic_decides)
    moreover have "extends b (assessInterface e opn i a)"
      unfolding assessInterface_def Let_def b_def [symmetric]
      by (auto intro: extends_trans interface_state_grows interface_speed_grows)
    ultimately show ?thesis by (rule extends_decided [rotated])
  qed
qed

interpretation interface_loop: reading_loop "assessInterface e opn" opn
  "\<lambda>i k. k_device k = ni_name i \<and> k_check k \<in> {CheckNetDegraded, CheckLinkSlow, CheckSaturated, CheckLinkErrors}"
  "\<lambda>_ i k. interface_clears e opn i k" for e opn
proof unfold_locales
  show "fires (assessInterface e opn i a) k \<or> k \<in> held (assessInterface e opn i a)"
    if "k_device k = ni_name i \<and> k_check k \<in> {CheckNetDegraded, CheckLinkSlow, CheckSaturated, CheckLinkErrors}"
      "open_has opn k" "\<not> interface_clears e opn i k" for i k a
    using assessInterface_decides [of k i opn e a] that by (simp add: decided_def)
qed simp_all

lemma assess_member_grows [simp]: "extends a (assess_member opn b m a)"
  by (simp add: assess_member_def Let_def)

interpretation member_loop: reading_loop "assess_member opn b" opn
  "\<lambda>m k. k = Key CheckNetDegraded (memberDevice (nb_name b) (bm_name m))"
  "\<lambda>_ m _. member_problems b m = [] \<and> \<not> member_silent b m" for opn b
proof unfold_locales
  show "unread (assess_member opn b m a) = unread a" for m a by (simp add: assess_member_def Let_def)
  show "fires (assess_member opn b m a) k \<or> k \<in> held (assess_member opn b m a)"
    if "k = Key CheckNetDegraded (memberDevice (nb_name b) (bm_name m))" "open_has opn k"
      "\<not> (member_problems b m = [] \<and> \<not> member_silent b m)" for m k a
    using that decided_unsure by (auto simp: assess_member_def Let_def decided_def)
qed simp_all

lemma extends_more:
  "extends a b \<Longrightarrow> extends a (unsure k opn w b)" "extends a b \<Longrightarrow> extends a (set_cut s w b)"
  "extends a b \<Longrightarrow> extends a (add c d s sv m b)"
  by (auto intro: extends_trans)

lemma bond_doubts_grows [simp]: "extends a (bond_doubts e opn b a)"
  by (simp add: bond_doubts_def Let_def extends_more)

lemma bond_own_grows [simp]: "extends a (bond_own e opn b a)"
  by (simp add: bond_own_def Let_def extends_more)

lemma bond_own_unread [simp]: "unread (bond_own e opn b a) = unread a"
  by (auto simp: bond_own_def bond_doubts_def Let_def)

lemma assessBond_grows [simp]: "extends a (assessBond e opn b a)"
  unfolding assessBond_def Let_def
  by (meson assessTraffic_grows bond_own_grows extends_trans member_loop.fold_grows)

lemma bond_doubts_decides:
  assumes "open_has opn (Key CheckNetDegraded (nb_name b))"
    "\<not> ((nb_miiStatus b \<noteq> '''' \<or> bond_unused e b) \<and> nb_mode b \<noteq> '''' \<and> \<not> nb_membersUnread b)"
  shows "decided (bond_doubts e opn b a) (Key CheckNetDegraded (nb_name b))"
  unfolding bond_doubts_def Let_def
  using assms extends_decided [OF unsure_grows] decided_unsure by (auto simp: decided_unsure)

lemma bond_own_decides:
  assumes "open_has opn (Key CheckNetDegraded (nb_name b))"
    "\<not> bond_clears e opn b (Key CheckNetDegraded (nb_name b))"
  shows "decided (bond_own e opn b a) (Key CheckNetDegraded (nb_name b))"
proof (cases "bond_problems e b = []")
  case True
  then have "nb_miiStatus b = ''up'' \<or> bond_unused e b \<or> nb_miiStatus b = ''''"
    by (auto simp: bond_problems_def split: if_splits)
  with True assms(2) have "\<not> ((nb_miiStatus b \<noteq> '''' \<or> bond_unused e b) \<and> nb_mode b \<noteq> '''' \<and> \<not> nb_membersUnread b)"
    by (auto simp: bond_clears_def)
  from bond_doubts_decides [OF assms(1) this] True show ?thesis
    by (auto simp: bond_own_def Let_def)
next
  case False
  then show ?thesis by (auto simp: bond_own_def Let_def decided_def)
qed

lemma memberDevice_not_bond [simp]: "memberDevice n m \<noteq> n" "n \<noteq> memberDevice n m"
  by (simp_all add: memberDevice_def)

lemma assessBond_decides:
  assumes "bond_speaks b k" "open_has opn k" "\<not> bond_clears e opn b k"
  shows "decided (assessBond e opn b a) k"
proof -
  define a1 where "a1 = assessTraffic (nb_name b) (nb_traffic b) (nb_miiStatus b \<noteq> ''down'') (nb_miiStatus b = ''up'') e opn a"
  define a2 where "a2 = bond_own e opn b a1"
  have grow: "extends a2 (assessBond e opn b a)" "extends a1 a2"
    by (simp_all add: assessBond_def Let_def a1_def a2_def member_loop.fold_grows)
  consider (own) "k = Key CheckNetDegraded (nb_name b)"
    | (traffic) "k = Key CheckSaturated (nb_name b) \<or> k = Key CheckLinkErrors (nb_name b)"
    | (mem) m where "m \<in> set (nb_members b)" "k = Key CheckNetDegraded (memberDevice (nb_name b) (bm_name m))"
    using assms(1) by (auto simp: bond_speaks_def key_eq)
  then show ?thesis
  proof cases
    case own
    with assms(2,3) bond_own_decides have "decided a2 k" unfolding a2_def by blast
    then show ?thesis using grow extends_decided by blast
  next
    case traffic
    then have "\<not> traffic_clears e opn (nb_miiStatus b \<noteq> ''down'') (nb_traffic b) k"
      using assms(3) by (auto simp: bond_clears_def)
    with traffic assms(2) have "decided a1 k" unfolding a1_def by (intro assessTraffic_decides)
    then show ?thesis using grow extends_decided by blast
  next
    case (mem m)
    then obtain m' where "m' \<in> set (nb_members b)" "k = Key CheckNetDegraded (memberDevice (nb_name b) (bm_name m'))"
      "\<not> (member_problems b m' = [] \<and> \<not> member_silent b m')"
      using assms(3) by (auto simp: bond_clears_def)
    from member_loop.fold_decides [OF this(1,2) assms(2) this(3)] show ?thesis
      by (simp add: assessBond_def Let_def decided_def)
  qed
qed

interpretation bond_loop: reading_loop "assessBond e opn" opn bond_speaks "\<lambda>_ b k. bond_clears e opn b k" for e opn
proof unfold_locales
  show "unread (assessBond e opn b a) = unread a" for b a
    by (simp add: assessBond_def Let_def member_loop.fold_unread)
  show "fires (assessBond e opn b a) k \<or> k \<in> held (assessBond e opn b a)"
    if "bond_speaks b k" "open_has opn k" "\<not> bond_clears e opn b k" for b k a
    using assessBond_decides [of b k opn e a] that by (simp add: decided_def)
qed simp_all

end
