(* ===== verification/Health_Theorems.thy ===== *)
theory Health_Theorems
  imports Health_Evidence
begin

text \<open>
  What a whole assessment guarantees: alerts end only on evidence, nothing is concluded from a
  reading nobody made, and a condition is False only after a complete and current read.
\<close>

section \<open>The phases\<close>

definition resolves :: "assessment \<Rightarrow> key \<Rightarrow> string \<Rightarrow> bool" where
  "resolves a k s \<longleftrightarrow> \<not> fires a k \<and> \<not> Keeps a k s"

lemma resolves_mono: "extends a b \<Longrightarrow> resolves b k s \<Longrightarrow> resolves a k s"
  unfolding resolves_def using extends_fires extends_Keeps by blast

lemma resolves_decided: "resolves a k s \<Longrightarrow> \<not> decided a k \<and> unread a s = None"
  by (auto simp: resolves_def decided_def Keeps_def)

definition stack_read :: "string \<Rightarrow> bool" where
  "stack_read state \<longleftrightarrow> state = ''present'' \<or> state = ''absent''"

lemma stackUnread_eq: "stackUnread state err = '''' \<longleftrightarrow> stack_read state"
  by (auto simp: stackUnread_def stack_read_def)

definition report_current :: "instant option \<Rightarrow> instant \<Rightarrow> bool" where
  "report_current at now \<longleftrightarrow> (case at of None \<Rightarrow> False | Some t \<Rightarrow> now - t \<le> AgentSilentAfter)"

lemma local_unread_eq:
  "local_unread s now = '''' \<longleftrightarrow>
     (\<exists>st l. s = Some st \<and> ms_local st = Some l \<and> report_current (ms_observedAt st) now)"
  by (auto simp: local_unread_def report_current_def split: option.splits)

lemma network_unread_eq:
  "network_unread n e now = '''' \<longleftrightarrow> ne_unread e = '''' \<and>
     (\<exists>nw. n = Some nw \<and> mn_error nw = '''' \<and> report_current (mn_observedAt nw) now)"
  by (auto simp: network_unread_def report_current_def split: option.splits)

text \<open>Every phase ends a loop with the alerts of unlisted devices: what an alert that ends then shows.\<close>

lemma open_hasI: "(k, s) \<in> set opn \<Longrightarrow> open_has opn k"
  by (force simp: open_has_def)

context reading_loop
begin

lemma pass_grows: "extends a (holdUnlisted opn s l (fold step ds a))"
  by (rule extends_trans [OF fold_grows holdUnlisted_grows])

lemma pass_cut_grows: "extends a (set_cut s' w (holdUnlisted opn s l (fold step ds a)))"
  by (rule extends_trans [OF pass_grows extends_set_cut])

lemma pass_evidence:
  assumes "(k, s) \<in> set opn" "extends (holdUnlisted opn s l (fold step ds a)) b" "resolves b k s"
  shows "k_device k \<in> set l \<and> (\<forall>d \<in> set ds. speaks_for d k \<longrightarrow> clears a d k)"
proof -
  have nd: "\<not> decided (holdUnlisted opn s l (fold step ds a)) k"
    using resolves_decided [OF assms(3)] extends_decided [OF assms(2)] by blast
  then have "\<not> decided (fold step ds a) k" using extends_decided [OF holdUnlisted_grows] by blast
  then have "clears a d k" if "d \<in> set ds" "speaks_for d k" for d
    using fold_decides [OF that open_hasI [OF assms(1)]] by (auto simp: decided_def)
  moreover have "k_device k \<in> set l"
    using nd holdUnlisted_holds [OF assms(1)] by (auto simp: decided_def)
  ultimately show ?thesis by blast
qed

end

lemma assessMD_grows [simp]: "extends a (assessMD md opn a)"
  by (simp add: assessMD_def Let_def md_loop.pass_grows md_loop.pass_cut_grows)

lemma assessZFS_grows [simp]: "extends a (assessZFS z t opn a)"
  by (simp add: assessZFS_def Let_def zfs_loop.pass_grows zfs_loop.pass_cut_grows)

lemma extends_unread: "extends a b \<Longrightarrow> extends a (set_unread s w b)"
  by (rule extends_trans [OF _ extends_set_unread])

lemma assessLocal_grows [simp]: "extends a (assessLocal s t opn now a)"
  by (simp add: assessLocal_def Let_def extends_unread extends_trans [OF assessMD_grows assessZFS_grows]
      split: option.splits)

lemma assessDrives_grows [simp]: "extends a (assessDrives invn s t fresh opn a)"
  by (simp add: assessDrives_def Let_def drive_loop.pass_grows drive_loop.pass_cut_grows split: option.splits)

lemma wear_fold_grows:
  "extends a (fold (\<lambda>d a. if P d then a\<lparr>wearUnreported := wearUnreported a + 1\<rparr> else a) ds a)"
proof (induction ds arbitrary: a)
  case (Cons d ds)
  then show ?case using extends_trans [OF extends_counts(1)] by (cases "P d") simp_all
qed simp

lemma assessSMART_grows [simp]: "extends a (assessSMART s invn t opn a)"
  by (simp add: assessSMART_def Let_def wear_fold_grows disk_loop.pass_grows disk_loop.pass_cut_grows
      split: option.splits)

lemma expected_fold_grows [simp]: "extends a (fold (expected_missing l c opn) names a)"
proof (induction names arbitrary: a)
  case (Cons n names)
  have "extends a (expected_missing l c opn n a)" by (simp add: expected_missing_def)
  with Cons show ?case by (auto intro: extends_trans)
qed simp

definition links_scanned :: "machine_network \<Rightarrow> net_expectations \<Rightarrow> open_alerts \<Rightarrow> assessment \<Rightarrow> assessment" where
  "links_scanned nw e opn a =
     fold (assessBond e opn) (mn_bonds nw) (fold (assessInterface e opn) (mn_interfaces nw) a)"

definition expected_scanned :: "machine_network \<Rightarrow> net_expectations \<Rightarrow> open_alerts \<Rightarrow> assessment \<Rightarrow> assessment" where
  "expected_scanned nw e opn a =
     fold (expected_missing (network_listed nw) (network_cut nw \<noteq> '''') opn) (map fst (ne_links e))
       (if network_cut nw \<noteq> '''' then set_cut ScopeNet (network_cut nw) (links_scanned nw e opn a)
        else links_scanned nw e opn a)"

lemma assessNetwork_read:
  "network_unread (Some nw) e now = '''' \<Longrightarrow>
   assessNetwork (Some nw) e opn now a = holdUnlisted opn ScopeNet (network_listed nw) (expected_scanned nw e opn a)"
  by (simp add: assessNetwork_def expected_scanned_def links_scanned_def Let_def)

lemma links_scanned_grows: "extends a (links_scanned nw e opn a)"
  unfolding links_scanned_def by (rule extends_trans [OF interface_loop.fold_grows bond_loop.fold_grows])

lemma expected_scanned_grows: "extends (links_scanned nw e opn a) (expected_scanned nw e opn a)"
  unfolding expected_scanned_def by (auto intro: extends_trans [OF extends_set_cut expected_fold_grows])

lemma assessNetwork_grows [simp]: "extends a (assessNetwork n e opn now a)"
proof (cases "network_unread n e now = ''''")
  case True
  then obtain nw where n: "n = Some nw" by (auto simp: network_unread_eq)
  show ?thesis
    unfolding n assessNetwork_read [OF True [unfolded n]]
    by (rule extends_trans [OF extends_trans [OF links_scanned_grows expected_scanned_grows] holdUnlisted_grows])
qed (simp add: assessNetwork_def Let_def extends_unread)

text \<open>The assessments after each phase of \<open>Assess\<close>.\<close>

abbreviation after_local :: "machine_status \<Rightarrow> thresholds \<Rightarrow> open_alerts \<Rightarrow> instant \<Rightarrow> assessment" where
  "after_local st t opn now \<equiv> assessLocal (mst_storage st) t opn now empty_assessment"

abbreviation after_drives :: "machine_status \<Rightarrow> thresholds \<Rightarrow> bool \<Rightarrow> open_alerts \<Rightarrow> instant \<Rightarrow> assessment" where
  "after_drives st t fresh opn now \<equiv>
     assessDrives (mst_inventory st) (mst_storage st) t fresh opn (after_local st t opn now)"

abbreviation after_smart :: "machine_status \<Rightarrow> thresholds \<Rightarrow> bool \<Rightarrow> open_alerts \<Rightarrow> instant \<Rightarrow> assessment" where
  "after_smart st t fresh opn now \<equiv>
     assessSMART (mst_storage st) (mst_inventory st) t opn (after_drives st t fresh opn now)"

lemma Assess_phases:
  "extends (after_local st t opn now) (Assess st t net fresh opn now)"
  "extends (after_drives st t fresh opn now) (Assess st t net fresh opn now)"
  "extends (after_smart st t fresh opn now) (Assess st t net fresh opn now)"
proof -
  let ?L = "after_local st t opn now" and ?D = "after_drives st t fresh opn now"
    and ?S = "after_smart st t fresh opn now" and ?A = "Assess st t net fresh opn now"
  show S: "extends ?S ?A" by (simp add: Assess_def)
  show D: "extends ?D ?A" by (rule extends_trans [OF assessSMART_grows S])
  show "extends ?L ?A" by (rule extends_trans [OF assessDrives_grows D])
qed

section \<open>Alerts end on evidence\<close>

lemma assessMD_evidence:
  assumes "(k, ScopeMD) \<in> set opn" "k_check k = CheckDegraded" "resolves (assessMD md opn a) k ScopeMD"
  shows "stack_read (md_state md) \<and> k_device k \<in> ma_name ` set (md_arrays md)
    \<and> (\<forall>arr \<in> set (md_arrays md). ma_name arr = k_device k \<longrightarrow> \<not> ma_degraded arr)"
proof -
  have sr: "stack_read (md_state md)"
    using resolves_decided [OF assms(3)]
    by (auto simp: assessMD_def Let_def set_unread_def stackUnread_eq split: if_splits)
  then have "extends (holdUnlisted opn ScopeMD (map ma_name (md_arrays md)) (fold assess_array (md_arrays md) a))
      (assessMD md opn a)"
    by (simp add: assessMD_def Let_def stackUnread_eq)
  from md_loop.pass_evidence [OF assms(1) this assms(3)] sr assms(2) show ?thesis
    by (auto simp: key_eq)
qed

lemma assessZFS_evidence:
  assumes "(k, ScopeZFS) \<in> set opn" "k_check k \<in> {CheckDegraded, CheckScrubErrors, CheckCapacityHigh}"
    "resolves (assessZFS z t opn a) k ScopeZFS"
  shows "stack_read (zs_state z) \<and> k_device k \<in> zp_name ` set (zs_pools z)
    \<and> (\<forall>p \<in> set (zs_pools z). zp_name p = k_device k \<longrightarrow> pool_clears t opn p k)"
proof -
  have sr: "stack_read (zs_state z)"
    using resolves_decided [OF assms(3)]
    by (auto simp: assessZFS_def Let_def set_unread_def stackUnread_eq split: if_splits)
  then have "extends (holdUnlisted opn ScopeZFS (map zp_name (zs_pools z)) (fold (assessPool t opn) (zs_pools z) a))
      (assessZFS z t opn a)"
    by (simp add: assessZFS_def Let_def stackUnread_eq)
  from zfs_loop.pass_evidence [OF assms(1) this assms(3)] sr assms(2) show ?thesis by auto
qed

lemma assessLocal_read:
  assumes "resolves (assessLocal s t opn now a) k sc" "sc \<in> {ScopeMD, ScopeZFS, ScopeSMART}"
  shows "\<exists>st l. s = Some st \<and> ms_local st = Some l \<and> report_current (ms_observedAt st) now
    \<and> assessLocal s t opn now a = assessZFS (ls_zfs l) t opn (assessMD (ls_md l) opn a)"
proof -
  have "local_unread s now = ''''"
    using resolves_decided [OF assms(1)] assms(2)
    by (auto simp: assessLocal_def Let_def set_unread_def split: if_splits)
  then show ?thesis by (auto simp: assessLocal_def local_unread_eq Let_def)
qed

text \<open>C13. A local storage alert ends only on evidence: if a pass would resolve an open md or zfs alert,
  the agent's report is current, the stack was read, the device is listed, and every entry of that
  name reads healthy for that check (an md array not degraded; a pool ONLINE with no vdev problem
  and read in full; a completed scrub without errors, or none ever requested; a capacity below the
  threshold less its hysteresis).\<close>

theorem local_alert_ends_on_evidence:
  assumes "(k, s) \<in> set opn" "resolves (Assess st t net fresh opn now) k s"
    "s = ScopeMD \<and> k_check k = CheckDegraded
     \<or> s = ScopeZFS \<and> k_check k \<in> {CheckDegraded, CheckScrubErrors, CheckCapacityHigh}"
  shows "\<exists>ms l. mst_storage st = Some ms \<and> ms_local ms = Some l \<and> report_current (ms_observedAt ms) now
    \<and> (if s = ScopeMD then
         stack_read (md_state (ls_md l)) \<and> k_device k \<in> ma_name ` set (md_arrays (ls_md l))
         \<and> (\<forall>arr \<in> set (md_arrays (ls_md l)). ma_name arr = k_device k \<longrightarrow> \<not> ma_degraded arr)
       else
         stack_read (zs_state (ls_zfs l)) \<and> k_device k \<in> zp_name ` set (zs_pools (ls_zfs l))
         \<and> (\<forall>p \<in> set (zs_pools (ls_zfs l)). zp_name p = k_device k \<longrightarrow> pool_clears t opn p k))"
proof -
  have res: "resolves (after_local st t opn now) k s"
    by (rule resolves_mono [OF Assess_phases(1) assms(2)])
  then obtain ms l where r: "mst_storage st = Some ms" "ms_local ms = Some l" "report_current (ms_observedAt ms) now"
    "after_local st t opn now = assessZFS (ls_zfs l) t opn (assessMD (ls_md l) opn empty_assessment)"
    using assessLocal_read [OF res] assms(3) by auto
  have z: "resolves (assessZFS (ls_zfs l) t opn (assessMD (ls_md l) opn empty_assessment)) k s"
    using res r(4) by simp
  have m: "resolves (assessMD (ls_md l) opn empty_assessment) k s"
    by (rule resolves_mono [OF assessZFS_grows z])
  show ?thesis
  proof (cases "s = ScopeMD")
    case True
    have "k_check k = CheckDegraded" using assms(3) True by (auto simp: scope_names)
    from assessMD_evidence [OF assms(1) [unfolded True] this m [unfolded True]] True r(1-3) show ?thesis by simp
  next
    case False
    then have "s = ScopeZFS" "k_check k \<in> {CheckDegraded, CheckScrubErrors, CheckCapacityHigh}" using assms(3) by auto
    from assessZFS_evidence [OF assms(1) [unfolded this(1)] this(2) z [unfolded this(1)]] False r(1-3)
    show ?thesis by simp
  qed
qed

section \<open>Disks\<close>

lemma assessDrives_evidence:
  assumes "(k, ScopeDrives) \<in> set opn" "k_check k = CheckWearHigh"
    "resolves (assessDrives invn s t fresh opn a) k ScopeDrives"
  shows "fresh \<and> (\<exists>drives. invn = Some drives \<and> k_device k \<in> drive_device ` set drives
    \<and> (\<forall>d \<in> set drives. drive_device d = k_device k \<longrightarrow> drive_clears s t a d))"
proof -
  have read: "fresh" "\<exists>drives. invn = Some drives \<and> drives \<noteq> []"
    using resolves_decided [OF assms(3)]
    by (auto simp: assessDrives_def set_unread_def split: if_splits option.splits)
  then obtain drives where d: "invn = Some drives" "drives \<noteq> []" by blast
  have "extends (holdUnlisted opn ScopeDrives (map drive_device drives) (fold (assess_drive s t opn) drives a))
      (assessDrives invn s t fresh opn a)"
    using read(1) d by (simp add: assessDrives_def Let_def)
  from drive_loop.pass_evidence [OF assms(1) this assms(3)] read(1) d(1) assms(2) show ?thesis
    by (auto simp: key_eq)
qed

lemma assessSMART_evidence:
  assumes "(k, ScopeSMART) \<in> set opn" "k_check k \<in> {CheckDegraded, CheckWearHigh}"
    "resolves (assessSMART (Some ms) invn t opn a) k ScopeSMART"
  shows "k_device k \<in> od_serialNumber ` set (ms_observed ms)
    \<and> (\<forall>d \<in> set (ms_observed ms). od_serialNumber d = k_device k \<longrightarrow> disk_clears invn t d k)"
proof -
  have "unread a ScopeSMART = None"
    using resolves_decided [OF resolves_mono [OF assessSMART_grows assms(3)]] by simp
  then have "extends (holdUnlisted opn ScopeSMART (map od_serialNumber (ms_observed ms))
      (fold (assess_disk invn t opn) (ms_observed ms) a)) (assessSMART (Some ms) invn t opn a)"
    by (simp add: assessSMART_def Let_def)
  from disk_loop.pass_evidence [OF assms(1) this assms(3)] assms(2) show ?thesis by auto
qed

lemma fresh_bmc_figure:
  assumes "resolves (after_drives st t True opn now) k s" "open_has opn k" "k_check k = CheckWearHigh"
    "bmcDrive (mst_inventory st) (k_device k) = Some b" "d_ssdEnduranceUsedPercent b = Some u" "k_device k \<noteq> ''''"
  shows "u < t_SSDWearPercent t"
proof (rule ccontr)
  assume "\<not> u < t_SSDWearPercent t"
  then have nc: "\<not> drive_clears (mst_storage st) t a b" for a by (simp add: drive_clears_def assms(5))
  obtain drives where dr: "mst_inventory st = Some drives" "b \<in> set drives" "d_serialNumber b = k_device k"
    using assms(4) by (auto simp: bmcDrive_def find_Some_iff split: option.splits)
  have dev: "k = Key CheckWearHigh (drive_device b)" using dr(3) assms(3,6) by (simp add: drive_device_def key_eq)
  have "decided (fold (assess_drive (mst_storage st) t opn) drives (after_local st t opn now)) k"
    using drive_loop.fold_decides [OF dr(2) dev assms(2) nc] by (auto simp: decided_def)
  moreover have "extends (fold (assess_drive (mst_storage st) t opn) drives (after_local st t opn now))
      (after_drives st t True opn now)"
    using dr(1,2) by (auto simp: assessDrives_def Let_def intro: extends_trans [OF holdUnlisted_grows extends_set_cut])
  ultimately show False using resolves_decided [OF assms(1)] extends_decided by blast
qed

text \<open>A disk alert ends only on evidence: an open wear alert of the BMC's drives ends only in a
  pass the BMC answered, with the drive listed and its figure under the threshold (or absent while
  the disk itself reports one); a SMART alert ends only on a current agent report that lists the
  disk, with the self-assessment passed, respectively with a wear figure under the threshold, the
  BMC's figure where the BMC answered this pass and gives one.\<close>

theorem disk_alert_ends_on_evidence:
  assumes "(k, s) \<in> set opn" "resolves (Assess st t net fresh opn now) k s" "k_device k \<noteq> ''''"
    "s = ScopeDrives \<and> k_check k = CheckWearHigh
     \<or> s = ScopeSMART \<and> (k_check k = CheckDegraded \<or> k_check k = CheckWearHigh \<and> fresh)"
  shows "if s = ScopeDrives then
       fresh \<and> (\<exists>drives. mst_inventory st = Some drives \<and> k_device k \<in> drive_device ` set drives
         \<and> (\<forall>d \<in> set drives. drive_device d = k_device k \<longrightarrow>
              drive_clears (mst_storage st) t (after_local st t opn now) d))
     else \<exists>ms. mst_storage st = Some ms \<and> report_current (ms_observedAt ms) now
         \<and> k_device k \<in> od_serialNumber ` set (ms_observed ms)
         \<and> (\<forall>d \<in> set (ms_observed ms). od_serialNumber d = k_device k \<longrightarrow>
              (if k_check k = CheckDegraded then smart_passed d = Some True
               else case bmcDrive (mst_inventory st) (k_device k) of
                      Some b \<Rightarrow> (case d_ssdEnduranceUsedPercent b of Some u \<Rightarrow> u < t_SSDWearPercent t
                                | None \<Rightarrow> (\<exists>w. smart_wear d = Some w \<and> w < t_SSDWearPercent t))
                    | None \<Rightarrow> (\<exists>w. smart_wear d = Some w \<and> w < t_SSDWearPercent t)))"
proof -
  note D = resolves_mono [OF Assess_phases(2) assms(2)] and S = resolves_mono [OF Assess_phases(3) assms(2)]
  show ?thesis
  proof (cases "s = ScopeDrives")
    case True
    then have "k_check k = CheckWearHigh" using assms(4) by (auto simp: scope_names)
    from assessDrives_evidence [OF assms(1) [unfolded True] this D [unfolded True]] True show ?thesis by simp
  next
    case False
    then have s: "s = ScopeSMART" "k_check k \<in> {CheckDegraded, CheckWearHigh}" "k_check k = CheckWearHigh \<longrightarrow> fresh"
      using assms(4) by (auto simp: check_names)
    obtain ms where ms: "mst_storage st = Some ms" "report_current (ms_observedAt ms) now"
      using assessLocal_read [OF resolves_mono [OF Assess_phases(1) assms(2)]] s(1) by auto
    note ev = assessSMART_evidence [OF assms(1) [unfolded s(1)] s(2) S [unfolded s(1) ms(1)]]
    have bmc: "u < t_SSDWearPercent t"
      if "k_check k = CheckWearHigh" "bmcDrive (mst_inventory st) (k_device k) = Some b" "d_ssdEnduranceUsedPercent b = Some u" for b u
      using fresh_bmc_figure [of st t opn now k s b u] D open_hasI [OF assms(1)] that assms(3) s(3) by auto
    show ?thesis
      using False ms ev s(2) bmc
      by (auto simp: disk_clears_def bmc_reports_wear_def split: option.splits if_splits)
  qed
qed

section \<open>A concrete machine\<close>

definition w_md :: md_status where
  "w_md = \<lparr>md_state = ''present'', md_error = '''', md_arrays = [\<lparr>ma_name = ''md0'', ma_level = ''raid1'',
     ma_state = ''active'', ma_raidDisks = 2, ma_activeDisks = 2, ma_slots = ''UU'', ma_degraded = False,
     ma_members = []\<rparr>], md_arraysOmitted = 0\<rparr>"

definition w_zfs :: zfs_status where
  "w_zfs = \<lparr>zs_state = ''absent'', zs_error = '''', zs_pools = [], zs_poolsOmitted = 0\<rparr>"

definition w_worn :: observed_disk where
  "w_worn = \<lparr>od_path = ''/dev/sda'', od_serialNumber = ''S'', od_sizeGB = 5, od_occupancy = ''free'', od_wwn = '''', od_byIDPath = '''', od_model = ''m'',
     od_rotational = Some False, od_mountPoint = '''', od_fsType = '''', od_members = [],
     od_smart = Some \<lparr>sm_readAt = None, sm_passed = Some True, sm_wearUsedPercent = Some 95, sm_error = ''''\<rparr>\<rparr>"

definition w_iface :: network_interface where
  "w_iface = \<lparr>ni_name = ''eth0'', ni_operState = ''up'', ni_speedMbps = Some 1000,
     ni_traffic = Some \<lparr>lt_historySeconds = 300, lt_capacityMbps = Some 1000,
       lt_sustainedUtilizationPercent = Some 5, lt_errorsPerMinute = 0\<rparr>\<rparr>"

definition w_status :: "int option \<Rightarrow> machine_status" where
  "w_status bmc = \<lparr>mst_storage = Some \<lparr>ms_observed = [w_worn], ms_observedAt = Some 0,
       ms_local = Some \<lparr>ls_zfs = w_zfs, ls_md = w_md\<rparr>\<rparr>,
     mst_inventory = Some [w_drive\<lparr>d_ssdEnduranceUsedPercent := bmc\<rparr>],
     mst_network = Some \<lparr>mn_observedAt = Some 0, mn_error = '''', mn_interfaces = [w_iface],
       mn_interfacesOmitted = 0, mn_bonds = [], mn_bondsOmitted = 0\<rparr>\<rparr>"

definition w_open :: "string \<Rightarrow> string \<Rightarrow> string \<Rightarrow> open_alerts" where
  "w_open check device scope = [(Key check device, scope)]"

lemma resolves_code [code]:
  "resolves a k s \<longleftrightarrow> \<not> list_ex (\<lambda>f. f_key f = k) (findings a) \<and> \<not> Keeps a k s"
  by (auto simp: resolves_def fires_def list_ex_iff)

theorem local_alert_ends_on_evidence_witness:
  "\<exists>ms l. mst_storage (w_status None) = Some ms \<and> ms_local ms = Some l \<and> report_current (ms_observedAt ms) 0
    \<and> (if ScopeMD = ScopeMD then
         stack_read (md_state (ls_md l)) \<and> k_device (Key CheckDegraded ''md0'') \<in> ma_name ` set (md_arrays (ls_md l))
         \<and> (\<forall>arr \<in> set (md_arrays (ls_md l)). ma_name arr = k_device (Key CheckDegraded ''md0'') \<longrightarrow> \<not> ma_degraded arr)
       else
         stack_read (zs_state (ls_zfs l)) \<and> k_device (Key CheckDegraded ''md0'') \<in> zp_name ` set (zs_pools (ls_zfs l))
         \<and> (\<forall>p \<in> set (zs_pools (ls_zfs l)). zp_name p = k_device (Key CheckDegraded ''md0'') \<longrightarrow>
              pool_clears (ThresholdsFrom None) (w_open CheckDegraded ''md0'' ScopeMD) p (Key CheckDegraded ''md0'')))"
proof (rule local_alert_ends_on_evidence)
  show "resolves (Assess (w_status None) (ThresholdsFrom None) (NetExpectationsFrom None ''n'') True (w_open CheckDegraded ''md0'' ScopeMD) 0)
      (Key CheckDegraded ''md0'') ScopeMD"
    by code_simp
qed (simp_all add: w_open_def)

theorem disk_alert_ends_on_evidence_witness:
  "\<exists>ms. mst_storage (w_status None) = Some ms \<and> report_current (ms_observedAt ms) 0
     \<and> ''S'' \<in> od_serialNumber ` set (ms_observed ms)"
proof -
  have r: "resolves (Assess (w_status None) (ThresholdsFrom None) (NetExpectationsFrom None ''n'') True
      (w_open CheckDegraded ''S'' ScopeSMART) 0) (Key CheckDegraded ''S'') ScopeSMART"
    by code_simp
  have o: "(Key CheckDegraded ''S'', ScopeSMART) \<in> set (w_open CheckDegraded ''S'' ScopeSMART)"
    by (simp add: w_open_def)
  show ?thesis
    using disk_alert_ends_on_evidence [OF o r] by (simp add: scope_names) blast
qed

text \<open>Without a fresh inventory the last promise fails: when the BMC did not answer, a wear alert
  the disk itself raised is resolved although both the disk (95 %) and the BMC's last inventory
  (95 %) report more wear than the threshold (80 %).\<close>

theorem stale_bmc_figure_ends_smart_alert:
  "resolves (Assess (w_status (Some 95)) (ThresholdsFrom None) (NetExpectationsFrom None ''n'') False
      (w_open CheckWearHigh ''S'' ScopeSMART) 0) (Key CheckWearHigh ''S'') ScopeSMART"
  by code_simp

section \<open>Links\<close>

lemma expected_missing_decides:
  "name \<notin> set listed \<Longrightarrow> open_has opn (Key CheckNetDegraded name) \<Longrightarrow>
   decided (expected_missing listed c opn name a) (Key CheckNetDegraded name)"
  by (simp add: expected_missing_def decided_def)

lemma expected_fold_decides:
  "name \<in> set names \<Longrightarrow> name \<notin> set listed \<Longrightarrow> open_has opn (Key CheckNetDegraded name) \<Longrightarrow>
   decided (fold (expected_missing listed c opn) names a) (Key CheckNetDegraded name)"
proof (induction names arbitrary: a)
  case (Cons n names)
  then show ?case
    using expected_missing_decides extends_decided [OF expected_fold_grows] by (cases "name = n") auto
qed simp

text \<open>A link alert ends only on evidence: if a pass would resolve an open alert of the network
  reading, the policy could be read, the agent's report is current, the device is
  listed, and every interface and bond of that name reads healthy for that check. An alert for a
  link only the policy named ends only when the link is listed or the policy stops naming it.\<close>

theorem link_alert_ends_on_evidence:
  assumes "(k, s) \<in> set opn" "resolves (Assess st t net fresh opn now) k s"
    "s = ScopeNet \<and> k_check k \<in> {CheckNetDegraded, CheckLinkSlow, CheckSaturated, CheckLinkErrors}
     \<or> s = ScopeNetExpected \<and> k_check k = CheckNetDegraded"
  shows "\<exists>nw. mst_network st = Some nw \<and> ne_unread net = '''' \<and> mn_error nw = ''''
    \<and> report_current (mn_observedAt nw) now
    \<and> (if s = ScopeNet then k_device k \<in> set (network_listed nw)
         \<and> (\<forall>i \<in> set (mn_interfaces nw). ni_name i = k_device k \<longrightarrow> interface_clears net opn i k)
         \<and> (\<forall>b \<in> set (mn_bonds nw). bond_speaks b k \<longrightarrow> bond_clears net opn b k)
       else k_device k \<in> set (network_listed nw) \<or> k_device k \<notin> fst ` set (ne_links net))"
proof -
  have r: "resolves (assessNetwork (mst_network st) net opn now (after_smart st t fresh opn now)) k s"
    using assms(2) by (simp add: Assess_def)
  have "network_unread (mst_network st) net now = ''''"
    using resolves_decided [OF r] assms(3)
    by (auto simp: assessNetwork_def Let_def set_unread_def split: if_splits)
  then obtain nw where nw: "mst_network st = Some nw" "ne_unread net = ''''" "mn_error nw = ''''"
      "report_current (mn_observedAt nw) now" and un: "network_unread (Some nw) net now = ''''"
    by (auto simp: network_unread_eq)
  define a where "a = after_smart st t fresh opn now"
  have e: "assessNetwork (mst_network st) net opn now a =
      holdUnlisted opn ScopeNet (network_listed nw) (expected_scanned nw net opn a)"
    unfolding nw(1) by (rule assessNetwork_read [OF un])
  have nd: "\<not> decided (holdUnlisted opn ScopeNet (network_listed nw) (expected_scanned nw net opn a)) k"
    using resolves_decided [OF r] unfolding a_def [symmetric] e by blast
  have nd2: "\<not> decided (expected_scanned nw net opn a) k"
    using nd extends_decided [OF holdUnlisted_grows] by blast
  then have nd3: "\<not> decided (links_scanned nw net opn a) k"
    using extends_decided [OF expected_scanned_grows] by blast
  note has = open_hasI [OF assms(1)]
  show ?thesis
  proof (cases "s = ScopeNet")
    case True
    have "k_device k \<in> set (network_listed nw)"
      using nd holdUnlisted_holds [of k ScopeNet] assms(1) True by (auto simp: decided_def)
    moreover have "\<not> decided (fold (assessInterface net opn) (mn_interfaces nw) a) k"
      using nd3 extends_decided [OF bond_loop.fold_grows] unfolding links_scanned_def by blast
    then have "interface_clears net opn i k" if "i \<in> set (mn_interfaces nw)" "ni_name i = k_device k" for i
      using interface_loop.fold_decides [OF that(1) _ has] that(2) assms(3) True
      by (auto simp: decided_def scope_names)
    moreover have "bond_clears net opn b k" if "b \<in> set (mn_bonds nw)" "bond_speaks b k" for b
      using bond_loop.fold_decides [OF that has] nd3 by (auto simp: decided_def links_scanned_def)
    ultimately show ?thesis using nw True by simp
  next
    case False
    then have "k = Key CheckNetDegraded (k_device k)" using assms(3) by (simp add: key_eq)
    then have "k_device k \<in> set (network_listed nw) \<or> k_device k \<notin> fst ` set (ne_links net)"
      using nd2 has expected_fold_decides [of "k_device k" "map fst (ne_links net)" "network_listed nw" opn]
      unfolding expected_scanned_def by auto
    with nw False show ?thesis by simp
  qed
qed

theorem link_alert_ends_on_evidence_witness:
  "\<exists>nw. mst_network (w_status None) = Some nw \<and> report_current (mn_observedAt nw) 0
     \<and> ''eth0'' \<in> set (network_listed nw)"
proof -
  have r: "resolves (Assess (w_status None) (ThresholdsFrom None) (NetExpectationsFrom None ''n'') True
      (w_open CheckSaturated ''eth0'' ScopeNet) 0) (Key CheckSaturated ''eth0'') ScopeNet"
    by code_simp
  have o: "(Key CheckSaturated ''eth0'', ScopeNet) \<in> set (w_open CheckSaturated ''eth0'' ScopeNet)"
    by (simp add: w_open_def)
  show ?thesis
    using link_alert_ends_on_evidence [OF o r] by (simp add: scope_names) blast
qed

section \<open>No conclusion without a reading\<close>

definition scopes :: "assessment \<Rightarrow> string set" where
  "scopes a = f_scope ` set (findings a)"

lemma scopes_simps [simp]:
  "scopes (add c d s sv m a) = insert s (scopes a)" "scopes (set_unread s w a) = scopes a"
  "scopes (set_cut s w a) = scopes a" "scopes (hold_open opn k a) = scopes a"
  "scopes (holdUnlisted opn s l a) = scopes a" "scopes (unsure k opn w a) = scopes a"
  "scopes (a\<lparr>wearUnreported := n\<rparr>) = scopes a" "scopes (a\<lparr>smartSilent := xs\<rparr>) = scopes a"
  "scopes (a\<lparr>speedUnreported := n\<rparr>) = scopes a" "scopes (a\<lparr>capacityUnreported := n\<rparr>) = scopes a"
  "scopes empty_assessment = {}"
  by (auto simp: scopes_def add_def set_unread_def set_cut_def hold_open_def unsure_def empty_assessment_def)

lemma fold_scopes:
  assumes "\<And>d a. scopes (f d a) \<subseteq> insert s (scopes a)"
  shows "scopes (fold f ds a) \<subseteq> insert s (scopes a)"
proof (induction ds arbitrary: a)
  case (Cons d ds)
  then show ?case using assms [of d a] by (force dest: subsetD)
qed auto

lemma step_scopes:
  "scopes (assess_array arr a) \<subseteq> insert ScopeMD (scopes a)"
  "scopes (assessPool t opn p a) \<subseteq> insert ScopeZFS (scopes a)"
  "scopes (assess_drive s t opn dr a) \<subseteq> insert ScopeDrives (scopes a)"
  "scopes (assess_disk invn t opn d a) \<subseteq> insert ScopeSMART (scopes a)"
  by (auto simp: assess_array_def assessPool_def pool_health_def pool_scrub_def pool_capacity_def
      assess_drive_def assess_disk_def disk_health_def disk_wear_def Let_def split: option.splits)

lemma traffic_scopes: "scopes (assessTraffic nm tr c up e opn a) \<subseteq> insert ScopeNet (scopes a)"
  by (auto simp: assessTraffic_def traffic_load_def traffic_errors_def Let_def split: option.splits)

lemma interface_scopes: "scopes (assessInterface e opn i a) \<subseteq> insert ScopeNet (scopes a)"
proof -
  have "scopes (interface_speed e opn i (interface_state e opn i b)) \<subseteq> insert ScopeNet (scopes b)" for b
    by (auto simp: interface_speed_def interface_state_def Let_def split: option.splits)
  then show ?thesis
    using traffic_scopes [of "ni_name i" "ni_traffic i" "carrying i" "ni_operState i = ''up''" e opn a]
    by (auto simp: assessInterface_def Let_def dest: subsetD)
qed

lemma bond_scopes: "scopes (assessBond e opn b a) \<subseteq> insert ScopeNet (scopes a)"
proof -
  have m: "scopes (assess_member opn b m c) \<subseteq> insert ScopeNet (scopes c)" for m c
    by (auto simp: assess_member_def Let_def)
  have own: "scopes (bond_own e opn b c) \<subseteq> insert ScopeNet (scopes c)" for c
    by (auto simp: bond_own_def bond_doubts_def Let_def)
  define t where "t = assessTraffic (nb_name b) (nb_traffic b) (nb_miiStatus b \<noteq> ''down'') (nb_miiStatus b = ''up'') e opn a"
  have "scopes (assessBond e opn b a) \<subseteq> insert ScopeNet (scopes (bond_own e opn b t))"
    unfolding assessBond_def Let_def t_def by (rule fold_scopes [OF m])
  also have "\<dots> \<subseteq> insert ScopeNet (scopes t)" using own by auto
  also have "\<dots> \<subseteq> insert ScopeNet (scopes a)" using traffic_scopes unfolding t_def by auto
  finally show ?thesis .
qed

text \<open>No finding rests on a scope that was not read.\<close>

definition honest :: "assessment \<Rightarrow> bool" where
  "honest a \<longleftrightarrow> scopes a \<inter> dom (unread a) = {}"

lemma dom_set_unread [simp]: "dom (unread (set_unread s w a)) = insert s (dom (unread a))"
  by (simp add: set_unread_def)

lemma honest_unread: "honest a \<Longrightarrow> s \<notin> scopes a \<Longrightarrow> honest (set_unread s w a)"
  by (simp add: honest_def)

lemma honest_read:
  "honest a \<Longrightarrow> scopes b \<subseteq> insert s (scopes a) \<Longrightarrow> unread b = unread a \<Longrightarrow> unread a s = None \<Longrightarrow> honest b"
proof -
  assume a: "honest a" "scopes b \<subseteq> insert s (scopes a)" "unread b = unread a" "unread a s = None"
  have "s \<notin> dom (unread a)" using a(4) by (simp add: domIff)
  then show "honest b" using a(1-3) unfolding honest_def by auto
qed

lemma assessMD_honest:
  assumes "honest a" "ScopeMD \<notin> scopes a" "unread a ScopeMD = None"
  shows "honest (assessMD md opn a)" "scopes (assessMD md opn a) \<subseteq> insert ScopeMD (scopes a)"
    "dom (unread (assessMD md opn a)) \<subseteq> insert ScopeMD (dom (unread a))"
proof -
  have f: "scopes (fold assess_array (md_arrays md) a) \<subseteq> insert ScopeMD (scopes a)"
    by (rule fold_scopes) (rule step_scopes)
  show "honest (assessMD md opn a)"
    using honest_unread [OF assms(1,2)] honest_read [OF assms(1) f md_loop.fold_unread assms(3)]
    by (simp add: assessMD_def Let_def honest_def)
  show "scopes (assessMD md opn a) \<subseteq> insert ScopeMD (scopes a)"
    "dom (unread (assessMD md opn a)) \<subseteq> insert ScopeMD (dom (unread a))"
    using f by (auto simp: assessMD_def Let_def md_loop.fold_unread)
qed

lemma assessZFS_honest:
  assumes "honest a" "ScopeZFS \<notin> scopes a" "unread a ScopeZFS = None"
  shows "honest (assessZFS z t opn a)" "scopes (assessZFS z t opn a) \<subseteq> insert ScopeZFS (scopes a)"
    "dom (unread (assessZFS z t opn a)) \<subseteq> insert ScopeZFS (dom (unread a))"
proof -
  have f: "scopes (fold (assessPool t opn) (zs_pools z) a) \<subseteq> insert ScopeZFS (scopes a)"
    by (rule fold_scopes) (rule step_scopes)
  show "honest (assessZFS z t opn a)"
    using honest_unread [OF assms(1,2)] honest_read [OF assms(1) f zfs_loop.fold_unread assms(3)]
    by (simp add: assessZFS_def Let_def honest_def)
  show "scopes (assessZFS z t opn a) \<subseteq> insert ScopeZFS (scopes a)"
    "dom (unread (assessZFS z t opn a)) \<subseteq> insert ScopeZFS (dom (unread a))"
    using f by (auto simp: assessZFS_def Let_def zfs_loop.fold_unread)
qed

lemma empty_honest: "honest empty_assessment" "unread empty_assessment = Map.empty"
  by (simp_all add: honest_def empty_assessment_def)

lemma scope_neqs [simp]:
  "ScopeZFS \<noteq> ScopeMD" "ScopeMD \<noteq> ScopeZFS" "ScopeDrives \<noteq> ScopeMD" "ScopeDrives \<noteq> ScopeZFS" "ScopeDrives \<noteq> ScopeSMART"
  "ScopeSMART \<noteq> ScopeMD" "ScopeSMART \<noteq> ScopeZFS" "ScopeSMART \<noteq> ScopeDrives" "ScopeNet \<noteq> ScopeMD" "ScopeNet \<noteq> ScopeZFS"
  "ScopeNet \<noteq> ScopeDrives" "ScopeNet \<noteq> ScopeSMART" "ScopeNetExpected \<noteq> ScopeMD" "ScopeNetExpected \<noteq> ScopeZFS"
  "ScopeNetExpected \<noteq> ScopeDrives" "ScopeNetExpected \<noteq> ScopeSMART" "ScopeNetExpected \<noteq> ScopeNet" "ScopeNet \<noteq> ScopeNetExpected"
  by (simp_all add: scope_names)

definition local_scopes :: "string set" where
  "local_scopes = {ScopeMD, ScopeZFS, ScopeSMART}"

lemma assessLocal_honest:
  "honest (after_local st t opn now) \<and> scopes (after_local st t opn now) \<subseteq> {ScopeMD, ScopeZFS}
   \<and> dom (unread (after_local st t opn now)) \<subseteq> local_scopes"
proof (cases "local_unread (mst_storage st) now = ''''")
  case True
  then obtain ms l where ms: "mst_storage st = Some ms" "ms_local ms = Some l" by (auto simp: local_unread_eq)
  define m where "m = assessMD (ls_md l) opn empty_assessment"
  have m: "honest m" "scopes m \<subseteq> {ScopeMD}" "dom (unread m) \<subseteq> {ScopeMD}"
    using assessMD_honest [OF empty_honest(1), of "ls_md l" opn] by (simp_all add: m_def empty_honest(2))
  then have "ScopeZFS \<notin> scopes m" "unread m ScopeZFS = None" by (auto simp: domIff)
  note z = assessZFS_honest [OF m(1) this, of "ls_zfs l" t opn]
  have "after_local st t opn now = assessZFS (ls_zfs l) t opn m"
    using True ms by (simp add: assessLocal_def m_def)
  moreover have "dom (unread (assessZFS (ls_zfs l) t opn m)) \<subseteq> {ScopeMD, ScopeZFS}" using z(3) m(3) by blast
  ultimately show ?thesis using z(1,2) m(2) by (auto simp: local_scopes_def)
next
  case False
  then show ?thesis
    by (simp add: assessLocal_def Let_def honest_unread empty_honest)
      (auto simp: set_unread_def empty_assessment_def local_scopes_def)
qed

lemma assessDrives_honest:
  assumes "honest a" "ScopeDrives \<notin> scopes a" "unread a ScopeDrives = None"
  shows "honest (assessDrives invn s t fresh opn a) \<and> scopes (assessDrives invn s t fresh opn a) \<subseteq> insert ScopeDrives (scopes a)
    \<and> dom (unread (assessDrives invn s t fresh opn a)) \<subseteq> insert ScopeDrives (dom (unread a))"
proof -
  have f: "scopes (fold (assess_drive s t opn) ds a) \<subseteq> insert ScopeDrives (scopes a)" for ds
    by (rule fold_scopes) (rule step_scopes)
  have "honest (assessDrives invn s t fresh opn a)"
    using honest_unread [OF assms(1,2)] honest_read [OF assms(1) f drive_loop.fold_unread assms(3)]
    by (auto simp: assessDrives_def Let_def honest_def split: option.splits)
  then show ?thesis
    using f by (auto simp: assessDrives_def Let_def drive_loop.fold_unread simp del: dom_eq_empty_conv split: option.splits if_splits)
qed

lemma assessSMART_honest:
  assumes "honest a"
  shows "honest (assessSMART s invn t opn a) \<and> scopes (assessSMART s invn t opn a) \<subseteq> insert ScopeSMART (scopes a)
    \<and> unread (assessSMART s invn t opn a) = unread a"
proof (cases s)
  case (Some ms)
  have f: "scopes (fold (assess_disk invn t opn) ds a) \<subseteq> insert ScopeSMART (scopes a)" for ds
    by (rule fold_scopes) (rule step_scopes)
  have w: "scopes (fold (\<lambda>d a. if P d then a\<lparr>wearUnreported := wearUnreported a + 1\<rparr> else a) ds b) = scopes b
      \<and> unread (fold (\<lambda>d a. if P d then a\<lparr>wearUnreported := wearUnreported a + 1\<rparr> else a) ds b) = unread b"
    for P :: "observed_disk \<Rightarrow> bool" and ds b
    by (induction ds arbitrary: b) simp_all
  show ?thesis
  proof (cases "unread a ScopeSMART")
    case None
    with honest_read [OF assms f disk_loop.fold_unread None] f disk_loop.fold_unread Some show ?thesis
      by (simp add: assessSMART_def Let_def honest_def)
  next
    case (Some why)
    with w assms \<open>s = Some ms\<close> show ?thesis by (auto simp: assessSMART_def honest_def)
  qed
qed (use assms in \<open>auto simp: assessSMART_def\<close>)

lemma links_scopes: "scopes (links_scanned nw e opn a) \<subseteq> insert ScopeNet (scopes a)"
proof -
  have "scopes (links_scanned nw e opn a) \<subseteq> insert ScopeNet (scopes (fold (assessInterface e opn) (mn_interfaces nw) a))"
    unfolding links_scanned_def by (rule fold_scopes) (rule bond_scopes)
  also have "\<dots> \<subseteq> insert ScopeNet (insert ScopeNet (scopes a))"
    by (intro insert_mono fold_scopes) (rule interface_scopes)
  finally show ?thesis by simp
qed

lemma expected_scopes:
  "scopes (fold (expected_missing l c opn) names a) \<subseteq> insert ScopeNetExpected (scopes a)"
  by (rule fold_scopes) (auto simp: expected_missing_def)

lemma expected_unread: "unread (fold (expected_missing l c opn) names a) = unread a"
  by (induction names arbitrary: a) (simp_all add: expected_missing_def)

lemma assessNetwork_honest:
  assumes "honest a" "ScopeNet \<notin> scopes a" "ScopeNetExpected \<notin> scopes a" "unread a ScopeNet = None"
    "unread a ScopeNetExpected = None"
  shows "honest (assessNetwork n e opn now a)"
proof (cases "network_unread n e now = ''''")
  case True
  then obtain nw where n: "n = Some nw" by (auto simp: network_unread_eq)
  define b where "b = links_scanned nw e opn a"
  have ub: "unread b = unread a"
    by (simp add: b_def links_scanned_def bond_loop.fold_unread interface_loop.fold_unread)
  have "honest b" using honest_read [OF assms(1) links_scopes _ assms(4)] ub by (simp add: b_def)
  define c where "c = (if network_cut nw \<noteq> '''' then set_cut ScopeNet (network_cut nw) b else b)"
  have c: "honest c" "unread c = unread a" using \<open>honest b\<close> ub by (auto simp: c_def honest_def)
  have "honest (expected_scanned nw e opn a)"
    using honest_read [OF c(1) expected_scopes expected_unread] c(2) assms(5)
    unfolding expected_scanned_def b_def [symmetric] c_def [symmetric] by simp
  then show ?thesis
    unfolding n assessNetwork_read [OF True [unfolded n]] by (simp add: honest_def)
next
  case False
  then show ?thesis using assms by (simp add: assessNetwork_def Let_def honest_unread)
qed

text \<open>Nothing is concluded from a reading nobody made: no finding of an assessment rests on a
  scope the same assessment marks as unread, and an open alert of an unread scope is kept.\<close>

theorem unread_scope_is_silent:
  "(\<forall>f \<in> set (findings (Assess st t net fresh opn now)). unread (Assess st t net fresh opn now) (f_scope f) = None)
   \<and> (unread (Assess st t net fresh opn now) s \<noteq> None \<longrightarrow> Keeps (Assess st t net fresh opn now) k s)"
proof -
  let ?L = "after_local st t opn now" and ?D = "after_drives st t fresh opn now" and ?S = "after_smart st t fresh opn now"
  note L = assessLocal_honest [of st t opn now]
  have dL: "ScopeDrives \<notin> scopes ?L" "unread ?L ScopeDrives = None"
    using L by (auto simp: local_scopes_def domIff [symmetric] simp del: domIff)
  note D = assessDrives_honest [OF _ dL, of "mst_inventory st" "mst_storage st" t fresh opn]
  have D': "honest ?D" "scopes ?D \<subseteq> {ScopeMD, ScopeZFS, ScopeDrives}" "dom (unread ?D) \<subseteq> insert ScopeDrives local_scopes"
    using D L by blast+
  note S = assessSMART_honest [OF D'(1), of "mst_storage st" "mst_inventory st" t opn]
  have S': "scopes ?S \<subseteq> {ScopeMD, ScopeZFS, ScopeDrives, ScopeSMART}" "dom (unread ?S) \<subseteq> insert ScopeDrives local_scopes"
    using S D' by auto
  have "ScopeNet \<notin> scopes ?S" "ScopeNetExpected \<notin> scopes ?S" "ScopeNet \<notin> dom (unread ?S)" "ScopeNetExpected \<notin> dom (unread ?S)"
    using S' by (auto simp: local_scopes_def simp del: domIff)
  then have "honest (Assess st t net fresh opn now)"
    unfolding Assess_def using S by (intro assessNetwork_honest) (simp_all add: domIff)
  then show ?thesis by (auto simp: honest_def scopes_def Keeps_def)
qed

theorem unread_scope_is_silent_witness:
  "Keeps (Assess (w_status None) (ThresholdsFrom None) (NetExpectationsFrom None ''n'') False [] 0)
     (Key CheckWearHigh ''S'') ScopeDrives"
proof -
  have "unread (Assess (w_status None) (ThresholdsFrom None) (NetExpectationsFrom None ''n'') False [] 0) ScopeDrives
      = Some ''the BMC did not answer the last probe''"
    by code_simp
  then show ?thesis
    using unread_scope_is_silent [of "w_status None" "ThresholdsFrom None" "NetExpectationsFrom None ''n''" False "[]" 0 ScopeDrives]
    by simp
qed

end
