(* ===== verification/Health_Healthy.thy ===== *)
theory Health_Healthy
  imports Health_Theorems
begin

text \<open>
  The other direction of the assessment: a condition is False only when everything it speaks for was
  read in full, currently, and reads healthy; and the thresholds with their hysteresis.
\<close>

section \<open>False means read and healthy\<close>

lemma Verdict_False:
  assumes "v_status (Verdict a check opn) = ''False''"
  shows "\<not> fires a (Key check d)" "\<forall>s \<in> set (checkScopes check). unread a s = None \<and> cut a s = None"
    "check = CheckDegraded \<longrightarrow> smartSilent a = []"
    "\<forall>(k, s) \<in> set opn. k_check k = check \<longrightarrow> \<not> Keeps a k s"
proof -
  have m: "filter (\<lambda>f. k_check (f_key f) = check) (findings a) = []"
    and k: "\<not> list_ex (\<lambda>(k, scope). k_check k = check \<and> Keeps a k scope) opn" and u: "unread_notes a check = []"
    using assms by (auto simp: Verdict_def Let_def split: if_splits)
  show "\<not> fires a (Key check d)" using m by (auto simp: fires_def filter_empty_conv) (metis key.select_convs(1))
  show "\<forall>(k, s) \<in> set opn. k_check k = check \<longrightarrow> \<not> Keeps a k s" using k by (auto simp: list_ex_iff)
  show "check = CheckDegraded \<longrightarrow> smartSilent a = []" using u by (auto simp: unread_notes_def split: if_splits)
  have "List.map_filter (scope_unread a) (checkScopes check) = []" using u by (simp add: unread_notes_def)
  then have "\<forall>s \<in> set (checkScopes check). scope_unread a s = None"
    by (auto simp: List.map_filter_def filter_empty_conv)
  then show "\<forall>s \<in> set (checkScopes check). unread a s = None \<and> cut a s = None"
    by (auto simp: scope_unread_def split: option.splits)
qed

lemma extends_cut: "extends a b \<Longrightarrow> cut b s = None \<Longrightarrow> cut a s = None"
  by (auto simp: extends_def domIff dom_def)

lemma extends_cut_some: "extends a b \<Longrightarrow> cut a s \<noteq> None \<Longrightarrow> cut b s \<noteq> None"
  by (auto simp: extends_def domIff dom_def)

lemma extends_read: "extends a b \<Longrightarrow> unread b s = None \<Longrightarrow> unread a s = None"
  by (auto simp: extends_def domIff dom_def)

lemma extends_quiet: "extends a b \<Longrightarrow> \<not> fires b k \<Longrightarrow> \<not> fires a k"
  using extends_fires by blast

lemma md_healthy:
  assumes "\<And>d. \<not> fires (assessMD md opn a) (Key CheckDegraded d)" "unread (assessMD md opn a) ScopeMD = None"
    "cut (assessMD md opn a) ScopeMD = None"
  shows "stack_read (md_state md) \<and> md_arraysOmitted md \<le> 0 \<and> (\<forall>arr \<in> set (md_arrays md). \<not> ma_degraded arr)"
proof -
  have sr: "stack_read (md_state md)"
    using assms(2) by (auto simp: assessMD_def Let_def set_unread_def stackUnread_eq split: if_splits)
  moreover have "md_arraysOmitted md \<le> 0"
    using assms(3) sr by (auto simp: assessMD_def Let_def set_cut_def stackUnread_eq split: if_splits)
  moreover have "\<not> ma_degraded arr" if "arr \<in> set (md_arrays md)" for arr
  proof
    assume "ma_degraded arr"
    then have "fires (assess_array arr b) (Key CheckDegraded (ma_name arr))" for b
      by (simp add: assess_array_def)
    then have "fires (fold assess_array (md_arrays md) a) (Key CheckDegraded (ma_name arr))"
      by (rule md_loop.fold_stable [OF that, of "\<lambda>a. fires a (Key CheckDegraded (ma_name arr))"])
        (erule extends_fires)
    moreover have "extends (fold assess_array (md_arrays md) a) (assessMD md opn a)"
      using sr by (auto simp: assessMD_def Let_def stackUnread_eq intro: extends_trans [OF holdUnlisted_grows extends_set_cut])
    ultimately show False using assms(1) extends_fires by blast
  qed
  ultimately show ?thesis by blast
qed

lemma pool_unhealthy_fires:
  "poolProblems p \<noteq> '''' \<Longrightarrow> fires (assessPool t opn p a) (Key CheckDegraded (zp_name p))"
  unfolding assessPool_def
  by (rule extends_fires [OF extends_trans [OF pool_scrub_grows pool_capacity_grows]]) (simp add: pool_health_def)

lemma pool_partial_cuts:
  assumes "poolProblems p = ''''" "zp_vdevsOmitted p > 0 \<or> zp_health p = ''''"
  shows "cut (assessPool t opn p a) ScopeZFS \<noteq> None"
proof -
  have "cut (pool_health opn p a) ScopeZFS \<noteq> None"
    using assms by (auto simp: pool_health_def hold_open_def set_cut_def)
  moreover have "extends (pool_health opn p a) (assessPool t opn p a)"
    unfolding assessPool_def by (rule extends_trans [OF pool_scrub_grows pool_capacity_grows])
  ultimately show ?thesis by (rule extends_cut_some [rotated])
qed

lemma zfs_healthy:
  assumes "\<And>d. \<not> fires (assessZFS z t opn a) (Key CheckDegraded d)" "unread (assessZFS z t opn a) ScopeZFS = None"
    "cut (assessZFS z t opn a) ScopeZFS = None"
  shows "stack_read (zs_state z) \<and> zs_poolsOmitted z \<le> 0
    \<and> (\<forall>p \<in> set (zs_pools z). poolProblems p = '''' \<and> zp_vdevsOmitted p \<le> 0 \<and> zp_health p \<noteq> '''')"
proof -
  have sr: "stack_read (zs_state z)"
    using assms(2) by (auto simp: assessZFS_def Let_def set_unread_def stackUnread_eq split: if_splits)
  have e: "extends (fold (assessPool t opn) (zs_pools z) a) (assessZFS z t opn a)"
    using sr by (auto simp: assessZFS_def Let_def stackUnread_eq intro: extends_trans [OF holdUnlisted_grows extends_set_cut])
  have "zs_poolsOmitted z \<le> 0"
    using assms(3) sr by (auto simp: assessZFS_def Let_def set_cut_def stackUnread_eq split: if_splits)
  moreover have ok: "poolProblems p = ''''" if "p \<in> set (zs_pools z)" for p
  proof (rule ccontr)
    assume "poolProblems p \<noteq> ''''"
    then have "fires (assessPool t opn p b) (Key CheckDegraded (zp_name p))" for b
      by (rule pool_unhealthy_fires)
    then have "fires (fold (assessPool t opn) (zs_pools z) a) (Key CheckDegraded (zp_name p))"
      by (rule zfs_loop.fold_stable [OF that, of "\<lambda>a. fires a (Key CheckDegraded (zp_name p))"])
        (erule extends_fires)
    then show False using assms(1) extends_fires [OF e] by blast
  qed
  moreover have "\<not> (zp_vdevsOmitted p > 0 \<or> zp_health p = '''')" if "p \<in> set (zs_pools z)" for p
  proof
    assume "zp_vdevsOmitted p > 0 \<or> zp_health p = ''''"
    then have "cut (assessPool t opn p b) ScopeZFS \<noteq> None" for b
      by (rule pool_partial_cuts [OF ok [OF that]])
    then have "cut (fold (assessPool t opn) (zs_pools z) a) ScopeZFS \<noteq> None"
      by (rule zfs_loop.fold_stable [OF that, of "\<lambda>a. cut a ScopeZFS \<noteq> None"]) (erule extends_cut_some)
    then show False using assms(3) extends_cut_some [OF e] by simp
  qed
  ultimately show ?thesis using sr by (auto simp: not_less)
qed

lemma smart_healthy:
  assumes "\<And>d. \<not> fires (assessSMART (Some ms) invn t opn a) (Key CheckDegraded d)"
    "unread (assessSMART (Some ms) invn t opn a) ScopeSMART = None"
    "cut (assessSMART (Some ms) invn t opn a) ScopeSMART = None" "smartSilent (assessSMART (Some ms) invn t opn a) = []"
  shows "length (ms_observed ms) < MaxObservedDisks \<and> (\<forall>d \<in> set (ms_observed ms).
    smart_passed d = Some True \<or> smart_passed d = None \<and> \<not> smart_owed d (bmcDrive invn (od_serialNumber d)))"
proof -
  have u: "unread a ScopeSMART = None" by (rule extends_read [OF assessSMART_grows assms(2)])
  let ?f = "fold (assess_disk invn t opn) (ms_observed ms) a"
  have e: "extends ?f (assessSMART (Some ms) invn t opn a)"
    using u by (auto simp: assessSMART_def Let_def intro: extends_trans [OF holdUnlisted_grows extends_set_cut])
  have len: "length (ms_observed ms) < MaxObservedDisks"
    using assms(3) u by (auto simp: assessSMART_def Let_def set_cut_def split: if_splits)
  have *: "smart_passed d \<noteq> Some False" if "d \<in> set (ms_observed ms)" for d
  proof
    assume "smart_passed d = Some False"
    then have "fires (disk_health invn opn d b) (Key CheckDegraded (od_serialNumber d))" for b
      by (simp add: disk_health_def Let_def)
    then have "fires (assess_disk invn t opn d b) (Key CheckDegraded (od_serialNumber d))" for b
      unfolding assess_disk_def by (intro extends_fires [OF disk_wear_grows])
    then have "fires ?f (Key CheckDegraded (od_serialNumber d))"
      by (rule disk_loop.fold_stable [OF that, of "\<lambda>a. fires a (Key CheckDegraded (od_serialNumber d))"])
        (erule extends_fires)
    then show False using assms(1) extends_fires [OF e] by blast
  qed
  have **: "\<not> (smart_passed d = None \<and> smart_owed d (bmcDrive invn (od_serialNumber d)))"
    if "d \<in> set (ms_observed ms)" for d
  proof
    assume s: "smart_passed d = None \<and> smart_owed d (bmcDrive invn (od_serialNumber d))"
    have "od_serialNumber d \<in> set (smartSilent (disk_health invn opn d b))" for b
      using s by (simp add: disk_health_def Let_def hold_open_def)
    then have "od_serialNumber d \<in> set (smartSilent (assess_disk invn t opn d b))" for b
      unfolding assess_disk_def using disk_wear_grows by (fastforce simp: extends_def)
    then have "od_serialNumber d \<in> set (smartSilent ?f)"
      by (rule disk_loop.fold_stable [OF that, of "\<lambda>a. od_serialNumber d \<in> set (smartSilent a)"])
        (auto simp: extends_def)
    with e assms(4) show False by (auto simp: extends_def)
  qed
  show ?thesis
  proof (intro conjI ballI len)
    fix d
    assume "d \<in> set (ms_observed ms)"
    then have "smart_passed d \<noteq> Some False" "\<not> (smart_passed d = None \<and> smart_owed d (bmcDrive invn (od_serialNumber d)))"
      using * ** by auto
    then show "smart_passed d = Some True \<or> smart_passed d = None \<and> \<not> smart_owed d (bmcDrive invn (od_serialNumber d))"
      by (cases "smart_passed d") auto
  qed
qed

lemma assess_local_read:
  assumes "unread (after_local st t opn now) ScopeMD = None"
  shows "\<exists>ms l. mst_storage st = Some ms \<and> ms_local ms = Some l \<and> report_current (ms_observedAt ms) now
    \<and> after_local st t opn now = assessZFS (ls_zfs l) t opn (assessMD (ls_md l) opn empty_assessment)"
proof -
  have "local_unread (mst_storage st) now = ''''"
    using assms by (auto simp: assessLocal_def Let_def set_unread_def split: if_splits)
  then show ?thesis by (auto simp: assessLocal_def local_unread_eq Let_def)
qed

text \<open>C14. StorageDegraded is False only after a complete and current read that shows nothing wrong: the
  agent reported within ten minutes; the md and zfs stacks were read and neither list was cut; no
  array is degraded, no pool has a problem or was read in part; the disk list was not cut; every
  disk passed its SMART self-assessment or is one nobody owes a read to; and no open alert of the
  check is one this pass could not re-read.\<close>

theorem degraded_False_means_healthy:
  assumes "v_status (Verdict (Assess st t net fresh opn now) CheckDegraded opn) = ''False''"
  shows "\<exists>ms l. mst_storage st = Some ms \<and> ms_local ms = Some l \<and> report_current (ms_observedAt ms) now
    \<and> stack_read (md_state (ls_md l)) \<and> md_arraysOmitted (ls_md l) \<le> 0
    \<and> (\<forall>arr \<in> set (md_arrays (ls_md l)). \<not> ma_degraded arr)
    \<and> stack_read (zs_state (ls_zfs l)) \<and> zs_poolsOmitted (ls_zfs l) \<le> 0
    \<and> (\<forall>p \<in> set (zs_pools (ls_zfs l)). poolProblems p = '''' \<and> zp_vdevsOmitted p \<le> 0 \<and> zp_health p \<noteq> '''')
    \<and> length (ms_observed ms) < MaxObservedDisks
    \<and> (\<forall>d \<in> set (ms_observed ms). smart_passed d = Some True
         \<or> smart_passed d = None \<and> \<not> smart_owed d (bmcDrive (mst_inventory st) (od_serialNumber d)))
    \<and> (\<forall>(k, s) \<in> set opn. k_check k = CheckDegraded \<longrightarrow> \<not> Keeps (Assess st t net fresh opn now) k s)"
proof -
  let ?A = "Assess st t net fresh opn now" and ?S = "after_smart st t fresh opn now"
  note V = Verdict_False [OF assms]
  have rd: "unread ?A s = None" "cut ?A s = None" if "s \<in> {ScopeMD, ScopeZFS, ScopeSMART}" for s
    using V(2) that by (auto simp: checkScopes_def)
  obtain ms l where ms: "mst_storage st = Some ms" "ms_local ms = Some l" "report_current (ms_observedAt ms) now"
    and L: "after_local st t opn now = assessZFS (ls_zfs l) t opn (assessMD (ls_md l) opn empty_assessment)"
    using assess_local_read extends_read [OF Assess_phases(1) rd(1) [of ScopeMD]] by blast
  have zA: "extends (assessZFS (ls_zfs l) t opn (assessMD (ls_md l) opn empty_assessment)) ?A"
    using Assess_phases(1) L by metis
  have mA: "extends (assessMD (ls_md l) opn empty_assessment) ?A"
    by (rule extends_trans [OF assessZFS_grows zA])
  have sA: "extends (assessSMART (Some ms) (mst_inventory st) t opn (after_drives st t fresh opn now)) ?A"
    using Assess_phases(3) ms(1) by metis
  have silent: "smartSilent (assessSMART (Some ms) (mst_inventory st) t opn (after_drives st t fresh opn now)) = []"
    using sA V(3) by (simp add: extends_def)
  note md = md_healthy [OF extends_quiet [OF mA V(1)] extends_read [OF mA rd(1)] extends_cut [OF mA rd(2)]]
  note zfs = zfs_healthy [OF extends_quiet [OF zA V(1)] extends_read [OF zA rd(1)] extends_cut [OF zA rd(2)]]
  note smart = smart_healthy [OF extends_quiet [OF sA V(1)] extends_read [OF sA rd(1)] extends_cut [OF sA rd(2)] silent]
  show ?thesis
    using ms md zfs smart V(4) by simp
qed

theorem degraded_False_means_healthy_witness:
  "v_status (Verdict (Assess (w_status None) (ThresholdsFrom None) (NetExpectationsFrom None ''n'') True [] 0)
      CheckDegraded []) = ''False''
   \<and> (\<exists>ms. mst_storage (w_status None) = Some ms \<and> report_current (ms_observedAt ms) 0)"
proof -
  have v: "v_status (Verdict (Assess (w_status None) (ThresholdsFrom None) (NetExpectationsFrom None ''n'') True [] 0)
      CheckDegraded []) = ''False''"
    by code_simp
  with degraded_False_means_healthy [OF v] show ?thesis by blast
qed

section \<open>Thresholds\<close>

lemma hysteresis_limits:
  "is_int32 (t_ZFSCapacityPercent t) \<Longrightarrow> 1 \<le> t_ZFSCapacityPercent t \<Longrightarrow>
     capacity_limit t opn k = (if open_has opn k then t_ZFSCapacityPercent t - 2 else t_ZFSCapacityPercent t)"
  "is_int32 (ne_saturatedPercent e) \<Longrightarrow> 1 \<le> ne_saturatedPercent e \<Longrightarrow>
     saturation_limit e opn k = (if open_has opn k then max 1 (ne_saturatedPercent e - 5) else ne_saturatedPercent e)"
  by (auto simp: capacity_limit_def saturation_limit_def capacityHysteresis_def saturationHysteresis_def is_int32_def)

text \<open>Thresholds have their hysteresis and no more: a sized pool fires its capacity alert exactly at
  the threshold, and once open keeps firing until it is two points under; a link with a known
  capacity and five minutes of readings fires exactly at the saturation threshold and keeps firing
  until five points under, never below one per cent.\<close>

theorem thresholds_with_hysteresis:
  assumes "is_int32 (t_ZFSCapacityPercent t)" "1 \<le> t_ZFSCapacityPercent t"
    "is_int32 (ne_saturatedPercent e)" "1 \<le> ne_saturatedPercent e"
    "zp_capacityPercent p = Some c" "lt_capacityMbps tr = Some m" "lt_sustainedUtilizationPercent tr = Some u"
  shows "(fires (pool_capacity t opn p empty_assessment) (Key CheckCapacityHigh (zp_name p)) \<longleftrightarrow>
      c \<ge> t_ZFSCapacityPercent t
      \<or> open_has opn (Key CheckCapacityHigh (zp_name p)) \<and> c \<ge> t_ZFSCapacityPercent t - 2)
    \<and> (fires (traffic_load nm tr up e opn empty_assessment) (Key CheckSaturated nm) \<longleftrightarrow>
      u \<ge> ne_saturatedPercent e
      \<or> open_has opn (Key CheckSaturated nm) \<and> u \<ge> max 1 (ne_saturatedPercent e - 5))"
proof -
  have "\<not> fires empty_assessment k" for k by (simp add: fires_def empty_assessment_def)
  then show ?thesis
    using assms(5-7) hysteresis_limits(1) [OF assms(1,2)] hysteresis_limits(2) [OF assms(3,4)] assms(4)
    by (auto simp: pool_capacity_def traffic_load_def Let_def)
qed

theorem thresholds_with_hysteresis_witness:
  "\<not> fires (pool_capacity (ThresholdsFrom None) [] \<lparr>zp_name = ''p'', zp_health = ''ONLINE'', zp_capacityPercent = Some 79,
       zp_scan = '''', zp_scrubErrors = None, zp_lastScrub = '''', zp_vdevs = [], zp_vdevsOmitted = 0\<rparr> empty_assessment)
     (Key CheckCapacityHigh ''p'')
   \<and> fires (pool_capacity (ThresholdsFrom None) (w_open CheckCapacityHigh ''p'' ScopeZFS) \<lparr>zp_name = ''p'',
       zp_health = ''ONLINE'', zp_capacityPercent = Some 79, zp_scan = '''', zp_scrubErrors = None, zp_lastScrub = '''',
       zp_vdevs = [], zp_vdevsOmitted = 0\<rparr> empty_assessment)
     (Key CheckCapacityHigh ''p'')"
proof -
  define p where "p = \<lparr>zp_name = ''p'', zp_health = ''ONLINE'', zp_capacityPercent = Some 79, zp_scan = '''',
    zp_scrubErrors = None, zp_lastScrub = '''', zp_vdevs = [], zp_vdevsOmitted = 0\<rparr>"
  have "(fires (pool_capacity (ThresholdsFrom None) opn p empty_assessment) (Key CheckCapacityHigh (zp_name p)) \<longleftrightarrow>
      open_has opn (Key CheckCapacityHigh (zp_name p)))" for opn
    using thresholds_with_hysteresis [of "ThresholdsFrom None" "NetExpectationsFrom None ''n''" p 79
        "\<lparr>lt_historySeconds = 300, lt_capacityMbps = Some 1000, lt_sustainedUtilizationPercent = Some 5, lt_errorsPerMinute = 0\<rparr>"
        1000 5 opn]
    by (simp add: p_def ThresholdsFrom_def NetExpectationsFrom_def is_int32_def)
  from this [of "[]"] this [of "w_open CheckCapacityHigh ''p'' ScopeZFS"] show ?thesis
    by (simp add: p_def open_has_def w_open_def)
qed

end
