(* ===== verification/Alert_Text.thy ===== *)
theory Alert_Text
  imports Frame_Prelude
begin

text \<open>
  \<open>internal/alerting/payload.go\<close>: the Alertmanager payload, its validation, and the bounding of the
  strings and maps that reach the API server.

  A Go \<open>map[string]string\<close> is the list of its entries in the order of their keys, each key once; the
  nil map and the empty map are both the empty list (\<open>equality.Semantic\<close> and \<open>omitempty\<close> identify them).
\<close>

section \<open>UTF-8 validity\<close>

text \<open>\<open>utf8.ValidString\<close>.\<close>

function valid_utf8 :: "string \<Rightarrow> bool" where
  "valid_utf8 [] = True"
| "valid_utf8 (a # t) =
     (if rune_len (a # t) = 0 then False else valid_utf8 (drop (rune_len (a # t) - 1) t))"
  by pat_completeness auto
termination
  by (relation "measure length") auto

declare valid_utf8.simps(2) [simp del]

text \<open>The loop of \<open>strings.ToValidUTF8\<close> with U+FFFD as the replacement: a run of invalid bytes becomes
  one replacement; \<open>invalid\<close> says that the previous byte belonged to such a run.\<close>

function to_valid :: "bool \<Rightarrow> string \<Rightarrow> string" where
  "to_valid invalid [] = []"
| "to_valid invalid (a # t) =
     (if rune_len (a # t) = 0 then (if invalid then [] else rune_error) @ to_valid True t
      else take (rune_len (a # t)) (a # t) @ to_valid False (drop (rune_len (a # t) - 1) t))"
  by pat_completeness auto
termination
  by (relation "measure (\<lambda>(_, s). length s)") auto

declare to_valid.simps(2) [simp del]

section \<open>Bounding\<close>

text \<open>The loop that backs off to a rune boundary; the empty string is valid, so it ends.\<close>

function back_off :: "string \<Rightarrow> string" where
  "back_off s = (if valid_utf8 s then s else back_off (take (length s - 1) s))"
  by pat_completeness auto
termination
proof (relation "measure length")
  fix s :: string
  assume "\<not> valid_utf8 s"
  then have "s \<noteq> []" by auto
  then show "(take (length s - 1) s, s) \<in> measure length" by simp
qed simp

declare back_off.simps [simp del]

definition truncate_str :: "string \<Rightarrow> nat \<Rightarrow> string" where
  "truncate_str s n =
     (let s = to_valid False s in
      if length s \<le> n then s else back_off (take n s))"

definition maxMapEntries :: nat where "maxMapEntries = 64"
definition maxKeyBytes :: nat where "maxKeyBytes = 256"
definition maxValueBytes :: nat where "maxValueBytes = 4096"

type_synonym gomap = "(string \<times> string) list"

definition gomap_ok :: "gomap \<Rightarrow> bool" where
  "gomap_ok m \<longleftrightarrow> sorted (map fst m) \<and> distinct (map fst m)"

text \<open>\<open>m[k]\<close>, with the zero value for an absent key.\<close>

definition label_of :: "gomap \<Rightarrow> string \<Rightarrow> string" where
  "label_of m k = (case map_of m k of Some v \<Rightarrow> v | None \<Rightarrow> '''')"

definition bound_entry :: "gomap \<Rightarrow> string \<Rightarrow> gomap \<Rightarrow> gomap" where
  "bound_entry m k out =
     (let truncatedKey = truncate_str k maxKeyBytes in
      if truncatedKey \<in> set (map fst out) then out
      else insort_key fst (truncatedKey, truncate_str (label_of m k) maxValueBytes) out)"

definition BoundMap :: "gomap \<Rightarrow> gomap" where
  "BoundMap m =
     (let keys = sort (map fst m);
          keys = (if length keys > maxMapEntries then take maxMapEntries keys else keys)
      in fold (bound_entry m) keys [])"

section \<open>Payloads\<close>

definition MaxBodyBytes :: nat where "MaxBodyBytes = 2 ^ 20"
definition MaxAlertsPerRequest :: nat where "MaxAlertsPerRequest = 100"
definition StatusFiring :: string where "StatusFiring = ''firing''"
definition StatusResolved :: string where "StatusResolved = ''resolved''"

record alert =
  al_status :: string
  al_labels :: gomap
  al_annotations :: gomap
  al_startsAt :: instant
  al_endsAt :: instant
  al_generatorURL :: string
  al_fingerprint :: string

record payload =
  p_version :: string
  p_status :: string
  p_receiver :: string
  p_alerts :: "alert list"

definition fingerprintPattern :: "string \<Rightarrow> bool" where
  "fingerprintPattern s \<longleftrightarrow> 1 \<le> length s \<and> length s \<le> 64
     \<and> list_all (\<lambda>c. is_digit c \<or> 97 \<le> byte c \<and> byte c \<le> 102) s"

fun validate_alerts :: "nat \<Rightarrow> alert list \<Rightarrow> string option" where
  "validate_alerts i [] = None"
| "validate_alerts i (a # as) =
     (if \<not> fingerprintPattern (al_fingerprint a) then
        Some (''alert '' @ nat_str i @ '': fingerprint '' @ quoted (al_fingerprint a))
      else if al_status a \<noteq> StatusFiring \<and> al_status a \<noteq> StatusResolved then
        Some (''alert '' @ nat_str i @ '': status '' @ quoted (al_status a))
      else validate_alerts (i + 1) as)"

definition Validate :: "payload \<Rightarrow> string option" where
  "Validate p =
     (if p_version p \<noteq> ''4'' then Some (''unsupported payload version '' @ quoted (p_version p))
      else if p_alerts p = [] then Some ''no alerts''
      else if length (p_alerts p) > MaxAlertsPerRequest then
        Some (nat_str (length (p_alerts p)) @ '' alerts, at most '' @ nat_str MaxAlertsPerRequest)
      else validate_alerts 0 (p_alerts p))"

definition AlertObjectName :: "string \<Rightarrow> string" where
  "AlertObjectName fingerprint = ''fa-'' @ fingerprint"

text \<open>\<open>hex.EncodeToString\<close>; the digest function \<open>sha256.Sum256\<close> is an argument.\<close>

definition hex_encode :: "string \<Rightarrow> string" where
  "hex_encode s = concat (map (\<lambda>c. [hex_char (byte c div 16), hex_char (byte c mod 16)]) s)"

definition LocalFingerprint :: "(string \<Rightarrow> string) \<Rightarrow> string list \<Rightarrow> string" where
  "LocalFingerprint sum256 parts = hex_encode (take 16 (sum256 (join_with [CHR 0x00] parts)))"

section \<open>Truncation is exact\<close>

lemma is_rune_length: "is_rune c \<Longrightarrow> length c \<le> 4"
  by (auto simp: is_rune_def rune_len_def split: list.splits if_splits)

lemma valid_rune_append: "is_rune c \<Longrightarrow> valid_utf8 (c @ r) = valid_utf8 r"
proof -
  assume c: "is_rune c"
  then obtain a t where c_eq: "c = a # t" by (cases c) (auto simp: is_rune_def)
  have "rune_len (a # t @ r) = Suc (length t)"
    using is_rune_append [OF c, of r] c_eq by simp
  then show ?thesis by (simp add: c_eq valid_utf8.simps(2))
qed

lemma valid_concat: "(\<And>c. c \<in> set cs \<Longrightarrow> is_rune c) \<Longrightarrow> valid_utf8 (concat cs)"
  by (induction cs) (simp_all add: valid_rune_append)

lemma valid_append_valid: "valid_utf8 s \<Longrightarrow> valid_utf8 (s @ r) = valid_utf8 r"
proof (induction s rule: valid_utf8.induct)
  case (2 a t)
  let ?n = "rune_len (a # t)"
  have n: "0 < ?n" using "2.prems" by (simp add: valid_utf8.simps(2) split: if_split_asm)
  have "(a # t) @ r = take ?n (a # t) @ (drop ?n (a # t) @ r)" by (simp add: append_assoc [symmetric])
  then have "valid_utf8 ((a # t) @ r) = valid_utf8 (drop ?n (a # t) @ r)"
    using is_rune_take [OF n] valid_rune_append by metis
  moreover have "drop ?n (a # t) = drop (?n - 1) t" using n by (cases ?n) simp_all
  moreover have "valid_utf8 (drop (?n - 1) t)"
    using "2.prems" n by (simp add: valid_utf8.simps(2))
  ultimately show ?case using "2.IH" n by simp
qed simp

lemma to_valid_valid: "valid_utf8 (to_valid b s)"
proof (induction b s rule: to_valid.induct)
  case (2 b a t)
  show ?case
  proof (cases "rune_len (a # t) = 0")
    case True
    with 2 show ?thesis by (simp add: to_valid.simps(2) valid_rune_append is_rune_error)
  next
    case False
    with 2 is_rune_take [of "a # t"] show ?thesis
      by (simp add: to_valid.simps(2) valid_rune_append)
  qed
qed simp

lemma to_valid_id: "valid_utf8 s \<Longrightarrow> to_valid b s = s"
proof (induction b s rule: to_valid.induct)
  case (2 b a t)
  let ?n = "rune_len (a # t)"
  have n: "?n \<noteq> 0" using "2.prems" by (simp add: valid_utf8.simps(2) split: if_split_asm)
  have "to_valid b (a # t) = take ?n (a # t) @ drop (?n - 1) t"
    using 2 n by (simp add: to_valid.simps(2) valid_utf8.simps(2))
  also have "\<dots> = a # t" using n by (cases ?n) simp_all
  finally show ?case .
qed simp

text \<open>A cut through a valid string leaves a valid string at most three bytes before it.\<close>

lemma valid_cut:
  assumes "valid_utf8 s" "n \<le> length s"
  shows "\<exists>k \<le> n. n \<le> k + 3 \<and> valid_utf8 (take k s)"
  using assms
proof (induction s arbitrary: n rule: valid_utf8.induct)
  case (2 a t)
  let ?l = "rune_len (a # t)"
  have l: "0 < ?l" "?l \<le> length (a # t)"
    using "2.prems" rune_len_le [of "a # t"] by (auto simp: valid_utf8.simps(2) split: if_split_asm)
  have l4: "?l \<le> 4" using is_rune_length [OF is_rune_take [OF l(1)]] l(2) by simp
  have rest: "drop (?l - 1) t = drop ?l (a # t)" using l by (cases ?l) simp_all
  show ?case
  proof (cases "n < ?l")
    case True
    then show ?thesis using l4 by (intro exI [of _ 0]) simp
  next
    case False
    then have "n - ?l \<le> length (drop (?l - 1) t)" using "2.prems"(2) l by simp
    then obtain k where k: "k \<le> n - ?l" "n - ?l \<le> k + 3" "valid_utf8 (take k (drop (?l - 1) t))"
      using "2.IH" [of "n - ?l"] "2.prems"(1) l by (auto simp: valid_utf8.simps(2))
    have "take (?l + k) (a # t) = take ?l (a # t) @ take k (drop ?l (a # t))" by (rule take_add)
    then have "valid_utf8 (take (?l + k) (a # t))"
      using k(3) rest valid_rune_append [OF is_rune_take [OF l(1)]] by metis
    then show ?thesis using k(1,2) False by (intro exI [of _ "?l + k"]) linarith
  qed
qed simp

lemma back_off_spec:
  "\<exists>m. back_off s = take m s \<and> m \<le> length s \<and> valid_utf8 (take m s)
     \<and> (\<forall>k \<le> length s. valid_utf8 (take k s) \<longrightarrow> k \<le> m)"
proof (induction s rule: back_off.induct)
  case (1 s)
  show ?case
  proof (cases "valid_utf8 s")
    case True
    then show ?thesis by (intro exI [of _ "length s"]) (simp add: back_off.simps)
  next
    case False
    let ?s = "take (length s - 1) s"
    from 1 False obtain m where m: "back_off ?s = take m ?s" "m \<le> length ?s" "valid_utf8 (take m ?s)"
      and max: "\<And>k. k \<le> length ?s \<Longrightarrow> valid_utf8 (take k ?s) \<Longrightarrow> k \<le> m" by blast
    have "k \<le> m" if "k \<le> length s" "valid_utf8 (take k s)" for k
    proof -
      have "k \<noteq> length s" using that(2) False by auto
      then have "k \<le> length s - 1" using that(1) by simp
      then have "k \<le> length ?s" "take k ?s = take k s" using that(1) by (simp_all add: min_def)
      then show ?thesis using max [of k] that(2) by simp
    qed
    moreover have "take m ?s = take m s" using m(2) by (simp add: min_absorb1)
    ultimately show ?thesis using m False by (intro exI [of _ m]) (simp add: back_off.simps [of s])
  qed
qed

lemma truncate_str_spec:
  "valid_utf8 (truncate_str s n) \<and> length (truncate_str s n) \<le> n
   \<and> truncate_str s n = take (length (truncate_str s n)) (to_valid False s)
   \<and> min (length (to_valid False s)) (n - 3) \<le> length (truncate_str s n)"
proof (cases "length (to_valid False s) \<le> n")
  case True
  then show ?thesis by (simp add: truncate_str_def Let_def to_valid_valid)
next
  case False
  let ?t = "to_valid False s"
  obtain k where k: "k \<le> n" "n \<le> k + 3" "valid_utf8 (take k ?t)"
    using valid_cut [OF to_valid_valid [of False s], of n] False by auto
  obtain m where m: "back_off (take n ?t) = take m (take n ?t)" "m \<le> length (take n ?t)"
      "valid_utf8 (take m (take n ?t))" "\<forall>k \<le> length (take n ?t). valid_utf8 (take k (take n ?t)) \<longrightarrow> k \<le> m"
    using back_off_spec by blast
  have "m \<le> n" "k \<le> m" using m(2,4) k(1,3) False by (auto simp: min_def)
  moreover from this have "n - 3 \<le> m" using k(2) by linarith
  ultimately show ?thesis using m(1,3) False by (simp add: truncate_str_def Let_def min_def)
qed

text \<open>The rounds of the loop: it drops one byte a round until the string is valid.\<close>

lemma back_off_rounds:
  "back_off s = (butlast ^^ (length s - length (back_off s))) s
   \<and> (\<forall>j < length s - length (back_off s). \<not> valid_utf8 ((butlast ^^ j) s))"
proof (induction s rule: back_off.induct)
  case (1 s)
  show ?case
  proof (cases "valid_utf8 s")
    case True
    then show ?thesis by (simp add: back_off.simps)
  next
    case False
    let ?s = "take (length s - 1) s"
    have b: "?s = butlast s" "back_off s = back_off ?s" "s \<noteq> []" using False by (auto simp: butlast_conv_take back_off.simps [of s])
    obtain m where "back_off ?s = take m ?s" using back_off_spec by blast
    then have "length (back_off ?s) \<le> length ?s" by simp
    moreover have "length s = Suc (length ?s)" using b(3) by simp
    ultimately have l: "length s - length (back_off s) = Suc (length ?s - length (back_off ?s))"
      unfolding b(2) by linarith
    have "\<not> valid_utf8 ((butlast ^^ j) s)" if "j < Suc (length ?s - length (back_off ?s))" for j
      using that 1 False b(1) by (cases j) (simp_all add: funpow_swap1)
    then show ?thesis using 1 False b(1,2) l by (simp add: funpow_swap1)
  qed
qed

lemma truncate_str_longest:
  assumes "k \<le> n" "k \<le> length (to_valid False s)" "valid_utf8 (take k (to_valid False s))"
  shows "k \<le> length (truncate_str s n)"
proof (cases "length (to_valid False s) \<le> n")
  case True
  then show ?thesis using assms by (simp add: truncate_str_def)
next
  case False
  let ?t = "take n (to_valid False s)"
  obtain m where "back_off ?t = take m ?t" "m \<le> length ?t" "\<forall>k \<le> length ?t. valid_utf8 (take k ?t) \<longrightarrow> k \<le> m"
    using back_off_spec by blast
  moreover have "k \<le> length ?t" "valid_utf8 (take k ?t)" using assms False by (simp_all add: min_def)
  ultimately show ?thesis using False by (simp add: truncate_str_def min_def)
qed

lemma truncate_str_rounds:
  "\<exists>k \<le> 3. truncate_str s n = (butlast ^^ k) (take n (to_valid False s))
     \<and> (\<forall>j < k. \<not> valid_utf8 ((butlast ^^ j) (take n (to_valid False s))))"
proof (cases "length (to_valid False s) \<le> n")
  case True
  then show ?thesis by (intro exI [of _ 0]) (simp add: truncate_str_def)
next
  case False
  let ?t = "take n (to_valid False s)"
  have "truncate_str s n = back_off ?t" using False by (simp add: truncate_str_def)
  moreover have "length ?t - length (back_off ?t) \<le> 3"
  proof -
    have "min (length (to_valid False s)) (n - 3) \<le> length (back_off ?t)" using truncate_str_spec [of s n] calculation by metis
    then show ?thesis using False by (simp add: min_def split: if_splits)
  qed
  ultimately show ?thesis using back_off_rounds [of ?t] by (intro exI [of _ "length ?t - length (back_off ?t)"]) simp
qed

lemma truncate_str_id: "valid_utf8 s \<Longrightarrow> length s \<le> n \<Longrightarrow> truncate_str s n = s"
  by (simp add: truncate_str_def to_valid_id)

lemma truncate_str_idem [simp]: "truncate_str (truncate_str s n) n = truncate_str s n"
  using truncate_str_spec [of s n] by (simp add: truncate_str_id)

section \<open>Bounded maps\<close>

definition entry_fits :: "string \<times> string \<Rightarrow> bool" where
  "entry_fits e \<longleftrightarrow> length (fst e) \<le> maxKeyBytes \<and> valid_utf8 (fst e)
     \<and> length (snd e) \<le> maxValueBytes \<and> valid_utf8 (snd e)"

definition map_fits :: "gomap \<Rightarrow> bool" where
  "map_fits m \<longleftrightarrow> gomap_ok m \<and> length m \<le> maxMapEntries \<and> list_all entry_fits m"

lemma fst_insort_key: "map fst (insort_key fst e m) = insort (fst e) (map fst m)"
  by (induction m) auto

lemma insort_last: "\<forall>x \<in> set xs. f x < f a \<Longrightarrow> insort_key f a xs = xs @ [a]"
  by (induction xs) (simp_all add: not_le [symmetric])

lemma gomap_ok_insort: "gomap_ok m \<Longrightarrow> fst e \<notin> set (map fst m) \<Longrightarrow> gomap_ok (insort_key fst e m)"
  by (simp add: gomap_ok_def fst_insort_key sorted_insort distinct_insort)

lemma bound_entry_keeps:
  assumes "gomap_ok out" "list_all entry_fits out"
  shows "gomap_ok (bound_entry m k out) \<and> list_all entry_fits (bound_entry m k out)
    \<and> length (bound_entry m k out) \<le> Suc (length out)"
  using assms truncate_str_spec [of k maxKeyBytes] truncate_str_spec [of "label_of m k" maxValueBytes]
  by (auto simp: bound_entry_def Let_def gomap_ok_insort list_all_iff set_insort_key entry_fits_def)

lemma bound_entries_keep:
  assumes "gomap_ok out" "list_all entry_fits out"
  shows "gomap_ok (fold (bound_entry m) ks out) \<and> list_all entry_fits (fold (bound_entry m) ks out)
    \<and> length (fold (bound_entry m) ks out) \<le> length ks + length out"
  using assms
proof (induction ks arbitrary: out)
  case (Cons k ks)
  have b: "gomap_ok (bound_entry m k out)" "list_all entry_fits (bound_entry m k out)"
    "length (bound_entry m k out) \<le> Suc (length out)"
    using bound_entry_keeps [OF Cons.prems] by blast+
  show ?case using Cons.IH [OF b(1,2)] b(3) by simp
qed simp

lemma BoundMap_fits: "map_fits (BoundMap m)"
  using bound_entries_keep [of "[]" m "take maxMapEntries (sort (map fst m))"]
    bound_entries_keep [of "[]" m "sort (map fst m)"]
  by (auto simp: BoundMap_def Let_def map_fits_def gomap_ok_def)

text \<open>A map within the bounds is kept as it is.\<close>

lemma bound_entries_id:
  assumes "list_all entry_fits m" "distinct (map fst m)" "ks @ map fst es = map fst m"
    and "es = drop (length ks) m" "gomap_ok m"
  shows "fold (bound_entry m) (map fst es) (take (length ks) m) = m"
  using assms(3,4)
proof (induction es arbitrary: ks)
  case Nil
  then show ?case by (metis append_Nil2 fold_simps(1) length_map list.map_disc_iff take_all order_refl)
next
  case (Cons e es)
  let ?n = "length ks"
  have n: "?n < length m" using Cons.prems(2) by (metis drop_eq_Nil leI list.distinct(1))
  then have me: "m ! ?n = e" using Cons.prems(2) by (metis hd_drop_conv_nth list.sel(1))
  have e: "e \<in> set m" using n me nth_mem by blast
  then have fits: "entry_fits e" using assms(1) by (simp add: list_all_iff)
  have keys: "map fst (take ?n m) = ks" using Cons.prems(1) by (metis append_eq_conv_conj take_map)
  have new: "fst e \<notin> set ks" using assms(2) Cons.prems(1) by (metis disjoint_iff distinct_append list.set_intros(1) list.simps(9))
  have "map_of m (fst e) = Some (snd e)" using assms(2) e by (simp add: map_of_is_SomeI)
  then have step: "bound_entry m (fst e) (take ?n m) = insort_key fst e (take ?n m)"
    using fits new keys
    by (simp add: bound_entry_def Let_def label_of_def entry_fits_def truncate_str_id del: set_map)
  have last: "insort_key fst e (take ?n m) = take ?n m @ [e]"
  proof (rule insort_last, rule ballI)
    fix x assume x: "x \<in> set (take ?n m)"
    then have "fst x \<in> set ks" using keys by (metis image_eqI set_map)
    moreover have "sorted (ks @ map fst (e # es))" using assms(5) Cons.prems(1) by (simp add: gomap_ok_def)
    ultimately show "fst x < fst e" using new by (auto simp: sorted_append order_less_le)
  qed
  have "take ?n m @ [e] = take (length (ks @ [fst e])) m" using n me by (simp add: take_Suc_conv_app_nth)
  moreover have "es = drop (length (ks @ [fst e])) m"
    using Cons.prems(2) by (metis drop_Suc length_append_singleton list.sel(3) tl_drop)
  moreover have "(ks @ [fst e]) @ map fst es = map fst m" using Cons.prems(1) by simp
  ultimately show ?case using Cons.IH [of "ks @ [fst e]"] step last by simp
qed

lemma BoundMap_id:
  assumes "map_fits m"
  shows "BoundMap m = m"
proof -
  have "sort (map fst m) = map fst m" using assms by (simp add: map_fits_def gomap_ok_def sort_key_id_if_sorted)
  then show ?thesis
    using assms bound_entries_id [of m "[]" m]
    by (simp add: BoundMap_def Let_def map_fits_def gomap_ok_def)
qed

lemma BoundMap_idem [simp]: "BoundMap (BoundMap m) = BoundMap m"
  by (rule BoundMap_id [OF BoundMap_fits])

end
