(* ===== verification/Alert_Receiver.thy ===== *)
theory Alert_Receiver
  imports Alert_Text Go_Text
begin

text \<open>
  \<open>internal/alerting/receiver.go\<close>: the webhook endpoint and \<open>Record\<close>, which writes one alert to its
  \<open>FrameAlert\<close>, with the types of \<open>framealert_types.go\<close>.

  The \<open>FrameAlert\<close>s of the receiver's namespace are a list; \<open>alert_api\<close> says which calls on which object
  fail. A stored time has whole seconds, as \<open>metav1.Time\<close> has in JSON.
\<close>

section \<open>Data\<close>

definition AlertStateFiring :: string where "AlertStateFiring = ''Firing''"
definition AlertStateResolved :: string where "AlertStateResolved = ''Resolved''"

record alert_spec =
  as_fingerprint :: string
  as_alertName :: string
  as_severity :: string
  as_namespace :: string
  as_labels :: gomap
  as_annotations :: gomap
  as_startsAt :: instant
  as_endsAt :: "instant option"
  as_generatorURL :: string

record alert_delivery =
  ad_subscription :: string
  ad_deliveredState :: string
  ad_attempts :: int
  ad_lastError :: string
  ad_lastAttemptAt :: "instant option"
  ad_lastDeliveredAt :: "instant option"
  ad_permanentFailure :: bool
  ad_failedState :: string
  ad_subscriptionGeneration :: int
  ad_excluded :: bool

record frame_alert =
  fa_name :: string
  fa_creationTimestamp :: instant
  fa_spec :: alert_spec
  fa_state :: string
  fa_lastReceivedAt :: "instant option"
  fa_deliveries :: "alert_delivery list"

record alert_api =
  api_get :: "string \<Rightarrow> string option"
  api_create :: "string \<Rightarrow> string option"
  api_patch :: "string \<Rightarrow> string option"
  api_patchStatus :: "string \<Rightarrow> string option"

definition api_up :: alert_api where
  "api_up = \<lparr>api_get = \<lambda>_. None, api_create = \<lambda>_. None, api_patch = \<lambda>_. None, api_patchStatus = \<lambda>_. None\<rparr>"

definition find_alert :: "frame_alert list \<Rightarrow> string \<Rightarrow> frame_alert option" where
  "find_alert st n = List.find (\<lambda>fa. fa_name fa = n) st"

definition put_alert :: "frame_alert \<Rightarrow> frame_alert list \<Rightarrow> frame_alert list" where
  "put_alert fa st = map (\<lambda>x. if fa_name x = fa_name fa then fa else x) st"

section \<open>Recording\<close>

definition lastReceivedRefresh :: duration where
  "lastReceivedRefresh = 15 * minute"

definition recorded_state :: "alert \<Rightarrow> string" where
  "recorded_state a = (if al_status a = StatusResolved then AlertStateResolved else AlertStateFiring)"

definition recorded_spec :: "alert \<Rightarrow> alert_spec" where
  "recorded_spec a =
     \<lparr>as_fingerprint = al_fingerprint a,
      as_alertName = truncate_str (label_of (al_labels a) ''alertname'') 256,
      as_severity = truncate_str (label_of (al_labels a) ''severity'') 64,
      as_namespace = truncate_str (label_of (al_labels a) ''namespace'') 63,
      as_labels = BoundMap (al_labels a),
      as_annotations = BoundMap (al_annotations a),
      as_startsAt = trunc_second (al_startsAt a),
      as_endsAt = (if al_status a = StatusResolved then Some (trunc_second (al_endsAt a)) else None),
      as_generatorURL = truncate_str (al_generatorURL a) 2048\<rparr>"

text \<open>The merge patch holds \<open>state\<close> and \<open>lastReceivedAt\<close> only; the answer is the error, if any, and
  the stored alerts.\<close>

definition patchStatus ::
  "alert_api \<Rightarrow> frame_alert \<Rightarrow> string \<Rightarrow> instant \<Rightarrow> frame_alert list \<Rightarrow> string option \<times> frame_alert list" where
  "patchStatus api fa state now st =
     (case api_patchStatus api (fa_name fa) of
        Some e \<Rightarrow> (Some e, st)
      | None \<Rightarrow> (None, put_alert (fa\<lparr>fa_state := state, fa_lastReceivedAt := Some (trunc_second now)\<rparr>) st))"

definition Record ::
  "alert_api \<Rightarrow> instant \<Rightarrow> alert \<Rightarrow> frame_alert list \<Rightarrow> string option \<times> frame_alert list" where
  "Record api now a st =
     (let state = recorded_state a; spec = recorded_spec a; key = AlertObjectName (al_fingerprint a) in
      case api_get api key of
        Some e \<Rightarrow> (Some e, st)
      | None \<Rightarrow>
          (case find_alert st key of
             None \<Rightarrow>
               (case api_create api key of
                  Some e \<Rightarrow> (Some e, st)
                | None \<Rightarrow>
                    (let fa = \<lparr>fa_name = key, fa_creationTimestamp = trunc_second now, fa_spec = spec,
                               fa_state = '''', fa_lastReceivedAt = None, fa_deliveries = []\<rparr>
                     in patchStatus api fa state now (st @ [fa])))
           | Some fa \<Rightarrow>
               (let changed = fa_spec fa \<noteq> spec; fa' = fa\<lparr>fa_spec := spec\<rparr>;
                    stale = (case fa_lastReceivedAt fa of None \<Rightarrow> True | Some t \<Rightarrow> now - t \<ge> lastReceivedRefresh)
                in case (if changed then api_patch api key else None) of
                     Some e \<Rightarrow> (Some e, st)
                   | None \<Rightarrow>
                       (let st = (if changed then put_alert fa' st else st) in
                        if fa_state fa \<noteq> state \<or> stale then patchStatus api fa' state now st
                        else (None, st)))))"

section \<open>The endpoint\<close>

text \<open>A request: its path, method, \<open>Authorization\<close> header, and what reading the body gives (an error
  other than the size limit, or the bytes, of which the limit lets \<^const>\<open>MaxBodyBytes\<close> through).\<close>

record http_request =
  rq_path :: string
  rq_method :: string
  rq_authorization :: string
  rq_body :: "string option"

text \<open>What reading the token Secret gives: its \<open>token\<close> entry (empty when absent), or an error.\<close>

datatype secret_read = SecretNotFound | SecretError | SecretToken string

definition authorize :: "secret_read \<Rightarrow> http_request \<Rightarrow> nat" where
  "authorize secret req =
     (let got = (if has_prefix (rq_authorization req) ''Bearer '' then drop 7 (rq_authorization req) else '''')
      in if got = '''' then 401
         else case secret of
           SecretNotFound \<Rightarrow> 401
         | SecretError \<Rightarrow> 503
         | SecretToken want \<Rightarrow> if want = '''' \<or> got \<noteq> want then 401 else 0)"

fun record_all ::
  "alert_api \<Rightarrow> instant \<Rightarrow> alert list \<Rightarrow> frame_alert list \<Rightarrow> nat \<times> frame_alert list" where
  "record_all api now [] st = (200, st)"
| "record_all api now (a # as) st =
     (case Record api now a st of
        (Some _, st) \<Rightarrow> (503, st)
      | (None, st) \<Rightarrow> record_all api now as st)"

text \<open>\<open>unmarshal\<close> is \<open>json.Unmarshal\<close> into a \<open>Payload\<close>; \<^const>\<open>None\<close> is its error.\<close>

definition serve ::
  "(string \<Rightarrow> payload option) \<Rightarrow> alert_api \<Rightarrow> secret_read \<Rightarrow> instant \<Rightarrow> http_request
   \<Rightarrow> frame_alert list \<Rightarrow> nat \<times> frame_alert list" where
  "serve unmarshal api secret now req st =
     (if rq_path req \<noteq> ''/alertmanager'' \<or> rq_method req \<noteq> ''POST'' then (404, st)
      else
        (let code = authorize secret req in
         if code \<noteq> 0 then (code, st)
         else case rq_body req of
           None \<Rightarrow> (400, st)
         | Some body \<Rightarrow>
             if length body > MaxBodyBytes then (413, st)
             else case unmarshal body of
               None \<Rightarrow> (400, st)
             | Some p \<Rightarrow>
                 if Validate p \<noteq> None then (400, st) else record_all api now (p_alerts p) st))"

section \<open>The store\<close>

lemma find_alert_name: "find_alert st n = Some fa \<Longrightarrow> fa_name fa = n"
  by (auto simp: find_alert_def find_Some_iff)

lemma find_put_same:
  "find_alert st n \<noteq> None \<Longrightarrow> fa_name fa = n \<Longrightarrow> find_alert (put_alert fa st) n = Some fa"
  by (induction st) (auto simp: find_alert_def put_alert_def)

lemma find_put_other: "n \<noteq> fa_name fa \<Longrightarrow> find_alert (put_alert fa st) n = find_alert st n"
  by (induction st) (auto simp: find_alert_def put_alert_def)

lemma find_put: "find_alert (put_alert fa st) n =
    (if fa_name fa = n then map_option (\<lambda>_. fa) (find_alert st n) else find_alert st n)"
  by (induction st) (auto simp: find_alert_def put_alert_def)

lemma find_snoc: "find_alert (st @ [fa]) n =
    (case find_alert st n of Some x \<Rightarrow> Some x | None \<Rightarrow> if fa_name fa = n then Some fa else None)"
  by (induction st) (auto simp: find_alert_def)

lemma put_put: "fa_name fa = fa_name fb \<Longrightarrow> put_alert fa (put_alert fb st) = put_alert fa st"
  by (auto simp: put_alert_def)

text \<open>What a successful \<open>Record\<close> leaves under the alert's name.\<close>

definition records :: "alert \<Rightarrow> instant \<Rightarrow> frame_alert \<Rightarrow> bool" where
  "records a now fa \<longleftrightarrow> fa_spec fa = recorded_spec a \<and> fa_state fa = recorded_state a
     \<and> (\<exists>t. fa_lastReceivedAt fa = Some t \<and> now - t < lastReceivedRefresh)"

lemma Record_stores:
  assumes "Record api now a st = (None, st')"
  shows "\<exists>fa. find_alert st' (AlertObjectName (al_fingerprint a)) = Some fa \<and> records a now fa"
proof -
  let ?k = "AlertObjectName (al_fingerprint a)"
  have fresh: "now - trunc_second now < lastReceivedRefresh"
    using trunc_second_le(2) [of now] by (simp add: lastReceivedRefresh_def minute_def second_def)
  have get: "api_get api ?k = None" using assms by (auto simp: Record_def Let_def split: option.splits)
  show ?thesis
  proof (cases "find_alert st ?k")
    case None
    with assms get fresh show ?thesis
      by (auto simp: Record_def Let_def patchStatus_def records_def find_snoc find_put_same
          split: option.splits)
  next
    case (Some fa)
    let ?fa = "fa\<lparr>fa_spec := recorded_spec a\<rparr>"
    let ?st = "if fa_spec fa \<noteq> recorded_spec a then put_alert ?fa st else st"
    have name: "fa_name fa = ?k" by (rule find_alert_name [OF Some])
    have mid: "find_alert ?st ?k = Some ?fa"
    proof (cases "fa_spec fa = recorded_spec a")
      case True
      then have "?fa = fa" by (cases fa) simp
      then show ?thesis using True Some by simp
    next
      case False
      then show ?thesis using find_put_same [of st ?k ?fa] Some name by simp
    qed
    let ?stale = "case fa_lastReceivedAt fa of None \<Rightarrow> True | Some t \<Rightarrow> now - t \<ge> lastReceivedRefresh"
    show ?thesis
    proof (cases "fa_state fa \<noteq> recorded_state a \<or> ?stale")
      case True
      let ?fb = "?fa\<lparr>fa_state := recorded_state a, fa_lastReceivedAt := Some (trunc_second now)\<rparr>"
      have "st' = put_alert ?fb ?st"
        using assms get Some True unfolding Record_def Let_def by (auto simp: patchStatus_def split: option.splits if_splits)
      moreover have "find_alert (put_alert ?fb ?st) ?k = Some ?fb"
        using find_put_same [of ?st ?k ?fb] mid name by simp
      ultimately show ?thesis using fresh by (auto simp: records_def)
    next
      case False
      then have "st' = ?st"
        using assms get Some unfolding Record_def Let_def by (auto split: option.splits if_splits)
      with mid False show ?thesis by (auto simp: records_def split: option.splits)
    qed
  qed
qed

lemma Record_quiet:
  assumes "find_alert st (AlertObjectName (al_fingerprint a)) = Some fa" "records a t fa"
    and "\<And>r. fa_lastReceivedAt fa = Some r \<Longrightarrow> now - r < lastReceivedRefresh"
    and "api_get api (AlertObjectName (al_fingerprint a)) = None"
  shows "Record api now a st = (None, st)"
  using assms by (auto simp: Record_def Let_def records_def)

lemma Record_frame:
  assumes "n \<noteq> AlertObjectName (al_fingerprint a)"
  shows "find_alert (snd (Record api now a st)) n = find_alert st n"
proof -
  have put: "find_alert (put_alert fa st') n = find_alert st' n"
    if "fa_name fa = AlertObjectName (al_fingerprint a)" for fa st'
    using assms that by (intro find_put_other) simp
  have "find_alert (snd (patchStatus api fa s t st')) n = find_alert st' n"
    if "fa_name fa = AlertObjectName (al_fingerprint a)" for fa s t st'
    using put that by (simp add: patchStatus_def split: option.splits)
  then show ?thesis
    using assms put by (auto simp: Record_def Let_def find_snoc dest: find_alert_name split: option.splits)
qed

text \<open>\<open>Record\<close> never touches the relay's part of an alert, and a new alert has none.\<close>

lemma Record_deliveries:
  assumes "find_alert (snd (Record api now a st)) n = Some fb"
  shows "case find_alert st n of Some fa \<Rightarrow> fa_deliveries fb = fa_deliveries fa
    | None \<Rightarrow> fa_deliveries fb = []"
proof (cases "n = AlertObjectName (al_fingerprint a)")
  case False
  with assms show ?thesis by (simp add: Record_frame)
next
  case n: True
  have st: "fa_deliveries fb = fa_deliveries fc"
    if "find_alert (snd (patchStatus api fc' s t st')) n = Some fb" "find_alert st' n = Some fc"
      "fa_name fc' = n" "fa_deliveries fc' = fa_deliveries fc" for fc fc' s t st'
    using that by (auto simp: patchStatus_def find_put_same split: option.splits)
  show ?thesis
  proof (cases "find_alert st n")
    case None
    with assms n show ?thesis
      by (auto simp: Record_def Let_def patchStatus_def find_snoc find_put_same split: option.splits)
  next
    case (Some fa)
    let ?fa = "fa\<lparr>fa_spec := recorded_spec a\<rparr>"
    have name: "fa_name fa = n" by (rule find_alert_name [OF Some])
    then have put: "find_alert (put_alert ?fa st) n = Some ?fa" using Some by (simp add: find_put_same)
    have "fa_deliveries fb = fa_deliveries fa"
      using assms n Some put name st [where fc' = ?fa, OF _ Some] st [where fc' = ?fa, OF _ put]
      by (auto simp: Record_def Let_def split: option.splits if_splits)
    with Some show ?thesis by simp
  qed
qed

lemma record_all_stores:
  assumes "record_all api now as st = (200, st')" "distinct (map al_fingerprint as)" "a \<in> set as"
  shows "\<exists>fa. find_alert st' (AlertObjectName (al_fingerprint a)) = Some fa \<and> records a now fa"
  using assms
proof (induction as arbitrary: st)
  case (Cons b bs)
  obtain st1 where b: "Record api now b st = (None, st1)" "record_all api now bs st1 = (200, st')"
    using Cons.prems(1) by (auto split: prod.splits option.splits)
  have keep: "find_alert (snd (record_all api now cs s)) n = find_alert s n"
    if "n \<notin> AlertObjectName ` al_fingerprint ` set cs" for cs s n
    using that
  proof (induction cs arbitrary: s)
    case (Cons c cs)
    moreover have "find_alert (snd (Record api now c s)) n = find_alert s n"
      using Cons.prems by (intro Record_frame) auto
    ultimately show ?case by (auto split: prod.splits option.splits)
  qed simp
  show ?case
  proof (cases "a = b")
    case True
    have "AlertObjectName (al_fingerprint b) \<notin> AlertObjectName ` al_fingerprint ` set bs"
      using Cons.prems(2) by (auto simp: AlertObjectName_def)
    then show ?thesis using keep [of _ bs st1] Record_stores [OF b(1)] b(2) True by simp
  next
    case False
    then show ?thesis using Cons.IH [OF b(2)] Cons.prems by simp
  qed
qed simp

section \<open>Properties\<close>

text \<open>C15. Every string written to a \<open>FrameAlert\<close> is the longest valid UTF-8 prefix, within its byte
  bound, of the sanitised input: it is such a prefix and none is longer. The loop that backs off to a
  rune boundary ends after at most three rounds, each dropping one byte of a string that is not valid, and a
  valid string within the bound is kept.\<close>

theorem truncate_longest_valid:
  "valid_utf8 (truncate_str s n) \<and> length (truncate_str s n) \<le> n
   \<and> truncate_str s n = take (length (truncate_str s n)) (to_valid False s)
   \<and> (\<forall>k. k \<le> n \<and> k \<le> length (to_valid False s) \<and> valid_utf8 (take k (to_valid False s)) \<longrightarrow> k \<le> length (truncate_str s n))
   \<and> (\<exists>k \<le> 3. truncate_str s n = (butlast ^^ k) (take n (to_valid False s))
        \<and> (\<forall>j < k. \<not> valid_utf8 ((butlast ^^ j) (take n (to_valid False s)))))
   \<and> (valid_utf8 s \<and> length s \<le> n \<longrightarrow> truncate_str s n = s)"
  using truncate_str_spec [of s n] truncate_str_longest [of _ n s] truncate_str_rounds [of s n] truncate_str_id [of s n] by blast

text \<open>The four bytes of U+1F600 do not fit in six bytes after \<open>abcd\<close>: both are cut.\<close>

theorem truncate_longest_valid_witness:
  "truncate_str (''abcd'' @ [CHR 0xF0, CHR 0x9F, CHR 0x98, CHR 0x80]) 6 = ''abcd''
   \<and> truncate_str ''abcd'' 6 = ''abcd'' \<and> valid_utf8 ''abcd''"
proof -
  have "valid_utf8 ''abcd'' \<and> length ''abcd'' \<le> 6" by code_simp
  then have "truncate_str ''abcd'' 6 = ''abcd''" "valid_utf8 ''abcd''"
    using truncate_longest_valid [of "''abcd''" 6] by blast+
  moreover have "truncate_str (''abcd'' @ [CHR 0xF0, CHR 0x9F, CHR 0x98, CHR 0x80]) 6 = ''abcd''"
    by code_simp
  ultimately show ?thesis by blast
qed

text \<open>A successful \<open>Record\<close> leaves the alert's object with exactly the bounded spec and the state
  of the alert, within the schema's bounds, leaves every other object and every delivery record
  alone, and a resend within the refresh interval issues no write: it succeeds, with the stored
  alerts unchanged, even against an API server that refuses every write.\<close>

theorem Record_once:
  assumes "Record api now a st = (None, st')"
  shows "(\<exists>fa r. find_alert st' (AlertObjectName (al_fingerprint a)) = Some fa
      \<and> fa_spec fa = recorded_spec a \<and> fa_state fa = recorded_state a
      \<and> map_fits (as_labels (fa_spec fa)) \<and> map_fits (as_annotations (fa_spec fa))
      \<and> fa_lastReceivedAt fa = Some r \<and> now - r < lastReceivedRefresh
      \<and> (\<forall>api' now'. api_get api' (AlertObjectName (al_fingerprint a)) = None \<longrightarrow>
            now' - r < lastReceivedRefresh \<longrightarrow> Record api' now' a st' = (None, st')))
    \<and> (\<forall>n. n \<noteq> AlertObjectName (al_fingerprint a) \<longrightarrow> find_alert st' n = find_alert st n)
    \<and> (\<forall>n fa fb. find_alert st n = Some fa \<longrightarrow> find_alert st' n = Some fb \<longrightarrow> fa_deliveries fb = fa_deliveries fa)"
proof -
  obtain fa where fa: "find_alert st' (AlertObjectName (al_fingerprint a)) = Some fa" "records a now fa"
    using Record_stores [OF assms] by blast
  then obtain r where r: "fa_lastReceivedAt fa = Some r" "now - r < lastReceivedRefresh"
    by (auto simp: records_def)
  have "Record api' now' a st' = (None, st')"
    if "api_get api' (AlertObjectName (al_fingerprint a)) = None" "now' - r < lastReceivedRefresh" for api' now'
    using Record_quiet [OF fa] that r(1) by simp
  moreover have "find_alert st' n = find_alert st n" if "n \<noteq> AlertObjectName (al_fingerprint a)" for n
    using Record_frame [OF that, of api now st] assms by simp
  moreover have "fa_deliveries fb = fa_deliveries fa" if "find_alert st n = Some fa" "find_alert st' n = Some fb" for n fa fb
    using Record_deliveries [of api now a st n fb] assms that by simp
  moreover have "map_fits (as_labels (fa_spec fa))" "map_fits (as_annotations (fa_spec fa))"
    using fa(2) BoundMap_fits by (simp_all add: records_def recorded_spec_def)
  ultimately show ?thesis using fa r by (auto simp: records_def)
qed

definition w_alert :: alert where
  "w_alert = \<lparr>al_status = ''firing'', al_labels = [(''alertname'', ''Down''), (''severity'', ''critical'')],
     al_annotations = [], al_startsAt = 1500000000, al_endsAt = 0, al_generatorURL = '''', al_fingerprint = ''0a''\<rparr>"

theorem Record_once_witness:
  "find_alert (snd (Record api_up 5000000000 w_alert [])) ''fa-0a'' \<noteq> None
   \<and> Record api_up 6000000000 w_alert (snd (Record api_up 5000000000 w_alert []))
     = (None, snd (Record api_up 5000000000 w_alert []))"
proof -
  have ok: "Record api_up 5000000000 w_alert [] = (None, snd (Record api_up 5000000000 w_alert []))"
    by (simp add: Record_def api_up_def find_alert_def patchStatus_def Let_def)
  have n: "AlertObjectName (al_fingerprint w_alert) = ''fa-0a''" by (simp add: w_alert_def AlertObjectName_def)
  have r: "map_option fa_lastReceivedAt (find_alert (snd (Record api_up 5000000000 w_alert [])) ''fa-0a'') = Some (Some 5000000000)"
    by code_simp
  have time: "(6000000000::int) - 5000000000 < lastReceivedRefresh" by code_simp
  from Record_once [OF ok] r
  have "\<forall>api' now'. api_get api' ''fa-0a'' = None \<longrightarrow> now' - 5000000000 < lastReceivedRefresh \<longrightarrow>
      Record api' now' w_alert (snd (Record api_up 5000000000 w_alert [])) = (None, snd (Record api_up 5000000000 w_alert []))"
    unfolding n by auto
  moreover have "api_get api_up ''fa-0a'' = None" by (simp add: api_up_def)
  ultimately show ?thesis using r time by auto
qed

text \<open>C16. The endpoint writes only for a request that presents the configured token, that is not
  empty, on the right path and method, with a body within the size limit that decodes to a valid
  payload. When it answers 200, every alert of the payload is stored (when their fingerprints
  differ). With the token Secret absent the answer is 401 (404 off the path); only a failed read of
  the Secret may also give 503.\<close>

theorem serve_authorised:
  assumes "serve unmarshal api secret now req st = (code, st')"
  shows "(st' \<noteq> st \<longrightarrow>
      (\<exists>tok body p. secret = SecretToken tok \<and> tok \<noteq> '''' \<and> rq_authorization req = ''Bearer '' @ tok
        \<and> rq_path req = ''/alertmanager'' \<and> rq_method req = ''POST''
        \<and> rq_body req = Some body \<and> length body \<le> MaxBodyBytes \<and> unmarshal body = Some p \<and> Validate p = None))
    \<and> (code = 200 \<longrightarrow>
      (\<exists>body p. rq_body req = Some body \<and> unmarshal body = Some p \<and> Validate p = None
        \<and> (distinct (map al_fingerprint (p_alerts p)) \<longrightarrow>
            (\<forall>a \<in> set (p_alerts p). \<exists>fa. find_alert st' (AlertObjectName (al_fingerprint a)) = Some fa
              \<and> fa_spec fa = recorded_spec a \<and> fa_state fa = recorded_state a))))
    \<and> (secret = SecretError \<longrightarrow> code \<in> {401, 404, 503})
    \<and> (secret = SecretNotFound \<longrightarrow> code \<in> {401, 404})"
proof -
  have auth: "\<exists>tok. secret = SecretToken tok \<and> tok \<noteq> '''' \<and> rq_authorization req = ''Bearer '' @ tok"
    if "authorize secret req = 0"
  proof -
    have "length ''Bearer '' = (7::nat)" by simp
    with has_prefixD [of "rq_authorization req" "''Bearer ''"]
    have "has_prefix (rq_authorization req) ''Bearer '' \<Longrightarrow> rq_authorization req = ''Bearer '' @ drop 7 (rq_authorization req)"
      by metis
    then show ?thesis
      using that unfolding authorize_def Let_def by (auto simp del: append.simps split: if_splits secret_read.splits)
  qed
  show ?thesis
  proof (cases "rq_path req = ''/alertmanager'' \<and> rq_method req = ''POST'' \<and> authorize secret req = 0
      \<and> (\<exists>body p. rq_body req = Some body \<and> length body \<le> MaxBodyBytes \<and> unmarshal body = Some p \<and> Validate p = None)")
    case True
    then obtain body p where b: "rq_body req = Some body" "length body \<le> MaxBodyBytes"
        "unmarshal body = Some p" "Validate p = None" by blast
    have rec: "record_all api now (p_alerts p) st = (code, st')"
      using assms True b by (simp add: serve_def)
    have "\<exists>fa. find_alert st' (AlertObjectName (al_fingerprint a)) = Some fa
        \<and> fa_spec fa = recorded_spec a \<and> fa_state fa = recorded_state a"
      if "code = 200" "distinct (map al_fingerprint (p_alerts p))" "a \<in> set (p_alerts p)" for a
      using record_all_stores [OF rec [unfolded that(1)] that(2,3)] by (auto simp: records_def)
    moreover obtain tok where "secret = SecretToken tok" "tok \<noteq> ''''" "rq_authorization req = ''Bearer '' @ tok"
      using auth [OF True [THEN conjunct2, THEN conjunct2, THEN conjunct1]] by (elim exE conjE)
    ultimately show ?thesis using True b by auto
  next
    case False
    then have "st' = st \<and> code \<noteq> 200 \<and> (secret = SecretError \<longrightarrow> code \<in> {401, 404, 503})
        \<and> (secret = SecretNotFound \<longrightarrow> code \<in> {401, 404})"
      using assms by (auto simp: serve_def authorize_def Let_def split: if_splits option.splits secret_read.splits)
    then show ?thesis by auto
  qed
qed

definition w_payload :: payload where
  "w_payload = \<lparr>p_version = ''4'', p_status = ''firing'', p_receiver = ''frame'', p_alerts = [w_alert]\<rparr>"

theorem serve_authorised_witness:
  "serve (\<lambda>b. if b = ''body'' then Some w_payload else None) api_up (SecretToken ''s3'') 5000000000
     \<lparr>rq_path = ''/alertmanager'', rq_method = ''POST'', rq_authorization = ''Bearer s3'', rq_body = Some ''body''\<rparr> []
   = (200, snd (Record api_up 5000000000 w_alert []))
   \<and> (\<exists>fa. find_alert (snd (Record api_up 5000000000 w_alert [])) ''fa-0a'' = Some fa \<and> fa_state fa = ''Firing'')"
proof -
  let ?req = "\<lparr>rq_path = ''/alertmanager'', rq_method = ''POST'', rq_authorization = ''Bearer s3'', rq_body = Some ''body''\<rparr>"
  let ?un = "\<lambda>b. if b = ''body'' then Some w_payload else None"
  have "Validate w_payload = None" by code_simp
  moreover have "record_all api_up 5000000000 (p_alerts w_payload) [] = (200, snd (Record api_up 5000000000 w_alert []))"
    by code_simp
  ultimately have s: "serve ?un api_up (SecretToken ''s3'') 5000000000 ?req [] = (200, snd (Record api_up 5000000000 w_alert []))"
    by (simp add: serve_def authorize_def has_prefix_def MaxBodyBytes_def)
  from serve_authorised [OF s]
  have "\<exists>fa. find_alert (snd (Record api_up 5000000000 w_alert [])) (AlertObjectName (al_fingerprint w_alert)) = Some fa
      \<and> fa_state fa = recorded_state w_alert"
    by (auto simp: w_payload_def split: if_splits)
  moreover have "AlertObjectName (al_fingerprint w_alert) = ''fa-0a''" "recorded_state w_alert = ''Firing''" by code_simp+
  ultimately show ?thesis using s by simp
qed

end
