(* ===== verification/Alert_Relay.thy ===== *)
theory Alert_Relay
  imports Alert_Receiver
begin

text \<open>
  \<open>internal/alerting/relay_controller.go\<close>, \<open>sender.go\<close> and \<open>filter.go\<close>: the delivery of an alert's state
  to the subscriptions, with the types of \<open>framealertsubscription_types.go\<close>. The pass is a function of
  the alert it read and of its environment (the subscriptions it listed, the Secrets, the tenants'
  answers); besides the new delivery records it gives the notifications it sent, in order.
\<close>

section \<open>Data\<close>

record alert_filter =
  fl_excludeAlertNames :: "string list"
  fl_severities :: "string list"
  fl_namespaces :: "string list"

record subscription =
  sub_name :: string
  sub_namespace :: string
  sub_generation :: int
  sub_creationTimestamp :: instant
  sub_url :: string
  sub_tokenSecretName :: string
  sub_tokenSecretKey :: string
  sub_filter :: alert_filter
  sub_paused :: bool

text \<open>\<open>Matches\<close>.\<close>

definition Matches :: "alert_filter \<Rightarrow> frame_alert \<Rightarrow> bool" where
  "Matches f a =
     (if as_alertName (fa_spec a) \<in> set (fl_excludeAlertNames f) then False
      else if length (fl_severities f) > 0 \<and> as_severity (fa_spec a) \<notin> set (fl_severities f) then False
      else if length (fl_namespaces f) > 0 \<and> as_namespace (fa_spec a) \<notin> set (fl_namespaces f) then False
      else True)"

section \<open>The sender\<close>

datatype outcome = Delivered | Retry | Permanent

text \<open>What posting a body gives: it could not be built or addressed, the request failed, or a status.\<close>

datatype answer = Unsendable string | Failed string | Status nat

definition http_error :: "nat \<Rightarrow> string" where
  "http_error c = ''HTTP '' @ nat_str c"

text \<open>The zero \<open>time.Time\<close> is the instant 0.\<close>

definition buildPayload :: "string \<Rightarrow> frame_alert \<Rightarrow> string \<Rightarrow> payload" where
  "buildPayload receiver a state =
     (let status = (if state = AlertStateResolved then StatusResolved else StatusFiring);
          endsAt = (if state = AlertStateResolved
                    then (case as_endsAt (fa_spec a) of Some t \<Rightarrow> t | None \<Rightarrow> 0) else 0)
      in \<lparr>p_version = ''4'', p_status = status, p_receiver = receiver,
          p_alerts = [\<lparr>al_status = status, al_labels = as_labels (fa_spec a),
            al_annotations = as_annotations (fa_spec a), al_startsAt = as_startsAt (fa_spec a),
            al_endsAt = endsAt, al_generatorURL = as_generatorURL (fa_spec a),
            al_fingerprint = as_fingerprint (fa_spec a)\<rparr>]\<rparr>)"

definition outcome_of :: "answer \<Rightarrow> outcome \<times> string option" where
  "outcome_of ans =
     (case ans of
        Unsendable e \<Rightarrow> (Permanent, Some e)
      | Failed e \<Rightarrow> (Retry, Some e)
      | Status c \<Rightarrow>
          if c \<ge> 200 \<and> c < 300 then (Delivered, None)
          else if c \<ge> 500 \<or> c = 408 \<or> c = 429 then (Retry, Some (http_error c))
          else (Permanent, Some (http_error c)))"

text \<open>One notification: to whom, where, under which token, which state, and what came of it.\<close>

record notification =
  nt_sub :: string
  nt_url :: string
  nt_token :: string
  nt_state :: string
  nt_outcome :: outcome

datatype secret_get = GetFailed string | GotSecret "string \<rightharpoonup> string" "string \<rightharpoonup> string"

record relay_env =
  re_subs :: "subscription list"
  re_listError :: bool
  re_secret :: "string \<Rightarrow> string \<Rightarrow> secret_get"
  re_notFound :: "string \<Rightarrow> string"
  re_post :: "string \<Rightarrow> string \<Rightarrow> payload \<Rightarrow> answer"
  re_now :: instant
  re_retention :: duration

definition Send ::
  "relay_env \<Rightarrow> string \<Rightarrow> string \<Rightarrow> string \<Rightarrow> frame_alert \<Rightarrow> string \<Rightarrow> outcome \<times> string option" where
  "Send env url token receiver a state = outcome_of (re_post env url token (buildPayload receiver a state))"

text \<open>The doubling loop; \<open>d\<close> starts at 5 s and the loop runs \<open>attempts - 1\<close> times at most.\<close>

fun double_until :: "duration \<Rightarrow> nat \<Rightarrow> duration" where
  "double_until d 0 = d"
| "double_until d (Suc n) = (if d < 10 * minute then double_until (d * 2) n else d)"

definition Backoff :: "int \<Rightarrow> duration" where
  "Backoff attempts =
     (if attempts < 1 then 0 else min (double_until (5 * second) (nat (attempts - 1))) (10 * minute))"

section \<open>Delivery\<close>

definition AlertTokenLabel :: string where
  "AlertTokenLabel = ''frame.plume-labs.io/alert-token''"

datatype token_error = Unlabelled string | TokenUnread string

definition token_error_text :: "token_error \<Rightarrow> string" where
  "token_error_text e =
     (case e of
        Unlabelled secret \<Rightarrow> ''token Secret '' @ secret @ '' is not labelled '' @ AlertTokenLabel @ ''=true''
      | TokenUnread msg \<Rightarrow> msg)"

definition token :: "relay_env \<Rightarrow> subscription \<Rightarrow> token_error + string" where
  "token env sub =
     (case re_secret env (sub_namespace sub) (sub_tokenSecretName sub) of
        GetFailed e \<Rightarrow> Inl (TokenUnread e)
      | GotSecret labels data \<Rightarrow>
          if labels AlertTokenLabel \<noteq> Some ''true'' then Inl (Unlabelled (sub_tokenSecretName sub))
          else (case data (sub_tokenSecretKey sub) of
                  Some v \<Rightarrow> if v = '''' then Inl (TokenUnread (re_notFound env (sub_tokenSecretName sub @ ''/'' @ sub_tokenSecretKey sub)))
                            else Inr v
                | None \<Rightarrow> Inl (TokenUnread (re_notFound env (sub_tokenSecretName sub @ ''/'' @ sub_tokenSecretKey sub)))))"

definition fail :: "outcome \<Rightarrow> string option \<Rightarrow> string \<Rightarrow> instant \<Rightarrow> alert_delivery \<Rightarrow> alert_delivery \<times> duration" where
  "fail out err state now d =
     (let d = d\<lparr>ad_lastAttemptAt := Some (trunc_second now)\<rparr>;
          d = (case err of Some e \<Rightarrow> d\<lparr>ad_lastError := truncate_str e 1024\<rparr> | None \<Rightarrow> d)
      in if out = Permanent then (d\<lparr>ad_permanentFailure := True, ad_failedState := state\<rparr>, 0)
         else (let d = d\<lparr>ad_attempts := wrap32 (ad_attempts d + 1)\<rparr> in (d, Backoff (ad_attempts d))))"

definition delivered :: "string \<Rightarrow> instant \<Rightarrow> alert_delivery \<Rightarrow> alert_delivery" where
  "delivered st now d =
     d\<lparr>ad_deliveredState := st, ad_attempts := 0, ad_lastError := '''',
       ad_lastAttemptAt := Some (trunc_second now), ad_lastDeliveredAt := Some (trunc_second now),
       ad_excluded := False\<rparr>"

text \<open>The loop over \<open>sequence\<close>: the record, how long to wait, and what was sent.\<close>

fun send_sequence ::
  "relay_env \<Rightarrow> subscription \<Rightarrow> string \<Rightarrow> frame_alert \<Rightarrow> string \<Rightarrow> string list \<Rightarrow> alert_delivery
   \<Rightarrow> alert_delivery \<times> duration \<times> notification list" where
  "send_sequence env sub tok fa state [] d = (d, 0, [])"
| "send_sequence env sub tok fa state (st # sts) d =
     (if ad_deliveredState d = st then send_sequence env sub tok fa state sts d
      else
        (let (out, err) = Send env (sub_url sub) tok (sub_name sub) fa st;
             n = \<lparr>nt_sub = sub_name sub, nt_url = sub_url sub, nt_token = tok, nt_state = st, nt_outcome = out\<rparr>
         in if out \<noteq> Delivered then (let (d, w) = fail out err state (re_now env) d in (d, w, [n]))
            else (let (d, w, ns) = send_sequence env sub tok fa state sts (delivered st (re_now env) d)
                  in (d, w, n # ns))))"

definition due_wait :: "alert_delivery \<Rightarrow> instant \<Rightarrow> duration" where
  "due_wait d now =
     (case ad_lastAttemptAt d of
        None \<Rightarrow> 0
      | Some t \<Rightarrow>
          (let due = t + Backoff (ad_attempts d) in if ad_attempts d > 0 \<and> now < due then due - now else 0))"

definition deliver ::
  "relay_env \<Rightarrow> subscription \<Rightarrow> frame_alert \<Rightarrow> string \<Rightarrow> alert_delivery
   \<Rightarrow> alert_delivery \<times> duration \<times> notification list" where
  "deliver env sub fa state d =
     (if sub_paused sub \<or> ad_permanentFailure d \<or> ad_deliveredState d = state then (d, 0, [])
      else if due_wait d (re_now env) > 0 then (d, due_wait d (re_now env), [])
      else case token env sub of
        Inl e \<Rightarrow>
          (let (d, w) = fail (case e of Unlabelled _ \<Rightarrow> Permanent | TokenUnread _ \<Rightarrow> Retry)
                          (Some (token_error_text e)) state (re_now env) d in (d, w, []))
      | Inr tok \<Rightarrow>
          send_sequence env sub tok fa state
            (if ad_deliveredState d = '''' \<and> state = AlertStateResolved
             then [AlertStateFiring, state] else [state]) d)"

section \<open>The pass\<close>

definition empty_delivery :: "string \<Rightarrow> alert_delivery" where
  "empty_delivery n = \<lparr>ad_subscription = n, ad_deliveredState = '''', ad_attempts = 0, ad_lastError = '''',
     ad_lastAttemptAt = None, ad_lastDeliveredAt = None, ad_permanentFailure = False, ad_failedState = '''',
     ad_subscriptionGeneration = 0, ad_excluded = False\<rparr>"

text \<open>\<open>d\<close> is the existing record, if any; \<^const>\<open>None\<close> in the result means no entry.\<close>

definition unmatchedDelivery :: "string \<Rightarrow> alert_delivery option \<Rightarrow> string \<Rightarrow> alert_delivery option" where
  "unmatchedDelivery sub d state =
     (if state \<noteq> AlertStateResolved then None
      else case d of
        Some r \<Rightarrow>
          if ad_excluded r then Some r
          else if ad_deliveredState r = state then Some r
          else Some ((empty_delivery sub)\<lparr>ad_excluded := True, ad_deliveredState := state\<rparr>)
      | None \<Rightarrow> Some ((empty_delivery sub)\<lparr>ad_excluded := True, ad_deliveredState := state\<rparr>))"

text \<open>The map \<open>existing\<close>: the last record of a subscription wins.\<close>

definition existing :: "alert_delivery list \<Rightarrow> string \<rightharpoonup> alert_delivery" where
  "existing ds n = List.find (\<lambda>d. ad_subscription d = n) (rev ds)"

definition keepDriving :: "alert_delivery option \<Rightarrow> bool" where
  "keepDriving d = (case d of None \<Rightarrow> False | Some r \<Rightarrow> ad_deliveredState r = AlertStateFiring \<and> \<not> ad_excluded r)"

text \<open>The two resets before a delivery: a new generation and a new state both lift a permanent failure.\<close>

definition refreshed :: "subscription \<Rightarrow> string \<Rightarrow> alert_delivery \<Rightarrow> alert_delivery" where
  "refreshed sub state d =
     (let d = (if ad_subscriptionGeneration d \<noteq> sub_generation sub
               then d\<lparr>ad_subscriptionGeneration := sub_generation sub, ad_permanentFailure := False, ad_failedState := ''''\<rparr>
               else d)
      in if ad_permanentFailure d \<and> ad_failedState d \<noteq> state
         then d\<lparr>ad_permanentFailure := False, ad_failedState := ''''\<rparr> else d)"

definition relay_sub ::
  "relay_env \<Rightarrow> frame_alert \<Rightarrow> subscription \<Rightarrow> alert_delivery option \<times> duration \<times> notification list" where
  "relay_sub env fa sub =
     (let state = fa_state fa; old = existing (fa_deliveries fa) (sub_name sub) in
      if \<not> Matches (sub_filter sub) fa \<and> \<not> keepDriving old then (unmatchedDelivery (sub_name sub) old state, 0, [])
      else
        (let d = refreshed sub state (case old of Some r \<Rightarrow> r | None \<Rightarrow> empty_delivery (sub_name sub)) in
         if old = None \<and> state = AlertStateResolved \<and> sub_creationTimestamp sub > fa_creationTimestamp fa
         then (Some (d\<lparr>ad_deliveredState := state\<rparr>), 0, [])
         else (let (d, w, ns) = deliver env sub fa state d in (Some d, w, ns))))"

text \<open>The loop over the subscriptions: the entries, the shortest wait, the notifications.\<close>

fun relay_subs ::
  "relay_env \<Rightarrow> frame_alert \<Rightarrow> subscription list \<Rightarrow> duration
   \<Rightarrow> alert_delivery list \<times> duration \<times> notification list" where
  "relay_subs env fa [] requeue = ([], requeue, [])"
| "relay_subs env fa (sub # subs) requeue =
     (let (d, wait, ns) = relay_sub env fa sub;
          requeue = (if wait > 0 \<and> (requeue = 0 \<or> wait < requeue) then wait else requeue);
          (ds, requeue, ns') = relay_subs env fa subs requeue
      in ((case d of None \<Rightarrow> ds | Some d \<Rightarrow> d # ds), requeue, ns @ ns'))"

definition relay_pass :: "relay_env \<Rightarrow> frame_alert \<Rightarrow> alert_delivery list \<times> duration \<times> notification list" where
  "relay_pass env fa =
     (let (ds, requeue, ns) = relay_subs env fa (re_subs env) 0 in (sort_key ad_subscription ds, requeue, ns))"

definition allDelivered :: "alert_delivery list \<Rightarrow> string \<Rightarrow> bool" where
  "allDelivered ds state = list_all (\<lambda>d. ad_deliveredState d = state) ds"

text \<open>
  The end of the pass. \<open>stored\<close> is the object on the server when the pass writes: the status patch
  replaces its deliveries, and the answer is the object the purge decision looks at. A delete whose
  resource version no longer matches is a conflict. The result is the stored object (\<^const>\<open>None\<close> once
  purged), the wait before the next pass, and whether the pass failed.
\<close>

datatype delete_answer = DeleteOK | DeleteConflict | DeleteError

record relay_write =
  rw_patchFails :: bool
  rw_delete :: delete_answer

definition relay_finish ::
  "relay_env \<Rightarrow> relay_write \<Rightarrow> frame_alert \<Rightarrow> alert_delivery list \<Rightarrow> duration \<Rightarrow> frame_alert
   \<Rightarrow> frame_alert option \<times> duration \<times> bool" where
  "relay_finish env rw fa nexts requeue stored =
     (let changed = nexts \<noteq> fa_deliveries fa in
      if changed \<and> rw_patchFails rw then (Some stored, 0, True)
      else
        (let stored = (if changed then stored\<lparr>fa_deliveries := nexts\<rparr> else stored);
             read = (if changed then stored else fa)
         in case as_endsAt (fa_spec read) of
              None \<Rightarrow> (Some stored, requeue, False)
            | Some ends \<Rightarrow>
                if fa_state fa = AlertStateResolved \<and> allDelivered nexts (fa_state fa) then
                  (let purgeAt = ends + re_retention env in
                   if \<not> re_now env < purgeAt then
                     (case rw_delete rw of
                        DeleteOK \<Rightarrow> (None, 0, False)
                      | DeleteConflict \<Rightarrow> (Some stored, second, False)
                      | DeleteError \<Rightarrow> (Some stored, 0, True))
                   else
                     (let wait = purgeAt - re_now env
                      in (Some stored, (if requeue = 0 \<or> wait < requeue then wait else requeue), False)))
                else (Some stored, requeue, False)))"

text \<open>\<open>fa\<close> is the alert as the pass read it.\<close>

definition relay_Reconcile ::
  "relay_env \<Rightarrow> relay_write \<Rightarrow> frame_alert \<Rightarrow> frame_alert
   \<Rightarrow> frame_alert option \<times> duration \<times> bool \<times> notification list" where
  "relay_Reconcile env rw fa stored =
     (if fa_state fa = '''' then (Some stored, 0, False, [])
      else if re_listError env then (Some stored, 0, True, [])
      else
        (let (nexts, requeue, ns) = relay_pass env fa;
             (stored, requeue, failed) = relay_finish env rw fa nexts requeue stored
         in (stored, requeue, failed, ns)))"

end
