(* ===== verification/Relay_Safety.thy ===== *)
theory Relay_Safety
  imports Alert_Relay
begin

text \<open>
  What the relay sends: the cases of one delivery, and the machine in which receivers write alerts and
  passes deliver them, in any order. In the machine a pass may have read an older version of the
  delivery records (a cache) and its status write may fail; \<open>sync\<close> excludes both.
\<close>

section \<open>Backoff\<close>

lemma double_until_min: "0 < d \<Longrightarrow> min (double_until d n) (10 * minute) = min (d * 2 ^ n) (10 * minute)"
proof (induction n arbitrary: d)
  case (Suc n)
  show ?case
  proof (cases "d < 10 * minute")
    case True
    then show ?thesis using Suc.IH [of "d * 2"] Suc.prems by (simp add: mult.assoc)
  next
    case False
    have "d * 1 \<le> d * 2 ^ Suc n" 
      by (rule mult_left_mono [OF one_le_power]) (use Suc.prems in simp_all)
    with False show ?thesis by simp
  qed
qed simp

section \<open>One delivery\<close>

definition delivered_states :: "notification list \<Rightarrow> string list" where
  "delivered_states ns = map nt_state (filter (\<lambda>n. nt_outcome n = Delivered) ns)"

lemma delivered_states_simps [simp]:
  "delivered_states [] = []" "delivered_states (ns @ ms) = delivered_states ns @ delivered_states ms"
  "delivered_states (n # ns) = (if nt_outcome n = Delivered then nt_state n # delivered_states ns else delivered_states ns)"
  by (simp_all add: delivered_states_def)

lemma alert_states [simp]: "AlertStateFiring \<noteq> AlertStateResolved" "AlertStateResolved \<noteq> AlertStateFiring"
    "AlertStateFiring \<noteq> []" "AlertStateResolved \<noteq> []" "[] \<noteq> AlertStateFiring" "[] \<noteq> AlertStateResolved"
  by (simp_all add: AlertStateFiring_def AlertStateResolved_def)

lemma fail_keeps:
  assumes "fail out err state now d = (d', w)"
  shows "ad_subscription d' = ad_subscription d" "ad_deliveredState d' = ad_deliveredState d"
    "ad_excluded d' = ad_excluded d"
  using assms by (auto simp: fail_def Let_def split: option.splits if_splits)

lemma delivered_simps [simp]:
  "ad_subscription (delivered st t d) = ad_subscription d" "ad_deliveredState (delivered st t d) = st"
  "\<not> ad_excluded (delivered st t d)" "ad_permanentFailure (delivered st t d) = ad_permanentFailure d"
  by (simp_all add: delivered_def)

lemma refreshed_simps [simp]:
  "ad_subscription (refreshed sub st d) = ad_subscription d"
  "ad_deliveredState (refreshed sub st d) = ad_deliveredState d" "ad_excluded (refreshed sub st d) = ad_excluded d"
  by (simp_all add: refreshed_def Let_def)

definition addressed :: "relay_env \<Rightarrow> subscription \<Rightarrow> notification \<Rightarrow> bool" where
  "addressed env sub n \<longleftrightarrow> nt_sub n = sub_name sub \<and> nt_url n = sub_url sub \<and> token env sub = Inr (nt_token n)"

text \<open>The state a subscription is in after a delivery, from what was delivered.\<close>

definition advances :: "alert_delivery \<Rightarrow> string list \<Rightarrow> alert_delivery \<Rightarrow> bool" where
  "advances d sts d' \<longleftrightarrow> ad_subscription d' = ad_subscription d
     \<and> (if sts = [] then ad_deliveredState d' = ad_deliveredState d \<and> ad_excluded d' = ad_excluded d
        else ad_deliveredState d' = last sts \<and> \<not> ad_excluded d')"

lemma send_one:
  assumes "send_sequence env sub tok fa state [st] d = (d', w, ns)" "ad_deliveredState d \<noteq> st"
  shows "advances d (delivered_states ns) d' \<and> delivered_states ns \<in> {[], [st]}
    \<and> (\<forall>n \<in> set ns. nt_sub n = sub_name sub \<and> nt_url n = sub_url sub \<and> nt_token n = tok \<and> nt_state n = st)"
  using assms by (auto simp: Let_def advances_def dest: fail_keeps split: prod.splits if_splits)

lemma send_two:
  assumes "send_sequence env sub tok fa state [st, st'] d = (d', w, ns)" "ad_deliveredState d \<notin> {st, st'}" "st \<noteq> st'"
  shows "advances d (delivered_states ns) d' \<and> delivered_states ns \<in> {[], [st], [st, st']}
    \<and> (\<forall>n \<in> set ns. nt_sub n = sub_name sub \<and> nt_url n = sub_url sub \<and> nt_token n = tok \<and> nt_state n \<in> {st, st'})"
proof -
  obtain out err where S: "Send env (sub_url sub) tok (sub_name sub) fa st = (out, err)" by fastforce
  show ?thesis
  proof (cases "out = Delivered")
    case False
    then show ?thesis using assms S by (auto simp: Let_def advances_def dest: fail_keeps split: prod.splits)
  next
    case True
    obtain ns' where rest: "send_sequence env sub tok fa state [st'] (delivered st (re_now env) d) = (d', w, ns')"
      and ns: "ns = \<lparr>nt_sub = sub_name sub, nt_url = sub_url sub, nt_token = tok, nt_state = st, nt_outcome = Delivered\<rparr> # ns'"
      using assms True S by (auto simp: Let_def simp del: send_sequence.simps simp add: send_sequence.simps(2) [of _ _ _ _ _ st] split: prod.splits)
    have "ad_deliveredState (delivered st (re_now env) d) \<noteq> st'" using assms(3) by simp
    from send_one [OF rest this] show ?thesis unfolding ns by (auto simp: advances_def)
  qed
qed

lemma deliver_cases:
  assumes "deliver env sub fa state d = (d', w, ns)" "state \<in> {AlertStateFiring, AlertStateResolved}"
  shows "advances d (delivered_states ns) d'
    \<and> delivered_states ns \<in> (if ad_deliveredState d = state then {[]}
        else if ad_deliveredState d = '''' \<and> state = AlertStateResolved
        then {[], [AlertStateFiring], [AlertStateFiring, AlertStateResolved]} else {[], [state]})
    \<and> (\<forall>n \<in> set ns. addressed env sub n \<and> (nt_state n = state \<or> state = AlertStateResolved \<and> ad_deliveredState d = ''''))
    \<and> (ns \<noteq> [] \<longrightarrow> ad_deliveredState d \<noteq> state)"
proof (cases "sub_paused sub \<or> ad_permanentFailure d \<or> ad_deliveredState d = state \<or> due_wait d (re_now env) > 0
    \<or> (\<exists>e. token env sub = Inl e)")
  case True
  then show ?thesis using assms
    by (auto simp: deliver_def advances_def dest: fail_keeps split: if_splits prod.splits)
next
  case False
  then obtain tok where tok: "token env sub = Inr tok" by (cases "token env sub") auto
  have d: "ad_deliveredState d \<noteq> state" using False by blast
  show ?thesis
  proof (cases "ad_deliveredState d = '''' \<and> state = AlertStateResolved")
    case True
    then have "send_sequence env sub tok fa state [AlertStateFiring, AlertStateResolved] d = (d', w, ns)"
      using assms(1) False tok by (simp add: deliver_def)
    from send_two [OF this] True show ?thesis using tok by (auto simp: addressed_def)
  next
    case no: False
    then have "send_sequence env sub tok fa state [state] d = (d', w, ns)"
      using assms(1) False tok by (auto simp: deliver_def simp del: send_sequence.simps)
    from send_one [OF this d] no d show ?thesis using tok by (auto simp: addressed_def)
  qed
qed

section \<open>One subscription in a pass\<close>

text \<open>What a record may say.\<close>

definition record_ok :: "alert_delivery \<Rightarrow> bool" where
  "record_ok d \<longleftrightarrow> ad_deliveredState d \<in> {'''', AlertStateFiring, AlertStateResolved}
     \<and> (ad_excluded d \<longrightarrow> ad_deliveredState d = AlertStateResolved)"

definition recorded_firing :: "alert_delivery option \<Rightarrow> bool" where
  "recorded_firing d = (case d of None \<Rightarrow> False | Some r \<Rightarrow> ad_deliveredState r = AlertStateFiring)"

text \<open>The notifications a subscription received alternate, starting with a firing one.\<close>

definition alternates :: "string list \<Rightarrow> bool" where
  "alternates T \<longleftrightarrow> (\<forall>i < length T. T ! i = (if even i then AlertStateFiring else AlertStateResolved))"

lemma alternates_Nil [simp]: "alternates []"
  by (simp add: alternates_def)

lemma alternates_snoc [simp]:
  "alternates (T @ [s]) \<longleftrightarrow> alternates T \<and> s = (if even (length T) then AlertStateFiring else AlertStateResolved)"
  by (auto simp: alternates_def nth_append less_Suc_eq)

lemma existing_name: "existing ds n = Some d \<Longrightarrow> ad_subscription d = n"
  by (auto simp: existing_def find_Some_iff)

lemma existing_in: "existing ds n = Some d \<Longrightarrow> d \<in> set ds"
  by (auto simp: existing_def find_Some_iff) (metis nth_mem set_rev length_rev)

text \<open>The step of one subscription: \<open>T\<close> is what it had received of the alert before the pass.\<close>

lemma relay_sub_cases:
  assumes "relay_sub env fa sub = (d', w, ns)" "fa_state fa \<in> {AlertStateFiring, AlertStateResolved}"
  defines "old \<equiv> existing (fa_deliveries fa) (sub_name sub)"
  assumes "\<forall>r. old = Some r \<longrightarrow> record_ok r"
  shows "(\<forall>r. d' = Some r \<longrightarrow> record_ok r \<and> ad_subscription r = sub_name sub)
    \<and> (\<forall>n \<in> set ns. addressed env sub n
        \<and> (Matches (sub_filter sub) fa \<or> nt_state n = AlertStateResolved \<and> recorded_firing old))
    \<and> (\<forall>T. alternates T \<and> (odd (length T) = recorded_firing old) \<longrightarrow>
        alternates (T @ delivered_states ns) \<and> odd (length (T @ delivered_states ns)) = recorded_firing d')
    \<and> (fa_state fa = AlertStateResolved \<longrightarrow> d' \<noteq> None)
    \<and> (recorded_firing d' \<longrightarrow> recorded_firing old \<or> AlertStateFiring \<in> set (delivered_states ns))
    \<and> (delivered_states ns \<noteq> [] \<and> \<not> recorded_firing old \<longrightarrow> hd (delivered_states ns) = AlertStateFiring)"
proof (cases "\<not> Matches (sub_filter sub) fa \<and> \<not> keepDriving old")
  case True
  then have ns: "ns = []" "d' = unmatchedDelivery (sub_name sub) old (fa_state fa)"
    using assms(1) by (simp_all add: relay_sub_def old_def Let_def)
  have nf: "\<not> recorded_firing old"
    using True assms(4) by (auto simp: keepDriving_def recorded_firing_def record_ok_def split: option.splits)
  have name: "old = Some r \<Longrightarrow> ad_subscription r = sub_name sub" for r
    unfolding old_def by (rule existing_name)
  show ?thesis using nf assms(4) name unfolding ns
    by (auto simp: unmatchedDelivery_def recorded_firing_def record_ok_def empty_delivery_def split: option.splits if_splits)
next
  case False
  let ?d = "refreshed sub (fa_state fa) (case old of Some r \<Rightarrow> r | None \<Rightarrow> empty_delivery (sub_name sub))"
  have d_ok: "record_ok ?d" "ad_subscription ?d = sub_name sub"
      "recorded_firing old \<longleftrightarrow> ad_deliveredState ?d = AlertStateFiring"
    using assms(4) existing_name unfolding old_def
    by (auto simp: record_ok_def empty_delivery_def recorded_firing_def split: option.splits)
  have match: "Matches (sub_filter sub) fa \<or> recorded_firing old"
    using False by (auto simp: keepDriving_def recorded_firing_def split: option.splits)
  show ?thesis
  proof (cases "old = None \<and> fa_state fa = AlertStateResolved \<and> sub_creationTimestamp sub > fa_creationTimestamp fa")
    case True
    then have "ns = []" "d' = Some (?d\<lparr>ad_deliveredState := AlertStateResolved\<rparr>)"
      using assms(1) False by (auto simp: relay_sub_def old_def Let_def)
    then show ?thesis using True d_ok by (auto simp: record_ok_def recorded_firing_def)
  next
    case no: False
    obtain r where r: "deliver env sub fa (fa_state fa) ?d = (r, w, ns)" and d': "d' = Some r"
      using assms(1) False no by (auto simp: relay_sub_def old_def Let_def split: prod.splits)
    note c = deliver_cases [OF r assms(2)]
    show ?thesis using c d_ok match assms(2) unfolding d'
      by (auto simp: advances_def record_ok_def recorded_firing_def
          alternates_snoc [of "T @ [s]" for T s, simplified] split: if_splits)
  qed
qed

section \<open>A pass\<close>

definition delivered_to :: "notification list \<Rightarrow> string \<Rightarrow> string list" where
  "delivered_to ns n = delivered_states (filter (\<lambda>x. nt_sub x = n) ns)"

lemma delivered_to_append [simp]: "delivered_to (ns @ ms) n = delivered_to ns n @ delivered_to ms n"
  by (simp add: delivered_to_def)

lemma delivered_to_same: "(\<And>x. x \<in> set ns \<Longrightarrow> nt_sub x = n) \<Longrightarrow> delivered_to ns n = delivered_states ns"
  by (induction ns) (simp_all add: delivered_to_def)

lemma delivered_to_other: "(\<And>x. x \<in> set ns \<Longrightarrow> nt_sub x \<noteq> n) \<Longrightarrow> delivered_to ns n = []"
  by (induction ns) (simp_all add: delivered_to_def)

definition stored_ok :: "alert_delivery list \<Rightarrow> bool" where
  "stored_ok ds \<longleftrightarrow> list_all record_ok ds \<and> distinct (map ad_subscription ds)"

lemma existing_eq: "distinct (map ad_subscription ds) \<Longrightarrow>
    existing ds n = Some d \<longleftrightarrow> d \<in> set ds \<and> ad_subscription d = n"
proof
  assume dist: "distinct (map ad_subscription ds)" and d: "d \<in> set ds \<and> ad_subscription d = n"
  then have "\<exists>e. existing ds n = Some e" unfolding existing_def
    by (metis (mono_tags, lifting) find_None_iff not_Some_eq set_rev)
  then obtain e where e: "existing ds n = Some e" by blast
  have "e = d" using distinct_map_unique [OF dist] existing_in [OF e] existing_name [OF e] d by blast
  with e show "existing ds n = Some d" by simp
qed (auto intro: existing_in existing_name)

lemma existing_None: "existing ds n = None \<longleftrightarrow> n \<notin> ad_subscription ` set ds"
  by (auto simp: existing_def find_None_iff)

lemma existing_Cons: "ad_subscription x \<noteq> n \<Longrightarrow> existing (x # ds) n = existing ds n"
proof -
  assume "ad_subscription x \<noteq> n"
  then have "List.find (\<lambda>d. ad_subscription d = n) (es @ [x]) = List.find (\<lambda>d. ad_subscription d = n) es" for es
    by (induction es) simp_all
  then show ?thesis by (simp add: existing_def)
qed

text \<open>The pass, seen from the subscriptions: entry and notifications of each come from its own step.\<close>

lemma relay_subs_cases:
  assumes "relay_subs env fa subs q = (ds, q', ns)" "distinct (map sub_name subs)"
    and "fa_state fa \<in> {AlertStateFiring, AlertStateResolved}" "list_all record_ok (fa_deliveries fa)"
  shows "distinct (map ad_subscription ds) \<and> list_all record_ok ds
    \<and> ad_subscription ` set ds \<subseteq> sub_name ` set subs
    \<and> (\<forall>sub \<in> set subs. \<exists>d w ms. relay_sub env fa sub = (d, w, ms) \<and> delivered_to ns (sub_name sub) = delivered_states ms
        \<and> existing ds (sub_name sub) = d)
    \<and> (\<forall>n. n \<notin> sub_name ` set subs \<longrightarrow> delivered_to ns n = [])
    \<and> (\<forall>x \<in> set ns. \<exists>sub \<in> set subs. \<exists>d w ms. relay_sub env fa sub = (d, w, ms) \<and> x \<in> set ms \<and> addressed env sub x)"
  using assms(1,2)
proof (induction subs arbitrary: q ds q' ns)
  case Nil
  then show ?case by (simp add: delivered_to_def)
next
  case (Cons sub subs)
  obtain d w ms where s: "relay_sub env fa sub = (d, w, ms)" by (cases "relay_sub env fa sub") blast
  then obtain q1 ds' ns' where r: "relay_subs env fa subs q1 = (ds', q', ns')"
    and ds: "ds = (case d of None \<Rightarrow> ds' | Some x \<Rightarrow> x # ds')" and ns: "ns = ms @ ns'"
    using Cons.prems(1) by (auto simp: Let_def split: prod.splits)
  note IH = Cons.IH [OF r] and names = Cons.prems(2)
  have old: "\<forall>r. existing (fa_deliveries fa) (sub_name sub) = Some r \<longrightarrow> record_ok r"
    using assms(4) existing_in by (fastforce simp: list_all_iff)
  note c = relay_sub_cases [OF s assms(3) old]
  have dn: "\<And>x. d = Some x \<Longrightarrow> record_ok x \<and> ad_subscription x = sub_name sub" using c by blast
  have msn: "\<And>x. x \<in> set ms \<Longrightarrow> addressed env sub x" using c by blast
  have sub': "ad_subscription ` set ds' \<subseteq> sub_name ` set subs" using IH names by simp
  have dist: "distinct (map ad_subscription ds)" "list_all record_ok ds"
      "ad_subscription ` set ds \<subseteq> sub_name ` set (sub # subs)"
    using IH names dn sub' unfolding ds by (auto split: option.splits)
  have own: "delivered_to ns (sub_name sub) = delivered_states ms" "existing ds (sub_name sub) = d"
  proof -
    have "delivered_to ns' (sub_name sub) = []" using IH names by simp
    moreover have "delivered_to ms (sub_name sub) = delivered_states ms"
      using msn by (intro delivered_to_same) (simp add: addressed_def)
    ultimately show "delivered_to ns (sub_name sub) = delivered_states ms" by (simp add: ns)
    have "sub_name sub \<notin> ad_subscription ` set ds'" using sub' names by auto
    then show "existing ds (sub_name sub) = d"
      using dn dist(1) by (cases d) (simp_all add: ds existing_None existing_eq)
  qed
  have others: "\<exists>d w ms. relay_sub env fa t = (d, w, ms) \<and> delivered_to ns (sub_name t) = delivered_states ms
      \<and> existing ds (sub_name t) = d" if "t \<in> set subs" for t
  proof -
    from that IH names obtain e v ks where e: "relay_sub env fa t = (e, v, ks)"
      "delivered_to ns' (sub_name t) = delivered_states ks" "existing ds' (sub_name t) = e" by force
    have ne: "sub_name t \<noteq> sub_name sub"
      using that names by (metis distinct.simps(2) image_eqI list.simps(9) set_map)
    then have "delivered_to ms (sub_name t) = []"
      using msn by (intro delivered_to_other) (auto simp: addressed_def)
    moreover have "existing ds (sub_name t) = existing ds' (sub_name t)"
      using ne dn unfolding ds by (cases d) (simp_all add: existing_Cons)
    ultimately show ?thesis using e by (simp add: ns)
  qed
  have none: "delivered_to ns n = []" if "n \<notin> sub_name ` set (sub # subs)" for n
  proof -
    have "delivered_to ms n = []" using msn that by (intro delivered_to_other) (auto simp: addressed_def)
    then show ?thesis using IH names that by (simp add: ns)
  qed
  have src: "\<exists>t \<in> set (sub # subs). \<exists>d w ms. relay_sub env fa t = (d, w, ms) \<and> x \<in> set ms \<and> addressed env t x"
    if "x \<in> set ns" for x
    using that msn s IH names unfolding ns by force
  show ?case using dist own others none src s by (simp del: set_map)
qed

end
