(* ===== verification/Relay_Machine.thy ===== *)
theory Relay_Machine
  imports Relay_Safety
begin

text \<open>
  One alert as the receivers and the relay see it over time. A receiver changes everything but the
  delivery records; a pass of \<^const>\<open>relay_Reconcile\<close> sends notifications and writes the records. The
  machine's log holds, for each subscription, the states it was successfully sent: \<open>rs_log\<close> since the
  alert's object was created, \<open>rs_sent\<close> since the last pass that did not find the subscription.
\<close>

section \<open>The machine\<close>

record relay_state =
  rs_alert :: "frame_alert option"
  rs_versions :: "alert_delivery list list"
  rs_log :: "string \<Rightarrow> string list"
  rs_sent :: "string \<Rightarrow> string list"

definition relay_init :: relay_state where
  "relay_init = \<lparr>rs_alert = None, rs_versions = [], rs_log = \<lambda>_. [], rs_sent = \<lambda>_. []\<rparr>"

definition lists_subs :: "relay_env \<Rightarrow> frame_alert \<Rightarrow> bool" where
  "lists_subs env fa \<longleftrightarrow> fa_state fa \<noteq> '''' \<and> \<not> re_listError env"

definition after_pass ::
  "relay_env \<Rightarrow> frame_alert \<Rightarrow> frame_alert option \<Rightarrow> notification list \<Rightarrow> relay_state \<Rightarrow> relay_state" where
  "after_pass env fa stored ns s =
     s\<lparr>rs_alert := stored,
       rs_versions := (case stored of Some x \<Rightarrow> fa_deliveries x # rs_versions s | None \<Rightarrow> []),
       rs_log := \<lambda>n. rs_log s n @ delivered_to ns n,
       rs_sent := \<lambda>n. if lists_subs env fa \<and> n \<notin> sub_name ` set (re_subs env) then []
                      else rs_sent s n @ delivered_to ns n\<rparr>"

text \<open>With \<open>sync\<close> a pass reads the current records and its status write succeeds.\<close>

inductive relay_step :: "bool \<Rightarrow> relay_state \<Rightarrow> relay_state \<Rightarrow> bool" for sync where
  raise: "rs_alert s = None \<Longrightarrow> fa_deliveries fa = [] \<Longrightarrow> fa_state fa \<in> {'''', AlertStateFiring, AlertStateResolved} \<Longrightarrow>
    relay_step sync s (s\<lparr>rs_alert := Some fa, rs_versions := [[]], rs_log := \<lambda>_. []\<rparr>)"
| receive: "rs_alert s = Some fa \<Longrightarrow> fa_deliveries fb = fa_deliveries fa \<Longrightarrow>
    fa_state fb \<in> {'''', AlertStateFiring, AlertStateResolved} \<Longrightarrow>
    relay_step sync s (s\<lparr>rs_alert := Some fb\<rparr>)"
| pass: "rs_alert s = Some stored \<Longrightarrow> fa_deliveries fa \<in> set (rs_versions s) \<Longrightarrow>
    fa_state fa \<in> {'''', AlertStateFiring, AlertStateResolved} \<Longrightarrow> distinct (map sub_name (re_subs env)) \<Longrightarrow>
    (sync \<longrightarrow> fa_deliveries fa = fa_deliveries stored \<and> \<not> rw_patchFails rw) \<Longrightarrow>
    relay_Reconcile env rw fa stored = (stored', w, failed, ns) \<Longrightarrow>
    relay_step sync s (after_pass env fa stored' ns s)"

inductive relay_reachable :: "bool \<Rightarrow> relay_state \<Rightarrow> bool" for sync where
  start: "relay_reachable sync relay_init"
| step: "relay_reachable sync s \<Longrightarrow> relay_step sync s t \<Longrightarrow> relay_reachable sync t"

text \<open>A pass that listed the subscriptions, and what it leaves on the server.\<close>

lemma relay_Reconcile_skip:
  assumes "relay_Reconcile env rw fa stored = (stored', w, failed, ns)" "\<not> lists_subs env fa"
  shows "ns = [] \<and> stored' = Some stored"
  using assms by (auto simp: relay_Reconcile_def lists_subs_def split: if_splits)

lemma relay_Reconcile_pass:
  assumes "relay_Reconcile env rw fa stored = (stored', w, failed, ns)" "lists_subs env fa"
  shows "\<exists>nexts q. relay_pass env fa = (nexts, q, ns)
    \<and> (stored' = None \<longrightarrow> fa_state fa = AlertStateResolved \<and> allDelivered nexts AlertStateResolved)
    \<and> (\<forall>x. stored' = Some x \<longrightarrow> fa_deliveries x = (if nexts = fa_deliveries fa \<or> rw_patchFails rw then fa_deliveries stored else nexts))"
proof -
  obtain nexts q where p: "relay_pass env fa = (nexts, q, ns)"
    using assms by (cases "relay_pass env fa") (auto simp: relay_Reconcile_def lists_subs_def split: prod.splits)
  then have f: "relay_finish env rw fa nexts q stored = (stored', w, failed)"
    using assms by (auto simp: relay_Reconcile_def lists_subs_def split: prod.splits)
  then have "stored' = None \<longrightarrow> fa_state fa = AlertStateResolved \<and> allDelivered nexts AlertStateResolved"
    by (auto simp: relay_finish_def Let_def split: if_splits option.splits delete_answer.splits)
  moreover have "\<forall>x. stored' = Some x \<longrightarrow>
      fa_deliveries x = (if nexts = fa_deliveries fa \<or> rw_patchFails rw then fa_deliveries stored else nexts)"
    using f by (auto simp: relay_finish_def Let_def split: if_splits option.splits delete_answer.splits)
  ultimately show ?thesis using p by blast
qed

lemma existing_sort:
  "distinct (map ad_subscription ds) \<Longrightarrow> existing (sort_key ad_subscription ds) n = existing ds n"
proof -
  assume d: "distinct (map ad_subscription ds)"
  have "distinct (map ad_subscription (sort_key ad_subscription ds))"
    using d by (simp add: distinct_map)
  then have "existing (sort_key ad_subscription ds) n = Some x \<longleftrightarrow> existing ds n = Some x" for x
    using d by (simp add: existing_eq)
  then show ?thesis by (metis not_Some_eq)
qed

lemma relay_pass_cases:
  assumes "relay_pass env fa = (nexts, q, ns)" "distinct (map sub_name (re_subs env))"
    and "fa_state fa \<in> {AlertStateFiring, AlertStateResolved}" "stored_ok (fa_deliveries fa)"
  shows "stored_ok nexts \<and> ad_subscription ` set nexts \<subseteq> sub_name ` set (re_subs env)
    \<and> (\<forall>sub \<in> set (re_subs env). \<exists>w ms. relay_sub env fa sub = (existing nexts (sub_name sub), w, ms)
        \<and> delivered_to ns (sub_name sub) = delivered_states ms)
    \<and> (\<forall>n. n \<notin> sub_name ` set (re_subs env) \<longrightarrow> delivered_to ns n = [])
    \<and> (\<forall>x \<in> set ns. \<exists>sub \<in> set (re_subs env). \<exists>d w ms. relay_sub env fa sub = (d, w, ms) \<and> x \<in> set ms \<and> addressed env sub x)"
proof -
  obtain ds where r: "relay_subs env fa (re_subs env) 0 = (ds, q, ns)" and n: "nexts = sort_key ad_subscription ds"
    using assms(1) by (auto simp: relay_pass_def split: prod.splits)
  have rec: "list_all record_ok (fa_deliveries fa)" using assms(4) by (simp add: stored_ok_def)
  note c = relay_subs_cases [OF r assms(2,3) rec]
  then have e: "\<And>m. existing nexts m = existing ds m" unfolding n by (intro existing_sort) blast
  have "stored_ok nexts" using c by (simp add: stored_ok_def n distinct_map list_all_iff)
  then show ?thesis using c unfolding e by (simp add: n)
qed

section \<open>Invariants\<close>

text \<open>Whatever a pass read and whether or not it could write: a record that says a firing alert was
  delivered is true, and the first notification of an alert is a firing one.\<close>

definition log_inv :: "relay_state \<Rightarrow> bool" where
  "log_inv s \<longleftrightarrow>
     (\<forall>ds \<in> set (rs_versions s). stored_ok ds
        \<and> (\<forall>d \<in> set ds. ad_deliveredState d = AlertStateFiring \<longrightarrow> AlertStateFiring \<in> set (rs_log s (ad_subscription d))))
     \<and> (\<forall>n. rs_log s n \<noteq> [] \<longrightarrow> hd (rs_log s n) = AlertStateFiring)
     \<and> (\<forall>fa. rs_alert s = Some fa \<longrightarrow> fa_deliveries fa \<in> set (rs_versions s))"

text \<open>In step with the records: they say exactly which subscriptions hold the incident open.\<close>

definition sync_inv :: "relay_state \<Rightarrow> bool" where
  "sync_inv s \<longleftrightarrow> (\<forall>n. alternates (rs_sent s n))
     \<and> (\<forall>n. odd (length (rs_sent s n)) =
          (case rs_alert s of None \<Rightarrow> False | Some fa \<Rightarrow> recorded_firing (existing (fa_deliveries fa) n)))"

lemma old_ok: "stored_ok ds \<Longrightarrow> \<forall>r. existing ds n = Some r \<longrightarrow> record_ok r"
  using existing_in by (fastforce simp: stored_ok_def list_all_iff)

lemma log_inv_pass:
  assumes inv: "log_inv s" and fa: "fa_deliveries fa \<in> set (rs_versions s)"
    and stt: "fa_state fa \<in> {AlertStateFiring, AlertStateResolved}" and names: "distinct (map sub_name (re_subs env))"
    and p: "relay_pass env fa = (nexts, q, ns)"
  shows "stored_ok nexts"
    and "d \<in> set nexts \<Longrightarrow> ad_deliveredState d = AlertStateFiring \<Longrightarrow>
      AlertStateFiring \<in> set (rs_log s (ad_subscription d) @ delivered_to ns (ad_subscription d))"
    and "rs_log s n @ delivered_to ns n \<noteq> [] \<Longrightarrow> hd (rs_log s n @ delivered_to ns n) = AlertStateFiring"
proof -
  have ok: "stored_ok (fa_deliveries fa)" using inv fa by (simp add: log_inv_def)
  note c = relay_pass_cases [OF p names stt ok]
  show "stored_ok nexts" using c by blast
  have true: "AlertStateFiring \<in> set (rs_log s m)" if rf: "recorded_firing (existing (fa_deliveries fa) m)" for m
  proof -
    obtain r where r: "existing (fa_deliveries fa) m = Some r" "ad_deliveredState r = AlertStateFiring"
      using rf by (auto simp: recorded_firing_def split: option.splits)
    then show ?thesis using inv fa existing_in [OF r(1)] existing_name [OF r(1)] by (auto simp: log_inv_def)
  qed
  have sub: "(recorded_firing (existing nexts m) \<longrightarrow> recorded_firing (existing (fa_deliveries fa) m)
        \<or> AlertStateFiring \<in> set (delivered_to ns m))
      \<and> (delivered_to ns m \<noteq> [] \<and> \<not> recorded_firing (existing (fa_deliveries fa) m) \<longrightarrow> hd (delivered_to ns m) = AlertStateFiring)"
    if m: "m \<in> sub_name ` set (re_subs env)" for m
  proof -
    obtain t where t: "t \<in> set (re_subs env)" "sub_name t = m" using m by blast
    with c obtain w ms where ms: "relay_sub env fa t = (existing nexts m, w, ms)" "delivered_to ns m = delivered_states ms"
      by blast
    show ?thesis using relay_sub_cases [OF ms(1) stt old_ok [OF ok]] t(2) ms(2) by simp
  qed
  show "AlertStateFiring \<in> set (rs_log s (ad_subscription d) @ delivered_to ns (ad_subscription d))"
    if d: "d \<in> set nexts" "ad_deliveredState d = AlertStateFiring"
  proof -
    have "existing nexts (ad_subscription d) = Some d" using c d(1) by (simp add: existing_eq stored_ok_def)
    then have "recorded_firing (existing nexts (ad_subscription d))" using d(2) by (simp add: recorded_firing_def)
    moreover have "ad_subscription d \<in> sub_name ` set (re_subs env)" using c d(1) by blast
    ultimately show ?thesis using sub true by auto
  qed
  show "hd (rs_log s n @ delivered_to ns n) = AlertStateFiring" if "rs_log s n @ delivered_to ns n \<noteq> []"
  proof (cases "rs_log s n = []")
    case True
    then have "\<not> recorded_firing (existing (fa_deliveries fa) n)" using true by fastforce
    moreover have "n \<in> sub_name ` set (re_subs env)" using c that True by auto
    ultimately show ?thesis using sub that True by simp
  next
    case False
    then show ?thesis using inv by (simp add: log_inv_def)
  qed
qed

lemma log_inv_step:
  assumes "relay_step sync s t" "log_inv s"
  shows "log_inv t"
  using assms(1)
proof cases
  case (raise fa)
  then show ?thesis by (simp add: log_inv_def stored_ok_def)
next
  case (receive fa fb)
  then show ?thesis using assms(2) by (simp add: log_inv_def)
next
  case (pass stored fa env rw stored' w failed ns)
  show ?thesis
  proof (cases "lists_subs env fa")
    case False
    then show ?thesis using relay_Reconcile_skip [OF pass(7)] assms(2) pass
      by (auto simp: after_pass_def log_inv_def delivered_to_def)
  next
    case True
    then have stt: "fa_state fa \<in> {AlertStateFiring, AlertStateResolved}" using pass(4) by (auto simp: lists_subs_def)
    obtain nexts q where p: "relay_pass env fa = (nexts, q, ns)"
      and d: "\<And>x. stored' = Some x \<Longrightarrow> fa_deliveries x = nexts \<or> fa_deliveries x = fa_deliveries stored"
      using relay_Reconcile_pass [OF pass(7) True] by (auto split: if_splits)
    note P = log_inv_pass [OF assms(2) pass(3) stt pass(5) p]
    have new: "\<forall>d \<in> set nexts. ad_deliveredState d = AlertStateFiring \<longrightarrow>
        AlertStateFiring \<in> set (rs_log s (ad_subscription d)) \<union> set (delivered_to ns (ad_subscription d))"
      using P(2) by simp
    have "fa_deliveries stored \<in> set (rs_versions s)" using assms(2) pass(2) by (simp add: log_inv_def)
    then show ?thesis using P(1,3) new d assms(2) unfolding pass(1) after_pass_def log_inv_def
      by (auto split: option.splits)
  qed
qed

lemma sync_inv_step:
  assumes "relay_step True s t" "sync_inv s" "log_inv s"
  shows "sync_inv t"
  using assms(1)
proof cases
  case (raise fa)
  then show ?thesis using assms(2) by (simp add: sync_inv_def recorded_firing_def existing_def)
next
  case (receive fa fb)
  then show ?thesis using assms(2) by (simp add: sync_inv_def)
next
  case (pass stored fa env rw stored' w failed ns)
  have same: "fa_deliveries fa = fa_deliveries stored" "\<not> rw_patchFails rw" using pass by blast+
  have sent: "alternates (rs_sent s n)" "odd (length (rs_sent s n)) = recorded_firing (existing (fa_deliveries fa) n)" for n
    using assms(2) pass(2) same(1) by (simp_all add: sync_inv_def)
  show ?thesis
  proof (cases "lists_subs env fa")
    case False
    then show ?thesis using relay_Reconcile_skip [OF pass(7)] assms(2) pass
      by (auto simp: after_pass_def sync_inv_def delivered_to_def)
  next
    case True
    then have stt: "fa_state fa \<in> {AlertStateFiring, AlertStateResolved}" using pass(4) by (auto simp: lists_subs_def)
    have ok: "stored_ok (fa_deliveries fa)" using assms(3) pass(3) by (simp add: log_inv_def)
    obtain nexts q where p: "relay_pass env fa = (nexts, q, ns)"
      and none: "stored' = None \<longrightarrow> fa_state fa = AlertStateResolved \<and> allDelivered nexts AlertStateResolved"
      and d: "\<forall>x. stored' = Some x \<longrightarrow> fa_deliveries x = nexts"
      using relay_Reconcile_pass [OF pass(7) True] same by (auto split: if_splits)
    note c = relay_pass_cases [OF p pass(5) stt ok]
    have listed: "alternates (rs_sent s n @ delivered_to ns n)
        \<and> odd (length (rs_sent s n @ delivered_to ns n)) = recorded_firing (existing nexts n)"
      if m: "n \<in> sub_name ` set (re_subs env)" for n
    proof -
      obtain u where u: "u \<in> set (re_subs env)" "sub_name u = n" using m by blast
      with c obtain w ms where ms: "relay_sub env fa u = (existing nexts n, w, ms)" "delivered_to ns n = delivered_states ms"
        by blast
      show ?thesis using relay_sub_cases [OF ms(1) stt old_ok [OF ok]] ms(2) sent u(2) by simp
    qed
    have gone: "existing nexts n = None" if "n \<notin> sub_name ` set (re_subs env)" for n
      using c that by (auto simp: existing_None)
    have closed: "\<not> recorded_firing (existing nexts n)" if "stored' = None" for n
      using none that existing_in by (fastforce simp: recorded_firing_def allDelivered_def list_all_iff split: option.splits)
    show ?thesis unfolding pass(1)
    proof (cases stored')
      case None
      then show "sync_inv (after_pass env fa stored' ns s)"
        using True listed closed by (auto simp: sync_inv_def after_pass_def)
    next
      case (Some x)
      then show "sync_inv (after_pass env fa stored' ns s)"
        using True listed gone d by (auto simp: sync_inv_def after_pass_def recorded_firing_def)
    qed
  qed
qed

lemma relay_reachable_inv:
  assumes "relay_reachable sync s"
  shows "log_inv s \<and> (sync \<longrightarrow> sync_inv s)"
  using assms
proof induction
  case start
  then show ?case by (simp add: log_inv_def sync_inv_def relay_init_def)
next
  case (step s t)
  then have "log_inv t" using log_inv_step by blast
  moreover have "sync_inv t" if sync using step that sync_inv_step by simp
  ultimately show ?case by blast
qed

end
