(* ===== verification/Alert_Status.thy ===== *)
theory Alert_Status
  imports Relay_Safety
begin

text \<open>
  \<open>internal/alerting/subscription_status_controller.go\<close>: the summary of the relay's records in a
  subscription's status, recomputed at most once a minute. The reconciler's memory of its last
  computations is the map \<open>lastComputed\<close>; the zero time is \<^const>\<open>None\<close>.
\<close>

record sub_status =
  ss_observedGeneration :: int
  ss_lastSuccessAt :: "instant option"
  ss_lastError :: string
  ss_pendingDeliveries :: int
  ss_computedAt :: "instant option"

definition statusRecomputeEvery :: duration where
  "statusRecomputeEvery = minute"

record delivery_tally =
  dt_pending :: int
  dt_lastSuccess :: "instant option"
  dt_lastErrorAt :: "instant option"
  dt_lastError :: string

text \<open>\<open>a.After(b)\<close> for an optional \<open>b\<close>: an absent one is older.\<close>

definition newer :: "instant \<Rightarrow> instant option \<Rightarrow> bool" where
  "newer t b = (case b of None \<Rightarrow> True | Some u \<Rightarrow> t > u)"

definition stillOpenForResolution :: "alert_delivery option \<Rightarrow> frame_alert \<Rightarrow> bool" where
  "stillOpenForResolution d a \<longleftrightarrow> keepDriving d \<and> fa_state a = AlertStateResolved"

definition tally_record :: "alert_delivery \<Rightarrow> delivery_tally \<Rightarrow> delivery_tally" where
  "tally_record d t =
     (let t = (case ad_lastDeliveredAt d of
                 Some at \<Rightarrow> if newer at (dt_lastSuccess t) then t\<lparr>dt_lastSuccess := Some at\<rparr> else t
               | None \<Rightarrow> t)
      in case ad_lastAttemptAt d of
           Some at \<Rightarrow> if ad_lastError d \<noteq> '''' \<and> newer at (dt_lastErrorAt t)
                      then t\<lparr>dt_lastErrorAt := Some at, dt_lastError := ad_lastError d\<rparr> else t
         | None \<Rightarrow> t)"

definition tally_alert :: "subscription \<Rightarrow> frame_alert \<Rightarrow> delivery_tally \<Rightarrow> delivery_tally" where
  "tally_alert sub a t =
     (if fa_state a = '''' then t
      else
        (let d = existing (fa_deliveries a) (sub_name sub) in
         if \<not> Matches (sub_filter sub) a \<and> \<not> stillOpenForResolution d a then t
         else
           (let t = (if d = None \<or> map_option ad_deliveredState d \<noteq> Some (fa_state a)
                     then t\<lparr>dt_pending := wrap32 (dt_pending t + 1)\<rparr> else t)
            in case d of None \<Rightarrow> t | Some r \<Rightarrow> tally_record r t)))"

definition tallyDeliveries :: "subscription \<Rightarrow> frame_alert list \<Rightarrow> delivery_tally" where
  "tallyDeliveries sub alerts =
     fold (tally_alert sub) alerts \<lparr>dt_pending = 0, dt_lastSuccess = None, dt_lastErrorAt = None, dt_lastError = ''''\<rparr>"

definition computedAt :: "(string \<rightharpoonup> instant) \<Rightarrow> string \<Rightarrow> subscription \<Rightarrow> sub_status \<Rightarrow> instant option" where
  "computedAt lastComputed key sub s =
     (let persisted = (if ss_computedAt s \<noteq> None \<and> ss_observedGeneration s = sub_generation sub then ss_computedAt s else None)
      in case lastComputed key of
           Some t \<Rightarrow> if newer t persisted then Some t else persisted
         | None \<Rightarrow> persisted)"

text \<open>The part after the gate: \<open>listed\<close> is the answer to the list of alerts, \<^const>\<open>None\<close> an error. The
  result is the stored status, the memory, and the wait before the next pass (\<^const>\<open>None\<close> after an
  error).\<close>

definition recompute ::
  "frame_alert list option \<Rightarrow> bool \<Rightarrow> instant \<Rightarrow> string \<Rightarrow> subscription \<Rightarrow> sub_status \<Rightarrow> (string \<rightharpoonup> instant)
   \<Rightarrow> sub_status \<times> (string \<rightharpoonup> instant) \<times> duration option" where
  "recompute listed patchFails now key sub s lastComputed =
     (case listed of None \<Rightarrow> (s, lastComputed, None)
      | Some alerts \<Rightarrow>
          (let t = tallyDeliveries sub alerts;
               lastSuccess = (case dt_lastSuccess t of
                   None \<Rightarrow> ss_lastSuccessAt s
                 | Some u \<Rightarrow> (case ss_lastSuccessAt s of Some v \<Rightarrow> if v > u then Some v else Some u | None \<Rightarrow> Some u));
               lastComputed = lastComputed(key \<mapsto> now);
               changed = (ss_observedGeneration s \<noteq> sub_generation sub \<or> ss_pendingDeliveries s \<noteq> dt_pending t
                          \<or> ss_lastSuccessAt s \<noteq> lastSuccess \<or> ss_lastError s \<noteq> dt_lastError t)
           in if \<not> changed then (s, lastComputed, Some statusRecomputeEvery)
              else if patchFails then (s, lastComputed, None)
              else (\<lparr>ss_observedGeneration = sub_generation sub, ss_lastSuccessAt = lastSuccess,
                     ss_lastError = dt_lastError t, ss_pendingDeliveries = dt_pending t,
                     ss_computedAt = Some (trunc_second now)\<rparr>, lastComputed, Some statusRecomputeEvery)))"

definition status_Reconcile ::
  "frame_alert list option \<Rightarrow> bool \<Rightarrow> instant \<Rightarrow> string \<Rightarrow> subscription \<Rightarrow> sub_status \<Rightarrow> (string \<rightharpoonup> instant)
   \<Rightarrow> sub_status \<times> (string \<rightharpoonup> instant) \<times> duration option" where
  "status_Reconcile listed patchFails now key sub s lastComputed =
     (case computedAt lastComputed key sub s of
        Some t \<Rightarrow>
          (let wait = t + statusRecomputeEvery - now in
           if wait > 0 then (s, lastComputed, Some wait) else recompute listed patchFails now key sub s lastComputed)
      | None \<Rightarrow> recompute listed patchFails now key sub s lastComputed)"

text \<open>The whole request: \<open>got\<close> is the answer to the read of the subscription, an error, not found, or the
  subscription with its status. A subscription that is gone is forgotten.\<close>

definition forgetComputedAt :: "string \<Rightarrow> (string \<rightharpoonup> instant) \<Rightarrow> (string \<rightharpoonup> instant)" where
  "forgetComputedAt key lastComputed = lastComputed(key := None)"

definition status_Request ::
  "(subscription \<times> sub_status) option option \<Rightarrow> frame_alert list option \<Rightarrow> bool \<Rightarrow> instant \<Rightarrow> string \<Rightarrow> (string \<rightharpoonup> instant)
   \<Rightarrow> sub_status option \<times> (string \<rightharpoonup> instant) \<times> duration option" where
  "status_Request got listed patchFails now key lastComputed =
     (case got of None \<Rightarrow> (None, lastComputed, None)
      | Some None \<Rightarrow> (None, forgetComputedAt key lastComputed, None)
      | Some (Some (sub, s)) \<Rightarrow>
          (let (s', m, w) = status_Reconcile listed patchFails now key sub s lastComputed in (Some s', m, w)))"

text \<open>A subscription created again under the name of a deleted one is summarised at once, whenever the
  deleted one was.\<close>

lemma recreated_is_recomputed:
  assumes "status_Request (Some None) l p t key m = (x, m', w)" "ss_computedAt s = None"
  shows "status_Reconcile listed patchFails now key sub s m' = recompute listed patchFails now key sub s m'"
  using assms by (auto simp: status_Request_def forgetComputedAt_def status_Reconcile_def computedAt_def)

section \<open>What is pending\<close>

definition due_for :: "subscription \<Rightarrow> frame_alert \<Rightarrow> bool" where
  "due_for sub a \<longleftrightarrow> fa_state a \<noteq> []
     \<and> (Matches (sub_filter sub) a \<or> stillOpenForResolution (existing (fa_deliveries a) (sub_name sub)) a)
     \<and> map_option ad_deliveredState (existing (fa_deliveries a) (sub_name sub)) \<noteq> Some (fa_state a)"

lemma tally_record_pending [simp]: "dt_pending (tally_record d t) = dt_pending t"
  by (simp add: tally_record_def Let_def split: option.splits)

lemma tally_alert_pending:
  "dt_pending (tally_alert sub a t) = (if due_for sub a then wrap32 (dt_pending t + 1) else dt_pending t)"
  by (auto simp: tally_alert_def due_for_def Let_def split: option.splits)

text \<open>The count is exact as long as it fits 32 bits.\<close>

lemma tally_pending:
  assumes "0 \<le> dt_pending t" "dt_pending t + int (length alerts) < 2 ^ 31"
  shows "dt_pending (fold (tally_alert sub) alerts t) = dt_pending t + int (length (filter (due_for sub) alerts))"
  using assms
proof (induction alerts arbitrary: t)
  case (Cons a as)
  have "is_int32 (dt_pending t + 1)" using Cons.prems by (simp add: is_int32_def)
  then have "dt_pending (tally_alert sub a t) = dt_pending t + (if due_for sub a then 1 else 0)"
    by (simp add: tally_alert_pending)
  with Cons.IH [of "tally_alert sub a t"] Cons.prems show ?case by simp
qed simp

lemma tallyDeliveries_pending:
  "int (length alerts) < 2 ^ 31 \<Longrightarrow>
   dt_pending (tallyDeliveries sub alerts) = int (length (filter (due_for sub) alerts))"
  by (simp add: tallyDeliveries_def tally_pending)

end
