(* ===== verification/Relay_Theorems.thy ===== *)
theory Relay_Theorems
  imports Relay_Machine Alert_Status
begin

text \<open>
  The properties of the alert relay: that tenants see balanced incidents, that nothing leaves for a
  subscription that should not get it, that a healthy pass delivers and purges, and that the receiver's
  writes are moves of the relay's machine.
\<close>

section \<open>Writers of alerts\<close>

text \<open>The contract between whoever records alerts and the relay: delivery records are not touched, a
  new alert has none, no alert disappears, and states are those of the schema.\<close>

definition alert_states :: "string set" where
  "alert_states = {'''', AlertStateFiring, AlertStateResolved}"

text \<open>How writers of alerts may change the stored alerts.\<close>

definition writes_alerts :: "frame_alert list \<Rightarrow> frame_alert list \<Rightarrow> bool" where
  "writes_alerts st st' \<longleftrightarrow> (\<forall>n. case find_alert st' n of
       None \<Rightarrow> find_alert st n = None
     | Some fb \<Rightarrow> (case find_alert st n of
         Some fa \<Rightarrow> fa_deliveries fb = fa_deliveries fa \<and> (fa_state fb \<in> alert_states \<or> fa_state fb = fa_state fa)
       | None \<Rightarrow> fa_deliveries fb = [] \<and> fa_state fb \<in> alert_states))"

lemma writes_alerts_refl [simp]: "writes_alerts st st"
  by (simp add: writes_alerts_def split: option.splits)

lemma writes_alerts_trans [trans]:
  assumes "writes_alerts st st'" "writes_alerts st' st''"
  shows "writes_alerts st st''"
  unfolding writes_alerts_def
proof
  fix n
  show "case find_alert st'' n of None \<Rightarrow> find_alert st n = None
     | Some fb \<Rightarrow> (case find_alert st n of
         Some fa \<Rightarrow> fa_deliveries fb = fa_deliveries fa \<and> (fa_state fb \<in> alert_states \<or> fa_state fb = fa_state fa)
       | None \<Rightarrow> fa_deliveries fb = [] \<and> fa_state fb \<in> alert_states)"
    using assms(1) [unfolded writes_alerts_def, THEN spec, of n] assms(2) [unfolded writes_alerts_def, THEN spec, of n]
    by (auto split: option.splits)
qed

locale alert_writer =
  fixes wr :: "frame_alert list \<Rightarrow> frame_alert list"
  assumes writer: "writes_alerts st (wr st)"
begin

lemma writer_moves:
  assumes "rs_alert s = find_alert st n" "\<And>fa. find_alert st n = Some fa \<Longrightarrow> fa_state fa \<in> alert_states"
  shows "\<exists>t. (relay_step sync)\<^sup>*\<^sup>* s t \<and> rs_alert t = find_alert (wr st) n \<and> rs_sent t = rs_sent s"
proof (cases "find_alert (wr st) n")
  case None
  then have "find_alert st n = None" using writer [of st, unfolded writes_alerts_def, THEN spec, of n] by simp
  then show ?thesis using None assms(1) by auto
next
  case fb: (Some fb)
  have w: "case find_alert st n of Some fa \<Rightarrow> fa_deliveries fb = fa_deliveries fa \<and> fa_state fb \<in> alert_states
      | None \<Rightarrow> fa_deliveries fb = [] \<and> fa_state fb \<in> alert_states"
    using writer [of st, unfolded writes_alerts_def, THEN spec, of n] fb assms(2) by (auto split: option.splits)
  have "\<exists>t. relay_step sync s t \<and> rs_alert t = Some fb \<and> rs_sent t = rs_sent s"
  proof (cases "find_alert st n")
    case None
    then have "relay_step sync s (s\<lparr>rs_alert := Some fb, rs_versions := [[]], rs_log := \<lambda>_. []\<rparr>)"
      using assms(1) w by (intro relay_step.raise) (simp_all add: alert_states_def)
    then show ?thesis by fastforce
  next
    case (Some fa)
    then have "relay_step sync s (s\<lparr>rs_alert := Some fb\<rparr>)"
      using assms(1) w by (intro relay_step.receive [where fa = fa]) (simp_all add: alert_states_def)
    then show ?thesis by fastforce
  qed
  then show ?thesis using fb by auto
qed

end

lemma Record_keeps: "find_alert st n \<noteq> None \<Longrightarrow> find_alert (snd (Record api now a st)) n \<noteq> None"
proof (cases "n = AlertObjectName (al_fingerprint a)")
  case False
  moreover assume "find_alert st n \<noteq> None"
  ultimately show ?thesis by (simp add: Record_frame)
next
  case True
  moreover assume "find_alert st n \<noteq> None"
  ultimately obtain fa where fa: "find_alert st n = Some fa" "fa_name fa = n" using find_alert_name by blast
  have put: "find_alert (put_alert fb st') n \<noteq> None" if "find_alert st' n \<noteq> None" "fa_name fb = n" for fb st'
    using find_put_same [OF that] by simp
  have "find_alert (snd (patchStatus api fb s t st')) n \<noteq> None" if "find_alert st' n \<noteq> None" "fa_name fb = n" for fb s t st'
    using that put by (simp add: patchStatus_def split: option.splits)
  with True fa put show ?thesis by (auto simp: Record_def Let_def split: option.splits)
qed

lemma Record_states:
  assumes "find_alert (snd (Record api now a st)) n = Some fb"
  shows "fa_state fb \<in> alert_states \<or> (\<exists>fa. find_alert st n = Some fa \<and> fa_state fb = fa_state fa)"
proof (cases "n = AlertObjectName (al_fingerprint a)")
  case False
  with assms show ?thesis by (simp add: Record_frame)
next
  case True
  have rec: "recorded_state a \<in> alert_states" by (simp add: recorded_state_def alert_states_def)
  show ?thesis
  proof (cases "find_alert st n")
    case None
    with assms True rec show ?thesis
      by (auto simp: Record_def Let_def patchStatus_def find_put find_snoc alert_states_def split: option.splits)
  next
    case (Some fa)
    with assms True rec find_alert_name [OF Some] show ?thesis
      by (auto simp: Record_def Let_def patchStatus_def find_put split: option.splits if_splits)
  qed
qed

lemma Record_writes: "writes_alerts st (snd (Record api now a st))"
  unfolding writes_alerts_def
proof
  fix n
  show "case find_alert (snd (Record api now a st)) n of None \<Rightarrow> find_alert st n = None
     | Some fb \<Rightarrow> (case find_alert st n of
         Some fa \<Rightarrow> fa_deliveries fb = fa_deliveries fa \<and> (fa_state fb \<in> alert_states \<or> fa_state fb = fa_state fa)
       | None \<Rightarrow> fa_deliveries fb = [] \<and> fa_state fb \<in> alert_states)"
    using Record_deliveries [of api now a st n] Record_states [of api now a st n] Record_keeps [of st n api now a]
    by (cases "find_alert st n"; cases "find_alert (snd (Record api now a st)) n") auto
qed

lemma record_all_writes: "writes_alerts st (snd (record_all api now as st))"
proof (induction as arbitrary: st)
  case (Cons a as)
  then show ?case using Record_writes [of st api now a]
    by (auto split: prod.splits option.splits intro: writes_alerts_trans)
qed simp

text \<open>The webhook is such a writer.\<close>

interpretation webhook: alert_writer "\<lambda>st. snd (serve unmarshal api secret now req st)" for unmarshal api secret now req
  by unfold_locales (simp add: serve_def Let_def record_all_writes split: option.splits)

section \<open>Concrete alerts\<close>

definition w_spec :: "instant option \<Rightarrow> alert_spec" where
  "w_spec ends = \<lparr>as_fingerprint = ''0a'', as_alertName = ''Down'', as_severity = ''critical'', as_namespace = '''',
     as_labels = [], as_annotations = [], as_startsAt = 0, as_endsAt = ends, as_generatorURL = ''''\<rparr>"

definition w_firing :: frame_alert where
  "w_firing = \<lparr>fa_name = ''fa-0a'', fa_creationTimestamp = 0, fa_spec = w_spec None, fa_state = ''Firing'',
     fa_lastReceivedAt = Some 0, fa_deliveries = []\<rparr>"

definition w_sub :: subscription where
  "w_sub = \<lparr>sub_name = ''a'', sub_namespace = ''ns'', sub_generation = 1, sub_creationTimestamp = 0,
     sub_url = ''https://a'', sub_tokenSecretName = ''t'', sub_tokenSecretKey = ''k'',
     sub_filter = \<lparr>fl_excludeAlertNames = [], fl_severities = [], fl_namespaces = []\<rparr>, sub_paused = False\<rparr>"

definition w_env :: relay_env where
  "w_env = \<lparr>re_subs = [w_sub], re_listError = False,
     re_secret = \<lambda>_ _. GotSecret [AlertTokenLabel \<mapsto> ''true''] [''k'' \<mapsto> ''s3''], re_notFound = \<lambda>n. n,
     re_post = \<lambda>_ _ _. Status 200, re_now = 9000000000, re_retention = 0\<rparr>"

definition w_write :: relay_write where
  "w_write = \<lparr>rw_patchFails = False, rw_delete = DeleteOK\<rparr>"

definition w_done :: "string \<Rightarrow> alert_delivery" where
  "w_done st = \<lparr>ad_subscription = ''a'', ad_deliveredState = st, ad_attempts = 0, ad_lastError = '''',
     ad_lastAttemptAt = Some 9000000000, ad_lastDeliveredAt = Some 9000000000, ad_permanentFailure = False,
     ad_failedState = '''', ad_subscriptionGeneration = 1, ad_excluded = False\<rparr>"

definition w_note :: "string \<Rightarrow> notification" where
  "w_note st = \<lparr>nt_sub = ''a'', nt_url = ''https://a'', nt_token = ''s3'', nt_state = st, nt_outcome = Delivered\<rparr>"

definition w_delivered :: frame_alert where
  "w_delivered = w_firing\<lparr>fa_deliveries := [w_done ''Firing'']\<rparr>"

definition w_resolved :: frame_alert where
  "w_resolved = w_delivered\<lparr>fa_spec := w_spec (Some 8000000000), fa_state := ''Resolved''\<rparr>"

lemma w_pass_firing:
  "relay_Reconcile w_env w_write w_firing w_firing = (Some w_delivered, 0, False, [w_note ''Firing''])"
  by code_simp

lemma w_pass_resolved:
  "relay_Reconcile w_env w_write w_resolved w_resolved = (None, 0, False, [w_note ''Resolved''])"
  by code_simp

definition w_state :: "string list \<Rightarrow> frame_alert option \<Rightarrow> alert_delivery list list \<Rightarrow> relay_state" where
  "w_state T fa vs = \<lparr>rs_alert = fa, rs_versions = vs, rs_log = (\<lambda>_. [])(''a'' := T), rs_sent = (\<lambda>_. [])(''a'' := T)\<rparr>"

lemma w_states_ok [simp]:
  "fa_state w_firing = AlertStateFiring" "fa_state w_delivered = AlertStateFiring" "fa_state w_resolved = AlertStateResolved"
  "fa_deliveries w_firing = []" "fa_deliveries w_delivered = [w_done ''Firing'']" "fa_deliveries w_resolved = [w_done ''Firing'']"
  "distinct (map sub_name (re_subs w_env))"
  by (simp_all add: w_resolved_def w_delivered_def w_firing_def w_env_def AlertStateFiring_def AlertStateResolved_def)

lemma w_sent: "delivered_to [w_note st] n = (if n = ''a'' then [st] else [])"
  by (simp add: delivered_to_def w_note_def)

lemma w_after_pass:
  "after_pass w_env fa st' [w_note st] (w_state T fa' vs) =
     w_state (T @ [st]) st' (case st' of Some x \<Rightarrow> fa_deliveries x # vs | None \<Rightarrow> [])"
  by (cases st') (auto simp: after_pass_def w_state_def w_sent w_env_def w_sub_def fun_eq_iff)

text \<open>An incident from its start to the purge, every step in step with the records.\<close>

lemma w_run:
  "relay_reachable True (w_state [''Firing''] (Some w_delivered) [[w_done ''Firing''], []])"
  "relay_reachable True (w_state [''Firing'', ''Resolved''] None [])"
proof -
  have init: "relay_init\<lparr>rs_alert := Some w_firing, rs_versions := [[]], rs_log := \<lambda>_. []\<rparr> = w_state [] (Some w_firing) [[]]"
    by (simp add: relay_init_def w_state_def fun_eq_iff)
  have "relay_reachable True (w_state [] (Some w_firing) [[]])"
    unfolding init [symmetric] by (rule relay_reachable.step [OF relay_reachable.start], rule relay_step.raise) (simp_all add: relay_init_def)
  moreover have "relay_step True (w_state [] (Some w_firing) [[]]) (after_pass w_env w_firing (Some w_delivered) [w_note ''Firing''] (w_state [] (Some w_firing) [[]]))"
    by (rule relay_step.pass [OF _ _ _ _ _ w_pass_firing]) (simp_all add: w_state_def w_write_def)
  ultimately have one: "relay_reachable True (w_state [''Firing''] (Some w_delivered) [[w_done ''Firing''], []])"
    unfolding w_after_pass by (simp add: relay_reachable.step)
  then show "relay_reachable True (w_state [''Firing''] (Some w_delivered) [[w_done ''Firing''], []])" .
  have "relay_step True (w_state [''Firing''] (Some w_delivered) [[w_done ''Firing''], []])
      ((w_state [''Firing''] (Some w_delivered) [[w_done ''Firing''], []])\<lparr>rs_alert := Some w_resolved\<rparr>)"
    by (rule relay_step.receive [where fa = w_delivered]) (simp_all add: w_state_def)
  then have two: "relay_reachable True (w_state [''Firing''] (Some w_resolved) [[w_done ''Firing''], []])"
    using one relay_reachable.step by (force simp: w_state_def)
  have "relay_step True (w_state [''Firing''] (Some w_resolved) [[w_done ''Firing''], []])
      (after_pass w_env w_resolved None [w_note ''Resolved''] (w_state [''Firing''] (Some w_resolved) [[w_done ''Firing''], []]))"
    by (rule relay_step.pass [OF _ _ _ _ _ w_pass_resolved]) (simp_all add: w_state_def w_write_def)
  with two show "relay_reachable True (w_state [''Firing'', ''Resolved''] None [])"
    unfolding w_after_pass using relay_reachable.step by fastforce
qed

section \<open>Properties\<close>

text \<open>C17. Tenants see whole incidents. In every run of receivers and relay passes, also when passes
  read stale records and their status writes fail, the first notification a subscription gets of an
  alert is that it fires. When passes read the current records and their writes succeed, the
  notifications of each subscription alternate between firing and resolved, and an alert is purged
  only when every subscription the pass listed has been told of the end of what it was told of.\<close>

theorem relay_incidents_balanced:
  assumes "relay_reachable sync s"
  shows "(rs_log s n \<noteq> [] \<longrightarrow> hd (rs_log s n) = AlertStateFiring)
    \<and> (sync \<longrightarrow> alternates (rs_sent s n) \<and> (rs_alert s = None \<longrightarrow> even (length (rs_sent s n))))"
proof -
  have "log_inv s" "sync \<longrightarrow> sync_inv s" using relay_reachable_inv [OF assms] by blast+
  moreover have "rs_alert s = None \<longrightarrow> even (length (rs_sent s n))" if "sync_inv s"
    using that by (auto simp: sync_inv_def)
  ultimately show ?thesis by (auto simp: log_inv_def sync_inv_def)
qed

theorem relay_incidents_balanced_witness:
  "rs_sent (w_state [''Firing'', ''Resolved''] None []) ''a'' = [''Firing'', ''Resolved'']
   \<and> alternates (rs_sent (w_state [''Firing'', ''Resolved''] None []) ''a'')
   \<and> even (length (rs_sent (w_state [''Firing'', ''Resolved''] None []) ''a''))"
  using relay_incidents_balanced [OF w_run(2), of "''a''"] by (simp add: w_state_def AlertStateFiring_def)

text \<open>Nothing leaves the relay for a subscription that should not get it: a notification goes to
  a listed, unpaused subscription, at its URL, under the non-empty token of a Secret that carries the
  relay's label; its filter accepts the alert, or the notification is the resolution of an incident
  the records say it was told of.\<close>

theorem relay_sends_only_to_subscribers:
  assumes "relay_Reconcile env rw fa stored = (stored', w, failed, ns)" "x \<in> set ns"
    and "fa_state fa \<in> {'''', AlertStateFiring, AlertStateResolved}" "distinct (map sub_name (re_subs env))"
    and "stored_ok (fa_deliveries fa)"
  shows "\<exists>sub \<in> set (re_subs env). nt_sub x = sub_name sub \<and> nt_url x = sub_url sub
    \<and> (\<exists>labels data. re_secret env (sub_namespace sub) (sub_tokenSecretName sub) = GotSecret labels data
        \<and> labels AlertTokenLabel = Some ''true'' \<and> data (sub_tokenSecretKey sub) = Some (nt_token x) \<and> nt_token x \<noteq> '''')
    \<and> (Matches (sub_filter sub) fa
       \<or> nt_state x = AlertStateResolved \<and> recorded_firing (existing (fa_deliveries fa) (sub_name sub)))"
proof -
  have l: "lists_subs env fa" using relay_Reconcile_skip [OF assms(1)] assms(2) by fastforce
  then have stt: "fa_state fa \<in> {AlertStateFiring, AlertStateResolved}" using assms(3) by (auto simp: lists_subs_def)
  obtain nexts q where p: "relay_pass env fa = (nexts, q, ns)" using relay_Reconcile_pass [OF assms(1) l] by blast
  from relay_pass_cases [OF p assms(4) stt assms(5)] assms(2)
  obtain sub d w ms where sub: "sub \<in> set (re_subs env)" "relay_sub env fa sub = (d, w, ms)" "x \<in> set ms" by blast
  note c = relay_sub_cases [OF sub(2) stt old_ok [OF assms(5)]]
  have "token env sub = Inr (nt_token x)" using c sub(3) by (auto simp: addressed_def)
  then have "\<exists>labels data. re_secret env (sub_namespace sub) (sub_tokenSecretName sub) = GotSecret labels data
        \<and> labels AlertTokenLabel = Some ''true'' \<and> data (sub_tokenSecretKey sub) = Some (nt_token x) \<and> nt_token x \<noteq> ''''"
    by (auto simp: token_def split: secret_get.splits if_splits option.splits)
  with sub c show ?thesis by (auto simp: addressed_def)
qed

theorem relay_sends_only_to_subscribers_witness:
  "\<exists>sub \<in> set (re_subs w_env). nt_sub (w_note ''Resolved'') = sub_name sub \<and> nt_url (w_note ''Resolved'') = sub_url sub
    \<and> (Matches (sub_filter sub) w_resolved
       \<or> nt_state (w_note ''Resolved'') = AlertStateResolved \<and> recorded_firing (existing (fa_deliveries w_resolved) (sub_name sub)))"
proof -
  have ok: "stored_ok (fa_deliveries w_resolved)" by code_simp
  show ?thesis
    using relay_sends_only_to_subscribers [OF w_pass_resolved _ _ _ ok, of "w_note ''Resolved''"] by simp blast
qed

text \<open>The wait before the next attempt is \<open>5 s\<close> doubled with each attempt and capped at ten
  minutes, for every value of the 32-bit attempt counter.\<close>

theorem Backoff_closed_form:
  "Backoff attempts = (if attempts < 1 then 0 else min (5 * second * 2 ^ nat (attempts - 1)) (10 * minute))"
  using double_until_min [of "5 * second"] by (simp add: Backoff_def second_def)

text \<open>C18. A healthy pass delivers: when no listed subscription is paused, tokens are readable, tenants
  accept, no attempt is waiting and no permanent failure stands, one pass leaves every record in the
  alert's state, every subscription whose filter accepts the alert has one, and the subscriptions'
  statuses count nothing pending for it. If the alert is resolved and past its retention, the same
  pass purges it.\<close>

definition relay_healthy :: "relay_env \<Rightarrow> frame_alert \<Rightarrow> bool" where
  "relay_healthy env fa \<longleftrightarrow> (\<forall>sub \<in> set (re_subs env).
     \<not> sub_paused sub \<and> (\<exists>tok. token env sub = Inr tok)
     \<and> (\<forall>tok p. outcome_of (re_post env (sub_url sub) tok p) = (Delivered, None))
     \<and> (\<forall>r. existing (fa_deliveries fa) (sub_name sub) = Some r \<longrightarrow>
          \<not> ad_permanentFailure (refreshed sub (fa_state fa) r) \<and> due_wait r (re_now env) \<le> 0))"

lemma due_wait_refreshed [simp]: "due_wait (refreshed sub st d) t = due_wait d t"
  by (cases "ad_lastAttemptAt d") (simp_all add: due_wait_def refreshed_def Let_def)

lemma deliver_healthy:
  assumes "\<not> sub_paused sub" "token env sub = Inr tok" "\<not> ad_permanentFailure d" "due_wait d (re_now env) \<le> 0"
    and "\<And>tok p. outcome_of (re_post env (sub_url sub) tok p) = (Delivered, None)"
  shows "ad_deliveredState (fst (deliver env sub fa state d)) = state"
  using assms by (simp add: deliver_def Send_def Let_def split: prod.splits)

lemma relay_sub_healthy:
  assumes "relay_healthy env fa" "sub \<in> set (re_subs env)" "relay_sub env fa sub = (d, w, ms)"
    and "fa_state fa \<in> {AlertStateFiring, AlertStateResolved}" "stored_ok (fa_deliveries fa)"
  shows "(\<forall>r. d = Some r \<longrightarrow> ad_deliveredState r = fa_state fa) \<and> (Matches (sub_filter sub) fa \<longrightarrow> d \<noteq> None)"
proof (cases "\<not> Matches (sub_filter sub) fa \<and> \<not> keepDriving (existing (fa_deliveries fa) (sub_name sub))")
  case True
  then have "d = unmatchedDelivery (sub_name sub) (existing (fa_deliveries fa) (sub_name sub)) (fa_state fa)"
    using assms(3) by (simp add: relay_sub_def Let_def)
  then show ?thesis using True old_ok [OF assms(5), of "sub_name sub"]
    by (auto simp: unmatchedDelivery_def record_ok_def split: if_splits option.splits)
next
  case False
  let ?old = "existing (fa_deliveries fa) (sub_name sub)"
  let ?d = "refreshed sub (fa_state fa) (case ?old of Some r \<Rightarrow> r | None \<Rightarrow> empty_delivery (sub_name sub))"
  obtain tok where h: "\<not> sub_paused sub" "token env sub = Inr tok"
      "\<And>tok p. outcome_of (re_post env (sub_url sub) tok p) = (Delivered, None)"
    using assms(1,2) by (auto simp: relay_healthy_def)
  have "\<not> ad_permanentFailure (refreshed sub st (empty_delivery n))" for st n
    by (simp add: refreshed_def empty_delivery_def)
  moreover have "due_wait (empty_delivery n) t \<le> 0" for n t by (simp add: due_wait_def empty_delivery_def)
  ultimately have "\<not> ad_permanentFailure ?d" "due_wait ?d (re_now env) \<le> 0"
    using assms(1,2) by (auto simp: relay_healthy_def split: option.splits)
  from deliver_healthy [OF h(1,2) this h(3)]
  have "ad_deliveredState (fst (deliver env sub fa (fa_state fa) ?d)) = fa_state fa" .
  then show ?thesis using False assms(3) by (auto simp: relay_sub_def Let_def split: prod.splits if_splits)
qed

theorem relay_healthy_delivers:
  assumes "relay_healthy env fa" "fa_state fa \<in> {AlertStateFiring, AlertStateResolved}" "\<not> re_listError env"
    and "distinct (map sub_name (re_subs env))" "stored_ok (fa_deliveries fa)"
    and "\<not> rw_patchFails rw" "rw_delete rw = DeleteOK"
  shows "\<exists>nexts. (\<forall>r \<in> set nexts. ad_deliveredState r = fa_state fa)
    \<and> (\<forall>sub \<in> set (re_subs env). Matches (sub_filter sub) fa \<longrightarrow> (\<exists>r \<in> set nexts. ad_subscription r = sub_name sub))
    \<and> (\<forall>sub \<in> set (re_subs env). dt_pending (tallyDeliveries sub [fa\<lparr>fa_deliveries := nexts\<rparr>]) = 0)
    \<and> (case fst (relay_Reconcile env rw fa fa) of
         None \<Rightarrow> fa_state fa = AlertStateResolved
       | Some x \<Rightarrow> x = fa\<lparr>fa_deliveries := nexts\<rparr> \<and>
           (fa_state fa = AlertStateResolved \<longrightarrow> (\<forall>e. as_endsAt (fa_spec fa) = Some e \<longrightarrow> re_now env < e + re_retention env)))"
proof -
  obtain nexts q ns where p: "relay_pass env fa = (nexts, q, ns)" by (cases "relay_pass env fa") blast
  note c = relay_pass_cases [OF p assms(4,2,5)]
  have own: "(\<forall>r. existing nexts (sub_name sub) = Some r \<longrightarrow> ad_deliveredState r = fa_state fa)
      \<and> (Matches (sub_filter sub) fa \<longrightarrow> existing nexts (sub_name sub) \<noteq> None)" if "sub \<in> set (re_subs env)" for sub
    using c that relay_sub_healthy [OF assms(1) that _ assms(2,5)] by blast
  have all: "\<forall>r \<in> set nexts. ad_deliveredState r = fa_state fa"
  proof
    fix r assume r: "r \<in> set nexts"
    then have e: "existing nexts (ad_subscription r) = Some r"
      using c [THEN conjunct1] by (simp add: existing_eq stored_ok_def)
    obtain sub where sub: "sub \<in> set (re_subs env)" "ad_subscription r = sub_name sub"
      using c [THEN conjunct2, THEN conjunct1] r by blast
    show "ad_deliveredState r = fa_state fa" using own [OF sub(1)] e sub(2) by simp
  qed
  have some: "\<exists>r \<in> set nexts. ad_subscription r = sub_name sub" if "sub \<in> set (re_subs env)" "Matches (sub_filter sub) fa" for sub
    using own [OF that(1)] that(2) existing_in existing_name by fastforce
  have pending: "dt_pending (tallyDeliveries sub [fa\<lparr>fa_deliveries := nexts\<rparr>]) = 0" if "sub \<in> set (re_subs env)" for sub
  proof -
    have "Matches (sub_filter sub) (fa\<lparr>fa_deliveries := nexts\<rparr>) = Matches (sub_filter sub) fa" by (simp add: Matches_def)
    then have "\<not> due_for sub (fa\<lparr>fa_deliveries := nexts\<rparr>)" using own [OF that]
      by (auto simp: due_for_def stillOpenForResolution_def keepDriving_def split: option.splits)
    then show ?thesis by (simp add: tallyDeliveries_pending)
  qed
  have "fst (relay_finish env rw fa nexts q fa) =
      (case as_endsAt (fa_spec fa) of None \<Rightarrow> Some (fa\<lparr>fa_deliveries := nexts\<rparr>)
       | Some e \<Rightarrow> if fa_state fa = AlertStateResolved \<and> allDelivered nexts (fa_state fa) \<and> \<not> re_now env < e + re_retention env
                   then None else Some (fa\<lparr>fa_deliveries := nexts\<rparr>))"
    using assms(6,7)
    by (cases "nexts = fa_deliveries fa"; cases "as_endsAt (fa_spec fa)") (auto simp: relay_finish_def Let_def)
  moreover have "fst (relay_Reconcile env rw fa fa) = fst (relay_finish env rw fa nexts q fa)"
    using assms(2,3) p by (auto simp: relay_Reconcile_def split: prod.splits)
  moreover have "allDelivered nexts (fa_state fa)" using all by (simp add: allDelivered_def list_all_iff)
  ultimately have "case fst (relay_Reconcile env rw fa fa) of
         None \<Rightarrow> fa_state fa = AlertStateResolved
       | Some x \<Rightarrow> x = fa\<lparr>fa_deliveries := nexts\<rparr> \<and>
           (fa_state fa = AlertStateResolved \<longrightarrow> (\<forall>e. as_endsAt (fa_spec fa) = Some e \<longrightarrow> re_now env < e + re_retention env))"
    by (auto split: option.splits)
  with all some pending show ?thesis by blast
qed

theorem relay_healthy_delivers_witness:
  "relay_healthy w_env w_firing \<and> fst (relay_Reconcile w_env w_write w_firing w_firing) = Some w_delivered
   \<and> (\<exists>r. r \<in> set (fa_deliveries w_delivered) \<and> ad_subscription r = sub_name w_sub \<and> ad_deliveredState r = AlertStateFiring)"
proof -
  have h: "relay_healthy w_env w_firing"
    by (simp add: relay_healthy_def w_env_def w_sub_def token_def outcome_of_def existing_def)
  have m: "Matches (sub_filter w_sub) w_firing" "w_sub \<in> set (re_subs w_env)"
    by (simp_all add: Matches_def w_sub_def w_env_def)
  have ok: "stored_ok (fa_deliveries w_firing)" "\<not> re_listError w_env" "\<not> rw_patchFails w_write" "rw_delete w_write = DeleteOK"
    by (simp_all add: stored_ok_def w_env_def w_write_def)
  have st: "fa_state w_firing \<in> {AlertStateFiring, AlertStateResolved}" by simp
  obtain nexts where n: "\<forall>r \<in> set nexts. ad_deliveredState r = fa_state w_firing"
      "\<exists>r \<in> set nexts. ad_subscription r = sub_name w_sub" "w_delivered = w_firing\<lparr>fa_deliveries := nexts\<rparr>"
    using relay_healthy_delivers [OF h st ok(2) w_states_ok(7) ok(1,3,4)] m unfolding w_pass_firing by auto
  have "nexts = fa_deliveries w_delivered" using arg_cong [OF n(3), of fa_deliveries] by simp
  with n have "\<exists>r \<in> set (fa_deliveries w_delivered). ad_subscription r = sub_name w_sub \<and> ad_deliveredState r = AlertStateFiring"
    by auto
  then show ?thesis using h by (auto simp: w_pass_firing)
qed

section \<open>A lost status write\<close>

definition w_again :: frame_alert where
  "w_again = w_firing\<lparr>fa_deliveries := [w_done ''Resolved'']\<rparr>"

definition w_over :: frame_alert where
  "w_over = w_again\<lparr>fa_spec := w_spec (Some 8000000000), fa_state := ''Resolved''\<rparr>"

text \<open>A notification whose status write is lost is forgotten: an alert that fires again after a
  delivered resolution is announced to the tenant, the write of the delivery fails, and the alert
  resolves before the next pass. That pass finds the old record, sends nothing and purges the alert:
  the tenant was told of the new incident and is never told of its end, and with the record gone no
  later pass can.\<close>

theorem lost_status_write_strands_incident:
  "relay_Reconcile w_env (w_write\<lparr>rw_patchFails := True\<rparr>) w_again w_again = (Some w_again, 0, True, [w_note ''Firing''])
   \<and> relay_Reconcile w_env w_write w_over w_over = (None, 0, False, [])
   \<and> fa_deliveries w_over = fa_deliveries w_again"
proof (intro conjI)
  show "relay_Reconcile w_env (w_write\<lparr>rw_patchFails := True\<rparr>) w_again w_again = (Some w_again, 0, True, [w_note ''Firing''])"
    by code_simp
  show "relay_Reconcile w_env w_write w_over w_over = (None, 0, False, [])"
    by code_simp
  show "fa_deliveries w_over = fa_deliveries w_again" by (simp add: w_over_def)
qed

end
