(* ===== verification/Object_Status.thy ===== *)
theory Object_Status
  imports Go_Text
begin

text \<open>
  What the controllers of \<open>internal/controller/frame\<close> share when they write an object's status: conditions,
  and texts cut to the length the schema allows (\<open>framemachine_controller.go\<close>).
\<close>

record condition =
  cd_status :: string
  cd_reason :: string
  cd_message :: string
  cd_observedGeneration :: int

definition truncateString :: "string \<Rightarrow> nat \<Rightarrow> string" where
  "truncateString s n = (let r = runes s in if length r \<le> n then s else concat (take n r))"

text \<open>\<open>meta.SetStatusCondition\<close> and \<open>meta.RemoveStatusCondition\<close> on the list of an object's conditions, keyed by type.\<close>

fun SetStatusCondition :: "string \<Rightarrow> condition \<Rightarrow> (string \<times> condition) list \<Rightarrow> (string \<times> condition) list" where
  "SetStatusCondition t c [] = [(t, c)]"
| "SetStatusCondition t c ((u, d) # cs) = (if u = t then (t, c) # cs else (u, d) # SetStatusCondition t c cs)"

definition RemoveStatusCondition :: "string \<Rightarrow> (string \<times> condition) list \<Rightarrow> (string \<times> condition) list" where
  "RemoveStatusCondition t cs = filter (\<lambda>x. fst x \<noteq> t) cs"

end
