(* ===== verification/Machine_Alerts.thy ===== *)
theory Machine_Alerts
  imports Health_Verdict Relay_Theorems Object_Status
begin

text \<open>
  \<open>internal/controller/frame/framemachine_storagehealth.go\<close>: what a machine's pass does with its
  assessment. The open alerts are read back from the stored \<open>FrameAlert\<close>s, the assessment decides, and
  \<^const>\<open>Record\<close> raises and resolves. The iteration order of the Go map of open alerts is the
  environment's \<open>me_order\<close>; one reading of the clock stands for the few the pass takes.
\<close>

section \<open>Data\<close>

definition storageAlertSource :: string where "storageAlertSource = ''frame-storage-health''"

text \<open>\<open>status.conditions\<close> is a map from the condition type, which \<open>meta.SetStatusCondition\<close> updates.\<close>

record frame_machine =
  fm_name :: string
  fm_namespace :: string
  fm_generation :: int
  fm_nodeRef :: string
  fm_alertRelease :: "(string \<times> instant) option"
  fm_reading :: machine_status
  fm_lastAlertReleaseAt :: "instant option"
  fm_lastAlertRelease :: string
  fm_conditions :: "string \<rightharpoonup> condition"

datatype 'p policy_read = PolicyFound 'p | PolicyNotFound | PolicyError

record machine_env =
  me_now :: instant
  me_api :: alert_api
  me_hasAlerts :: bool
  me_listError :: "string option"
  me_storagePolicy :: "(int \<times> int) policy_read"
  me_netPolicy :: "network_policy policy_read"
  me_machineGone :: "string \<Rightarrow> string \<Rightarrow> bool"
  me_sum256 :: "string \<Rightarrow> string"
  me_order :: "(key \<times> frame_alert) list \<Rightarrow> (key \<times> frame_alert) list"

definition fa_label :: "frame_alert \<Rightarrow> string \<Rightarrow> string" where
  "fa_label fa k = label_of (as_labels (fa_spec fa)) k"

definition alert_key :: "frame_alert \<Rightarrow> key" where
  "alert_key fa = Key (as_alertName (fa_spec fa)) (fa_label fa ''device'')"

text \<open>The map \<open>open\<close> that goes to the assessment, from the map of open alerts.\<close>

definition open_of :: "(key \<times> frame_alert) list \<Rightarrow> open_alerts" where
  "open_of alerts = map (\<lambda>(k, fa). (k, fa_label fa ''stack'')) alerts"

section \<open>Reading and resolving alerts\<close>

definition resolveStorageAlert ::
  "machine_env \<Rightarrow> frame_alert \<Rightarrow> frame_alert list \<Rightarrow> string option \<times> frame_alert list" where
  "resolveStorageAlert env fa st =
     Record (me_api env) (me_now env)
       \<lparr>al_status = StatusResolved, al_labels = as_labels (fa_spec fa), al_annotations = as_annotations (fa_spec fa),
        al_startsAt = as_startsAt (fa_spec fa), al_endsAt = me_now env, al_generatorURL = '''',
        al_fingerprint = as_fingerprint (fa_spec fa)\<rparr> st"

definition is_open_storage :: "frame_alert \<Rightarrow> bool" where
  "is_open_storage fa \<longleftrightarrow> fa_label fa ''source'' = storageAlertSource \<and> fa_state fa \<noteq> AlertStateResolved"

definition owned_by :: "string \<Rightarrow> string \<Rightarrow> frame_alert \<Rightarrow> bool" where
  "owned_by ns name fa \<longleftrightarrow> fa_label fa ''machine'' = name \<and> fa_label fa ''machine_namespace'' = ns"

text \<open>The loop over the listed alerts; an error keeps what was written before it.\<close>

fun open_loop ::
  "machine_env \<Rightarrow> string \<Rightarrow> string \<Rightarrow> frame_alert list \<Rightarrow> (key \<times> frame_alert) list \<Rightarrow> frame_alert list
   \<Rightarrow> (string + (key \<times> frame_alert) list) \<times> frame_alert list" where
  "open_loop env ns name [] opn st = (Inr opn, st)"
| "open_loop env ns name (fa # fas) opn st =
     (if \<not> is_open_storage fa then open_loop env ns name fas opn st
      else if owned_by ns name fa then open_loop env ns name fas (AList.update (alert_key fa) fa opn) st
      else if me_machineGone env (fa_label fa ''machine_namespace'') (fa_label fa ''machine'') then
        (case resolveStorageAlert env fa st of
           (Some e, st) \<Rightarrow> (Inl e, st)
         | (None, st) \<Rightarrow> open_loop env ns name fas opn st)
      else open_loop env ns name fas opn st)"

definition openStorageAlerts ::
  "machine_env \<Rightarrow> string \<Rightarrow> string \<Rightarrow> frame_alert list
   \<Rightarrow> (string + (key \<times> frame_alert) list) \<times> frame_alert list" where
  "openStorageAlerts env ns name st =
     (if \<not> me_hasAlerts env then (Inr [], st)
      else case me_listError env of
        Some e \<Rightarrow> (Inl e, st)
      | None \<Rightarrow>
          (case open_loop env ns name st [] st of
             (Inl e, st) \<Rightarrow> (Inl e, st)
           | (Inr opn, st) \<Rightarrow> (Inr (me_order env opn), st)))"

text \<open>A loop of writes that stops at the first error.\<close>

fun write_all ::
  "('x \<Rightarrow> frame_alert list \<Rightarrow> string option \<times> frame_alert list) \<Rightarrow> 'x list \<Rightarrow> frame_alert list
   \<Rightarrow> string option \<times> frame_alert list" where
  "write_all wr [] st = (None, st)"
| "write_all wr (x # xs) st =
     (case wr x st of
        (Some e, st) \<Rightarrow> (Some e, st)
      | (None, st) \<Rightarrow> write_all wr xs st)"

text \<open>For a machine that is gone.\<close>

definition resolveStorageAlerts ::
  "machine_env \<Rightarrow> string \<Rightarrow> string \<Rightarrow> frame_alert list \<Rightarrow> string option \<times> frame_alert list" where
  "resolveStorageAlerts env ns name st =
     (case openStorageAlerts env ns name st of
        (Inl e, st) \<Rightarrow> (Some e, st)
      | (Inr opn, st) \<Rightarrow> write_all (resolveStorageAlert env) (map snd opn) st)"

section \<open>Raising\<close>

definition finding_alert :: "machine_env \<Rightarrow> frame_machine \<Rightarrow> (key \<times> frame_alert) list \<Rightarrow> finding \<Rightarrow> alert" where
  "finding_alert env fm alerts f =
     \<lparr>al_status = StatusFiring,
      al_labels = [(''alertname'', k_check (f_key f)), (''device'', k_device (f_key f)), (''machine'', fm_name fm),
        (''machine_namespace'', fm_namespace fm), (''node'', fm_nodeRef fm), (''severity'', f_severity f),
        (''source'', storageAlertSource), (''stack'', f_scope f)],
      al_annotations = [(''summary'', f_message f)],
      al_startsAt = (case map_of alerts (f_key f) of Some fa \<Rightarrow> as_startsAt (fa_spec fa) | None \<Rightarrow> me_now env),
      al_endsAt = 0, al_generatorURL = '''',
      al_fingerprint = LocalFingerprint (me_sum256 env)
        [storageAlertSource, fm_namespace fm, fm_name fm, k_check (f_key f), k_device (f_key f)]\<rparr>"

definition raise_finding ::
  "machine_env \<Rightarrow> frame_machine \<Rightarrow> (key \<times> frame_alert) list \<Rightarrow> finding \<Rightarrow> frame_alert list
   \<Rightarrow> string option \<times> frame_alert list" where
  "raise_finding env fm alerts f st = Record (me_api env) (me_now env) (finding_alert env fm alerts f) st"

definition writeStorageAlerts ::
  "machine_env \<Rightarrow> frame_machine \<Rightarrow> assessment \<Rightarrow> (key \<times> frame_alert) list \<Rightarrow> frame_alert list
   \<Rightarrow> string option \<times> frame_alert list" where
  "writeStorageAlerts env fm a alerts st =
     (if \<not> me_hasAlerts env then (None, st)
      else case write_all (raise_finding env fm alerts) (findings a) st of
        (Some e, st) \<Rightarrow> (Some e, st)
      | (None, st) \<Rightarrow>
          write_all (resolveStorageAlert env)
            (map snd (filter (\<lambda>(k, fa). \<not> (fires a k \<or> Keeps a k (fa_label fa ''stack''))) alerts)) st)"

section \<open>Releasing\<close>

text \<open>The loop of \<open>releaseStorageAlerts\<close>: what is left of the open alerts, and the two counts.\<close>

fun release_loop ::
  "machine_env \<Rightarrow> assessment \<Rightarrow> string \<Rightarrow> (key \<times> frame_alert) list \<Rightarrow> nat \<Rightarrow> nat \<Rightarrow> frame_alert list
   \<Rightarrow> string option \<times> (key \<times> frame_alert) list \<times> nat \<times> nat \<times> frame_alert list" where
  "release_loop env a device [] closed kept st = (None, [], closed, kept, st)"
| "release_loop env a device ((k, fa) # alerts) closed kept st =
     (if k_device k \<noteq> device then
        (let (e, rest, c, n, st) = release_loop env a device alerts closed kept st in (e, (k, fa) # rest, c, n, st))
      else if fires a k then
        (let (e, rest, c, n, st) = release_loop env a device alerts closed (kept + 1) st in (e, (k, fa) # rest, c, n, st))
      else if Keeps a k (fa_label fa ''stack'') then
        (case resolveStorageAlert env fa st of
           (Some e, st) \<Rightarrow> (Some e, (k, fa) # alerts, closed, kept, st)
         | (None, st) \<Rightarrow> release_loop env a device alerts (closed + 1) kept st)
      else
        (let (e, rest, c, n, st) = release_loop env a device alerts closed kept st in (e, (k, fa) # rest, c, n, st)))"

definition release_due :: "machine_env \<Rightarrow> frame_machine \<Rightarrow> string option" where
  "release_due env fm =
     (case fm_alertRelease fm of
        None \<Rightarrow> None
      | Some (device, requestedAt) \<Rightarrow>
          if \<not> me_hasAlerts env then None
          else (case fm_lastAlertReleaseAt fm of
                  Some lastAt \<Rightarrow> if requestedAt > lastAt then Some device else None
                | None \<Rightarrow> Some device))"

definition releaseStorageAlerts ::
  "machine_env \<Rightarrow> frame_machine \<Rightarrow> assessment \<Rightarrow> (key \<times> frame_alert) list \<Rightarrow> frame_alert list
   \<Rightarrow> frame_machine \<times> (key \<times> frame_alert) list \<times> frame_alert list" where
  "releaseStorageAlerts env fm a alerts st =
     (case release_due env fm of
        None \<Rightarrow> (fm, alerts, st)
      | Some device \<Rightarrow>
          (case release_loop env a device alerts 0 0 st of
             (Some e, alerts, _, _, st) \<Rightarrow> (fm, alerts, st)
           | (None, alerts, closed, kept, st) \<Rightarrow>
               (fm\<lparr>fm_lastAlertReleaseAt := Some (trunc_second (me_now env)),
                   fm_lastAlertRelease := truncateString (device @ '': '' @ nat_str closed @ '' alert(s) closed, ''
                     @ nat_str kept @ '' kept because a read still shows them'') 256\<rparr>, alerts, st)))"

section \<open>The pass\<close>

definition set_verdicts :: "frame_machine \<Rightarrow> assessment \<Rightarrow> open_alerts \<Rightarrow> frame_machine" where
  "set_verdicts fm a opn =
     fm\<lparr>fm_conditions := fold (\<lambda>check cs. cs(check \<mapsto>
          (let v = Verdict a check opn in \<lparr>cd_status = v_status v, cd_reason = v_reason v, cd_message = v_message v,
             cd_observedGeneration = fm_generation fm\<rparr>))) Checks (fm_conditions fm)\<rparr>"

definition machine_assessment ::
  "machine_env \<Rightarrow> frame_machine \<Rightarrow> bool \<Rightarrow> (key \<times> frame_alert) list \<Rightarrow> (int \<times> int) option \<Rightarrow> assessment" where
  "machine_assessment env fm inventoryFresh alerts policy =
     (let netPolicy = (case me_netPolicy env of PolicyFound np \<Rightarrow> Some np | _ \<Rightarrow> None);
          netUnread = (case me_netPolicy env of PolicyError \<Rightarrow> ''the NetworkHealthPolicy could not be read'' | _ \<Rightarrow> '''');
          expectations = (NetExpectationsFrom netPolicy (fm_nodeRef fm))\<lparr>ne_unread := netUnread\<rparr>
      in Assess (fm_reading fm) (ThresholdsFrom policy) expectations inventoryFresh (open_of alerts) (me_now env))"

definition assessStorage ::
  "machine_env \<Rightarrow> bool \<Rightarrow> frame_machine \<Rightarrow> frame_alert list \<Rightarrow> frame_machine \<times> frame_alert list" where
  "assessStorage env inventoryFresh fm st =
     (case me_storagePolicy env of
        PolicyError \<Rightarrow> (fm, st)
      | p \<Rightarrow>
          (let policy = (case p of PolicyFound x \<Rightarrow> Some x | _ \<Rightarrow> None) in
           case openStorageAlerts env (fm_namespace fm) (fm_name fm) st of
             (Inl e, st) \<Rightarrow> (fm, st)
           | (Inr alerts, st) \<Rightarrow>
               (let a = machine_assessment env fm inventoryFresh alerts policy;
                    (fm, alerts, st) = releaseStorageAlerts env fm a alerts st;
                    (e, st) = writeStorageAlerts env fm a alerts st
                in (set_verdicts fm a (open_of alerts), st))))"

end
