(* ===== verification/Machine_Refinement.thy ===== *)
theory Machine_Refinement
  imports Machine_Alerts
begin

text \<open>
  The abstract picture of a machine's alerts, the set of open keys with their scopes, and the proof
  that a pass over the stored \<open>FrameAlert\<close>s computes on it: what the assessment finds is open afterwards,
  what it keeps stays open unless released, everything else is closed.
\<close>

section \<open>Stored alerts\<close>

definition alert_parts :: "frame_alert \<Rightarrow> string list" where
  "alert_parts fa = [storageAlertSource, fa_label fa ''machine_namespace'', fa_label fa ''machine'',
     as_alertName (fa_spec fa), fa_label fa ''device'']"

definition finding_parts :: "frame_machine \<Rightarrow> finding \<Rightarrow> string list" where
  "finding_parts fm f = [storageAlertSource, fm_namespace fm, fm_name fm, k_check (f_key f), k_device (f_key f)]"

definition object_of :: "machine_env \<Rightarrow> string list \<Rightarrow> string" where
  "object_of env parts = AlertObjectName (LocalFingerprint (me_sum256 env) parts)"

definition from_storage :: "frame_alert \<Rightarrow> bool" where
  "from_storage fa \<longleftrightarrow> fa_label fa ''source'' = storageAlertSource"

text \<open>An alert this controller wrote: named by what identifies it, with bounded labels.\<close>

definition object_ok :: "machine_env \<Rightarrow> frame_alert \<Rightarrow> bool" where
  "object_ok env fa \<longleftrightarrow> fa_name fa = object_of env (alert_parts fa)
     \<and> as_fingerprint (fa_spec fa) = LocalFingerprint (me_sum256 env) (alert_parts fa)
     \<and> map_fits (as_labels (fa_spec fa)) \<and> map_fits (as_annotations (fa_spec fa))
     \<and> as_alertName (fa_spec fa) = truncate_str (fa_label fa ''alertname'') 256"

definition store_ok :: "machine_env \<Rightarrow> frame_alert list \<Rightarrow> bool" where
  "store_ok env st \<longleftrightarrow> distinct (map fa_name st) \<and> (\<forall>fa \<in> set st. from_storage fa \<longrightarrow> object_ok env fa)"

definition open_here :: "string \<Rightarrow> string \<Rightarrow> frame_alert \<Rightarrow> bool" where
  "open_here ns name fa \<longleftrightarrow> is_open_storage fa \<and> owned_by ns name fa"

text \<open>The abstract state: the keys open for a machine.\<close>

definition open_keys :: "string \<Rightarrow> string \<Rightarrow> frame_alert list \<Rightarrow> key set" where
  "open_keys ns name st = {alert_key fa | fa. fa \<in> set st \<and> open_here ns name fa}"

lemma find_mem: "distinct (map fa_name st) \<Longrightarrow> find_alert st n = Some fa \<longleftrightarrow> fa \<in> set st \<and> fa_name fa = n"
proof
  assume d: "distinct (map fa_name st)" and fa: "fa \<in> set st \<and> fa_name fa = n"
  then obtain x where x: "find_alert st n = Some x"
    unfolding find_alert_def by (metis (mono_tags, lifting) find_None_iff not_Some_eq)
  then have "x \<in> set st" "fa_name x = n" by (auto simp: find_alert_def find_Some_iff)
  then have "x = fa" using distinct_map_unique [OF d] fa by blast
  with x show "find_alert st n = Some fa" by simp
qed (auto simp: find_alert_def find_Some_iff)

lemma open_keys_slots: "distinct (map fa_name st) \<Longrightarrow>
    open_keys ns name st = {alert_key fa | fa n. find_alert st n = Some fa \<and> open_here ns name fa}"
  by (auto simp: open_keys_def find_mem)

lemma names_put: "map fa_name (put_alert fa st) = map fa_name st"
  by (simp add: put_alert_def)

lemma Record_names: "distinct (map fa_name st) \<Longrightarrow> distinct (map fa_name (snd (Record api now a st)))"
proof -
  assume d: "distinct (map fa_name st)"
  have "map fa_name (snd (patchStatus api fa s t st')) = map fa_name st'" for fa s t st'
    by (simp add: patchStatus_def names_put split: option.splits)
  moreover have "n \<notin> fa_name ` set st" if "find_alert st n = None" for n
    using that by (auto simp: find_alert_def find_None_iff)
  ultimately show ?thesis using d by (auto simp: Record_def Let_def names_put split: option.splits)
qed

lemma Record_up: "fst (Record api_up now a st) = None"
  by (simp add: Record_def api_up_def Let_def patchStatus_def split: option.splits)

text \<open>One successful write: the object under the alert's name is replaced, nothing else moves.\<close>

lemma Record_slot:
  assumes "Record api_up now a st = (e, st')"
  shows "e = None" "n \<noteq> AlertObjectName (al_fingerprint a) \<Longrightarrow> find_alert st' n = find_alert st n"
    "\<exists>fa. find_alert st' (AlertObjectName (al_fingerprint a)) = Some fa \<and> fa_spec fa = recorded_spec a
      \<and> fa_state fa = recorded_state a"
    "distinct (map fa_name st) \<Longrightarrow> distinct (map fa_name st')"
proof -
  show e: "e = None" using Record_up [of now a st] assms by simp
  show "n \<noteq> AlertObjectName (al_fingerprint a) \<Longrightarrow> find_alert st' n = find_alert st n"
    using Record_frame [of n a api_up now st] assms by simp
  show "\<exists>fa. find_alert st' (AlertObjectName (al_fingerprint a)) = Some fa \<and> fa_spec fa = recorded_spec a
      \<and> fa_state fa = recorded_state a"
    using Record_stores [of api_up now a st st'] assms e by (auto simp: records_def)
  show "distinct (map fa_name st) \<Longrightarrow> distinct (map fa_name st')"
    using Record_names [of st api_up now a] assms by simp
qed

text \<open>The labels that place an alert, all kept by a resolution.\<close>

definition same_place :: "frame_alert \<Rightarrow> frame_alert \<Rightarrow> bool" where
  "same_place fa fb \<longleftrightarrow> fa_name fb = fa_name fa \<and> as_labels (fa_spec fb) = as_labels (fa_spec fa)
     \<and> as_annotations (fa_spec fb) = as_annotations (fa_spec fa)
     \<and> as_alertName (fa_spec fb) = as_alertName (fa_spec fa) \<and> as_fingerprint (fa_spec fb) = as_fingerprint (fa_spec fa)"

lemma same_place_ok: "same_place fa fb \<Longrightarrow> object_ok env fa \<Longrightarrow> object_ok env fb"
  by (simp add: same_place_def object_ok_def alert_parts_def fa_label_def)

lemma resolve_slot:
  assumes "me_api env = api_up" "object_ok env fa" "resolveStorageAlert env fa st = (e, st')"
  shows "e = None" "n \<noteq> fa_name fa \<Longrightarrow> find_alert st' n = find_alert st n"
    "\<exists>fb. find_alert st' (fa_name fa) = Some fb \<and> fa_state fb = AlertStateResolved \<and> same_place fa fb"
    "distinct (map fa_name st) \<Longrightarrow> distinct (map fa_name st')"
proof -
  have n: "AlertObjectName (as_fingerprint (fa_spec fa)) = fa_name fa"
    using assms(2) by (simp add: object_ok_def object_of_def)
  note R = Record_slot [OF assms(3) [unfolded resolveStorageAlert_def assms(1)], simplified, unfolded n]
  show "e = None" by (rule R(1))
  show "n \<noteq> fa_name fa \<Longrightarrow> find_alert st' n = find_alert st n" by (rule R(2))
  show "distinct (map fa_name st) \<Longrightarrow> distinct (map fa_name st')" by (rule R(4))
  obtain fb where fb: "find_alert st' (fa_name fa) = Some fb" "fa_state fb = AlertStateResolved"
    "as_labels (fa_spec fb) = BoundMap (as_labels (fa_spec fa))"
    "as_annotations (fa_spec fb) = BoundMap (as_annotations (fa_spec fa))"
    "as_alertName (fa_spec fb) = truncate_str (label_of (as_labels (fa_spec fa)) ''alertname'') 256"
    "as_fingerprint (fa_spec fb) = as_fingerprint (fa_spec fa)"
    using R(3) by (auto simp: recorded_state_def recorded_spec_def)
  then have "same_place fa fb" using assms(2) find_alert_name [OF fb(1)]
    by (simp add: same_place_def object_ok_def BoundMap_id fa_label_def)
  then show "\<exists>fb. find_alert st' (fa_name fa) = Some fb \<and> fa_state fb = AlertStateResolved \<and> same_place fa fb"
    using fb by blast
qed

section \<open>The loops\<close>

text \<open>What a write of one object promises: it succeeds, moves nothing but the object it names, and leaves
  there what \<open>post\<close> says. A loop of such writes then touches the named objects only.\<close>

locale slot_writer =
  fixes wr :: "'x \<Rightarrow> frame_alert list \<Rightarrow> string option \<times> frame_alert list"
    and ok :: "'x \<Rightarrow> bool" and target :: "'x \<Rightarrow> string" and post :: "'x \<Rightarrow> frame_alert \<Rightarrow> bool"
  assumes succeeds: "ok x \<Longrightarrow> wr x st = (e, st') \<Longrightarrow> e = None"
    and frame: "ok x \<Longrightarrow> wr x st = (e, st') \<Longrightarrow> n \<noteq> target x \<Longrightarrow> find_alert st' n = find_alert st n"
    and writes: "ok x \<Longrightarrow> wr x st = (e, st') \<Longrightarrow> \<exists>fa. find_alert st' (target x) = Some fa \<and> post x fa"
    and names: "ok x \<Longrightarrow> wr x st = (e, st') \<Longrightarrow> distinct (map fa_name st) \<Longrightarrow> distinct (map fa_name st')"
begin

lemma write_all_slots:
  assumes "\<forall>x \<in> set xs. ok x" "write_all wr xs st = (e, st')" "distinct (map fa_name st)"
  shows "e = None \<and> distinct (map fa_name st') \<and> (\<forall>n. n \<notin> target ` set xs \<longrightarrow> find_alert st' n = find_alert st n)
    \<and> (\<forall>n \<in> target ` set xs. \<exists>x fa. x \<in> set xs \<and> n = target x \<and> find_alert st' n = Some fa \<and> post x fa)"
  using assms
proof (induction xs arbitrary: st)
  case (Cons x xs)
  obtain e1 st1 where r: "wr x st = (e1, st1)" by fastforce
  have ok: "ok x" using Cons.prems(1) by simp
  have rest: "write_all wr xs st1 = (e, st')" using Cons.prems(2) r succeeds [OF ok r] by simp
  have IH: "e = None" "distinct (map fa_name st')" "\<And>n. n \<notin> target ` set xs \<Longrightarrow> find_alert st' n = find_alert st1 n"
    "\<And>n. n \<in> target ` set xs \<Longrightarrow> \<exists>x fa. x \<in> set xs \<and> n = target x \<and> find_alert st' n = Some fa \<and> post x fa"
    using Cons.IH [OF _ rest names [OF ok r Cons.prems(3)]] Cons.prems(1) by auto
  have own: "\<exists>y fa. y \<in> set (x # xs) \<and> n = target y \<and> find_alert st' n = Some fa \<and> post y fa"
    if "n \<in> target ` set (x # xs)" for n
  proof (cases "n \<in> target ` set xs")
    case True
    then show ?thesis using IH(4) by fastforce
  next
    case False
    then have "n = target x" "find_alert st' n = find_alert st1 n" using that IH(3) by auto
    then show ?thesis using writes [OF ok r] by fastforce
  qed
  show ?case using IH(1,2,3) own frame [OF ok r] by simp
qed simp

end

text \<open>Against an API server that answers, resolving a well-formed alert is such a write.\<close>

interpretation resolver: slot_writer "resolveStorageAlert (env\<lparr>me_api := api_up\<rparr>)" "object_ok env" fa_name
  "\<lambda>fa fb. fa_state fb = AlertStateResolved \<and> same_place fa fb" for env
proof unfold_locales
  fix fa st e st' n assume ok: "object_ok env fa" and r: "resolveStorageAlert (env\<lparr>me_api := api_up\<rparr>) fa st = (e, st')"
  have "object_ok (env\<lparr>me_api := api_up\<rparr>) fa" using ok by (simp add: object_ok_def object_of_def)
  note S = resolve_slot [OF _ this r, simplified]
  show "e = None" "n \<noteq> fa_name fa \<Longrightarrow> find_alert st' n = find_alert st n"
    "\<exists>fb. find_alert st' (fa_name fa) = Some fb \<and> fa_state fb = AlertStateResolved \<and> same_place fa fb"
    "distinct (map fa_name st) \<Longrightarrow> distinct (map fa_name st')"
    by (fact S)+
qed

text \<open>The strings an alert is identified by, within the bounds of its labels.\<close>

definition finding_ok :: "frame_machine \<Rightarrow> finding \<Rightarrow> bool" where
  "finding_ok fm f \<longleftrightarrow> list_all (\<lambda>s. valid_utf8 s \<and> length s \<le> maxValueBytes)
     [fm_name fm, fm_namespace fm, fm_nodeRef fm, k_check (f_key f), k_device (f_key f), f_severity f, f_scope f]
     \<and> length (k_check (f_key f)) \<le> 256"

lemma finding_labels:
  assumes "finding_ok fm f"
  shows "BoundMap (al_labels (finding_alert env fm alerts f)) = al_labels (finding_alert env fm alerts f)"
proof (rule BoundMap_id)
  have "valid_utf8 storageAlertSource" "length storageAlertSource \<le> 4096"
    by code_simp (simp add: storageAlertSource_def)
  moreover have "sorted [''alertname'', ''device'', ''machine'', ''machine_namespace'', ''node'', ''severity'', ''source'', ''stack'']"
    by code_simp
  moreover have "list_all valid_utf8 [''alertname'', ''device'', ''machine'', ''machine_namespace'', ''node'', ''severity'', ''source'', ''stack'']"
    by code_simp
  ultimately show "map_fits (al_labels (finding_alert env fm alerts f))"
    using assms
    by (simp add: map_fits_def gomap_ok_def finding_alert_def finding_ok_def entry_fits_def maxMapEntries_def
        maxKeyBytes_def maxValueBytes_def)
qed

lemma raise_slot:
  assumes "me_api env = api_up" "finding_ok fm f"
    and "raise_finding env fm alerts f st = (e, st')"
  shows "e = None" "n \<noteq> object_of env (finding_parts fm f) \<Longrightarrow> find_alert st' n = find_alert st n"
    "\<exists>fa. find_alert st' (object_of env (finding_parts fm f)) = Some fa \<and> open_here (fm_namespace fm) (fm_name fm) fa
       \<and> alert_key fa = f_key f \<and> object_ok env fa"
    "distinct (map fa_name st) \<Longrightarrow> distinct (map fa_name st')"
proof -
  let ?a = "finding_alert env fm alerts f"
  have n: "AlertObjectName (al_fingerprint ?a) = object_of env (finding_parts fm f)"
    by (simp add: object_of_def finding_parts_def finding_alert_def)
  note R = Record_slot [OF assms(3) [unfolded raise_finding_def assms(1)], unfolded n]
  show "e = None" by (rule R(1))
  show "n \<noteq> object_of env (finding_parts fm f) \<Longrightarrow> find_alert st' n = find_alert st n" by (rule R(2))
  show "distinct (map fa_name st) \<Longrightarrow> distinct (map fa_name st')" by (rule R(4))
  obtain fa where fa: "find_alert st' (object_of env (finding_parts fm f)) = Some fa" "fa_spec fa = recorded_spec ?a"
    "fa_state fa = recorded_state ?a" using R(3) by blast
  have labels: "as_labels (fa_spec fa) = al_labels ?a" using fa(2) finding_labels [OF assms(2)] by (simp add: recorded_spec_def)
  then have fits: "map_fits (as_labels (fa_spec fa))" using BoundMap_fits [of "al_labels ?a"] finding_labels [OF assms(2)] by metis
  have lab: "fa_label fa k = label_of (al_labels ?a) k" for k by (simp add: fa_label_def labels)
  have name: "as_alertName (fa_spec fa) = k_check (f_key f)"
    using assms(2) unfolding fa(2) by (simp add: recorded_spec_def finding_alert_def label_of_def truncate_str_id finding_ok_def)
  have st: "fa_state fa = AlertStateFiring"
    by (simp add: fa(3) recorded_state_def finding_alert_def StatusFiring_def StatusResolved_def)
  have "open_here (fm_namespace fm) (fm_name fm) fa"
    by (simp add: open_here_def is_open_storage_def owned_by_def lab st finding_alert_def label_of_def)
  moreover have "alert_key fa = f_key f"
    by (simp add: alert_key_def name lab) (simp add: finding_alert_def label_of_def)
  moreover have "object_ok env fa"
  proof -
    have parts: "alert_parts fa = finding_parts fm f"
      by (simp add: alert_parts_def finding_parts_def name lab) (simp add: finding_alert_def label_of_def)
    have "map_fits (as_annotations (fa_spec fa))" using BoundMap_fits by (simp add: fa(2) recorded_spec_def)
    moreover have "as_fingerprint (fa_spec fa) = LocalFingerprint (me_sum256 env) (finding_parts fm f)"
      by (simp add: fa(2) recorded_spec_def finding_alert_def finding_parts_def)
    moreover have "as_alertName (fa_spec fa) = truncate_str (fa_label fa ''alertname'') 256"
      by (simp add: lab fa(2) recorded_spec_def)
    ultimately show ?thesis using fits find_alert_name [OF fa(1)] by (simp add: object_ok_def parts)
  qed
  ultimately show "\<exists>fa. find_alert st' (object_of env (finding_parts fm f)) = Some fa
      \<and> open_here (fm_namespace fm) (fm_name fm) fa \<and> alert_key fa = f_key f \<and> object_ok env fa"
    using fa(1) by blast
qed

interpretation raiser: slot_writer "raise_finding (env\<lparr>me_api := api_up\<rparr>) fm alerts" "finding_ok fm"
  "\<lambda>f. object_of env (finding_parts fm f)"
  "\<lambda>f fa. open_here (fm_namespace fm) (fm_name fm) fa \<and> alert_key fa = f_key f \<and> object_ok env fa" for env fm alerts
proof unfold_locales
  fix f st e st' n assume ok: "finding_ok fm f" and r: "raise_finding (env\<lparr>me_api := api_up\<rparr>) fm alerts f st = (e, st')"
  have env: "object_of (env\<lparr>me_api := api_up\<rparr>) = object_of env" "object_ok (env\<lparr>me_api := api_up\<rparr>) = object_ok env"
    by (simp_all add: fun_eq_iff object_of_def object_ok_def)
  note S = raise_slot [OF _ ok r, simplified, unfolded env]
  show "e = None" "n \<noteq> object_of env (finding_parts fm f) \<Longrightarrow> find_alert st' n = find_alert st n"
    "\<exists>fa. find_alert st' (object_of env (finding_parts fm f)) = Some fa
      \<and> open_here (fm_namespace fm) (fm_name fm) fa \<and> alert_key fa = f_key f \<and> object_ok env fa"
    "distinct (map fa_name st) \<Longrightarrow> distinct (map fa_name st')"
    by (fact S)+
qed

section \<open>Reading back what is open\<close>

lemma env_up: "me_api env = api_up \<Longrightarrow> env\<lparr>me_api := api_up\<rparr> = env"
  by simp

lemma update_fresh: "k \<notin> fst ` set al \<Longrightarrow> AList.update k v al = al @ [(k, v)]"
  by (induction al) auto

definition open_entries :: "string \<Rightarrow> string \<Rightarrow> frame_alert list \<Rightarrow> (key \<times> frame_alert) list" where
  "open_entries ns name items = map (\<lambda>fa. (alert_key fa, fa)) (filter (open_here ns name) items)"

definition gone_alerts :: "machine_env \<Rightarrow> string \<Rightarrow> string \<Rightarrow> frame_alert list \<Rightarrow> frame_alert list" where
  "gone_alerts env ns name items = filter (\<lambda>fa. is_open_storage fa \<and> \<not> owned_by ns name fa
     \<and> me_machineGone env (fa_label fa ''machine_namespace'') (fa_label fa ''machine'')) items"

text \<open>The loop collects the machine's open alerts and resolves those of machines that are gone.\<close>

lemma open_loop_eq:
  assumes "write_all (resolveStorageAlert env) (gone_alerts env ns name items) st = (None, st')"
    and "distinct (map fst (opn @ open_entries ns name items))"
  shows "open_loop env ns name items opn st = (Inr (opn @ open_entries ns name items), st')"
  using assms
proof (induction items arbitrary: opn st)
  case (Cons fa items)
  consider (no) "\<not> is_open_storage fa" | (own) "is_open_storage fa" "owned_by ns name fa"
    | (gone) "is_open_storage fa" "\<not> owned_by ns name fa" "me_machineGone env (fa_label fa ''machine_namespace'') (fa_label fa ''machine'')"
    | (other) "is_open_storage fa" "\<not> owned_by ns name fa" "\<not> me_machineGone env (fa_label fa ''machine_namespace'') (fa_label fa ''machine'')"
    by blast
  then show ?case
  proof cases
    case own
    then have e: "open_entries ns name (fa # items) = (alert_key fa, fa) # open_entries ns name items"
      by (simp add: open_entries_def open_here_def)
    then have "alert_key fa \<notin> fst ` set opn" using Cons.prems(2) by auto
    then show ?thesis using Cons.IH [of st "opn @ [(alert_key fa, fa)]"] Cons.prems own e
      by (simp add: update_fresh gone_alerts_def)
  next
    case gone
    then show ?thesis using Cons.IH Cons.prems
      by (auto simp: open_entries_def open_here_def gone_alerts_def split: prod.splits option.splits)
  qed (use Cons in \<open>simp_all add: open_entries_def open_here_def gone_alerts_def\<close>)
qed (simp add: open_entries_def gone_alerts_def)

lemma key_determines_name:
  assumes "object_ok env fa" "object_ok env fb" "owned_by ns name fa" "owned_by ns name fb" "alert_key fa = alert_key fb"
  shows "fa_name fa = fa_name fb"
  using assms by (simp add: object_ok_def alert_parts_def owned_by_def alert_key_def)

lemma open_entries_distinct:
  assumes "store_ok env st"
  shows "distinct (map fst (open_entries ns name st))"
proof -
  have "inj_on alert_key (set (filter (open_here ns name) st))"
  proof (rule inj_onI)
    fix fa fb assume f: "fa \<in> set (filter (open_here ns name) st)" "fb \<in> set (filter (open_here ns name) st)" "alert_key fa = alert_key fb"
    then have "object_ok env fa" "object_ok env fb"
      using assms by (auto simp: store_ok_def from_storage_def open_here_def is_open_storage_def)
    then have "fa_name fa = fa_name fb"
      using key_determines_name [of env fa fb ns name] f by (simp add: open_here_def)
    then show "fa = fb" using f assms distinct_map_unique [of fa_name st fa fb] by (simp add: store_ok_def)
  qed
  moreover have "distinct (filter (open_here ns name) st)" using assms by (simp add: store_ok_def distinct_map)
  ultimately show ?thesis by (simp add: open_entries_def comp_def distinct_map)
qed

section \<open>Releasing\<close>

definition releases :: "assessment \<Rightarrow> string option \<Rightarrow> key \<Rightarrow> string \<Rightarrow> bool" where
  "releases a device k s \<longleftrightarrow> device = Some (k_device k) \<and> \<not> fires a k \<and> Keeps a k s"

lemma release_loop_eq:
  assumes "write_all (resolveStorageAlert env) (map snd (filter (\<lambda>(k, fa). releases a (Some device) k (fa_label fa ''stack'')) alerts)) st = (None, st')"
  shows "\<exists>c n. release_loop env a device alerts closed kept st =
    (None, filter (\<lambda>(k, fa). \<not> releases a (Some device) k (fa_label fa ''stack'')) alerts, c, n, st')"
  using assms
proof (induction alerts arbitrary: closed kept st)
  case (Cons x alerts)
  obtain k fa where x: "x = (k, fa)" by fastforce
  show ?case
  proof (cases "releases a (Some device) k (fa_label fa ''stack'')")
    case False
    let ?rest = "filter (\<lambda>(k, fa). \<not> releases a (Some device) k (fa_label fa ''stack'')) alerts"
    have IH: "\<exists>c n. release_loop env a device alerts c0 n0 st = (None, ?rest, c, n, st')" for c0 n0
      using Cons False by (simp add: x)
    obtain c n where "release_loop env a device alerts closed kept st = (None, ?rest, c, n, st')" using IH by blast
    moreover obtain c' n' where "release_loop env a device alerts closed (kept + 1) st = (None, ?rest, c', n', st')" using IH by blast
    moreover have "\<not> (k_device k = device \<and> \<not> fires a k \<and> Keeps a k (fa_label fa ''stack''))"
      using False by (auto simp: releases_def)
    ultimately show ?thesis using False by (cases "k_device k = device"; cases "fires a k") (simp_all add: x)
  next
    case True
    then obtain st1 where r: "resolveStorageAlert env fa st = (None, st1)"
      and w: "write_all (resolveStorageAlert env) (map snd (filter (\<lambda>(k, fa). releases a (Some device) k (fa_label fa ''stack'')) alerts)) st1 = (None, st')"
      using Cons.prems by (simp add: x split: prod.splits option.splits)
    have "k_device k = device" "\<not> fires a k" "Keeps a k (fa_label fa ''stack'')" using True by (auto simp: releases_def)
    then show ?thesis using Cons.IH [OF w] r True by (simp add: x)
  qed
qed simp

section \<open>The pass\<close>

text \<open>A stage of the pass: the objects named in \<open>N\<close> are rewritten, the others are not touched.\<close>

definition moved :: "frame_alert list \<Rightarrow> frame_alert list \<Rightarrow> string set \<Rightarrow> (string \<Rightarrow> frame_alert \<Rightarrow> bool) \<Rightarrow> bool" where
  "moved st st' N Q \<longleftrightarrow> distinct (map fa_name st') \<and> (\<forall>n. n \<notin> N \<longrightarrow> find_alert st' n = find_alert st n)
     \<and> (\<forall>n \<in> N. \<exists>fa. find_alert st' n = Some fa \<and> Q n fa)"

lemma moved_keeps: "moved st st' N Q \<Longrightarrow> n \<notin> N \<Longrightarrow> find_alert st' n = find_alert st n"
  by (simp add: moved_def)

definition closed_in :: "frame_alert set \<Rightarrow> string \<Rightarrow> frame_alert \<Rightarrow> bool" where
  "closed_in C n fb \<longleftrightarrow> fa_state fb = AlertStateResolved \<and> (\<exists>fa \<in> C. same_place fa fb)"

lemma resolve_moves:
  assumes "me_api env = api_up" "\<forall>fa \<in> set fas. object_ok env fa" "distinct (map fa_name st)"
  obtains st' where "write_all (resolveStorageAlert env) fas st = (None, st')"
    "moved st st' (fa_name ` set fas) (closed_in (set fas))"
proof -
  obtain e st' where w: "write_all (resolveStorageAlert env) fas st = (e, st')" by fastforce
  have w': "write_all (resolveStorageAlert (env\<lparr>me_api := api_up\<rparr>)) fas st = (e, st')"
    using w by (simp add: env_up [OF assms(1)])
  note R = resolver.write_all_slots [OF assms(2) w' assms(3)]
  then have "moved st st' (fa_name ` set fas) (closed_in (set fas))"
    unfolding moved_def closed_in_def by blast
  with R w show thesis using that by simp
qed

definition raised_in :: "machine_env \<Rightarrow> frame_machine \<Rightarrow> finding list \<Rightarrow> string \<Rightarrow> frame_alert \<Rightarrow> bool" where
  "raised_in env fm fs n fa \<longleftrightarrow> open_here (fm_namespace fm) (fm_name fm) fa \<and> object_ok env fa
     \<and> (\<exists>f \<in> set fs. n = object_of env (finding_parts fm f) \<and> alert_key fa = f_key f)"

lemma raise_moves:
  assumes "me_api env = api_up" "\<forall>f \<in> set fs. finding_ok fm f" "distinct (map fa_name st)"
  obtains st' where "write_all (raise_finding env fm alerts) fs st = (None, st')"
    "moved st st' ((\<lambda>f. object_of env (finding_parts fm f)) ` set fs) (raised_in env fm fs)"
proof -
  obtain e st' where w: "write_all (raise_finding env fm alerts) fs st = (e, st')" by fastforce
  have w': "write_all (raise_finding (env\<lparr>me_api := api_up\<rparr>) fm alerts) fs st = (e, st')"
    using w by (simp add: env_up [OF assms(1)])
  note R = raiser.write_all_slots [OF assms(2) w' assms(3)]
  then have "moved st st' ((\<lambda>f. object_of env (finding_parts fm f)) ` set fs) (raised_in env fm fs)"
    unfolding moved_def raised_in_def by blast
  with R w show thesis using that by simp
qed

lemma moved_ok:
  assumes "store_ok env st" "moved st st' N Q" "\<And>n fa. Q n fa \<Longrightarrow> object_ok env fa"
  shows "store_ok env st'"
proof -
  have d: "distinct (map fa_name st)" "distinct (map fa_name st')" using assms(1,2) by (auto simp: store_ok_def moved_def)
  have "object_ok env fa" if fa: "fa \<in> set st'" "from_storage fa" for fa
  proof (cases "fa_name fa \<in> N")
    case True
    then obtain fb where "find_alert st' (fa_name fa) = Some fb" "Q (fa_name fa) fb" using assms(2) by (auto simp: moved_def)
    moreover have "find_alert st' (fa_name fa) = Some fa" using fa d(2) by (simp add: find_mem)
    ultimately show ?thesis using assms(3) by simp
  next
    case False
    have "find_alert st' (fa_name fa) = Some fa" using fa d(2) by (simp add: find_mem)
    then have "find_alert st (fa_name fa) = Some fa" using moved_keeps [OF assms(2) False] by simp
    then have "fa \<in> set st" using d(1) by (simp add: find_mem)
    then show ?thesis using assms(1) fa(2) by (simp add: store_ok_def)
  qed
  then show ?thesis using d by (simp add: store_ok_def)
qed

lemma closed_ok: "\<forall>fa \<in> C. object_ok env fa \<Longrightarrow> closed_in C n fb \<Longrightarrow> object_ok env fb"
  using same_place_ok by (auto simp: closed_in_def)

text \<open>The parts an alert's name is a digest of, for every alert a pass may touch. The hypothesis the
  pass relies on is that the digest tells them apart.\<close>

definition all_parts :: "frame_machine \<Rightarrow> finding list \<Rightarrow> frame_alert list \<Rightarrow> string list set" where
  "all_parts fm fs st = finding_parts fm ` set fs \<union> alert_parts ` {fa \<in> set st. from_storage fa}"

definition no_collision :: "machine_env \<Rightarrow> frame_machine \<Rightarrow> finding list \<Rightarrow> frame_alert list \<Rightarrow> bool" where
  "no_collision env fm fs st \<longleftrightarrow> inj_on (object_of env) (all_parts fm fs st)"

lemma finding_name_iff:
  assumes "no_collision env fm fs st" "store_ok env st" "fa \<in> set st" "open_here (fm_namespace fm) (fm_name fm) fa"
  shows "fa_name fa \<in> (\<lambda>f. object_of env (finding_parts fm f)) ` set fs \<longleftrightarrow> alert_key fa \<in> f_key ` set fs"
proof -
  have fs: "from_storage fa" using assms(4) by (simp add: open_here_def is_open_storage_def from_storage_def)
  then have ok: "fa_name fa = object_of env (alert_parts fa)" using assms(2,3) by (simp add: store_ok_def object_ok_def)
  have own: "fa_label fa ''machine'' = fm_name fm" "fa_label fa ''machine_namespace'' = fm_namespace fm"
    using assms(4) by (simp_all add: open_here_def owned_by_def)
  have parts: "alert_parts fa = finding_parts fm f \<longleftrightarrow> alert_key fa = f_key f" for f
    by (cases "f_key f") (simp add: alert_parts_def finding_parts_def alert_key_def own)
  have mem: "alert_parts fa \<in> all_parts fm fs st" using assms(3) fs by (simp add: all_parts_def)
  have "fa_name fa = object_of env (finding_parts fm f) \<longleftrightarrow> alert_key fa = f_key f" if "f \<in> set fs" for f
  proof -
    have "finding_parts fm f \<in> all_parts fm fs st" using that by (simp add: all_parts_def)
    from inj_on_eq_iff [OF assms(1) [unfolded no_collision_def] mem this] show ?thesis by (simp add: ok parts)
  qed
  then show ?thesis unfolding image_iff by blast
qed

end
