(* ===== verification/Machine_Theorems.thy ===== *)
theory Machine_Theorems
  imports Machine_Refinement Health_Theorems
begin

text \<open>
  The refinement of a machine's pass: the stored alerts of the machine, before and after
  \<open>assessStorage\<close>, related by the assessment alone.
\<close>

section \<open>The stages composed\<close>

lemma moved_names: "moved s s' N Q \<Longrightarrow> distinct (map fa_name s')"
  by (simp add: moved_def)

lemma closed_survivor:
  assumes "moved s s' N (closed_in C)" "find_alert s' n = Some fa" "fa_state fa \<noteq> AlertStateResolved"
  shows "n \<notin> N" "find_alert s n = Some fa"
proof -
  show n: "n \<notin> N" using assms by (force simp: moved_def closed_in_def)
  show "find_alert s n = Some fa" using moved_keeps [OF assms(1) n] assms(2) by simp
qed

lemma open_hereD: "open_here ns name fa \<Longrightarrow> fa_state fa \<noteq> AlertStateResolved"
  by (simp add: open_here_def is_open_storage_def)

lemma open_keysI: "distinct (map fa_name st) \<Longrightarrow> find_alert st n = Some fa \<Longrightarrow> open_here ns name fa \<Longrightarrow>
    alert_key fa \<in> open_keys ns name st"
  by (auto simp: open_keys_def find_mem)

text \<open>The four stages: alerts of machines that are gone, released alerts, findings, the rest.\<close>

definition pass_stages ::
  "machine_env \<Rightarrow> frame_machine \<Rightarrow> finding list \<Rightarrow> frame_alert list \<Rightarrow> frame_alert list \<Rightarrow> frame_alert list
   \<Rightarrow> frame_alert list \<Rightarrow> frame_alert list \<Rightarrow> frame_alert set \<Rightarrow> frame_alert set \<Rightarrow> frame_alert set \<Rightarrow> bool" where
  "pass_stages env fm fs st st1 st2 st3 st4 G R C \<longleftrightarrow> store_ok env st \<and> no_collision env fm fs st
     \<and> (\<forall>fa \<in> G. fa \<in> set st \<and> from_storage fa \<and> \<not> owned_by (fm_namespace fm) (fm_name fm) fa)
     \<and> (\<forall>fa \<in> R \<union> C. fa \<in> set st \<and> open_here (fm_namespace fm) (fm_name fm) fa)
     \<and> (\<forall>fa \<in> C. alert_key fa \<notin> f_key ` set fs)
     \<and> moved st st1 (fa_name ` G) (closed_in G) \<and> moved st1 st2 (fa_name ` R) (closed_in R)
     \<and> moved st2 st3 ((\<lambda>f. object_of env (finding_parts fm f)) ` set fs) (raised_in env fm fs)
     \<and> moved st3 st4 (fa_name ` C) (closed_in C)"

lemma pass_stagesD:
  assumes "pass_stages env fm fs st st1 st2 st3 st4 G R C"
  shows "store_ok env st" "no_collision env fm fs st"
    "\<And>fa. fa \<in> G \<Longrightarrow> fa \<in> set st \<and> from_storage fa \<and> \<not> owned_by (fm_namespace fm) (fm_name fm) fa"
    "\<And>fa. fa \<in> R \<union> C \<Longrightarrow> fa \<in> set st \<and> open_here (fm_namespace fm) (fm_name fm) fa"
    "\<And>fa. fa \<in> C \<Longrightarrow> alert_key fa \<notin> f_key ` set fs"
    "moved st st1 (fa_name ` G) (closed_in G)" "moved st1 st2 (fa_name ` R) (closed_in R)"
    "moved st2 st3 ((\<lambda>f. object_of env (finding_parts fm f)) ` set fs) (raised_in env fm fs)"
    "moved st3 st4 (fa_name ` C) (closed_in C)"
  using assms unfolding pass_stages_def by blast+

lemma name_in: "store_ok env st \<Longrightarrow> fa \<in> set st \<Longrightarrow> X \<subseteq> set st \<Longrightarrow> fa_name fa \<in> fa_name ` X \<longleftrightarrow> fa \<in> X"
  using distinct_map_unique [of fa_name st] by (auto simp: store_ok_def)

lemma survivor:
  assumes "pass_stages env fm fs st st1 st2 st3 st4 G R C"
    and "find_alert st4 n = Some fa" "open_here (fm_namespace fm) (fm_name fm) fa"
  shows "alert_key fa \<in> f_key ` set fs \<or> fa \<in> set st \<and> fa \<notin> R \<and> fa \<notin> C"
proof -
  note ok = pass_stagesD(1) [OF assms(1)] and nc = pass_stagesD(2) [OF assms(1)] and gone = pass_stagesD(3) [OF assms(1)]
    and mine = pass_stagesD(4) [OF assms(1)] and silent = pass_stagesD(5) [OF assms(1)] and m1 = pass_stagesD(6) [OF assms(1)]
    and m2 = pass_stagesD(7) [OF assms(1)] and m3 = pass_stagesD(8) [OF assms(1)] and m4 = pass_stagesD(9) [OF assms(1)]
  let ?F = "(\<lambda>f. object_of env (finding_parts fm f)) ` set fs"
  have live: "fa_state fa \<noteq> AlertStateResolved" by (rule open_hereD [OF assms(3)])
  have n: "fa_name fa = n" by (rule find_alert_name [OF assms(2)])
  have s3: "n \<notin> fa_name ` C" "find_alert st3 n = Some fa" using closed_survivor [OF m4 assms(2) live] by blast+
  show ?thesis
  proof (cases "n \<in> ?F")
    case True
    then obtain fb where "find_alert st3 n = Some fb" "raised_in env fm fs n fb" using m3 unfolding moved_def by blast
    then show ?thesis using s3(2) by (auto simp: raised_in_def)
  next
    case False
    then have s2: "find_alert st2 n = Some fa" using moved_keeps [OF m3] s3(2) by simp
    have s1: "n \<notin> fa_name ` R" "find_alert st1 n = Some fa" using closed_survivor [OF m2 s2 live] by blast+
    have "find_alert st n = Some fa" using closed_survivor [OF m1 s1(2) live] by blast
    then have "fa \<in> set st" using ok by (simp add: store_ok_def find_mem)
    then show ?thesis using s1(1) s3(1) n by auto
  qed
qed

lemma finding_open:
  assumes "pass_stages env fm fs st st1 st2 st3 st4 G R C"
    and "f \<in> set fs"
  shows "\<exists>n fa. find_alert st4 n = Some fa \<and> open_here (fm_namespace fm) (fm_name fm) fa \<and> alert_key fa = f_key f"
proof -
  note ok = pass_stagesD(1) [OF assms(1)] and nc = pass_stagesD(2) [OF assms(1)] and gone = pass_stagesD(3) [OF assms(1)]
    and mine = pass_stagesD(4) [OF assms(1)] and silent = pass_stagesD(5) [OF assms(1)] and m1 = pass_stagesD(6) [OF assms(1)]
    and m2 = pass_stagesD(7) [OF assms(1)] and m3 = pass_stagesD(8) [OF assms(1)] and m4 = pass_stagesD(9) [OF assms(1)]
  let ?n = "object_of env (finding_parts fm f)"
  obtain fa where fa: "find_alert st3 ?n = Some fa" "raised_in env fm fs ?n fa" using m3 assms(2) unfolding moved_def by blast
  then obtain g where g: "g \<in> set fs" "?n = object_of env (finding_parts fm g)" "alert_key fa = f_key g"
    by (auto simp: raised_in_def)
  have "finding_parts fm f = finding_parts fm g"
    using nc g(1,2) assms(2) by (auto simp: no_collision_def all_parts_def dest: inj_onD)
  then have key: "alert_key fa = f_key f" using g(3) by (cases "f_key f"; cases "f_key g") (simp add: finding_parts_def)
  have "?n \<notin> fa_name ` C"
  proof
    assume "?n \<in> fa_name ` C"
    then obtain c where c: "c \<in> C" "fa_name c = ?n" by auto
    then have cst: "c \<in> set st" "open_here (fm_namespace fm) (fm_name fm) c" using mine by blast+
    then have "alert_key c \<in> f_key ` set fs" using finding_name_iff [OF nc ok cst] c(2) assms(2) by blast
    then show False using silent c(1) by blast
  qed
  then have "find_alert st4 ?n = Some fa" using moved_keeps [OF m4] fa(1) by simp
  with key fa(2) show ?thesis by (auto simp: raised_in_def)
qed

lemma kept_open:
  assumes "pass_stages env fm fs st st1 st2 st3 st4 G R C"
    and "fa \<in> set st" "open_here (fm_namespace fm) (fm_name fm) fa" "fa \<notin> R" "fa \<notin> C" "alert_key fa \<notin> f_key ` set fs"
  shows "find_alert st4 (fa_name fa) = Some fa"
proof -
  note ok = pass_stagesD(1) [OF assms(1)] and nc = pass_stagesD(2) [OF assms(1)] and gone = pass_stagesD(3) [OF assms(1)]
    and mine = pass_stagesD(4) [OF assms(1)] and silent = pass_stagesD(5) [OF assms(1)] and m1 = pass_stagesD(6) [OF assms(1)]
    and m2 = pass_stagesD(7) [OF assms(1)] and m3 = pass_stagesD(8) [OF assms(1)] and m4 = pass_stagesD(9) [OF assms(1)]
  have "fa \<notin> G" using gone assms(3) by (auto simp: open_here_def)
  then have "fa_name fa \<notin> fa_name ` G" "fa_name fa \<notin> fa_name ` R" "fa_name fa \<notin> fa_name ` C"
    using name_in [OF ok assms(2)] gone mine assms(4,5) by blast+
  moreover have "fa_name fa \<notin> (\<lambda>f. object_of env (finding_parts fm f)) ` set fs"
    using finding_name_iff [OF nc ok assms(2,3)] assms(6) by blast
  moreover have "find_alert st (fa_name fa) = Some fa" using ok assms(2) by (simp add: store_ok_def find_mem)
  ultimately show ?thesis
    using moved_keeps [OF m1] moved_keeps [OF m2] moved_keeps [OF m3] moved_keeps [OF m4] by simp
qed

lemma pass_open_keys:
  assumes "pass_stages env fm fs st st1 st2 st3 st4 G R C"
  shows "open_keys (fm_namespace fm) (fm_name fm) st4 = f_key ` set fs
     \<union> {alert_key fa | fa. fa \<in> set st \<and> open_here (fm_namespace fm) (fm_name fm) fa \<and> fa \<notin> R \<and> fa \<notin> C}"
proof -
  let ?ns = "fm_namespace fm" and ?nm = "fm_name fm"
  have d: "distinct (map fa_name st4)" using pass_stagesD(9) [OF assms] by (simp add: moved_def)
  have "k \<in> open_keys ?ns ?nm st4" if k: "k \<in> f_key ` set fs" for k
  proof -
    obtain f where f: "f \<in> set fs" "k = f_key f" using k by auto
    show ?thesis using finding_open [OF assms f(1)] open_keysI [OF d] f(2) by metis
  qed
  moreover have "alert_key fa \<in> open_keys ?ns ?nm st4"
    if "fa \<in> set st" "open_here ?ns ?nm fa" "fa \<notin> R" "fa \<notin> C" "alert_key fa \<notin> f_key ` set fs" for fa
    using kept_open [OF assms that] open_keysI [OF d] that(2) by blast
  moreover have "k \<in> f_key ` set fs \<or> (\<exists>fa. k = alert_key fa \<and> fa \<in> set st \<and> open_here ?ns ?nm fa \<and> fa \<notin> R \<and> fa \<notin> C)"
    if k: "k \<in> open_keys ?ns ?nm st4" for k
  proof -
    obtain n fa where "find_alert st4 n = Some fa" "open_here ?ns ?nm fa" "k = alert_key fa"
      using k by (auto simp: open_keys_slots [OF d])
    then show ?thesis using survivor [OF assms] by blast
  qed
  ultimately show ?thesis by blast
qed

lemma pass_store_ok:
  assumes "pass_stages env fm fs st st1 st2 st3 st4 G R C"
  shows "store_ok env st4"
proof -
  note D = pass_stagesD [OF assms]
  have st: "object_ok env fa" if "fa \<in> set st" "from_storage fa" for fa using D(1) that by (simp add: store_ok_def)
  have own: "object_ok env fa" if "fa \<in> R \<union> C" for fa
    using D(4) [OF that] st by (simp add: open_here_def is_open_storage_def from_storage_def)
  have G: "\<forall>fa \<in> G. object_ok env fa" using D(3) st by blast
  have R: "\<forall>fa \<in> R. object_ok env fa" and C: "\<forall>fa \<in> C. object_ok env fa" using own by blast+
  have "store_ok env st1" by (rule moved_ok [OF D(1,6)]) (rule closed_ok [OF G])
  then have "store_ok env st2" using D(7) by (rule moved_ok) (rule closed_ok [OF R])
  then have "store_ok env st3" using D(8) by (rule moved_ok) (simp add: raised_in_def)
  then show ?thesis using D(9) by (rule moved_ok) (rule closed_ok [OF C])
qed

section \<open>From the code to the stages\<close>

definition policy_of :: "'p policy_read \<Rightarrow> 'p option" where
  "policy_of p = (case p of PolicyFound x \<Rightarrow> Some x | _ \<Rightarrow> None)"

definition machine_alerts :: "machine_env \<Rightarrow> frame_machine \<Rightarrow> frame_alert list \<Rightarrow> (key \<times> frame_alert) list" where
  "machine_alerts env fm st = me_order env (open_entries (fm_namespace fm) (fm_name fm) st)"

definition machine_verdict :: "machine_env \<Rightarrow> frame_machine \<Rightarrow> bool \<Rightarrow> frame_alert list \<Rightarrow> assessment" where
  "machine_verdict env fm fresh st =
     machine_assessment env fm fresh (machine_alerts env fm st) (policy_of (me_storagePolicy env))"

text \<open>An environment in which every call the pass makes is answered.\<close>

definition answers :: "machine_env \<Rightarrow> bool" where
  "answers env \<longleftrightarrow> me_api env = api_up \<and> me_hasAlerts env \<and> me_listError env = None
     \<and> me_storagePolicy env \<noteq> PolicyError \<and> (\<forall>xs. set (me_order env xs) = set xs)"

lemma openStorageAlerts_stage:
  fixes fm :: frame_machine
  assumes "answers env" "store_ok env st"
  defines "G \<equiv> set (gone_alerts env (fm_namespace fm) (fm_name fm) st)"
  obtains st1 where "openStorageAlerts env (fm_namespace fm) (fm_name fm) st = (Inr (machine_alerts env fm st), st1)"
    "moved st st1 (fa_name ` G) (closed_in G)"
    "\<And>fa. fa \<in> G \<Longrightarrow> fa \<in> set st \<and> from_storage fa \<and> \<not> owned_by (fm_namespace fm) (fm_name fm) fa"
proof -
  have G: "fa \<in> set st \<and> from_storage fa \<and> \<not> owned_by (fm_namespace fm) (fm_name fm) fa" if "fa \<in> G" for fa
    using that by (auto simp: G_def gone_alerts_def is_open_storage_def from_storage_def)
  then have "\<forall>fa \<in> G. object_ok env fa" using assms(2) by (auto simp: store_ok_def)
  moreover have "distinct (map fa_name st)" "me_api env = api_up" using assms by (simp_all add: store_ok_def answers_def)
  ultimately obtain st1 where w: "write_all (resolveStorageAlert env) (gone_alerts env (fm_namespace fm) (fm_name fm) st) st = (None, st1)"
    and m: "moved st st1 (fa_name ` G) (closed_in G)"
    unfolding G_def using resolve_moves by blast
  have "open_loop env (fm_namespace fm) (fm_name fm) st [] st = (Inr (open_entries (fm_namespace fm) (fm_name fm) st), st1)"
    using open_loop_eq [OF w, of "[]"] open_entries_distinct [OF assms(2)] by simp
  then have "openStorageAlerts env (fm_namespace fm) (fm_name fm) st = (Inr (machine_alerts env fm st), st1)"
    using assms(1) by (simp add: openStorageAlerts_def machine_alerts_def answers_def)
  then show thesis using that m G by blast
qed

text \<open>The alerts a release closes and those the writing stage closes.\<close>

definition released_alerts :: "machine_env \<Rightarrow> frame_machine \<Rightarrow> assessment \<Rightarrow> (key \<times> frame_alert) list \<Rightarrow> frame_alert list" where
  "released_alerts env fm a alerts =
     map snd (filter (\<lambda>(k, fa). releases a (release_due env fm) k (fa_label fa ''stack'')) alerts)"

definition unreleased :: "machine_env \<Rightarrow> frame_machine \<Rightarrow> assessment \<Rightarrow> (key \<times> frame_alert) list \<Rightarrow> (key \<times> frame_alert) list" where
  "unreleased env fm a alerts =
     filter (\<lambda>(k, fa). \<not> releases a (release_due env fm) k (fa_label fa ''stack'')) alerts"

definition ended_alerts :: "assessment \<Rightarrow> (key \<times> frame_alert) list \<Rightarrow> frame_alert list" where
  "ended_alerts a alerts = map snd (filter (\<lambda>(k, fa). \<not> (fires a k \<or> Keeps a k (fa_label fa ''stack''))) alerts)"

lemma releaseStorageAlerts_stage:
  assumes "write_all (resolveStorageAlert env) (released_alerts env fm a alerts) st = (None, st')"
  shows "\<exists>fm'. releaseStorageAlerts env fm a alerts st = (fm', unreleased env fm a alerts, st')
    \<and> fm_name fm' = fm_name fm \<and> fm_namespace fm' = fm_namespace fm \<and> fm_nodeRef fm' = fm_nodeRef fm"
proof (cases "release_due env fm")
  case None
  then show ?thesis using assms by (simp add: releaseStorageAlerts_def released_alerts_def unreleased_def releases_def)
next
  case (Some device)
  with assms release_loop_eq [of env a device alerts st st' 0 0] show ?thesis
    by (auto simp: releaseStorageAlerts_def released_alerts_def unreleased_def)
qed

lemma finding_alert_cong:
  "fm_name fm' = fm_name fm \<Longrightarrow> fm_namespace fm' = fm_namespace fm \<Longrightarrow> fm_nodeRef fm' = fm_nodeRef fm \<Longrightarrow>
   raise_finding env fm' alerts = raise_finding env fm alerts"
  by (simp add: fun_eq_iff raise_finding_def finding_alert_def)

lemma fold_update: "c \<in> set cs \<Longrightarrow> fold (\<lambda>c m. m(c \<mapsto> g c)) cs m c = Some (g c)"
proof (induction cs arbitrary: m rule: rev_induct)
  case (snoc x xs)
  then show ?case by (cases "c = x") simp_all
qed simp

lemma machine_alerts_set:
  "answers env \<Longrightarrow> set (machine_alerts env fm st) =
     {(alert_key fa, fa) | fa. fa \<in> set st \<and> open_here (fm_namespace fm) (fm_name fm) fa}"
  by (auto simp: machine_alerts_def answers_def open_entries_def)

lemma assessStorage_stages:
  fixes fm :: frame_machine and fresh :: bool
  assumes env: "answers env" and ok: "store_ok env st"
  defines "a \<equiv> machine_verdict env fm fresh st" and "alerts \<equiv> machine_alerts env fm st"
  assumes fok: "\<forall>f \<in> set (findings a). finding_ok fm f" and nc: "no_collision env fm (findings a) st"
  defines "R \<equiv> set (released_alerts env fm a alerts)" and "C \<equiv> set (ended_alerts a (unreleased env fm a alerts))"
  shows "\<exists>fm' st1 st2 st3 st4 G. assessStorage env fresh fm st = (set_verdicts fm' a (open_of (unreleased env fm a alerts)), st4)
    \<and> pass_stages env fm (findings a) st st1 st2 st3 st4 G R C"
proof -
  let ?G = "set (gone_alerts env (fm_namespace fm) (fm_name fm) st)"
  have up: "me_api env = api_up" using env by (simp add: answers_def)
  obtain st1 where o: "openStorageAlerts env (fm_namespace fm) (fm_name fm) st = (Inr alerts, st1)"
    and m1: "moved st st1 (fa_name ` ?G) (closed_in ?G)"
    and G: "\<And>fa. fa \<in> ?G \<Longrightarrow> fa \<in> set st \<and> from_storage fa \<and> \<not> owned_by (fm_namespace fm) (fm_name fm) fa"
    using openStorageAlerts_stage [OF env ok, of fm] unfolding alerts_def by blast
  have mine: "fa \<in> set st \<and> open_here (fm_namespace fm) (fm_name fm) fa" if "fa \<in> R \<union> C" for fa
    using that machine_alerts_set [OF env, of fm st]
    by (auto simp: R_def C_def alerts_def released_alerts_def ended_alerts_def unreleased_def)
  then have objs: "\<forall>fa \<in> R. object_ok env fa" "\<forall>fa \<in> C. object_ok env fa"
    using ok by (auto simp: store_ok_def open_here_def is_open_storage_def from_storage_def)
  obtain st2 where w2: "write_all (resolveStorageAlert env) (released_alerts env fm a alerts) st1 = (None, st2)"
    and m2: "moved st1 st2 (fa_name ` R) (closed_in R)"
    unfolding R_def using resolve_moves [OF up objs(1) [unfolded R_def] moved_names [OF m1]] by blast
  obtain fm' where rel: "releaseStorageAlerts env fm a alerts st1 = (fm', unreleased env fm a alerts, st2)"
    and same: "raise_finding env fm' (unreleased env fm a alerts) = raise_finding env fm (unreleased env fm a alerts)"
    using releaseStorageAlerts_stage [OF w2] finding_alert_cong by blast
  obtain st3 where w3: "write_all (raise_finding env fm (unreleased env fm a alerts)) (findings a) st2 = (None, st3)"
    and m3: "moved st2 st3 ((\<lambda>f. object_of env (finding_parts fm f)) ` set (findings a)) (raised_in env fm (findings a))"
    using raise_moves [OF up fok moved_names [OF m2]] by blast
  obtain st4 where w4: "write_all (resolveStorageAlert env) (ended_alerts a (unreleased env fm a alerts)) st3 = (None, st4)"
    and m4: "moved st3 st4 (fa_name ` C) (closed_in C)"
    unfolding C_def using resolve_moves [OF up objs(2) [unfolded C_def] moved_names [OF m3]] by blast
  have "alert_key fa \<notin> f_key ` set (findings a)" if "fa \<in> C" for fa
    using that machine_alerts_set [OF env, of fm st]
    by (auto simp: C_def alerts_def ended_alerts_def unreleased_def fires_def)
  then have "pass_stages env fm (findings a) st st1 st2 st3 st4 ?G R C"
    unfolding pass_stages_def using ok nc G mine m1 m2 m3 m4 by blast
  moreover have "writeStorageAlerts env fm' a (unreleased env fm a alerts) st2 = (None, st4)"
    using w3 w4 env by (simp add: writeStorageAlerts_def same answers_def ended_alerts_def)
  then have "assessStorage env fresh fm st = (set_verdicts fm' a (open_of (unreleased env fm a alerts)), st4)"
    using o rel env unfolding a_def machine_verdict_def alerts_def policy_of_def
    by (cases "me_storagePolicy env") (simp_all add: assessStorage_def answers_def Let_def)
  ultimately show ?thesis by blast
qed

section \<open>Property\<close>

text \<open>C19. A machine's pass refines its assessment. When every call is answered and the digests of the
  alerts involved differ, the alerts open for the machine afterwards are exactly those the assessment
  found and those open before that it keeps and no due release closes; the stored alerts are well
  formed again, and each condition holds the verdict over what is left open.\<close>

theorem assessStorage_refines:
  assumes "answers env" "store_ok env st"
    and "\<forall>f \<in> set (findings (machine_verdict env fm fresh st)). finding_ok fm f"
    and "no_collision env fm (findings (machine_verdict env fm fresh st)) st"
  shows "store_ok env (snd (assessStorage env fresh fm st))
    \<and> open_keys (fm_namespace fm) (fm_name fm) (snd (assessStorage env fresh fm st)) =
        f_key ` set (findings (machine_verdict env fm fresh st))
        \<union> {k. \<exists>s. (k, s) \<in> set (open_of (machine_alerts env fm st)) \<and> Keeps (machine_verdict env fm fresh st) k s
               \<and> \<not> releases (machine_verdict env fm fresh st) (release_due env fm) k s}
    \<and> (\<forall>check \<in> set Checks. \<exists>c. fm_conditions (fst (assessStorage env fresh fm st)) check = Some c
        \<and> cd_status c = v_status (Verdict (machine_verdict env fm fresh st) check
            (open_of (unreleased env fm (machine_verdict env fm fresh st) (machine_alerts env fm st)))))"
proof -
  let ?a = "machine_verdict env fm fresh st" and ?alerts = "machine_alerts env fm st"
  obtain fm' st1 st2 st3 st4 G where
    A: "assessStorage env fresh fm st = (set_verdicts fm' ?a (open_of (unreleased env fm ?a ?alerts)), st4)"
    and P: "pass_stages env fm (findings ?a) st st1 st2 st3 st4 G (set (released_alerts env fm ?a ?alerts))
        (set (ended_alerts ?a (unreleased env fm ?a ?alerts)))"
    using assessStorage_stages [OF assms] by blast
  let ?R = "set (released_alerts env fm ?a ?alerts)" and ?C = "set (ended_alerts ?a (unreleased env fm ?a ?alerts))"
  have kept: "fa \<notin> ?R \<and> fa \<notin> ?C \<longleftrightarrow>
      \<not> releases ?a (release_due env fm) (alert_key fa) (fa_label fa ''stack'')
      \<and> (fires ?a (alert_key fa) \<or> Keeps ?a (alert_key fa) (fa_label fa ''stack''))"
    if "fa \<in> set st" "open_here (fm_namespace fm) (fm_name fm) fa" for fa
    using that machine_alerts_set [OF assms(1), of fm st]
    by (auto simp: released_alerts_def ended_alerts_def unreleased_def image_iff)
  have "open_keys (fm_namespace fm) (fm_name fm) st4 = f_key ` set (findings ?a)
        \<union> {k. \<exists>s. (k, s) \<in> set (open_of ?alerts) \<and> Keeps ?a k s \<and> \<not> releases ?a (release_due env fm) k s}"
  proof -
    have O: "(k, s) \<in> set (open_of ?alerts) \<longleftrightarrow>
        (\<exists>fa. fa \<in> set st \<and> open_here (fm_namespace fm) (fm_name fm) fa \<and> k = alert_key fa \<and> s = fa_label fa ''stack'')" for k s
      unfolding open_of_def set_map machine_alerts_set [OF assms(1)] by force
    have "{alert_key fa | fa. fa \<in> set st \<and> open_here (fm_namespace fm) (fm_name fm) fa \<and> fa \<notin> ?R \<and> fa \<notin> ?C}
        = {k. \<exists>s. (k, s) \<in> set (open_of ?alerts) \<and> (fires ?a k \<or> Keeps ?a k s) \<and> \<not> releases ?a (release_due env fm) k s}"
      using kept unfolding O by blast
    moreover have "fires ?a k \<longleftrightarrow> k \<in> f_key ` set (findings ?a)" for k by (simp add: fires_def)
    ultimately show ?thesis unfolding pass_open_keys [OF P] by blast
  qed
  moreover have "\<forall>check \<in> set Checks. \<exists>c. fm_conditions (set_verdicts fm' ?a O') check = Some c
        \<and> cd_status c = v_status (Verdict ?a check O')" for O'
    by (simp add: set_verdicts_def fold_update Let_def)
  ultimately show ?thesis using pass_store_ok [OF P] by (simp add: A)
qed

definition w_machine :: frame_machine where
  "w_machine = \<lparr>fm_name = ''m1'', fm_namespace = ''metal'', fm_generation = 1, fm_nodeRef = ''n'', fm_alertRelease = None,
     fm_reading = w_status (Some 95), fm_lastAlertReleaseAt = None, fm_lastAlertRelease = '''', fm_conditions = Map.empty\<rparr>"

definition w_menv :: machine_env where
  "w_menv = \<lparr>me_now = 0, me_api = api_up, me_hasAlerts = True, me_listError = None, me_storagePolicy = PolicyNotFound,
     me_netPolicy = PolicyNotFound, me_machineGone = \<lambda>_ _. False, me_sum256 = \<lambda>s. rev s, me_order = \<lambda>xs. xs\<rparr>"

theorem assessStorage_refines_witness:
  "open_keys ''metal'' ''m1'' (snd (assessStorage w_menv True w_machine [])) = {Key CheckWearHigh ''S''}"
proof -
  let ?a = "machine_verdict w_menv w_machine True []"
  have none: "machine_alerts w_menv w_machine [] = []" by (simp add: machine_alerts_def open_entries_def w_menv_def)
  have keys: "map f_key (findings ?a) = [Key CheckWearHigh ''S'']" by code_simp
  have "list_all (finding_ok w_machine) (findings ?a)" by code_simp
  then have ok: "\<forall>f \<in> set (findings ?a). finding_ok w_machine f" by (simp add: list_all_iff)
  have env: "answers w_menv" by (simp add: answers_def w_menv_def)
  have st: "store_ok w_menv []" by (simp add: store_ok_def)
  obtain f where "findings ?a = [f]" using keys by (cases "findings ?a") auto
  then have "no_collision w_menv w_machine (findings ?a) []" by (simp add: no_collision_def all_parts_def)
  from assessStorage_refines [OF env st ok this] none
  have "open_keys (fm_namespace w_machine) (fm_name w_machine) (snd (assessStorage w_menv True w_machine [])) = f_key ` set (findings ?a)"
    by (simp add: open_of_def)
  moreover have "f_key ` set (findings ?a) = {Key CheckWearHigh ''S''}" using keys by (metis list.set(1) list.simps(15) set_map)
  ultimately show ?thesis by (simp add: w_machine_def)
qed

section \<open>The pass as a writer of alerts\<close>

lemma resolve_writes: "writes_alerts st (snd (resolveStorageAlert env fa st))"
  by (simp add: resolveStorageAlert_def Record_writes)

lemma write_all_writes:
  assumes "\<And>x st. writes_alerts st (snd (wr x st))"
  shows "writes_alerts st (snd (write_all wr xs st))"
proof (induction xs arbitrary: st)
  case (Cons x xs)
  then show ?case using assms [of st x] by (auto split: prod.splits option.splits intro: writes_alerts_trans)
qed simp

lemma open_loop_writes: "writes_alerts st (snd (open_loop env ns name items opn st))"
proof (induction items arbitrary: opn st)
  case (Cons fa items)
  then show ?case using resolve_writes [of st env fa]
    by (auto split: prod.splits option.splits intro: writes_alerts_trans)
qed simp

lemma openStorageAlerts_writes: "writes_alerts st (snd (openStorageAlerts env ns name st))"
  using open_loop_writes [of st env ns name st "[]"]
  by (auto simp: openStorageAlerts_def split: prod.splits option.splits sum.splits)

lemma release_loop_writes: "writes_alerts st (snd (snd (snd (snd (release_loop env a device alerts c n st)))))"
proof (induction env a device alerts c n st rule: release_loop.induct)
  case (2 env a device k fa alerts c n st)
  then show ?case using resolve_writes [of st env fa]
    by (auto split: prod.splits option.splits intro: writes_alerts_trans)
qed simp

lemma releaseStorageAlerts_writes: "writes_alerts st (snd (snd (releaseStorageAlerts env fm a alerts st)))"
  using release_loop_writes [of st env a _ alerts 0 0]
  by (auto simp: releaseStorageAlerts_def split: prod.splits option.splits) (metis snd_conv)+

lemma writeStorageAlerts_writes: "writes_alerts st (snd (writeStorageAlerts env fm a alerts st))"
proof -
  have r: "writes_alerts st (snd (write_all (raise_finding env fm alerts) xs st))" for xs st
    by (rule write_all_writes) (simp add: raise_finding_def Record_writes)
  have "writes_alerts st (snd (write_all (resolveStorageAlert env) xs st))" for xs st
    by (rule write_all_writes) (rule resolve_writes)
  then show ?thesis using r [of st "findings a"]
    by (auto simp: writeStorageAlerts_def split: prod.splits option.splits intro: writes_alerts_trans)
qed

lemma assessStorage_writes: "writes_alerts st (snd (assessStorage env fresh fm st))"
  using openStorageAlerts_writes [of st env "fm_namespace fm" "fm_name fm"]
    releaseStorageAlerts_writes writeStorageAlerts_writes
  by (auto simp: assessStorage_def Let_def split: policy_read.splits prod.splits sum.splits)
    (metis snd_conv writes_alerts_trans)+

interpretation machine_writer: alert_writer "\<lambda>st. snd (assessStorage env fresh fm st)" for env fresh fm
  by unfold_locales (rule assessStorage_writes)

interpretation cleanup_writer: alert_writer "\<lambda>st. snd (resolveStorageAlerts env ns name st)" for env ns name
proof unfold_locales
  fix st
  have "writes_alerts st (snd (write_all (resolveStorageAlert env) xs st))" for xs st
    by (rule write_all_writes) (rule resolve_writes)
  then show "writes_alerts st (snd (resolveStorageAlerts env ns name st))"
    using openStorageAlerts_writes [of st env ns name]
    by (auto simp: resolveStorageAlerts_def split: prod.splits sum.splits intro: writes_alerts_trans)
qed

text \<open>C20. Every path that writes alerts moves by the relay machine's own steps, whichever of its calls
  fail: the webhook, a machine's pass, and the clean-up after a deleted machine. With the machine's
  pass step, which is the relay's \<open>Reconcile\<close> itself, every interleaving of the controllers is a run of
  the machine, to which its invariants apply.\<close>

theorem alert_writers_refine_machine:
  assumes "rs_alert s = find_alert st n" "\<And>fa. find_alert st n = Some fa \<Longrightarrow> fa_state fa \<in> alert_states"
    and "st' \<in> {snd (serve unmarshal api secret now req st), snd (assessStorage env fresh fm st), snd (resolveStorageAlerts env ns name st)}"
  shows "\<exists>t. (relay_step sync)\<^sup>*\<^sup>* s t \<and> rs_alert t = find_alert st' n \<and> rs_sent t = rs_sent s"
  using assms(3) webhook.writer_moves [OF assms(1,2)] machine_writer.writer_moves [OF assms(1,2)]
    cleanup_writer.writer_moves [OF assms(1,2)] by blast

text \<open>The sample machine's pass raises an alert, the clean-up resolves it, and the webhook raises another.\<close>

definition w_raised :: "frame_alert list" where
  "w_raised = snd (assessStorage w_menv True w_machine [])"

definition w_raised_name :: string where
  "w_raised_name = fa_name (hd w_raised)"

definition w_cleaned :: "frame_alert list" where
  "w_cleaned = snd (resolveStorageAlerts w_menv ''metal'' ''m1'' w_raised)"

definition w_hooked :: "frame_alert list" where
  "w_hooked = snd (serve (\<lambda>b. if b = ''body'' then Some w_payload else None) api_up (SecretToken ''s3'') 5000000000
     \<lparr>rq_path = ''/alertmanager'', rq_method = ''POST'', rq_authorization = ''Bearer s3'', rq_body = Some ''body''\<rparr> [])"

lemma w_writes:
  "map_option fa_state (find_alert w_raised w_raised_name) = Some AlertStateFiring"
  "map_option fa_state (find_alert w_cleaned w_raised_name) = Some AlertStateResolved"
  by code_simp+

lemma w_hook_writes: "map_option fa_state (find_alert w_hooked ''fa-0a'') = Some AlertStateFiring"
proof -
  have "Validate w_payload = None" "record_all api_up 5000000000 (p_alerts w_payload) [] = (200, snd (Record api_up 5000000000 w_alert []))"
    "map_option fa_state (find_alert (snd (Record api_up 5000000000 w_alert [])) ''fa-0a'') = Some AlertStateFiring"
    by code_simp+
  then show ?thesis by (simp add: w_hooked_def serve_def authorize_def has_prefix_def MaxBodyBytes_def)
qed

theorem alert_writers_refine_machine_witness:
  "(\<exists>t. (relay_step True)\<^sup>*\<^sup>* relay_init t \<and> rs_alert t = find_alert w_raised w_raised_name
      \<and> map_option fa_state (rs_alert t) = Some AlertStateFiring)
   \<and> (\<exists>t. (relay_step True)\<^sup>*\<^sup>* (relay_init\<lparr>rs_alert := find_alert w_raised w_raised_name\<rparr>) t \<and> rs_alert t = find_alert w_cleaned w_raised_name
      \<and> map_option fa_state (rs_alert t) = Some AlertStateResolved)
   \<and> (\<exists>t. (relay_step True)\<^sup>*\<^sup>* relay_init t \<and> rs_alert t = find_alert w_hooked ''fa-0a''
      \<and> map_option fa_state (rs_alert t) = Some AlertStateFiring)"
proof (intro conjI)
  have none: "rs_alert relay_init = find_alert [] n" "find_alert [] n = Some fa \<Longrightarrow> fa_state fa \<in> alert_states" for n fa
    by (simp_all add: relay_init_def find_alert_def)
  have firing: "fa_state fa \<in> alert_states" if "find_alert w_raised w_raised_name = Some fa" for fa
    using that w_writes(1) by (auto simp: alert_states_def)
  show "\<exists>t. (relay_step True)\<^sup>*\<^sup>* relay_init t \<and> rs_alert t = find_alert w_raised w_raised_name
      \<and> map_option fa_state (rs_alert t) = Some AlertStateFiring"
    using alert_writers_refine_machine [where s = relay_init and st = "[]" and n = w_raised_name and st' = w_raised and sync = True and env = w_menv and fresh = True and fm = w_machine]
      none w_writes(1) by (auto simp: w_raised_def)
  show "\<exists>t. (relay_step True)\<^sup>*\<^sup>* (relay_init\<lparr>rs_alert := find_alert w_raised w_raised_name\<rparr>) t \<and> rs_alert t = find_alert w_cleaned w_raised_name
      \<and> map_option fa_state (rs_alert t) = Some AlertStateResolved"
    using alert_writers_refine_machine [where s = "relay_init\<lparr>rs_alert := find_alert w_raised w_raised_name\<rparr>"
        and st = w_raised and n = w_raised_name and st' = w_cleaned and sync = True and env = w_menv and ns = "''metal''" and name = "''m1''"] firing w_writes(2) by (auto simp: w_cleaned_def)
  show "\<exists>t. (relay_step True)\<^sup>*\<^sup>* relay_init t \<and> rs_alert t = find_alert w_hooked ''fa-0a''
      \<and> map_option fa_state (rs_alert t) = Some AlertStateFiring"
    using alert_writers_refine_machine [where s = relay_init and st = "[]" and n = "''fa-0a''" and st' = w_hooked and sync = True
        and unmarshal = "\<lambda>b. if b = ''body'' then Some w_payload else None" and api = api_up and secret = "SecretToken ''s3''" and now = 5000000000
        and req = "\<lparr>rq_path = ''/alertmanager'', rq_method = ''POST'', rq_authorization = ''Bearer s3'', rq_body = Some ''body''\<rparr>"]
      none w_hook_writes by (auto simp: w_hooked_def)
qed

end
