(* ===== verification/Scheduling_Policy.thy ===== *)
theory Scheduling_Policy
  imports Frame_Prelude
begin

text \<open>
  \<open>internal/controller/frame/schedulingpolicy_controller.go\<close>: a namespaced policy that creates, updates
  and deletes cluster-scoped \<open>PriorityClass\<close> and \<open>Queue\<close> objects, with the types of
  \<open>schedulingpolicy_types.go\<close>.

  The cluster-scoped objects are a map from kind and name. \<open>sched_env\<close> says which API calls fail; the
  calls that succeed act on the map. \<open>controllerutil.CreateOrUpdate\<close> reads the object, applies the
  mutation and writes it back, creating it when it is absent.
\<close>

section \<open>Data\<close>

record policy_condition =
  pc_status :: string
  pc_reason :: string
  pc_message :: string
  pc_observedGeneration :: int

record sched_policy =
  sp_namespace :: string
  sp_name :: string
  sp_generation :: int
  sp_deleting :: bool
  sp_finalizer :: bool
  sp_scheduler :: string
  sp_queueName :: string
  sp_priorityClass :: string
  sp_preemption :: bool
  sp_priorityValue :: "int option"
  sp_queueWeight :: "int option"
  sp_observedGeneration :: int
  sp_ready :: "policy_condition option"
  sp_ownedPriorityClass :: string
  sp_ownedQueue :: string
  sp_ownedQueueScheduler :: string

type_synonym gvk = "string \<times> string \<times> string"

datatype object_key = PriorityClassKey string | QueueKey gvk string

datatype json = JInt int | JBool bool | JObj "(string \<times> json) list"

record cluster_object =
  co_uid :: nat
  co_labels :: labels
  co_annotations :: labels
  co_value :: int
  co_globalDefault :: bool
  co_description :: string
  co_preemptionPolicy :: string
  co_spec :: "string \<rightharpoonup> json"

type_synonym objects = "object_key \<rightharpoonup> cluster_object"

datatype api_fault = NoMatch string | ApiError string

text \<open>
  The status is patched at three points of a pass, told apart by \<open>patch_point\<close>. \<open>se_noKind\<close> is the
  client's error for an object that has no kind.
\<close>

datatype patch_point = AtPriorityClass | AtQueue | AtEnd

record sched_env =
  se_get :: "object_key \<Rightarrow> api_fault option"
  se_write :: "object_key \<Rightarrow> string option"
  se_delete :: "object_key \<Rightarrow> string option"
  se_statusPatch :: "patch_point \<Rightarrow> string option"
  se_update :: "string option"
  se_noKind :: string
  se_newUID :: nat

definition schedulerVolcano :: string where "schedulerVolcano = ''volcano''"
definition schedulerYunikorn :: string where "schedulerYunikorn = ''yunikorn''"
definition schedulerDefault :: string where "schedulerDefault = ''default''"

definition policyNamespaceLabel :: string where "policyNamespaceLabel = ''frame.plume-labs.io/policy-namespace''"
definition policyNameLabel :: string where "policyNameLabel = ''frame.plume-labs.io/policy-name''"
definition policySchedulerLabel :: string where "policySchedulerLabel = ''frame.plume-labs.io/scheduler''"

definition reservedPriorityClassPrefix :: string where "reservedPriorityClassPrefix = ''system-''"
definition reservedQueueNames :: "string list" where "reservedQueueNames = [''default'', ''root'']"

record ownershipRefusal =
  or_reason :: string
  or_message :: string

datatype claim_error = Refused ownershipRefusal | KindUnavailable string | ClaimFailed string

definition reservedPriorityClassName :: "string \<Rightarrow> bool" where
  "reservedPriorityClassName name = has_prefix name reservedPriorityClassPrefix"

definition reservedQueueName :: "string \<Rightarrow> bool" where
  "reservedQueueName name \<longleftrightarrow> name \<in> set reservedQueueNames"

definition lookup :: "labels \<Rightarrow> string \<Rightarrow> string" where
  "lookup m k = (case m k of Some v \<Rightarrow> v | None \<Rightarrow> '''')"

definition markedBy :: "labels \<Rightarrow> sched_policy \<Rightarrow> bool" where
  "markedBy labels sp \<longleftrightarrow> lookup labels policyNamespaceLabel = sp_namespace sp \<and> lookup labels policyNameLabel = sp_name sp"

definition describeManager :: "labels \<Rightarrow> labels \<Rightarrow> string" where
  "describeManager labels annotations =
     (let rel = lookup annotations ''meta.helm.sh/release-name'';
          ns = lookup annotations ''meta.helm.sh/release-namespace'';
          manager = lookup labels ''app.kubernetes.io/managed-by''
      in if rel \<noteq> '''' then
           (if ns \<noteq> '''' then ''it belongs to Helm release '' @ ns @ ''/'' @ rel else ''it belongs to Helm release '' @ rel)
         else if manager \<noteq> '''' then ''it is managed by '' @ quoted manager
         else if annotations ''kubectl.kubernetes.io/last-applied-configuration'' \<noteq> None then ''it was created with kubectl apply''
         else ''it predates this SchedulingPolicy'')"

definition queueGVKFor :: "string \<Rightarrow> gvk option" where
  "queueGVKFor scheduler =
     (if scheduler = schedulerVolcano then Some (''scheduling.volcano.sh'', ''v1beta1'', ''Queue'')
      else if scheduler = schedulerYunikorn then Some (''yunikorn.apache.org'', ''v1alpha1'', ''Queue'')
      else None)"

definition queueGVKAndSpec :: "sched_policy \<Rightarrow> (gvk \<times> (string \<times> json) list) option" where
  "queueGVKAndSpec sp =
     (case queueGVKFor (sp_scheduler sp) of
        None \<Rightarrow> None
      | Some g \<Rightarrow>
          (let weight = (case sp_queueWeight sp of Some w \<Rightarrow> w | None \<Rightarrow> 1) in
           if sp_scheduler sp = schedulerYunikorn then
             Some (g, [(''weight'', JInt weight), (''preemption'', JObj [(''allowPreemptSelf'', JBool (sp_preemption sp))])])
           else Some (g, [(''weight'', JInt weight), (''reclaimable'', JBool (sp_preemption sp))])))"

section \<open>Releasing\<close>

text \<open>The answer is the error, if any, and the objects.\<close>

definition delete_marked ::
  "sched_env \<Rightarrow> sched_policy \<Rightarrow> object_key \<Rightarrow> (string \<Rightarrow> string) \<Rightarrow> objects \<Rightarrow> string option \<times> objects" where
  "delete_marked env sp key wrap objs =
     (case objs key of
        None \<Rightarrow> (None, objs)
      | Some obj \<Rightarrow>
          if \<not> markedBy (co_labels obj) sp then (None, objs)
          else (case se_delete env key of
                  Some e \<Rightarrow> (Some (wrap e), objs)
                | None \<Rightarrow> (None, objs(key := None))))"

definition releasePriorityClass ::
  "sched_env \<Rightarrow> sched_policy \<Rightarrow> string \<Rightarrow> objects \<Rightarrow> string option \<times> objects" where
  "releasePriorityClass env sp name objs =
     (if reservedPriorityClassName name then (None, objs)
      else case se_get env (PriorityClassKey name) of
        Some (NoMatch e) \<Rightarrow> (Some (''reading PriorityClass '' @ quoted name @ '' before deleting it: '' @ e), objs)
      | Some (ApiError e) \<Rightarrow> (Some (''reading PriorityClass '' @ quoted name @ '' before deleting it: '' @ e), objs)
      | None \<Rightarrow>
          delete_marked env sp (PriorityClassKey name) (\<lambda>e. ''deleting PriorityClass '' @ quoted name @ '': '' @ e) objs)"

definition releaseQueue ::
  "sched_env \<Rightarrow> sched_policy \<Rightarrow> string \<Rightarrow> string \<Rightarrow> objects \<Rightarrow> string option \<times> objects" where
  "releaseQueue env sp scheduler name objs =
     (if reservedQueueName name then (None, objs)
      else case queueGVKFor scheduler of
        None \<Rightarrow> (None, objs)
      | Some g \<Rightarrow>
          (case se_get env (QueueKey g name) of
             Some (NoMatch e) \<Rightarrow> (None, objs)
           | Some (ApiError e) \<Rightarrow>
               (Some (''reading '' @ scheduler @ '' Queue '' @ quoted name @ '' before deleting it: '' @ e), objs)
           | None \<Rightarrow>
               delete_marked env sp (QueueKey g name)
                 (\<lambda>e. ''deleting '' @ scheduler @ '' Queue '' @ quoted name @ '': '' @ e) objs))"

section \<open>Claiming\<close>

text \<open>The result: the error, the stored policy and the objects.\<close>

definition claimPriorityClass ::
  "sched_env \<Rightarrow> sched_policy \<Rightarrow> objects \<Rightarrow> claim_error option \<times> sched_policy \<times> objects" where
  "claimPriorityClass env sp objs =
     (let want = sp_priorityClass sp; owned = sp_ownedPriorityClass sp;
          occupied =
            (if want = '''' then None
             else if reservedPriorityClassName want then
               Some (Refused \<lparr>or_reason = ''PriorityClassReserved'', or_message = ''PriorityClass '' @ quoted want
                 @ '' is reserved: Kubernetes reserves the '' @ quoted reservedPriorityClassPrefix
                 @ '' prefix, and this controller will neither create, adopt nor delete a name under it''\<rparr>)
             else case se_get env (PriorityClassKey want) of
               Some (NoMatch e) \<Rightarrow> Some (ClaimFailed (''checking whether PriorityClass '' @ quoted want @ '' is free: '' @ e))
             | Some (ApiError e) \<Rightarrow> Some (ClaimFailed (''checking whether PriorityClass '' @ quoted want @ '' is free: '' @ e))
             | None \<Rightarrow>
                 (case objs (PriorityClassKey want) of
                    Some obj \<Rightarrow> Some (Refused \<lparr>or_reason = ''PriorityClassNotOwned'', or_message = ''PriorityClass '' @ quoted want
                      @ '' already exists and was not created by SchedulingPolicy '' @ sp_namespace sp @ ''/'' @ sp_name sp @ '' (''
                      @ describeManager (co_labels obj) (co_annotations obj) @ ''); refusing to adopt it''\<rparr>)
                  | None \<Rightarrow> None))
      in if want = owned then (None, sp, objs)
         else if occupied \<noteq> None then (occupied, sp, objs)
         else (case (if owned \<noteq> '''' then releasePriorityClass env sp owned objs else (None, objs)) of
                 (Some e, objs) \<Rightarrow> (Some (ClaimFailed e), sp, objs)
               | (None, objs) \<Rightarrow>
                   (case se_statusPatch env AtPriorityClass of
                      Some e \<Rightarrow> (Some (ClaimFailed (''recording ownership of PriorityClass '' @ quoted want @ '': '' @ e)), sp, objs)
                    | None \<Rightarrow> (None, sp\<lparr>sp_ownedPriorityClass := want\<rparr>, objs))))"

definition wants_queue :: "sched_policy \<Rightarrow> bool" where
  "wants_queue sp \<longleftrightarrow> sp_queueName sp \<noteq> '''' \<and> sp_scheduler sp \<noteq> schedulerDefault"

definition claimQueue ::
  "sched_env \<Rightarrow> sched_policy \<Rightarrow> objects \<Rightarrow> claim_error option \<times> sched_policy \<times> objects" where
  "claimQueue env sp objs =
     (let wantName = (if wants_queue sp then sp_queueName sp else '''');
          wantScheduler = (if wants_queue sp then sp_scheduler sp else '''');
          ownedName = sp_ownedQueue sp; ownedScheduler = sp_ownedQueueScheduler sp;
          occupied =
            (if wantName = '''' then None
             else if reservedQueueName wantName then
               Some (Refused \<lparr>or_reason = ''QueueReserved'', or_message = ''Queue '' @ quoted wantName
                 @ '' is reserved by the scheduler itself, and this controller will neither create, adopt nor delete it''\<rparr>)
             else case queueGVKFor wantScheduler of
               None \<Rightarrow> Some (ClaimFailed (''no Queue kind is known for scheduler '' @ quoted wantScheduler))
             | Some g \<Rightarrow>
                 (case se_get env (QueueKey g wantName) of
                    Some (NoMatch e) \<Rightarrow>
                      Some (KindUnavailable (''the '' @ wantScheduler @ '' Queue kind is not installed on this cluster: '' @ e))
                  | Some (ApiError e) \<Rightarrow>
                      Some (ClaimFailed (''checking whether '' @ wantScheduler @ '' Queue '' @ quoted wantName @ '' is free: '' @ e))
                  | None \<Rightarrow>
                      (case objs (QueueKey g wantName) of
                         Some obj \<Rightarrow> Some (Refused \<lparr>or_reason = ''QueueNotOwned'', or_message = wantScheduler @ '' Queue '' @ quoted wantName
                           @ '' already exists and was not created by SchedulingPolicy '' @ sp_namespace sp @ ''/'' @ sp_name sp @ '' (''
                           @ describeManager (co_labels obj) (co_annotations obj) @ ''); refusing to adopt it''\<rparr>)
                       | None \<Rightarrow> None)))
      in if wantName = ownedName \<and> wantScheduler = ownedScheduler then (None, sp, objs)
         else if occupied \<noteq> None then (occupied, sp, objs)
         else (case (if ownedName \<noteq> '''' then releaseQueue env sp ownedScheduler ownedName objs else (None, objs)) of
                 (Some e, objs) \<Rightarrow> (Some (ClaimFailed e), sp, objs)
               | (None, objs) \<Rightarrow>
                   (case se_statusPatch env AtQueue of
                      Some e \<Rightarrow> (Some (ClaimFailed (''recording ownership of '' @ wantScheduler @ '' Queue '' @ quoted wantName @ '': '' @ e)), sp, objs)
                    | None \<Rightarrow> (None, sp\<lparr>sp_ownedQueue := wantName, sp_ownedQueueScheduler := wantScheduler\<rparr>, objs))))"

section \<open>Writing\<close>

definition fresh_object :: "sched_env \<Rightarrow> cluster_object" where
  "fresh_object env = \<lparr>co_uid = se_newUID env, co_labels = Map.empty, co_annotations = Map.empty, co_value = 0,
     co_globalDefault = False, co_description = '''', co_preemptionPolicy = '''', co_spec = Map.empty\<rparr>"

text \<open>\<open>CreateOrUpdate\<close>, with the mutation as a function of the object found or of a new one.\<close>

definition createOrUpdate ::
  "sched_env \<Rightarrow> object_key \<Rightarrow> (cluster_object \<Rightarrow> cluster_object) \<Rightarrow> objects \<Rightarrow> string option \<times> objects" where
  "createOrUpdate env key mutate objs =
     (case se_get env key of
        Some (NoMatch e) \<Rightarrow> (Some e, objs)
      | Some (ApiError e) \<Rightarrow> (Some e, objs)
      | None \<Rightarrow>
          (case se_write env key of
             Some e \<Rightarrow> (Some e, objs)
           | None \<Rightarrow>
               (None, objs(key \<mapsto> mutate (case objs key of Some obj \<Rightarrow> obj | None \<Rightarrow> fresh_object env)))))"

definition reconcilePriorityClass :: "sched_env \<Rightarrow> sched_policy \<Rightarrow> objects \<Rightarrow> string option \<times> objects" where
  "reconcilePriorityClass env sp objs =
     (if sp_ownedPriorityClass sp \<noteq> sp_priorityClass sp then
        (Some (''refusing to write PriorityClass '' @ quoted (sp_priorityClass sp) @ '': SchedulingPolicy ''
           @ sp_namespace sp @ ''/'' @ sp_name sp @ '' owns '' @ quoted (sp_ownedPriorityClass sp)), objs)
      else if reservedPriorityClassName (sp_priorityClass sp) then
        (Some (''refusing to write reserved PriorityClass '' @ quoted (sp_priorityClass sp)), objs)
      else createOrUpdate env (PriorityClassKey (sp_priorityClass sp))
             (\<lambda>obj. obj\<lparr>co_value := (case sp_priorityValue sp of Some v \<Rightarrow> v | None \<Rightarrow> 0),
                co_globalDefault := False,
                co_description := ''Managed by SchedulingPolicy '' @ sp_namespace sp @ ''/'' @ sp_name sp,
                co_labels := (co_labels obj)(policyNamespaceLabel \<mapsto> sp_namespace sp, policyNameLabel \<mapsto> sp_name sp,
                  policySchedulerLabel \<mapsto> sp_scheduler sp),
                co_preemptionPolicy := (if sp_preemption sp then ''PreemptLowerPriority'' else ''Never'')\<rparr>) objs)"

definition reconcileQueue :: "sched_env \<Rightarrow> sched_policy \<Rightarrow> objects \<Rightarrow> string option \<times> objects" where
  "reconcileQueue env sp objs =
     (if sp_ownedQueue sp \<noteq> sp_queueName sp \<or> sp_ownedQueueScheduler sp \<noteq> sp_scheduler sp then
        (Some (''refusing to write '' @ sp_scheduler sp @ '' Queue '' @ quoted (sp_queueName sp) @ '': SchedulingPolicy ''
           @ sp_namespace sp @ ''/'' @ sp_name sp @ '' owns '' @ quoted (sp_ownedQueue sp) @ '' ('' @ sp_ownedQueueScheduler sp @ '')''), objs)
      else if reservedQueueName (sp_queueName sp) then
        (Some (''refusing to write reserved Queue '' @ quoted (sp_queueName sp)), objs)
      else case queueGVKAndSpec sp of
        None \<Rightarrow> (Some (se_noKind env), objs)
      | Some (g, spec) \<Rightarrow>
          createOrUpdate env (QueueKey g (sp_queueName sp))
            (\<lambda>obj. obj\<lparr>co_spec := co_spec obj ++ map_of spec,
               co_labels := (co_labels obj)(policyNamespaceLabel \<mapsto> sp_namespace sp, policyNameLabel \<mapsto> sp_name sp)\<rparr>) objs)"

section \<open>The pass\<close>

datatype pass_result = PassDone | PassError string

definition appliedMsg :: "sched_policy \<Rightarrow> string" where
  "appliedMsg sp = ''scheduler='' @ sp_scheduler sp
     @ (if sp_priorityClass sp \<noteq> '''' then '' priorityClass='' @ sp_priorityClass sp else '''')
     @ (if sp_queueName sp \<noteq> '''' then '' queue='' @ sp_queueName sp else '''')"

text \<open>The last status patch of a pass: generation and \<open>Ready\<close> together.\<close>

definition set_ready :: "sched_env \<Rightarrow> sched_policy \<Rightarrow> string \<Rightarrow> string \<Rightarrow> string \<Rightarrow> string option \<times> sched_policy" where
  "set_ready env sp status reason message =
     (case se_statusPatch env AtEnd of
        Some e \<Rightarrow> (Some e, sp)
      | None \<Rightarrow> (None, sp\<lparr>sp_observedGeneration := sp_generation sp,
          sp_ready := Some \<lparr>pc_status = status, pc_reason = reason, pc_message = message,
            pc_observedGeneration = sp_generation sp\<rparr>\<rparr>))"

definition refuse :: "sched_env \<Rightarrow> sched_policy \<Rightarrow> ownershipRefusal \<Rightarrow> pass_result \<times> sched_policy" where
  "refuse env sp r =
     (case set_ready env sp ''False'' (or_reason r) (or_message r) of
        (Some e, sp) \<Rightarrow> (PassError (''recording '' @ or_reason r @ '' on SchedulingPolicy '' @ sp_namespace sp @ ''/'' @ sp_name sp @ '': '' @ e), sp)
      | (None, sp) \<Rightarrow> (PassDone, sp))"

definition reconcileDelete :: "sched_env \<Rightarrow> sched_policy \<Rightarrow> objects \<Rightarrow> pass_result \<times> sched_policy \<times> objects" where
  "reconcileDelete env sp objs =
     (case (if sp_ownedPriorityClass sp \<noteq> '''' then releasePriorityClass env sp (sp_ownedPriorityClass sp) objs else (None, objs)) of
        (Some e, objs) \<Rightarrow> (PassError e, sp, objs)
      | (None, objs) \<Rightarrow>
          (case (if sp_ownedQueue sp \<noteq> '''' then releaseQueue env sp (sp_ownedQueueScheduler sp) (sp_ownedQueue sp) objs else (None, objs)) of
             (Some e, objs) \<Rightarrow> (PassError e, sp, objs)
           | (None, objs) \<Rightarrow>
               (case se_update env of
                  Some e \<Rightarrow> (PassError e, sp, objs)
                | None \<Rightarrow> (PassDone, sp\<lparr>sp_finalizer := False\<rparr>, objs))))"

text \<open>The queue part after the claims: \<open>qerr\<close> is the unavailable kind, if that is what the claim met.\<close>

definition queue_part ::
  "sched_env \<Rightarrow> sched_policy \<Rightarrow> string option \<Rightarrow> objects \<Rightarrow> string option \<times> objects" where
  "queue_part env sp qerr objs =
     (if wants_queue sp then (case qerr of Some e \<Rightarrow> (Some e, objs) | None \<Rightarrow> reconcileQueue env sp objs)
      else (None, objs))"

definition apply_policy ::
  "sched_env \<Rightarrow> sched_policy \<Rightarrow> string option \<Rightarrow> objects \<Rightarrow> pass_result \<times> sched_policy \<times> objects" where
  "apply_policy env sp qerr objs =
     (case (if sp_priorityClass sp \<noteq> '''' then reconcilePriorityClass env sp objs else (None, objs)) of
        (Some e, objs) \<Rightarrow> (PassError (''reconciling PriorityClass: '' @ e), sp, objs)
      | (None, objs) \<Rightarrow>
          (let (qe, objs) = queue_part env sp qerr objs;
               (pe, sp) = (case qe of
                   Some e \<Rightarrow> set_ready env sp ''False'' ''ReconcileError'' (''[Queue: '' @ e @ '']'')
                 | None \<Rightarrow> set_ready env sp ''True'' ''Applied'' (appliedMsg sp))
           in ((case pe of Some e \<Rightarrow> PassError e | None \<Rightarrow> PassDone), sp, objs)))"

definition sched_Reconcile :: "sched_env \<Rightarrow> sched_policy \<Rightarrow> objects \<Rightarrow> pass_result \<times> sched_policy \<times> objects" where
  "sched_Reconcile env sp objs =
     (if sp_deleting sp then reconcileDelete env sp objs
      else case claimPriorityClass env sp objs of
        (Some (Refused r), sp, objs) \<Rightarrow> (let (res, sp) = refuse env sp r in (res, sp, objs))
      | (Some (KindUnavailable e), sp, objs) \<Rightarrow> (PassError (''claiming PriorityClass: '' @ e), sp, objs)
      | (Some (ClaimFailed e), sp, objs) \<Rightarrow> (PassError (''claiming PriorityClass: '' @ e), sp, objs)
      | (None, sp, objs) \<Rightarrow>
          (case claimQueue env sp objs of
             (Some (Refused r), sp, objs) \<Rightarrow> (let (res, sp) = refuse env sp r in (res, sp, objs))
           | (Some (ClaimFailed e), sp, objs) \<Rightarrow> (PassError (''claiming Queue: '' @ e), sp, objs)
           | (qerr, sp, objs) \<Rightarrow>
               if \<not> sp_finalizer sp then
                 (case se_update env of
                    Some e \<Rightarrow> (PassError e, sp, objs)
                  | None \<Rightarrow> (PassDone, sp\<lparr>sp_finalizer := True\<rparr>, objs))
               else apply_policy env sp (case qerr of Some (KindUnavailable e) \<Rightarrow> Some e | _ \<Rightarrow> None) objs))"

end
