(* ===== verification/Scheduling_Safety.thy ===== *)
theory Scheduling_Safety
  imports Scheduling_Policy
begin

text \<open>
  What a pass over a \<open>SchedulingPolicy\<close> may do to the cluster-scoped objects. The contract of every part
  that touches them is the locale \<open>cluster_actor\<close>: it disturbs only an object its policy's status already
  records, records only a name that was free, and leaves the reserved names alone. It is proved of the two
  claims, of the two writers and of the deletion, and composes to the whole pass.
\<close>

fun records :: "sched_policy \<Rightarrow> object_key \<Rightarrow> bool" where
  "records sp (PriorityClassKey n) \<longleftrightarrow> n \<noteq> '''' \<and> sp_ownedPriorityClass sp = n"
| "records sp (QueueKey g n) \<longleftrightarrow> n \<noteq> '''' \<and> sp_ownedQueue sp = n \<and> queueGVKFor (sp_ownedQueueScheduler sp) = Some g"

fun reserved_key :: "object_key \<Rightarrow> bool" where
  "reserved_key (PriorityClassKey n) = reservedPriorityClassName n"
| "reserved_key (QueueKey g n) = reservedQueueName n"

section \<open>The contract\<close>

text \<open>
  Nothing the policy does not record is disturbed or comes to be recorded while it is there, and the
  reserved names keep their objects. The relation is reflexive and transitive, so a pass has it when its
  parts do.
\<close>

definition allowed :: "sched_policy \<Rightarrow> objects \<Rightarrow> sched_policy \<Rightarrow> objects \<Rightarrow> bool" where
  "allowed sp objs sp' objs' \<longleftrightarrow>
     (\<forall>k obj. objs k = Some obj \<and> \<not> records sp k \<longrightarrow> objs' k = Some obj \<and> \<not> records sp' k)
     \<and> (\<forall>k. reserved_key k \<longrightarrow> objs' k = objs k)
     \<and> sp_namespace sp' = sp_namespace sp \<and> sp_name sp' = sp_name sp"

lemma allowed_refl: "allowed sp objs sp objs"
  by (simp add: allowed_def)

lemma allowed_trans: "allowed sp objs sp' objs' \<Longrightarrow> allowed sp' objs' sp'' objs'' \<Longrightarrow> allowed sp objs sp'' objs''"
  unfolding allowed_def by metis

text \<open>Writes to the policy that leave the records alone.\<close>

lemma records_cong:
  "sp_ownedPriorityClass sp' = sp_ownedPriorityClass sp \<Longrightarrow> sp_ownedQueue sp' = sp_ownedQueue sp \<Longrightarrow>
     sp_ownedQueueScheduler sp' = sp_ownedQueueScheduler sp \<Longrightarrow> records sp' k = records sp k"
  by (cases k) auto

definition same_records :: "sched_policy \<Rightarrow> sched_policy \<Rightarrow> bool" where
  "same_records sp sp' \<longleftrightarrow> sp_namespace sp' = sp_namespace sp \<and> sp_name sp' = sp_name sp
     \<and> sp_ownedPriorityClass sp' = sp_ownedPriorityClass sp \<and> sp_ownedQueue sp' = sp_ownedQueue sp
     \<and> sp_ownedQueueScheduler sp' = sp_ownedQueueScheduler sp"

lemma allowed_same:
  "allowed sp objs sp objs' \<Longrightarrow> same_records sp sp' \<Longrightarrow> allowed sp objs sp' objs'"
  using records_cong [of sp' sp] by (simp add: allowed_def same_records_def)

locale cluster_actor =
  fixes act :: "sched_env \<Rightarrow> sched_policy \<Rightarrow> objects \<Rightarrow> sched_policy \<times> objects"
  assumes act_allowed: "act env sp objs = (sp', objs') \<Longrightarrow> allowed sp objs sp' objs'"
begin

lemma foreign_kept:
  "act env sp objs = (sp', objs') \<Longrightarrow> objs k = Some obj \<Longrightarrow> \<not> records sp k \<Longrightarrow> objs' k = Some obj \<and> \<not> records sp' k"
  using act_allowed unfolding allowed_def by blast

lemma reserved_kept:
  "act env sp objs = (sp', objs') \<Longrightarrow> reserved_key k \<Longrightarrow> objs' k = objs k"
  using act_allowed unfolding allowed_def by blast

lemma records_free:
  "act env sp objs = (sp', objs') \<Longrightarrow> records sp' k \<Longrightarrow> \<not> records sp k \<Longrightarrow> objs k = None"
  using foreign_kept by (cases "objs k") blast+

end

section \<open>The parts\<close>

lemma delete_marked_objs:
  "snd (delete_marked env sp key wrap objs) =
     (if \<exists>obj. objs key = Some obj \<and> markedBy (co_labels obj) sp \<and> se_delete env key = None then objs(key := None) else objs)"
  by (auto simp: delete_marked_def split: option.splits)

lemma releasePriorityClass_objs:
  "snd (releasePriorityClass env sp name objs) k \<noteq> objs k \<Longrightarrow>
     k = PriorityClassKey name \<and> \<not> reserved_key k \<and> snd (releasePriorityClass env sp name objs) k = None
     \<and> (\<exists>obj. objs k = Some obj \<and> markedBy (co_labels obj) sp)"
  by (auto simp: releasePriorityClass_def delete_marked_objs split: if_splits option.splits api_fault.splits)

lemma releaseQueue_objs:
  "snd (releaseQueue env sp scheduler name objs) k \<noteq> objs k \<Longrightarrow>
     (\<exists>g. queueGVKFor scheduler = Some g \<and> k = QueueKey g name) \<and> \<not> reserved_key k
     \<and> snd (releaseQueue env sp scheduler name objs) k = None \<and> (\<exists>obj. objs k = Some obj \<and> markedBy (co_labels obj) sp)"
  by (auto simp: releaseQueue_def delete_marked_objs split: if_splits option.splits api_fault.splits)

lemma releasePriorityClass_allowed:
  "releasePriorityClass env sp (sp_ownedPriorityClass sp) objs = (e, objs') \<Longrightarrow> sp_ownedPriorityClass sp \<noteq> [] \<Longrightarrow>
     allowed sp objs sp objs'"
  using releasePriorityClass_objs [of env sp "sp_ownedPriorityClass sp" objs] unfolding allowed_def
  by (metis records.simps(1) snd_conv)

lemma releaseQueue_allowed:
  "releaseQueue env sp (sp_ownedQueueScheduler sp) (sp_ownedQueue sp) objs = (e, objs') \<Longrightarrow> sp_ownedQueue sp \<noteq> [] \<Longrightarrow>
     allowed sp objs sp objs'"
  using releaseQueue_objs [of env sp "sp_ownedQueueScheduler sp" "sp_ownedQueue sp" objs] unfolding allowed_def
  by (metis records.simps(2) snd_conv)

text \<open>A record may move to a name that is free, once the old one is released.\<close>

lemma claimPriorityClass_allowed:
  assumes "claimPriorityClass env sp objs = (e, sp', objs')"
  shows "allowed sp objs sp' objs'"
proof -
  have move: "allowed sp objs (sp\<lparr>sp_ownedPriorityClass := want\<rparr>) objs1"
    if "allowed sp objs sp objs1" "want = [] \<or> objs (PriorityClassKey want) = None" for want objs1
    using that unfolding allowed_def
    by (auto elim!: records.elims)
  show ?thesis
    using assms allowed_refl releasePriorityClass_allowed move
    by (auto simp: claimPriorityClass_def Let_def split: if_splits option.splits prod.splits api_fault.splits)
qed

lemma claimQueue_allowed:
  assumes "claimQueue env sp objs = (e, sp', objs')"
  shows "allowed sp objs sp' objs'"
proof -
  have move: "allowed sp objs (sp\<lparr>sp_ownedQueue := want, sp_ownedQueueScheduler := scheduler\<rparr>) objs1"
    if "allowed sp objs sp objs1" "want = [] \<or> (\<forall>g. queueGVKFor scheduler = Some g \<longrightarrow> objs (QueueKey g want) = None)"
    for want scheduler objs1
    using that unfolding allowed_def
    by (auto elim!: records.elims)
  show ?thesis
    using assms allowed_refl releaseQueue_allowed move
    by (auto simp: claimQueue_def Let_def split: if_splits option.splits prod.splits api_fault.splits)
qed

lemma createOrUpdate_objs:
  "k \<noteq> key \<Longrightarrow> snd (createOrUpdate env key mutate objs) k = objs k"
  by (simp add: createOrUpdate_def split: option.split api_fault.split)

lemma reconcilePriorityClass_objs:
  assumes "reconcilePriorityClass env sp objs = (e, objs')" "objs' k \<noteq> objs k"
  shows "k = PriorityClassKey (sp_priorityClass sp) \<and> sp_ownedPriorityClass sp = sp_priorityClass sp \<and> \<not> reserved_key k"
proof -
  have "snd (reconcilePriorityClass env sp objs) k \<noteq> objs k"
    using assms by simp
  then show ?thesis
    by (cases "k = PriorityClassKey (sp_priorityClass sp)")
      (auto simp: reconcilePriorityClass_def createOrUpdate_objs split: if_splits)
qed

lemma reconcileQueue_objs:
  assumes "reconcileQueue env sp objs = (e, objs')" "objs' k \<noteq> objs k"
  shows "(\<exists>g. queueGVKFor (sp_scheduler sp) = Some g \<and> k = QueueKey g (sp_queueName sp)) \<and> sp_ownedQueue sp = sp_queueName sp
    \<and> sp_ownedQueueScheduler sp = sp_scheduler sp \<and> \<not> reserved_key k"
proof -
  have ne: "snd (reconcileQueue env sp objs) k \<noteq> objs k"
    using assms by simp
  show ?thesis
  proof (cases "queueGVKFor (sp_scheduler sp)")
    case None
    with ne show ?thesis by (simp add: reconcileQueue_def queueGVKAndSpec_def split: if_splits)
  next
    case (Some g)
    with ne show ?thesis
      by (cases g; cases "k = QueueKey g (sp_queueName sp)")
        (auto simp: reconcileQueue_def queueGVKAndSpec_def createOrUpdate_objs Let_def split: if_splits)
  qed
qed

lemma reconcilePriorityClass_allowed:
  "reconcilePriorityClass env sp objs = (e, objs') \<Longrightarrow> sp_priorityClass sp \<noteq> [] \<Longrightarrow> allowed sp objs sp objs'"
  using reconcilePriorityClass_objs [of env sp objs e objs'] unfolding allowed_def by (metis records.simps(1))

lemma reconcileQueue_allowed:
  "reconcileQueue env sp objs = (e, objs') \<Longrightarrow> sp_queueName sp \<noteq> [] \<Longrightarrow> allowed sp objs sp objs'"
  using reconcileQueue_objs [of env sp objs e objs'] unfolding allowed_def by (metis records.simps(2))

lemma set_ready_same: "set_ready env sp status reason message = (e, sp') \<Longrightarrow> same_records sp sp'"
  by (auto simp: set_ready_def same_records_def split: option.splits)

lemma refuse_same: "refuse env sp r = (res, sp') \<Longrightarrow> same_records sp sp'"
  by (auto simp: refuse_def dest: set_ready_same split: option.splits prod.splits)

section \<open>The pass\<close>

lemma reconcileDelete_allowed:
  assumes "reconcileDelete env sp objs = (res, sp', objs')"
  shows "allowed sp objs sp' objs'"
proof -
  have fin: "allowed sp objs (sp\<lparr>sp_finalizer := b\<rparr>) objs1" if "allowed sp objs sp objs1" for b objs1
    by (rule allowed_same [OF that]) (simp add: same_records_def)
  note both = allowed_trans [OF releasePriorityClass_allowed releaseQueue_allowed]
  show ?thesis
    using assms fin both [of env sp objs] releasePriorityClass_allowed [of env sp objs] releaseQueue_allowed [of env sp] allowed_refl
    by (auto simp: reconcileDelete_def split: if_splits option.splits prod.splits)
qed

lemma apply_policy_allowed:
  assumes "apply_policy env sp qerr objs = (res, sp', objs')"
  shows "allowed sp objs sp' objs'"
proof -
  obtain e objs1 where pc: "(if sp_priorityClass sp \<noteq> [] then reconcilePriorityClass env sp objs else (None, objs)) = (e, objs1)"
    by fastforce
  obtain qe objs2 where q: "queue_part env sp qerr objs1 = (qe, objs2)"
    by fastforce
  have a1: "allowed sp objs sp objs1"
    using pc reconcilePriorityClass_allowed allowed_refl by (auto split: if_splits)
  have a2: "allowed sp objs1 sp objs2"
    using q reconcileQueue_allowed allowed_refl by (auto simp: queue_part_def wants_queue_def split: if_splits option.splits)
  show ?thesis
    using assms pc q a1 allowed_same [OF allowed_trans [OF a1 a2]] set_ready_same [of env sp]
    by (auto simp: apply_policy_def Let_def split: option.splits prod.splits)
qed

lemma sched_Reconcile_allowed:
  assumes "sched_Reconcile env sp objs = (res, sp', objs')"
  shows "allowed sp objs sp' objs'"
proof (cases "sp_deleting sp")
  case True
  with assms show ?thesis by (simp add: sched_Reconcile_def reconcileDelete_allowed)
next
  case False
  obtain e1 sp1 objs1 where c1: "claimPriorityClass env sp objs = (e1, sp1, objs1)" by (metis prod_cases3)
  obtain e2 sp2 objs2 where c2: "claimQueue env sp1 objs1 = (e2, sp2, objs2)" by (metis prod_cases3)
  note a1 = claimPriorityClass_allowed [OF c1] and a2 = claimQueue_allowed [OF c2]
  note a12 = allowed_trans [OF a1 a2]
  have ref: "allowed sp objs sp' objs'" if "allowed sp objs spx objsx" "refuse env spx r = (res, sp')" "objs' = objsx" for r spx objsx
    using allowed_trans [OF that(1) allowed_same [OF allowed_refl refuse_same [OF that(2)]]] that(3) by simp
  have fin: "allowed sp objs (sp2\<lparr>sp_finalizer := True\<rparr>) objs2"
    by (rule allowed_trans [OF a12 allowed_same [OF allowed_refl]]) (simp add: same_records_def)
  have app: "allowed sp objs sp' objs'" if "apply_policy env sp2 q objs2 = (res, sp', objs')" for q
    by (rule allowed_trans [OF a12 apply_policy_allowed [OF that]])
  show ?thesis
    using assms False c1 c2 a1 a12 ref [OF a1] ref [OF a12] fin app
    by (auto simp: sched_Reconcile_def Let_def split: option.splits claim_error.splits prod.splits if_splits)
qed

interpretation pc_claim: cluster_actor "\<lambda>env sp objs. snd (claimPriorityClass env sp objs)"
  by unfold_locales (metis claimPriorityClass_allowed prod.collapse)

interpretation queue_claim: cluster_actor "\<lambda>env sp objs. snd (claimQueue env sp objs)"
  by unfold_locales (metis claimQueue_allowed prod.collapse)

interpretation policy_pass: cluster_actor "\<lambda>env sp objs. snd (sched_Reconcile env sp objs)"
  by unfold_locales (metis sched_Reconcile_allowed prod.collapse)

end
