(* ===== verification/Scheduling_Theorems.thy ===== *)
theory Scheduling_Theorems
  imports Scheduling_Safety
begin

text \<open>
  The properties of the \<open>SchedulingPolicy\<close> controller: runs of many policies beside other writers of the
  cluster, the effect of one pass, the life of a policy from creation to deletion, and the window in which
  two policies come to record one name.
\<close>

section \<open>Runs\<close>

text \<open>
  The policies by namespace and name, and the cluster-scoped objects. Users create policies, edit specs and
  ask for deletion; the status and the finalizer are the controller's. \<open>Others\<close> is any write to the
  cluster-scoped objects that leaves the one at \<open>key\<close> alone.
\<close>

type_synonym sched_state = "(string \<times> string \<Rightarrow> sched_policy option) \<times> objects"

definition stored :: "sched_policy \<Rightarrow> sched_policy option" where
  "stored sp = (if sp_deleting sp \<and> \<not> sp_finalizer sp then None else Some sp)"

definition no_records :: "sched_policy \<Rightarrow> bool" where
  "no_records sp \<longleftrightarrow> sp_ownedPriorityClass sp = '''' \<and> sp_ownedQueue sp = '''' \<and> sp_ownedQueueScheduler sp = ''''"

inductive sched_step :: "object_key \<Rightarrow> sched_state \<Rightarrow> sched_state \<Rightarrow> bool" for key where
  Pass: "sched_step key (pols, objs) (pols(p := stored sp'), objs')"
    if "pols p = Some sp" "sched_Reconcile env sp objs = (res, sp', objs')"
| Create: "sched_step key (pols, objs) (pols(p \<mapsto> sp), objs)" if "pols p = None" "no_records sp"
| Edit: "sched_step key (pols, objs) (pols(p \<mapsto> sp'), objs)" if "pols p = Some sp" "same_records sp sp'"
| Others: "sched_step key (pols, objs) (pols, objs')" if "objs' key = objs key"

inductive_cases sched_stepE: "sched_step key s s'"

definition unrecorded :: "object_key \<Rightarrow> sched_state \<Rightarrow> bool" where
  "unrecorded key s \<longleftrightarrow> (\<forall>p sp. fst s p = Some sp \<longrightarrow> \<not> records sp key)"

lemma no_records_key: "no_records sp \<Longrightarrow> \<not> records sp key"
  by (cases key) (auto simp: no_records_def)

lemma same_records_key: "same_records sp sp' \<Longrightarrow> records sp' key = records sp key"
  by (rule records_cong) (simp_all add: same_records_def)

lemma sched_step_foreign:
  assumes "sched_step key s s'" "snd s key = Some obj" "unrecorded key s"
  shows "snd s' key = Some obj \<and> unrecorded key s'"
  using assms(1)
proof (cases rule: sched_step.cases)
  case (Pass pols p sp env objs res sp' objs')
  then have "\<not> records sp key" "objs key = Some obj"
    using assms(2,3) unfolding unrecorded_def by (metis fst_conv, metis snd_conv)
  then have "objs' key = Some obj \<and> \<not> records sp' key"
    using policy_pass.foreign_kept [of env sp objs sp' objs' key obj] Pass(4) by simp
  then show ?thesis
    using Pass(1,2) assms(3) by (auto simp: unrecorded_def stored_def)
next
  case (Create pols p sp objs)
  then show ?thesis using assms no_records_key by (auto simp: unrecorded_def)
next
  case (Edit pols p sp sp' objs)
  then show ?thesis using assms same_records_key [of sp sp' key] by (auto simp: unrecorded_def)
next
  case (Others objs' objs pols)
  then show ?thesis using assms by (auto simp: unrecorded_def)
qed

text \<open>
  C21. A \<open>PriorityClass\<close> or a \<open>Queue\<close> that no policy's status records is left exactly as it is, and stays
  unrecorded, through every run of policy passes with any API failures, policy creations and spec edits, and
  other writers, as long as those writers leave it there.
\<close>

theorem foreign_object_inviolable:
  assumes "(sched_step key)\<^sup>*\<^sup>* s s'" "snd s key = Some obj" "unrecorded key s"
  shows "snd s' key = Some obj \<and> unrecorded key s'"
  using assms(1)
proof (induction rule: rtranclp_induct)
  case base
  then show ?case using assms by simp
next
  case (step s1 s2)
  then show ?case using sched_step_foreign by blast
qed

definition quiet_env :: sched_env where
  "quiet_env = \<lparr>se_get = (\<lambda>k. None), se_write = (\<lambda>k. None), se_delete = (\<lambda>k. None), se_statusPatch = (\<lambda>p. None),
     se_update = None, se_noKind = '''', se_newUID = 7\<rparr>"

definition new_policy :: "string \<Rightarrow> string \<Rightarrow> sched_policy" where
  "new_policy name class = \<lparr>sp_namespace = ''lab'', sp_name = name, sp_generation = 1, sp_deleting = False, sp_finalizer = False,
     sp_scheduler = ''default'', sp_queueName = '''', sp_priorityClass = class, sp_preemption = False,
     sp_priorityValue = Some 100, sp_queueWeight = None, sp_observedGeneration = 0, sp_ready = None,
     sp_ownedPriorityClass = '''', sp_ownedQueue = '''', sp_ownedQueueScheduler = ''''\<rparr>"

definition helm_class :: cluster_object where
  "helm_class = (fresh_object quiet_env)\<lparr>co_value := 1000, co_annotations := [''meta.helm.sh/release-name'' \<mapsto> ''stack'']\<rparr>"

theorem foreign_object_inviolable_witness:
  "\<exists>s'. (sched_step (PriorityClassKey ''gold''))\<^sup>*\<^sup>* ([(''lab'', ''a'') \<mapsto> new_policy ''a'' ''gold''], [PriorityClassKey ''gold'' \<mapsto> helm_class]) s'
     \<and> s' \<noteq> ([(''lab'', ''a'') \<mapsto> new_policy ''a'' ''gold''], [PriorityClassKey ''gold'' \<mapsto> helm_class])
     \<and> snd s' (PriorityClassKey ''gold'') = Some helm_class"
proof -
  let ?k = "PriorityClassKey ''gold''" and ?sp = "new_policy ''a'' ''gold''"
  let ?s = "([(''lab'', ''a'') \<mapsto> ?sp], [?k \<mapsto> helm_class])"
  obtain res sp' objs' where r: "sched_Reconcile quiet_env ?sp [?k \<mapsto> helm_class] = (res, sp', objs')"
    by (metis prod_cases3)
  have "sp_observedGeneration sp' = 1"
    using r by (auto simp: sched_Reconcile_def claimPriorityClass_def new_policy_def quiet_env_def refuse_def set_ready_def
      reservedPriorityClassName_def has_prefix_def reservedPriorityClassPrefix_def Let_def)
  then have ne: "sp' \<noteq> ?sp" by (auto simp: new_policy_def)
  have st: "sched_step ?k ?s ([(''lab'', ''a'') \<mapsto> ?sp] ((''lab'', ''a'') := stored sp'), objs')"
    by (rule sched_step.Pass [OF _ r]) simp
  have "\<not> records ?sp ?k" by (simp add: new_policy_def)
  then have "unrecorded ?k ?s" by (auto simp: unrecorded_def)
  with foreign_object_inviolable [OF r_into_rtranclp [of "sched_step ?k", OF st], of helm_class] st ne
  show ?thesis
    by (intro exI [of _ "([(''lab'', ''a'') \<mapsto> ?sp] ((''lab'', ''a'') := stored sp'), objs')"])
      (auto simp: stored_def fun_upd_def dest!: fun_cong [of _ _ "(''lab'', ''a'')"] split: if_splits)
qed

section \<open>One pass\<close>

definition deletes_marked :: "sched_policy \<Rightarrow> objects \<Rightarrow> objects \<Rightarrow> bool" where
  "deletes_marked sp objs objs' \<longleftrightarrow>
     (\<forall>k. objs' k \<noteq> objs k \<longrightarrow> objs' k = None \<and> records sp k \<and> (\<exists>obj. objs k = Some obj \<and> markedBy (co_labels obj) sp))"

lemma deletes_marked_refl: "deletes_marked sp objs objs"
  by (simp add: deletes_marked_def)

lemma releasePriorityClass_deletes:
  "releasePriorityClass env sp (sp_ownedPriorityClass sp) objs = (e, objs') \<Longrightarrow> sp_ownedPriorityClass sp \<noteq> '''' \<Longrightarrow> deletes_marked sp objs objs'"
  unfolding deletes_marked_def using releasePriorityClass_objs [of env sp "sp_ownedPriorityClass sp" objs]
  by (metis records.simps(1) snd_conv)

lemma releaseQueue_deletes:
  "releaseQueue env sp (sp_ownedQueueScheduler sp) (sp_ownedQueue sp) objs = (e, objs') \<Longrightarrow> sp_ownedQueue sp \<noteq> '''' \<Longrightarrow> deletes_marked sp objs objs'"
  unfolding deletes_marked_def using releaseQueue_objs [of env sp "sp_ownedQueueScheduler sp" "sp_ownedQueue sp" objs]
  by (metis records.simps(2) snd_conv)

text \<open>What the two claims change: the records, and marked objects that are gone.\<close>

lemma claimPriorityClass_effect:
  "claimPriorityClass env sp objs = (e, sp', objs') \<Longrightarrow>
     deletes_marked sp objs objs' \<and> sp' = sp\<lparr>sp_ownedPriorityClass := sp_ownedPriorityClass sp'\<rparr>"
  using releasePriorityClass_deletes [of env sp objs] deletes_marked_refl [of sp objs]
  by (simp add: claimPriorityClass_def Let_def split: if_splits option.splits prod.splits api_fault.splits) auto

lemma claimQueue_effect:
  "claimQueue env sp objs = (e, sp', objs') \<Longrightarrow>
     deletes_marked sp objs objs'
     \<and> sp' = sp\<lparr>sp_ownedQueue := sp_ownedQueue sp', sp_ownedQueueScheduler := sp_ownedQueueScheduler sp'\<rparr>"
  using releaseQueue_deletes [of env sp objs] deletes_marked_refl [of sp objs]
  by (simp add: claimQueue_def Let_def split: if_splits option.splits prod.splits api_fault.splits) auto

definition writes_marked :: "sched_policy \<Rightarrow> objects \<Rightarrow> objects \<Rightarrow> bool" where
  "writes_marked sp objs objs' \<longleftrightarrow>
     (\<forall>k. objs' k \<noteq> objs k \<longrightarrow> records sp k \<and> (\<exists>obj. objs' k = Some obj \<and> markedBy (co_labels obj) sp))"

lemma marks_apart: "policyNamespaceLabel \<noteq> policyNameLabel" "policyNamespaceLabel \<noteq> policySchedulerLabel" "policyNameLabel \<noteq> policySchedulerLabel"
  by (simp_all add: policyNamespaceLabel_def policyNameLabel_def policySchedulerLabel_def)

lemma createOrUpdate_at:
  "snd (createOrUpdate env key mutate objs) key \<noteq> objs key \<Longrightarrow> \<exists>obj. snd (createOrUpdate env key mutate objs) key = Some (mutate obj)"
  by (auto simp: createOrUpdate_def split: option.splits api_fault.splits)

lemma reconcilePriorityClass_writes:
  assumes "reconcilePriorityClass env sp objs = (e, objs')" "sp_priorityClass sp \<noteq> ''''"
  shows "writes_marked sp objs objs'"
  unfolding writes_marked_def
proof (intro allI impI)
  fix k assume ch: "objs' k \<noteq> objs k"
  from reconcilePriorityClass_objs [OF assms(1) ch]
  have k: "k = PriorityClassKey (sp_priorityClass sp)" "sp_ownedPriorityClass sp = sp_priorityClass sp" by auto
  have "snd (reconcilePriorityClass env sp objs) k \<noteq> objs k" using assms ch by simp
  then have "\<exists>obj. snd (reconcilePriorityClass env sp objs) k = Some obj \<and> markedBy (co_labels obj) sp"
    using k by (auto simp: reconcilePriorityClass_def markedBy_def lookup_def marks_apart dest!: createOrUpdate_at split: if_splits)
  then show "records sp k \<and> (\<exists>obj. objs' k = Some obj \<and> markedBy (co_labels obj) sp)"
    using assms k by simp
qed

lemma reconcileQueue_writes:
  assumes "reconcileQueue env sp objs = (e, objs')" "sp_queueName sp \<noteq> ''''"
  shows "writes_marked sp objs objs'"
  unfolding writes_marked_def
proof (intro allI impI)
  fix k assume ch: "objs' k \<noteq> objs k"
  from reconcileQueue_objs [OF assms(1) ch] obtain g where g: "queueGVKFor (sp_scheduler sp) = Some g"
    and k: "k = QueueKey g (sp_queueName sp)" "sp_ownedQueue sp = sp_queueName sp" "sp_ownedQueueScheduler sp = sp_scheduler sp" by blast
  have "snd (reconcileQueue env sp objs) k \<noteq> objs k" using assms ch by simp
  then have "\<exists>obj. snd (reconcileQueue env sp objs) k = Some obj \<and> markedBy (co_labels obj) sp"
    using k g by (auto simp: reconcileQueue_def queueGVKAndSpec_def Let_def markedBy_def lookup_def marks_apart
      dest!: createOrUpdate_at split: if_splits)
  then show "records sp k \<and> (\<exists>obj. objs' k = Some obj \<and> markedBy (co_labels obj) sp)"
    using assms k g by simp
qed

lemma writes_marked_trans: "writes_marked sp objs objs1 \<Longrightarrow> writes_marked sp objs1 objs2 \<Longrightarrow> writes_marked sp objs objs2"
  unfolding writes_marked_def by metis

lemma apply_policy_writes:
  assumes "apply_policy env sp qerr objs = (res, sp', objs')"
  shows "writes_marked sp objs objs' \<and> same_records sp sp'"
proof -
  have none: "writes_marked sp objs objs" for objs by (simp add: writes_marked_def)
  obtain e objs1 where pc: "(if sp_priorityClass sp \<noteq> '''' then reconcilePriorityClass env sp objs else (None, objs)) = (e, objs1)"
    by fastforce
  obtain qe objs2 where q: "queue_part env sp qerr objs1 = (qe, objs2)"
    by fastforce
  have w1: "writes_marked sp objs objs1"
    using pc reconcilePriorityClass_writes none by (auto split: if_splits)
  have w2: "writes_marked sp objs1 objs2"
    using q reconcileQueue_writes none by (auto simp: queue_part_def wants_queue_def split: if_splits option.splits)
  have "same_records sp sp" by (simp add: same_records_def)
  then show ?thesis
    using assms pc q w1 writes_marked_trans [OF w1 w2] set_ready_same [of env sp]
    by (auto simp: apply_policy_def Let_def split: option.splits prod.splits)
qed

text \<open>The objects of a pass: marked ones go, then, in a policy that is kept and holds the finalizer, marked ones are written.\<close>

definition pass_objects :: "sched_policy \<Rightarrow> objects \<Rightarrow> sched_policy \<Rightarrow> objects \<Rightarrow> bool" where
  "pass_objects sp objs sp' objs' \<longleftrightarrow>
     (\<forall>k. objs' k \<noteq> objs k \<longrightarrow>
        (case objs' k of
           None \<Rightarrow> (\<exists>obj. objs k = Some obj \<and> markedBy (co_labels obj) sp)
         | Some obj \<Rightarrow> records sp' k \<and> markedBy (co_labels obj) sp \<and> \<not> sp_deleting sp \<and> sp_finalizer sp))"

lemma pass_objects_deletes:
  "deletes_marked sp objs objs1 \<Longrightarrow> deletes_marked sp1 objs1 objs' \<Longrightarrow> sp_namespace sp1 = sp_namespace sp \<Longrightarrow> sp_name sp1 = sp_name sp \<Longrightarrow>
     pass_objects sp objs sp' objs'"
  unfolding pass_objects_def
proof (intro allI impI)
  fix k assume d: "deletes_marked sp objs objs1" "deletes_marked sp1 objs1 objs'" "sp_namespace sp1 = sp_namespace sp" "sp_name sp1 = sp_name sp"
    and ch: "objs' k \<noteq> objs k"
  have "objs' k = None \<and> (\<exists>obj. objs k = Some obj \<and> markedBy (co_labels obj) sp)"
    using d(1,2) [unfolded deletes_marked_def, THEN spec, of k] ch d(3,4)
    by (cases "objs' k = objs1 k"; cases "objs1 k = objs k") (auto simp: markedBy_def)
  then show "case objs' k of None \<Rightarrow> \<exists>obj. objs k = Some obj \<and> markedBy (co_labels obj) sp
    | Some obj \<Rightarrow> records sp' k \<and> markedBy (co_labels obj) sp \<and> \<not> sp_deleting sp \<and> sp_finalizer sp" by simp
qed

lemma pass_objects_writes:
  assumes "pass_objects sp objs sp2 objs2" "\<forall>k. objs2 k \<noteq> objs k \<longrightarrow> objs2 k = None" "writes_marked sp2 objs2 objs'" "same_records sp2 sp'"
    "sp_namespace sp2 = sp_namespace sp" "sp_name sp2 = sp_name sp" "\<not> sp_deleting sp" "sp_finalizer sp"
  shows "pass_objects sp objs sp' objs'"
  unfolding pass_objects_def
proof (intro allI impI)
  fix k assume ch: "objs' k \<noteq> objs k"
  show "case objs' k of None \<Rightarrow> \<exists>obj. objs k = Some obj \<and> markedBy (co_labels obj) sp
    | Some obj \<Rightarrow> records sp' k \<and> markedBy (co_labels obj) sp \<and> \<not> sp_deleting sp \<and> sp_finalizer sp"
  proof (cases "objs' k = objs2 k")
    case True
    with ch assms(1) [unfolded pass_objects_def, THEN spec, of k] assms(2) [THEN spec, of k] show ?thesis by auto
  next
    case False
    with assms(3) obtain obj where "objs' k = Some obj" "markedBy (co_labels obj) sp2" "records sp2 k"
      unfolding writes_marked_def by blast
    with assms(4-8) same_records_key [OF assms(4)] show ?thesis by (simp add: markedBy_def)
  qed
qed

lemma reconcileDelete_pass_objects:
  assumes "reconcileDelete env sp objs = (res, sp', objs')"
  shows "pass_objects sp objs sp' objs'"
proof -
  obtain e1 objs1 where r1: "(if sp_ownedPriorityClass sp \<noteq> '''' then releasePriorityClass env sp (sp_ownedPriorityClass sp) objs else (None, objs)) = (e1, objs1)"
    by fastforce
  obtain e2 objs2 where r2: "(if sp_ownedQueue sp \<noteq> '''' then releaseQueue env sp (sp_ownedQueueScheduler sp) (sp_ownedQueue sp) objs1 else (None, objs1)) = (e2, objs2)"
    by fastforce
  have d1: "deletes_marked sp objs objs1"
    using r1 releasePriorityClass_deletes deletes_marked_refl by (auto split: if_splits)
  have d2: "deletes_marked sp objs1 objs2"
    using r2 releaseQueue_deletes deletes_marked_refl by (auto split: if_splits)
  have "objs' = objs1 \<or> objs' = objs2"
    using assms r1 r2 by (auto simp: reconcileDelete_def split: option.splits)
  then show ?thesis
    using pass_objects_deletes [OF d1 deletes_marked_refl] pass_objects_deletes [OF d1 d2] by auto
qed

lemma sched_Reconcile_pass_objects:
  assumes "sched_Reconcile env sp objs = (res, sp', objs')"
  shows "pass_objects sp objs sp' objs'"
proof (cases "sp_deleting sp")
  case True
  with assms show ?thesis by (simp add: sched_Reconcile_def reconcileDelete_pass_objects)
next
  case False
  obtain e1 sp1 objs1 where c1: "claimPriorityClass env sp objs = (e1, sp1, objs1)" by (metis prod_cases3)
  obtain e2 sp2 objs2 where c2: "claimQueue env sp1 objs1 = (e2, sp2, objs2)" by (metis prod_cases3)
  note f1 = claimPriorityClass_effect [OF c1] and f2 = claimQueue_effect [OF c2]
  have id1: "sp_namespace sp1 = sp_namespace sp \<and> sp_name sp1 = sp_name sp \<and> sp_finalizer sp1 = sp_finalizer sp"
    using arg_cong [OF f1 [THEN conjunct2], of sp_namespace] arg_cong [OF f1 [THEN conjunct2], of sp_name]
      arg_cong [OF f1 [THEN conjunct2], of sp_finalizer] by simp
  have id2: "sp_namespace sp2 = sp_namespace sp1 \<and> sp_name sp2 = sp_name sp1 \<and> sp_finalizer sp2 = sp_finalizer sp1"
    using arg_cong [OF f2 [THEN conjunct2], of sp_namespace] arg_cong [OF f2 [THEN conjunct2], of sp_name]
      arg_cong [OF f2 [THEN conjunct2], of sp_finalizer] by simp
  have stop1: "pass_objects sp objs spx objs1" for spx
    by (rule pass_objects_deletes [OF f1 [THEN conjunct1] deletes_marked_refl]) simp_all
  have stop2: "pass_objects sp objs spx objs2" for spx
    by (rule pass_objects_deletes [OF f1 [THEN conjunct1] f2 [THEN conjunct1]]) (simp_all add: id1)
  have gone: "\<forall>k. objs2 k \<noteq> objs k \<longrightarrow> objs2 k = None"
    using f1 f2 unfolding deletes_marked_def by metis
  have app: "pass_objects sp objs sp' objs'" if "apply_policy env sp2 q objs2 = (res, sp', objs')" "sp_finalizer sp2" for q
    using pass_objects_writes [OF stop2 gone] apply_policy_writes [OF that(1)] that(2) False id1 id2 by auto
  show ?thesis
    using assms False c1 c2 stop1 stop2 app
    by (auto simp: sched_Reconcile_def Let_def split: option.splits claim_error.splits prod.splits if_splits)
qed

text \<open>
  What one pass does to the cluster-scoped objects, whatever the status says and whichever calls fail.
  A reserved name is never written nor deleted. An object that goes was recorded in the policy's status when
  the pass began and carried its marks. An object that is created or changed is recorded in the status when
  the pass ends and carries the marks, and the policy was not being deleted and already held its finalizer.
\<close>

theorem sched_pass_effect:
  assumes "sched_Reconcile env sp objs = (res, sp', objs')" "objs' k \<noteq> objs k"
  shows "\<not> reserved_key k
    \<and> (case objs' k of
         None \<Rightarrow> records sp k \<and> (\<exists>obj. objs k = Some obj \<and> markedBy (co_labels obj) sp)
       | Some obj \<Rightarrow> records sp' k \<and> markedBy (co_labels obj) sp \<and> \<not> sp_deleting sp \<and> sp_finalizer sp)"
proof -
  have r: "snd (sched_Reconcile env sp objs) = (sp', objs')" using assms(1) by simp
  have "\<not> reserved_key k" using policy_pass.reserved_kept [OF r] assms(2) by blast
  moreover have "records sp k" if "objs' k = None"
    using policy_pass.foreign_kept [OF r, of k] that assms(2) by (cases "objs k") (simp, fastforce)
  ultimately show ?thesis
    using sched_Reconcile_pass_objects [OF assms(1), unfolded pass_objects_def, rule_format, OF assms(2)] by (cases "objs' k") simp_all
qed

definition owner :: sched_policy where
  "owner = (new_policy ''a'' ''gold'')\<lparr>sp_finalizer := True, sp_ownedPriorityClass := ''gold''\<rparr>"

lemmas pass_eval = sched_Reconcile_def claimPriorityClass_def claimQueue_def wants_queue_def apply_policy_def queue_part_def
  reconcilePriorityClass_def createOrUpdate_def set_ready_def reservedPriorityClassName_def has_prefix_def
  reservedPriorityClassPrefix_def schedulerDefault_def new_policy_def quiet_env_def Let_def

theorem sched_pass_effect_witness:
  "snd (snd (sched_Reconcile quiet_env owner Map.empty)) (PriorityClassKey ''gold'') \<noteq> None
   \<and> \<not> reserved_key (PriorityClassKey ''gold'')
   \<and> records (fst (snd (sched_Reconcile quiet_env owner Map.empty))) (PriorityClassKey ''gold'')"
proof -
  obtain res sp' objs' where r: "sched_Reconcile quiet_env owner Map.empty = (res, sp', objs')"
    by (metis prod_cases3)
  have "objs' (PriorityClassKey ''gold'') \<noteq> None"
    using r by (auto simp: pass_eval owner_def)
  then show ?thesis
    using sched_pass_effect [OF r, of "PriorityClassKey ''gold''"] r by auto
qed

section \<open>The life of a policy\<close>

definition api_up :: "sched_env \<Rightarrow> bool" where
  "api_up env \<longleftrightarrow> se_get env = (\<lambda>k. None) \<and> se_write env = (\<lambda>k. None) \<and> se_delete env = (\<lambda>k. None)
     \<and> se_statusPatch env = (\<lambda>p. None) \<and> se_update env = None"

definition names_free :: "sched_policy \<Rightarrow> objects \<Rightarrow> bool" where
  "names_free sp objs \<longleftrightarrow>
     (sp_priorityClass sp \<noteq> '''' \<longrightarrow> \<not> reservedPriorityClassName (sp_priorityClass sp) \<and> objs (PriorityClassKey (sp_priorityClass sp)) = None)
     \<and> (wants_queue sp \<longrightarrow> \<not> reservedQueueName (sp_queueName sp)
         \<and> (case queueGVKFor (sp_scheduler sp) of None \<Rightarrow> False | Some g \<Rightarrow> objs (QueueKey g (sp_queueName sp)) = None))"

definition claimed :: "sched_policy \<Rightarrow> sched_policy" where
  "claimed sp = sp\<lparr>sp_ownedPriorityClass := sp_priorityClass sp,
     sp_ownedQueue := (if wants_queue sp then sp_queueName sp else ''''),
     sp_ownedQueueScheduler := (if wants_queue sp then sp_scheduler sp else ''''), sp_finalizer := True\<rparr>"

lemma first_pass:
  assumes "api_up env" "names_free sp objs" "no_records sp" "\<not> sp_deleting sp" "\<not> sp_finalizer sp"
  shows "sched_Reconcile env sp objs = (PassDone, claimed sp, objs)"
proof -
  have c1: "claimPriorityClass env sp objs = (None, sp\<lparr>sp_ownedPriorityClass := sp_priorityClass sp\<rparr>, objs)"
    using assms by (auto simp: claimPriorityClass_def Let_def api_up_def names_free_def no_records_def)
  let ?sp = "sp\<lparr>sp_ownedPriorityClass := sp_priorityClass sp\<rparr>"
  have w: "wants_queue ?sp = wants_queue sp" by (simp add: wants_queue_def)
  have c2: "claimQueue env ?sp objs = (None, ?sp\<lparr>sp_ownedQueue := (if wants_queue sp then sp_queueName sp else ''''),
     sp_ownedQueueScheduler := (if wants_queue sp then sp_scheduler sp else '''')\<rparr>, objs)"
  proof (cases "wants_queue sp")
    case True
    then obtain g where "queueGVKFor (sp_scheduler sp) = Some g" "objs (QueueKey g (sp_queueName sp)) = None"
      "\<not> reservedQueueName (sp_queueName sp)" "sp_queueName sp \<noteq> ''''"
      using assms(2) by (auto simp: names_free_def wants_queue_def split: option.splits)
    then show ?thesis
      using True assms(1,3) by (simp add: claimQueue_def w Let_def api_up_def no_records_def)
  next
    case False
    then show ?thesis
      using assms(3) by (simp add: claimQueue_def w Let_def no_records_def)
  qed
  show ?thesis
    using assms(1,4,5) by (simp add: sched_Reconcile_def c1 c2 claimed_def api_up_def)
qed

text \<open>The objects the spec asks for, put on a cluster where their names are free.\<close>

definition class_object :: "sched_env \<Rightarrow> sched_policy \<Rightarrow> cluster_object" where
  "class_object env sp = \<lparr>co_uid = se_newUID env,
     co_labels = [policyNamespaceLabel \<mapsto> sp_namespace sp, policyNameLabel \<mapsto> sp_name sp, policySchedulerLabel \<mapsto> sp_scheduler sp],
     co_annotations = Map.empty, co_value = (case sp_priorityValue sp of Some v \<Rightarrow> v | None \<Rightarrow> 0), co_globalDefault = False,
     co_description = ''Managed by SchedulingPolicy '' @ sp_namespace sp @ ''/'' @ sp_name sp,
     co_preemptionPolicy = (if sp_preemption sp then ''PreemptLowerPriority'' else ''Never''), co_spec = Map.empty\<rparr>"

definition queue_object :: "sched_env \<Rightarrow> sched_policy \<Rightarrow> cluster_object" where
  "queue_object env sp = (fresh_object env)\<lparr>
     co_labels := [policyNamespaceLabel \<mapsto> sp_namespace sp, policyNameLabel \<mapsto> sp_name sp],
     co_spec := map_of (case queueGVKAndSpec sp of Some (g, spec) \<Rightarrow> spec | None \<Rightarrow> [])\<rparr>"

definition with_class :: "sched_env \<Rightarrow> sched_policy \<Rightarrow> objects \<Rightarrow> objects" where
  "with_class env sp objs =
     (if sp_priorityClass sp \<noteq> '''' then objs(PriorityClassKey (sp_priorityClass sp) \<mapsto> class_object env sp) else objs)"

definition with_queue :: "sched_env \<Rightarrow> sched_policy \<Rightarrow> objects \<Rightarrow> objects" where
  "with_queue env sp objs =
     (if wants_queue sp then
        (case queueGVKFor (sp_scheduler sp) of
           None \<Rightarrow> objs
         | Some g \<Rightarrow> objs(QueueKey g (sp_queueName sp) \<mapsto> queue_object env sp))
      else objs)"

lemma claimed_spec [simp]:
  "sp_namespace (claimed sp) = sp_namespace sp" "sp_name (claimed sp) = sp_name sp" "sp_scheduler (claimed sp) = sp_scheduler sp"
  "sp_queueName (claimed sp) = sp_queueName sp" "sp_priorityClass (claimed sp) = sp_priorityClass sp"
  "sp_preemption (claimed sp) = sp_preemption sp" "sp_priorityValue (claimed sp) = sp_priorityValue sp"
  "sp_queueWeight (claimed sp) = sp_queueWeight sp" "sp_generation (claimed sp) = sp_generation sp"
  "sp_deleting (claimed sp) = sp_deleting sp" "sp_finalizer (claimed sp)" "wants_queue (claimed sp) = wants_queue sp"
  "appliedMsg (claimed sp) = appliedMsg sp"
  by (simp_all add: claimed_def wants_queue_def appliedMsg_def)

lemma marked_class: "markedBy (co_labels (class_object env sp)) sp"
  by (simp add: class_object_def markedBy_def lookup_def marks_apart)

lemma marked_queue: "markedBy (co_labels (queue_object env sp)) sp"
  by (simp add: queue_object_def markedBy_def lookup_def marks_apart)

lemma settled_claims:
  "claimPriorityClass env (claimed sp) objs = (None, claimed sp, objs)"
  "claimQueue env (claimed sp) objs = (None, claimed sp, objs)"
  by (simp_all add: claimPriorityClass_def claimQueue_def claimed_def wants_queue_def Let_def)

lemma settled_class:
  assumes "api_up env" "names_free sp objs" "sp_priorityClass sp \<noteq> ''''"
  shows "reconcilePriorityClass env (claimed sp) objs = (None, with_class env sp objs)"
  using assms by (simp add: reconcilePriorityClass_def createOrUpdate_def names_free_def api_up_def claimed_def
    with_class_def class_object_def fresh_object_def)

lemma settled_queue:
  assumes "api_up env" "names_free sp objs" "wants_queue sp"
  shows "reconcileQueue env (claimed sp) (with_class env sp objs) = (None, with_queue env sp (with_class env sp objs))"
proof -
  obtain g where g: "queueGVKFor (sp_scheduler sp) = Some g" "objs (QueueKey g (sp_queueName sp)) = None"
    "\<not> reservedQueueName (sp_queueName sp)"
    using assms(2,3) by (auto simp: names_free_def split: option.splits)
  have "queueGVKAndSpec (claimed sp) = queueGVKAndSpec sp"
    by (simp add: queueGVKAndSpec_def split: option.split)
  moreover obtain spec where "queueGVKAndSpec sp = Some (g, spec)"
    using g(1) by (cases "sp_scheduler sp = schedulerYunikorn") (auto simp: queueGVKAndSpec_def Let_def)
  ultimately show ?thesis
    using assms(1,3) g by (simp add: reconcileQueue_def createOrUpdate_def api_up_def with_class_def with_queue_def
      queue_object_def fresh_object_def) (simp add: claimed_def)
qed

lemma second_pass:
  assumes "api_up env" "names_free sp objs" "\<not> sp_deleting sp"
  shows "sched_Reconcile env (claimed sp) objs =
    (PassDone, (claimed sp)\<lparr>sp_observedGeneration := sp_generation sp,
       sp_ready := Some \<lparr>pc_status = ''True'', pc_reason = ''Applied'', pc_message = appliedMsg sp, pc_observedGeneration = sp_generation sp\<rparr>\<rparr>,
     with_queue env sp (with_class env sp objs))"
proof -
  have a: "apply_policy env (claimed sp) None objs =
    (PassDone, (claimed sp)\<lparr>sp_observedGeneration := sp_generation sp,
       sp_ready := Some \<lparr>pc_status = ''True'', pc_reason = ''Applied'', pc_message = appliedMsg sp, pc_observedGeneration = sp_generation sp\<rparr>\<rparr>,
     with_queue env sp (with_class env sp objs))"
  proof -
    have "(if sp_priorityClass (claimed sp) \<noteq> '''' then reconcilePriorityClass env (claimed sp) objs else (None, objs)) = (None, with_class env sp objs)"
      using settled_class [OF assms(1,2)] by (simp add: with_class_def)
    moreover have "queue_part env (claimed sp) None (with_class env sp objs) = (None, with_queue env sp (with_class env sp objs))"
      using settled_queue [OF assms(1,2)] by (simp add: queue_part_def with_queue_def)
    moreover have "se_statusPatch env AtEnd = None" using assms(1) by (simp add: api_up_def)
    ultimately show ?thesis
      by (simp add: apply_policy_def set_ready_def)
  qed
  show ?thesis
    by (simp add: sched_Reconcile_def settled_claims a assms(3))
qed

lemma deletion_pass:
  assumes "api_up env" "names_free sp objs" "same_records (claimed sp) sp'" "sp_deleting sp'"
  shows "sched_Reconcile env sp' (with_queue env' sp (with_class env' sp objs)) = (PassDone, sp'\<lparr>sp_finalizer := False\<rparr>, objs)"
proof -
  have own: "sp_ownedPriorityClass sp' = sp_priorityClass sp" "sp_ownedQueue sp' = (if wants_queue sp then sp_queueName sp else '''')"
    "sp_ownedQueueScheduler sp' = (if wants_queue sp then sp_scheduler sp else '''')"
    and id: "sp_namespace sp' = sp_namespace sp" "sp_name sp' = sp_name sp"
    using assms(3) by (auto simp: same_records_def claimed_def)
  have marks: "markedBy (co_labels (class_object env' sp)) sp'" "markedBy (co_labels (queue_object env' sp)) sp'"
    using marked_class [of env' sp] marked_queue [of env' sp] id by (simp_all add: markedBy_def)
  have pc: "releasePriorityClass env sp' (sp_priorityClass sp) (with_queue env' sp (with_class env' sp objs)) = (None, with_queue env' sp objs)"
    if "sp_priorityClass sp \<noteq> ''''"
    using that assms(1,2) marks by (auto simp: releasePriorityClass_def delete_marked_def with_class_def with_queue_def api_up_def
      names_free_def fun_upd_twist split: option.splits intro!: ext)
  have no_pc: "with_class env' sp objs = objs" if "sp_priorityClass sp = ''''"
    using that by (simp add: with_class_def)
  have q: "releaseQueue env sp' (sp_scheduler sp) (sp_queueName sp) (with_queue env' sp objs) = (None, objs)" if "wants_queue sp"
    using that assms(1,2) marks by (auto simp: releaseQueue_def delete_marked_def with_queue_def api_up_def
      names_free_def split: option.splits)
  have name: "sp_queueName sp \<noteq> ''''" if "wants_queue sp" using that by (simp add: wants_queue_def)
  show ?thesis
    using assms(1,4) own pc no_pc q name
    by (cases "sp_priorityClass sp = ''''"; cases "wants_queue sp")
      (simp_all add: sched_Reconcile_def reconcileDelete_def api_up_def with_queue_def)
qed

text \<open>
  C22. The life of a policy. While the API answers, a new policy whose names are free and not reserved records
  them and gets its finalizer in a first pass that writes no cluster-scoped object; the second pass creates
  exactly the class and the queue its spec asks for and reports \<open>Applied\<close>; and the pass after its deletion
  is asked for lets it go and leaves the cluster-scoped objects exactly as they were before it came.
\<close>

theorem policy_life:
  assumes "api_up env1" "api_up env2" "api_up env3" "names_free sp objs" "no_records sp" "\<not> sp_deleting sp" "\<not> sp_finalizer sp"
  shows "\<exists>sp1 sp2 sp3.
    sched_Reconcile env1 sp objs = (PassDone, sp1, objs) \<and> sp_finalizer sp1
    \<and> sched_Reconcile env2 sp1 objs = (PassDone, sp2, with_queue env2 sp (with_class env2 sp objs))
    \<and> map_option pc_reason (sp_ready sp2) = Some ''Applied''
    \<and> sched_Reconcile env3 (sp2\<lparr>sp_deleting := True\<rparr>) (with_queue env2 sp (with_class env2 sp objs)) = (PassDone, sp3, objs)
    \<and> stored sp3 = None"
proof -
  let ?sp2 = "(claimed sp)\<lparr>sp_observedGeneration := sp_generation sp,
    sp_ready := Some \<lparr>pc_status = ''True'', pc_reason = ''Applied'', pc_message = appliedMsg sp, pc_observedGeneration = sp_generation sp\<rparr>\<rparr>"
  have "sched_Reconcile env3 (?sp2\<lparr>sp_deleting := True\<rparr>) (with_queue env2 sp (with_class env2 sp objs)) =
    (PassDone, (?sp2\<lparr>sp_deleting := True\<rparr>)\<lparr>sp_finalizer := False\<rparr>, objs)"
    by (rule deletion_pass [OF assms(3,4)]) (simp_all add: same_records_def)
  then show ?thesis
    using first_pass [OF assms(1,4-7)] second_pass [OF assms(2,4,6)]
    by (intro exI [of _ "claimed sp"] exI [of _ ?sp2] exI [of _ "(?sp2\<lparr>sp_deleting := True\<rparr>)\<lparr>sp_finalizer := False\<rparr>"])
      (simp add: stored_def)
qed

theorem policy_life_witness:
  "\<exists>sp1 sp2 sp3.
     sched_Reconcile quiet_env (new_policy ''a'' ''gold'') Map.empty = (PassDone, sp1, Map.empty)
     \<and> sched_Reconcile quiet_env sp1 Map.empty =
         (PassDone, sp2, [PriorityClassKey ''gold'' \<mapsto> class_object quiet_env (new_policy ''a'' ''gold'')])
     \<and> sched_Reconcile quiet_env (sp2\<lparr>sp_deleting := True\<rparr>)
         [PriorityClassKey ''gold'' \<mapsto> class_object quiet_env (new_policy ''a'' ''gold'')] = (PassDone, sp3, Map.empty)"
proof -
  let ?sp = "new_policy ''a'' ''gold''"
  have up: "api_up quiet_env" by (simp add: api_up_def quiet_env_def)
  have free: "names_free ?sp Map.empty" "no_records ?sp" "\<not> sp_deleting ?sp" "\<not> sp_finalizer ?sp"
    by (simp_all add: names_free_def no_records_def pass_eval)
  have "with_queue quiet_env ?sp (with_class quiet_env ?sp Map.empty) = [PriorityClassKey ''gold'' \<mapsto> class_object quiet_env ?sp]"
    by (simp add: with_queue_def with_class_def pass_eval)
  then show ?thesis
    using policy_life [OF up up up free] by auto
qed

section \<open>Two policies and one name\<close>

lemma second_writer:
  assumes "api_up env" "\<not> sp_deleting sp" "\<not> wants_queue sp" "sp_priorityClass sp = n" "n \<noteq> ''''" "\<not> reservedPriorityClassName n"
  obtains sp' objs' obj where "sched_Reconcile env (claimed sp) objs = (PassDone, sp', objs')" "same_records (claimed sp) sp'"
    "objs' (PriorityClassKey n) = Some obj" "markedBy (co_labels obj) sp"
proof -
  obtain objs1 where r: "reconcilePriorityClass env (claimed sp) objs = (None, objs1)"
    and o: "\<exists>obj. objs1 (PriorityClassKey n) = Some obj \<and> markedBy (co_labels obj) sp"
    using assms by (simp add: reconcilePriorityClass_def createOrUpdate_def api_up_def claimed_def markedBy_def lookup_def marks_apart)
  have "sched_Reconcile env (claimed sp) objs = (PassDone, snd (set_ready env (claimed sp) ''True'' ''Applied'' (appliedMsg sp)), objs1)"
    using assms r by (simp add: sched_Reconcile_def settled_claims apply_policy_def queue_part_def set_ready_def api_up_def)
  moreover have "same_records (claimed sp) (snd (set_ready env (claimed sp) ''True'' ''Applied'' (appliedMsg sp)))"
    by (rule set_ready_same [OF surjective_pairing])
  ultimately show ?thesis using o that by blast
qed

text \<open>
  A claim checks that the name is free and records it, but nothing holds the name until the pass after
  the next creates the object. Two policies that name one free class can therefore both record it: the first
  creates it, the second takes it over, so that its marks are the second's and no longer the first's, and
  both statuses record it.
\<close>

theorem name_claimed_twice:
  assumes "api_up env" "names_free a objs" "names_free b objs" "no_records a" "no_records b"
    "\<not> sp_deleting a" "\<not> sp_deleting b" "\<not> sp_finalizer a" "\<not> sp_finalizer b"
    "sp_priorityClass a = n" "sp_priorityClass b = n" "n \<noteq> ''''" "\<not> wants_queue a" "\<not> wants_queue b"
    "(sp_namespace a, sp_name a) \<noteq> (sp_namespace b, sp_name b)"
  shows "\<exists>a1 a2 b1 b2 objs1 objs2 obj1 obj2.
    sched_Reconcile env a objs = (PassDone, a1, objs) \<and> sched_Reconcile env b objs = (PassDone, b1, objs)
    \<and> sched_Reconcile env a1 objs = (PassDone, a2, objs1) \<and> sched_Reconcile env b1 objs1 = (PassDone, b2, objs2)
    \<and> objs1 (PriorityClassKey n) = Some obj1 \<and> markedBy (co_labels obj1) a
    \<and> objs2 (PriorityClassKey n) = Some obj2 \<and> markedBy (co_labels obj2) b \<and> \<not> markedBy (co_labels obj2) a
    \<and> records a2 (PriorityClassKey n) \<and> records b2 (PriorityClassKey n)"
proof -
  have ok: "\<not> reservedPriorityClassName n" using assms(2,10,12) by (simp add: names_free_def)
  obtain a2 objs1 obj1 where A: "sched_Reconcile env (claimed a) objs = (PassDone, a2, objs1)" "same_records (claimed a) a2"
    "objs1 (PriorityClassKey n) = Some obj1" "markedBy (co_labels obj1) a"
    by (rule second_writer [OF assms(1,6,13,10,12) ok])
  obtain b2 objs2 obj2 where B: "sched_Reconcile env (claimed b) objs1 = (PassDone, b2, objs2)" "same_records (claimed b) b2"
    "objs2 (PriorityClassKey n) = Some obj2" "markedBy (co_labels obj2) b"
    by (rule second_writer [OF assms(1,7,14,11,12) ok])
  have "\<not> markedBy (co_labels obj2) a" using B(4) assms(15) by (auto simp: markedBy_def)
  moreover have "records a2 (PriorityClassKey n)" "records b2 (PriorityClassKey n)"
    using A(2) B(2) assms(10-12) by (auto simp: same_records_def claimed_def)
  ultimately show ?thesis
    using first_pass [OF assms(1,2,4,6,8)] first_pass [OF assms(1,3,5,7,9)] A B by blast
qed

theorem name_claimed_twice_witness:
  "\<exists>a2 b2. records a2 (PriorityClassKey ''gold'') \<and> records b2 (PriorityClassKey ''gold'')
     \<and> (\<exists>a1 objs1. sched_Reconcile quiet_env (new_policy ''a'' ''gold'') Map.empty = (PassDone, a1, Map.empty)
          \<and> sched_Reconcile quiet_env a1 Map.empty = (PassDone, a2, objs1))
     \<and> (\<exists>b1 objs1 objs2. sched_Reconcile quiet_env (new_policy ''b'' ''gold'') Map.empty = (PassDone, b1, Map.empty)
          \<and> sched_Reconcile quiet_env b1 objs1 = (PassDone, b2, objs2))"
proof -
  have up: "api_up quiet_env" by (simp add: api_up_def quiet_env_def)
  have new: "names_free (new_policy m ''gold'') Map.empty" "no_records (new_policy m ''gold'')" "\<not> sp_deleting (new_policy m ''gold'')"
    "\<not> sp_finalizer (new_policy m ''gold'')" "\<not> wants_queue (new_policy m ''gold'')" "sp_priorityClass (new_policy m ''gold'') = ''gold''" for m
    by (simp_all add: names_free_def no_records_def pass_eval)
  have "(sp_namespace (new_policy ''a'' ''gold''), sp_name (new_policy ''a'' ''gold'')) \<noteq>
    (sp_namespace (new_policy ''b'' ''gold''), sp_name (new_policy ''b'' ''gold''))"
    by (simp add: new_policy_def)
  from name_claimed_twice [OF up new(1) new(1) new(2) new(2) new(3) new(3) new(4) new(4) new(6) new(6) _ new(5) new(5) this]
  show ?thesis by blast
qed

end
