(* ===== verification/Agent_Disks.thy ===== *)
theory Agent_Disks
  imports Complex_Main Storage_Join Go_Text
begin

text \<open>
  \<open>internal/agent/disks.go\<close>: the disks a node's agent reports, from what \<open>lsblk\<close> prints. Running
  \<open>lsblk\<close> and decoding its JSON are the argument of the reader: either failure or the decoded devices.
\<close>

section \<open>Data\<close>

text \<open>The values \<open>json.Unmarshal\<close> gives for the ROTA column.\<close>

datatype rota_value = RotaNull | RotaBool bool | RotaNumber rat | RotaString string | RotaOther

datatype lsblk_device = Lsblk
  (lb_name: string) (lb_path: string) (lb_serial: "string option") (lb_size: int) (lb_type: string)
  (lb_fstype: "string option") (lb_mountPoint: "string option") (lb_wwn: "string option")
  (lb_model: "string option") (lb_rota: rota_value) (lb_label: "string option")
  (lb_children: "lsblk_device list")

datatype lsblk_answer = LsblkFailed string | LsblkUnparsed string | LsblkDevices "lsblk_device list"

definition lsblkBool :: "rota_value \<Rightarrow> bool option" where
  "lsblkBool v =
     (case v of
        RotaNull \<Rightarrow> None
      | RotaBool b \<Rightarrow> Some b
      | RotaNumber x \<Rightarrow> Some (x \<noteq> 0)
      | RotaString s \<Rightarrow>
          (let t = trim_space s in
           if t = ''1'' \<or> t = ''true'' then Some True
           else if t = ''0'' \<or> t = ''false'' then Some False
           else None)
      | RotaOther \<Rightarrow> None)"

definition maxMembers :: nat where "maxMembers = 16"
definition maxObservedDisks :: nat where "maxObservedDisks = 64"
definition maxPathLen :: nat where "maxPathLen = 512"
definition maxSerialLen :: nat where "maxSerialLen = 128"
definition maxWWNLen :: nat where "maxWWNLen = 64"
definition maxModelLen :: nat where "maxModelLen = 256"
definition maxMountPointLen :: nat where "maxMountPointLen = 512"
definition maxFSTypeLen :: nat where "maxFSTypeLen = 64"

definition lsblkTypeDisk :: string where "lsblkTypeDisk = ''disk''"
definition occupancyMounted :: string where "occupancyMounted = ''mounted''"

definition str :: "string option \<Rightarrow> string" where
  "str p = (case p of None \<Rightarrow> '''' | Some s \<Rightarrow> trim_space s)"

section \<open>One device\<close>

text \<open>The devices \<open>walk\<close> visits, in its order.\<close>

primrec walk :: "lsblk_device \<Rightarrow> lsblk_device list" where
  "walk (Lsblk n p s z t f m w o' r l cs) = Lsblk n p s z t f m w o' r l cs # concat (map walk cs)"

definition firstMountPoint :: "lsblk_device \<Rightarrow> string" where
  "firstMountPoint dev =
     (case find (\<lambda>d. str (lb_mountPoint d) \<noteq> '''') (walk dev) of None \<Rightarrow> '''' | Some d \<Rightarrow> str (lb_mountPoint d))"

definition anyFSType :: "lsblk_device \<Rightarrow> string \<Rightarrow> bool" where
  "anyFSType dev fstype \<longleftrightarrow> list_ex (\<lambda>d. str (lb_fstype d) = fstype) (walk dev)"

definition add_member :: "string \<Rightarrow> string list \<Rightarrow> string list" where
  "add_member name out =
     (if name = '''' \<or> length name > 128 \<or> name \<in> set out \<or> length out \<ge> maxMembers then out else out @ [name])"

definition membersOf :: "lsblk_device \<Rightarrow> string list" where
  "membersOf dev =
     fold (\<lambda>d out. if has_prefix (lb_type d) ''raid'' then add_member (lb_name d) out
                   else if str (lb_fstype d) = ''zfs_member'' then add_member (str (lb_label d)) out
                   else out) (walk dev) []"

definition byIDPathFromWWN :: "string \<Rightarrow> string" where
  "byIDPathFromWWN wwn =
     (if has_prefix wwn ''0x'' then ''/dev/disk/by-id/wwn-'' @ wwn
      else if has_prefix wwn ''eui.'' \<or> has_prefix wwn ''nvme.'' then ''/dev/disk/by-id/nvme-'' @ wwn
      else '''')"

definition occupancyOf :: "lsblk_device \<Rightarrow> string" where
  "occupancyOf dev =
     (if firstMountPoint dev \<noteq> '''' then occupancyMounted
      else if anyFSType dev ''linux_raid_member'' then ''md-member''
      else if anyFSType dev ''zfs_member'' then ''zfs-member''
      else let fstype = str (lb_fstype dev) in
        if fstype = '''' then (if lb_children dev \<noteq> [] then ''partitioned'' else ''free'')
        else if has_prefix fstype ''ceph'' then ''ceph-osd''
        else if fstype = ''LVM2_member'' then ''lvm-pv''
        else ''in-use'')"

section \<open>The report\<close>

definition index_of :: "lsblk_device list \<Rightarrow> string \<rightharpoonup> string" where
  "index_of devs =
     fold (\<lambda>dev m.
         let serial = str (lb_serial dev) in
         if lb_type dev \<noteq> lsblkTypeDisk \<or> serial = '''' then m
         else fold (\<lambda>d m. if lb_type d = lsblkTypeDisk \<or> lb_type d = ''part'' then m(lb_name d \<mapsto> serial) else m) (walk dev) m)
       devs Map.empty"

definition observe_disk :: "lsblk_device \<Rightarrow> observed_disk" where
  "observe_disk dev =
     (let wwn = (if length (runes (str (lb_wwn dev))) > maxWWNLen then '''' else str (lb_wwn dev))
      in \<lparr>od_path = lb_path dev, od_serialNumber = str (lb_serial dev), od_sizeGB = wrap32 (quot (lb_size dev) 1000000000),
          od_occupancy = occupancyOf dev, od_wwn = wwn, od_byIDPath = byIDPathFromWWN wwn,
          od_model = clipRunes (str (lb_model dev)) maxModelLen, od_rotational = lsblkBool (lb_rota dev),
          od_mountPoint = clipRunes (firstMountPoint dev) maxMountPointLen,
          od_fsType = clipRunes (str (lb_fstype dev)) maxFSTypeLen, od_members = membersOf dev, od_smart = None\<rparr>)"

fun observe_loop :: "lsblk_device list \<Rightarrow> observed_disk list \<Rightarrow> observed_disk list" where
  "observe_loop [] disks = disks"
| "observe_loop (dev # devs) disks =
     (if lb_type dev \<noteq> lsblkTypeDisk then observe_loop devs disks
      else if str (lb_serial dev) = '''' \<or> length (runes (str (lb_serial dev))) > maxSerialLen then observe_loop devs disks
      else if length (runes (lb_path dev)) > maxPathLen then observe_loop devs disks
      else if length disks = maxObservedDisks then disks
      else observe_loop devs (disks @ [observe_disk dev]))"

definition ObserveDisksIndexed :: "lsblk_answer \<Rightarrow> string + observed_disk list \<times> (string \<rightharpoonup> string)" where
  "ObserveDisksIndexed lsblk =
     (case lsblk of
        LsblkFailed e \<Rightarrow> Inl (''running lsblk: '' @ e)
      | LsblkUnparsed e \<Rightarrow> Inl (''parsing lsblk output: '' @ e)
      | LsblkDevices devs \<Rightarrow> Inr (observe_loop devs [], index_of devs))"

definition ObserveDisks :: "lsblk_answer \<Rightarrow> string + observed_disk list" where
  "ObserveDisks lsblk = (case ObserveDisksIndexed lsblk of Inl e \<Rightarrow> Inl e | Inr (disks, index) \<Rightarrow> Inr disks)"

section \<open>What a report holds\<close>

text \<open>The bounds of \<open>ObservedDisk\<close> and \<open>MachineStorage.Observed\<close> in the CRD, which counts characters.\<close>

definition occupancies :: "string set" where
  "occupancies = {''free'', ''mounted'', ''partitioned'', ''lvm-pv'', ''ceph-osd'', ''md-member'', ''zfs-member'', ''in-use''}"

definition disk_fits :: "observed_disk \<Rightarrow> bool" where
  "disk_fits d \<longleftrightarrow> length (runes (od_path d)) \<le> 512 \<and> od_serialNumber d \<noteq> '''' \<and> length (runes (od_serialNumber d)) \<le> 128
     \<and> is_int32 (od_sizeGB d) \<and> od_occupancy d \<in> occupancies \<and> length (runes (od_wwn d)) \<le> 64
     \<and> length (runes (od_byIDPath d)) \<le> 512 \<and> length (runes (od_model d)) \<le> 256 \<and> length (runes (od_mountPoint d)) \<le> 512
     \<and> length (runes (od_fsType d)) \<le> 64 \<and> length (od_members d) \<le> 16 \<and> distinct (od_members d)
     \<and> list_all (\<lambda>m. m \<noteq> '''' \<and> length (runes m) \<le> 128) (od_members d)"

lemma runes_length: "length (runes s) \<le> length s"
proof (induction s rule: runes.induct)
  case 1
  then show ?case by simp
next
  case (2 a t)
  then show ?case using rune_len_le [of "a # t"] by (auto simp: runes.simps(2))
qed

lemma runes_ascii: "list_all (\<lambda>c. byte c < 128) a \<Longrightarrow> length (runes (a @ s)) = length a + length (runes s)"
proof (induction a)
  case Nil
  then show ?case by simp
next
  case (Cons c a)
  then have "is_rune [c]" by (simp add: is_rune_def rune_len_def)
  with Cons show ?case using runes_rune_append [of "[c]" "a @ s"] by simp
qed

lemma byIDPath_fits:
  assumes "length (runes wwn) \<le> 64"
  shows "length (runes (byIDPathFromWWN wwn)) \<le> 512"
proof -
  have "length (runes (''/dev/disk/by-id/wwn-'' @ wwn)) \<le> 512" "length (runes (''/dev/disk/by-id/nvme-'' @ wwn)) \<le> 512"
    using assms runes_ascii [of "''/dev/disk/by-id/wwn-''" wwn] runes_ascii [of "''/dev/disk/by-id/nvme-''" wwn]
    by (simp_all add: byte_def)
  then show ?thesis by (simp add: byIDPathFromWWN_def)
qed

lemma members_fit:
  "length (membersOf dev) \<le> 16 \<and> distinct (membersOf dev) \<and> list_all (\<lambda>m. m \<noteq> [] \<and> length (runes m) \<le> 128) (membersOf dev)"
proof -
  let ?ok = "\<lambda>out. length out \<le> 16 \<and> distinct out \<and> list_all (\<lambda>m. m \<noteq> [] \<and> length (runes m) \<le> 128) out"
  have add: "?ok (add_member name out)" if "?ok out" for name out
    using that runes_length [of name] by (auto simp: add_member_def maxMembers_def)
  have "?ok (fold (\<lambda>d out. if has_prefix (lb_type d) ''raid'' then add_member (lb_name d) out
                   else if str (lb_fstype d) = ''zfs_member'' then add_member (str (lb_label d)) out
                   else out) ds out)" if "?ok out" for ds out
    using that by (induction ds arbitrary: out) (simp_all add: add)
  then show ?thesis by (simp add: membersOf_def)
qed

lemma occupancy_known: "occupancyOf dev \<in> occupancies"
  by (simp add: occupancyOf_def occupancies_def occupancyMounted_def Let_def)

lemma observe_disk_fits:
  assumes "str (lb_serial dev) \<noteq> []" "length (runes (str (lb_serial dev))) \<le> maxSerialLen" "length (runes (lb_path dev)) \<le> maxPathLen"
  shows "disk_fits (observe_disk dev)"
  unfolding disk_fits_def observe_disk_def Let_def
  using assms members_fit [of dev] occupancy_known [of dev] byIDPath_fits [of "str (lb_wwn dev)"] byIDPath_fits [of "[]"]
    clipRunes_length [of "str (lb_model dev)" maxModelLen] clipRunes_length [of "firstMountPoint dev" maxMountPointLen]
    clipRunes_length [of "str (lb_fstype dev)" maxFSTypeLen] wrap32_range [of "quot (lb_size dev) 1000000000"]
  by (simp add: maxSerialLen_def maxPathLen_def maxWWNLen_def maxModelLen_def maxMountPointLen_def maxFSTypeLen_def)

lemma observe_loop_fits:
  "length disks \<le> 64 \<Longrightarrow> list_all disk_fits disks \<Longrightarrow>
     length (observe_loop devs disks) \<le> 64 \<and> list_all disk_fits (observe_loop devs disks)"
  by (induction devs arbitrary: disks) (simp_all add: observe_disk_fits maxObservedDisks_def)

text \<open>Each disk of a report is one whole-disk device of the listing, with its kernel path.\<close>

lemma observe_loop_from:
  "d \<in> set (observe_loop devs disks) \<Longrightarrow> d \<in> set disks \<or> (\<exists>dev \<in> set devs. d = observe_disk dev \<and> lb_type dev = lsblkTypeDisk)"
  by (induction devs arbitrary: disks) (fastforce split: if_splits)+

end
