(* ===== verification/Disk_Claim.thy ===== *)
theory Disk_Claim
  imports Storage_Health Agent_Disks
begin

text \<open>
  \<open>internal/controller/frame/framediskclaim_controller.go\<close>: the controller that destroys the data of one
  disk, once, with the types of \<open>framediskclaim_types.go\<close>.

  The \<open>Wiper\<close> of the source is a Go interface, so its three methods are an argument of the pass, on a node
  state of any type.
\<close>

section \<open>Data\<close>

record disk_claim =
  dc_uid :: string
  dc_generation :: int
  dc_machineRef :: string
  dc_byIDPath :: string
  dc_serial :: string
  dc_destination :: string
  dc_phase :: string
  dc_phaseSince :: "instant option"
  dc_claimUID :: string
  dc_message :: string
  dc_completion :: "(string \<times> string \<times> string \<times> int) option"

record claim_machine =
  cm_name :: string
  cm_storage :: "machine_storage option"

record 'n wiper =
  w_ReadMarker :: "'n \<Rightarrow> string \<Rightarrow> string \<Rightarrow> string + string \<times> bool"
  w_Claim :: "'n \<Rightarrow> string \<Rightarrow> string \<Rightarrow> string \<Rightarrow> string \<Rightarrow> string option \<times> 'n"
  w_MarkComplete :: "'n \<Rightarrow> string \<Rightarrow> string \<Rightarrow> string \<Rightarrow> string option \<times> 'n"

text \<open>
  A pass makes up to two status patches: the first of \<open>setPhase\<close>, \<open>fail\<close> or \<open>succeed\<close> it reaches, and the
  one after the destructive call.
\<close>

record claim_env =
  ce_now :: instant
  ce_machine :: "string + claim_machine"
  ce_patch1 :: "string option"
  ce_patch2 :: "string option"

definition diskClaimPhaseReady :: string where "diskClaimPhaseReady = ''Ready''"
definition diskClaimPhaseFailed :: string where "diskClaimPhaseFailed = ''Failed''"

definition observationMaxAge :: duration where "observationMaxAge = 5 * minute"

definition setPhase ::
  "claim_env \<Rightarrow> string option \<Rightarrow> disk_claim \<Rightarrow> string \<Rightarrow> string \<Rightarrow> string \<Rightarrow> (string \<times> string \<times> string) option
   \<Rightarrow> string option \<times> disk_claim" where
  "setPhase env patch c phase claimUID msg cond =
     (case patch of
        Some e \<Rightarrow> (Some e, c)
      | None \<Rightarrow> (None, c\<lparr>dc_phase := phase, dc_phaseSince := Some (trunc_second (ce_now env)), dc_claimUID := claimUID,
          dc_message := msg,
          dc_completion := (case cond of None \<Rightarrow> dc_completion c | Some (s, r, m) \<Rightarrow> Some (s, r, m, dc_generation c))\<rparr>))"

definition claim_fail :: "claim_env \<Rightarrow> disk_claim \<Rightarrow> string \<Rightarrow> string option \<times> disk_claim" where
  "claim_fail env c msg = setPhase env (ce_patch1 env) c diskClaimPhaseFailed (dc_claimUID c) msg None"

definition claim_succeed ::
  "claim_env \<Rightarrow> string option \<Rightarrow> disk_claim \<Rightarrow> string \<Rightarrow> string \<Rightarrow> string \<times> string \<times> string \<Rightarrow> string option \<times> disk_claim" where
  "claim_succeed env patch c claimUID msg cond = setPhase env patch c diskClaimPhaseReady claimUID msg (Some cond)"

section \<open>The guards\<close>

definition serial_matches :: "disk_claim \<Rightarrow> machine_storage \<Rightarrow> observed_disk list" where
  "serial_matches c ms = filter (\<lambda>d. od_serialNumber d \<noteq> '''' \<and> od_serialNumber d = dc_serial c) (ms_observed ms)"

definition identify :: "claim_env \<Rightarrow> disk_claim \<Rightarrow> string + claim_machine \<times> instant \<times> observed_disk" where
  "identify env c =
     (if trim_space (dc_serial c) = '''' then
        Inl ''spec.serial is empty: the retyped serial is the confirmation, and an empty one confirms nothing''
      else if \<not> has_prefix (dc_byIDPath c) ''/dev/disk/by-id/'' then
        Inl (''spec.byIDPath '' @ quoted (dc_byIDPath c) @ '' is not under /dev/disk/by-id: sdX ordering changes across boots'')
      else case ce_machine env of
        Inl e \<Rightarrow> Inl (''reading FrameMachine '' @ quoted (dc_machineRef c) @ '': '' @ e)
      | Inr m \<Rightarrow>
          let never = Inl (''machine '' @ quoted (cm_name m) @ '' has never reported its disks: not knowing is not an authorisation'') in
          (case cm_storage m of
             None \<Rightarrow> never
           | Some ms \<Rightarrow>
               (case ms_observedAt ms of
                  None \<Rightarrow> never
                | Some seen \<Rightarrow>
                    (case serial_matches c ms of
                       [] \<Rightarrow> Inl (''no disk with serial '' @ quoted (dc_serial c) @ '' is reported on machine '' @ quoted (cm_name m))
                     | [d] \<Rightarrow>
                         if od_path d \<noteq> dc_byIDPath c then
                           Inl (''serial '' @ quoted (dc_serial c) @ '' is at '' @ od_path d @ '' on '' @ cm_name m
                             @ '', not at the requested '' @ dc_byIDPath c)
                         else Inr (m, seen, d)
                     | ds \<Rightarrow> Inl (''serial '' @ quoted (dc_serial c) @ '' matches '' @ nat_str (length ds) @ '' disks on machine ''
                         @ quoted (cm_name m) @ ''; refusing an ambiguous claim'')))))"

definition authoriseDestruction :: "claim_env \<Rightarrow> claim_machine \<Rightarrow> instant \<Rightarrow> observed_disk \<Rightarrow> string option" where
  "authoriseDestruction env m observedAt d =
     (let age = ce_now env - observedAt in
      if age > observationMaxAge then
        Some (''machine '' @ quoted (cm_name m) @ [CHR 0x27] @ ''s disk report is stale ('' @ dur_secs_str (trunc_second age) @ '' old, limit ''
          @ dur_secs_str observationMaxAge @ '')'')
      else if od_occupancy d \<noteq> ''free'' then
        Some (''disk '' @ od_path d @ '' is '' @ od_occupancy d @ ''; a claim destroys data and only proceeds on a free disk'')
      else None)"

section \<open>The pass\<close>

definition claimed_for :: "disk_claim \<Rightarrow> observed_disk \<Rightarrow> string" where
  "claimed_for c disk = od_path disk @ '' claimed for '' @ dc_destination c"

text \<open>The destructive call and what follows it.\<close>

definition destroy ::
  "'n wiper \<Rightarrow> claim_env \<Rightarrow> disk_claim \<Rightarrow> observed_disk \<Rightarrow> 'n \<Rightarrow> string option \<times> disk_claim \<times> 'n" where
  "destroy w env c disk n =
     (case setPhase env (ce_patch1 env) c ''Claiming'' (dc_uid c) (''claiming '' @ od_path disk) None of
        (Some e, c) \<Rightarrow> (Some e, c, n)
      | (None, c) \<Rightarrow>
          (case w_Claim w n (dc_machineRef c) (od_path disk) (dc_uid c) (dc_destination c) of
             (Some e, n) \<Rightarrow>
               (case setPhase env (ce_patch2 env) c ''Claiming'' (dc_uid c)
                       (''claim of '' @ od_path disk @ '' did not complete cleanly: '' @ e) None of
                  (Some e', c) \<Rightarrow> (Some e', c, n)
                | (None, c) \<Rightarrow> (Some (''claiming '' @ od_path disk @ '' on '' @ dc_machineRef c @ '': '' @ e), c, n))
           | (None, n) \<Rightarrow>
               (case w_MarkComplete w n (dc_machineRef c) (od_path disk) (dc_uid c) of
                  (None, n) \<Rightarrow>
                    (let (e, c) = claim_succeed env (ce_patch2 env) c (dc_uid c) (claimed_for c disk)
                                    (''True'', ''Recorded'', ''the completion record was written on the machine'')
                     in (e, c, n))
                | (Some e, n) \<Rightarrow>
                    (let (e', c) = claim_succeed env (ce_patch2 env) c (dc_uid c)
                                    (claimed_for c disk @ ''; the completion record could not be written: '' @ e)
                                    (''False'', ''MarkerWriteFailed'', e)
                     in (e', c, n)))))"

definition claim_Reconcile ::
  "'n wiper \<Rightarrow> claim_env \<Rightarrow> disk_claim \<Rightarrow> 'n \<Rightarrow> string option \<times> disk_claim \<times> 'n" where
  "claim_Reconcile w env c n =
     (if dc_phase c = diskClaimPhaseReady \<or> dc_phase c = diskClaimPhaseFailed then (None, c, n)
      else case identify env c of
        Inl e \<Rightarrow> (let (e, c) = claim_fail env c e in (e, c, n))
      | Inr (m, seen, disk) \<Rightarrow>
          (case w_ReadMarker w n (dc_machineRef c) (od_path disk) of
             Inl e \<Rightarrow> (Some (''reading the claim marker on '' @ dc_machineRef c @ '': '' @ e), c, n)
           | Inr (existing, finished) \<Rightarrow>
               if existing = dc_uid c then
                 (if finished then
                    (let (e, c) = claim_succeed env (ce_patch1 env) c (dc_uid c) (claimed_for c disk)
                                    (''True'', ''Recorded'', ''the completion record was read back from the machine on resume'')
                     in (e, c, n))
                  else
                    (let (e, c) = claim_fail env c (''this claim already began claiming '' @ od_path disk
                        @ '' and its completion is unconfirmed (the manager may have restarted, or a previous attempt's cleanup failed); ''
                        @ ''the disk must be inspected before any retry'')
                     in (e, c, n)))
               else if existing \<noteq> '''' then
                 (let (e, c) = claim_fail env c (''disk '' @ od_path disk @ '' already carries claim marker '' @ quoted existing
                      @ ''; a second claim on a claimed disk is refused'')
                  in (e, c, n))
               else (case authoriseDestruction env m seen disk of
                 Some e \<Rightarrow> (let (e, c) = claim_fail env c e in (e, c, n))
               | None \<Rightarrow> destroy w env c disk n)))"

section \<open>The manager's Wiper\<close>

text \<open>\<open>unconfiguredWiper\<close> of \<open>cmd/main.go\<close>: the build ships the guards and no destructive backend.\<close>

definition unconfiguredWiper :: "unit wiper" where
  "unconfiguredWiper =
     (let msg = ''destructive backend not configured: this build ships FrameDiskClaim's guards only'' in
      \<lparr>w_ReadMarker = (\<lambda>n m p. Inl msg), w_Claim = (\<lambda>n m p u d. (Some msg, n)), w_MarkComplete = (\<lambda>n m p u. (Some msg, n))\<rparr>)"

end
