(* ===== verification/Disk_Safety.thy ===== *)
theory Disk_Safety
  imports Disk_Claim
begin

text \<open>
  What the \<open>FrameDiskClaim\<close> controller guarantees of any \<open>Wiper\<close> that keeps its promises, and how it meets
  the disk reports of the node agent.
\<close>

section \<open>What a Wiper promises\<close>

text \<open>
  On a node state there is, for each machine and path, the claim marker, whether it is complete, and how many
  times destructive work was begun. \<open>Claim\<close> destroys nothing before its marker is written, and writes no
  completion; \<open>MarkComplete\<close> destroys nothing.
\<close>

type_synonym place = "string \<times> string"

locale disk_wiper =
  fixes w :: "'n wiper" and marker :: "'n \<Rightarrow> place \<Rightarrow> string" and finished :: "'n \<Rightarrow> place \<Rightarrow> bool" and wiped :: "'n \<Rightarrow> place \<Rightarrow> nat"
  assumes read_marker: "w_ReadMarker w n m p = Inr (u, b) \<Longrightarrow> u = marker n (m, p) \<and> b = finished n (m, p)"
    and claim_elsewhere: "w_Claim w n m p u d = (e, n') \<Longrightarrow> l \<noteq> (m, p) \<Longrightarrow> marker n' l = marker n l \<and> finished n' l = finished n l \<and> wiped n' l = wiped n l"
    and claim_here: "w_Claim w n m p u d = (e, n') \<Longrightarrow>
      finished n' (m, p) = finished n (m, p)
      \<and> (marker n' (m, p) = u \<and> wiped n' (m, p) \<le> Suc (wiped n (m, p))
         \<or> marker n' (m, p) = marker n (m, p) \<and> wiped n' (m, p) = wiped n (m, p))"
    and claim_done: "w_Claim w n m p u d = (None, n') \<Longrightarrow> marker n' (m, p) = u \<and> wiped n' (m, p) = Suc (wiped n (m, p))"
    and mark: "w_MarkComplete w n m p u = (e, n') \<Longrightarrow> marker n' = marker n \<and> wiped n' = wiped n \<and> (\<forall>l. l \<noteq> (m, p) \<longrightarrow> finished n' l = finished n l)"
    and mark_done: "w_MarkComplete w n m p u = (None, n') \<Longrightarrow> finished n' (m, p)"
begin

lemma mark_finished: "w_MarkComplete w n m p u = (e, n') \<Longrightarrow> finished n' l \<Longrightarrow> finished n l \<or> l = (m, p)"
  using mark by blast

end

text \<open>Where destructive work began there is a marker, it began once, and a complete place was worked on.\<close>

definition sound_disks :: "('n \<Rightarrow> place \<Rightarrow> string) \<Rightarrow> ('n \<Rightarrow> place \<Rightarrow> bool) \<Rightarrow> ('n \<Rightarrow> place \<Rightarrow> nat) \<Rightarrow> 'n \<Rightarrow> bool" where
  "sound_disks marker finished wiped n \<longleftrightarrow>
     (\<forall>l. wiped n l \<le> 1 \<and> (0 < wiped n l \<longrightarrow> marker n l \<noteq> '''') \<and> (finished n l \<longrightarrow> 0 < wiped n l))"

lemma sound_at:
  "sound_disks marker finished wiped n \<Longrightarrow> wiped n l \<le> 1 \<and> (0 < wiped n l \<longrightarrow> marker n l \<noteq> '''') \<and> (finished n l \<longrightarrow> 0 < wiped n l)"
  unfolding sound_disks_def by blast

section \<open>The guards\<close>

text \<open>The disk a claim names: retyped serial and stable path meet in exactly one reported disk.\<close>

definition named_disk :: "claim_env \<Rightarrow> disk_claim \<Rightarrow> instant \<Rightarrow> observed_disk \<Rightarrow> bool" where
  "named_disk env c seen d \<longleftrightarrow>
     trim_space (dc_serial c) \<noteq> '''' \<and> has_prefix (dc_byIDPath c) ''/dev/disk/by-id/'' \<and> od_path d = dc_byIDPath c
     \<and> (\<exists>m ms. ce_machine env = Inr m \<and> cm_storage m = Some ms \<and> ms_observedAt ms = Some seen
          \<and> filter (\<lambda>d. od_serialNumber d = dc_serial c) (ms_observed ms) = [d])"

lemma trim_space_nonempty: "trim_space s \<noteq> '''' \<Longrightarrow> s \<noteq> ''''"
  using trim_space_infix [of s] by auto

lemma identify_named:
  assumes "identify env c = Inr (m, seen, d)"
  shows "named_disk env c seen d"
proof -
  obtain ms where ms: "ce_machine env = Inr m" "cm_storage m = Some ms" "ms_observedAt ms = Some seen"
    and one: "serial_matches c ms = [d]" and path: "od_path d = dc_byIDPath c"
    and s: "trim_space (dc_serial c) \<noteq> ''''" "has_prefix (dc_byIDPath c) ''/dev/disk/by-id/''"
    using assms by (auto simp: identify_def Let_def split: if_splits sum.splits option.splits list.splits)
  have "serial_matches c ms = filter (\<lambda>d. od_serialNumber d = dc_serial c) (ms_observed ms)"
    unfolding serial_matches_def using trim_space_nonempty [OF s(1)] by (intro filter_cong) auto
  with one ms path s show ?thesis unfolding named_disk_def by auto
qed

lemma authorised_iff:
  "authoriseDestruction env m seen d = None \<longleftrightarrow> ce_now env - seen \<le> observationMaxAge \<and> od_occupancy d = ''free''"
  by (simp add: authoriseDestruction_def Let_def)

section \<open>One pass\<close>

lemma setPhase_spec:
  "setPhase env patch c phase u msg cond = (e, c') \<Longrightarrow>
     dc_uid c' = dc_uid c \<and> dc_machineRef c' = dc_machineRef c \<and> dc_destination c' = dc_destination c \<and> dc_byIDPath c' = dc_byIDPath c
     \<and> (dc_phase c' = dc_phase c \<or> dc_phase c' = phase)"
  by (auto simp: setPhase_def split: option.splits)

lemma destroy_node:
  assumes "destroy w env c disk n = (e, c', n')"
  shows "n' = n \<and> dc_phase c' \<noteq> ''Ready'' \<or>
    (\<exists>e1 n1. w_Claim w n (dc_machineRef c) (od_path disk) (dc_uid c) (dc_destination c) = (e1, n1)
       \<and> (n' = n1 \<and> dc_phase c' \<noteq> ''Ready''
          \<or> e1 = None \<and> (\<exists>e2. w_MarkComplete w n1 (dc_machineRef c) (od_path disk) (dc_uid c) = (e2, n'))))
    \<or> dc_phase c = ''Ready''"
proof -
  obtain e0 c0 where s: "setPhase env (ce_patch1 env) c ''Claiming'' (dc_uid c) (''claiming '' @ od_path disk) None = (e0, c0)"
    by fastforce
  obtain e1 n1 where cl: "w_Claim w n (dc_machineRef c) (od_path disk) (dc_uid c) (dc_destination c) = (e1, n1)" by fastforce
  obtain e2 n2 where mk: "w_MarkComplete w n1 (dc_machineRef c) (od_path disk) (dc_uid c) = (e2, n2)" by fastforce
  note c0 = setPhase_spec [OF s]
  show ?thesis
  proof (cases e0)
    case (Some e0')
    with assms s have "n' = n" "c' = c0" by (simp_all add: destroy_def)
    with c0 show ?thesis by auto
  next
    case None
    show ?thesis
    proof (cases e1)
      case e1: (Some x)
      obtain e3 c3 where s3: "setPhase env (ce_patch2 env) c0 ''Claiming'' (dc_uid c0)
          (''claim of '' @ od_path disk @ '' did not complete cleanly: '' @ x) None = (e3, c3)" by fastforce
      have "n' = n1" "c' = c3" using assms s None cl e1 s3 c0 by (auto simp: destroy_def split: option.splits)
      then show ?thesis using cl e1 setPhase_spec [OF s3] c0 by auto
    next
      case e1: None
      have "n' = n2" using assms s None cl e1 mk c0 by (auto simp: destroy_def split: option.splits prod.splits)
      then show ?thesis using cl e1 mk by auto
    qed
  qed
qed

definition place_of :: "disk_claim \<Rightarrow> place" where
  "place_of c = (dc_machineRef c, dc_byIDPath c)"

context disk_wiper
begin

lemma pass_cases:
  assumes "claim_Reconcile w env c n = (e, c', n')"
  obtains (idle) "n' = n" "dc_phase c' = ''Ready'' \<Longrightarrow> dc_phase c \<noteq> ''Ready'' \<Longrightarrow> marker n (place_of c) = dc_uid c \<and> finished n (place_of c)"
  | (destroys) seen disk where "named_disk env c seen disk" "ce_now env - seen \<le> observationMaxAge" "od_occupancy disk = ''free''"
      "marker n (place_of c) = ''''" "dc_phase c \<noteq> ''Ready''" "dc_phase c \<noteq> ''Failed''" "destroy w env c disk n = (e, c', n')"
proof (cases "dc_phase c = ''Ready'' \<or> dc_phase c = ''Failed''")
  case True
  with assms idle show ?thesis
    by (auto simp: claim_Reconcile_def diskClaimPhaseReady_def diskClaimPhaseFailed_def)
next
  case open_phase: False
  have failed: thesis if f: "claim_fail env c msg = (e, c')" and n: "n' = n" for msg
  proof (rule idle [OF n])
    have "dc_phase c' = dc_phase c \<or> dc_phase c' = ''Failed''"
      using setPhase_spec f unfolding claim_fail_def diskClaimPhaseFailed_def by blast
    then show "marker n (place_of c) = dc_uid c \<and> finished n (place_of c)" if "dc_phase c' = ''Ready''" "dc_phase c \<noteq> ''Ready''"
      using that by auto
  qed
  show ?thesis
  proof (cases "identify env c")
    case (Inl msg)
    with assms open_phase failed show ?thesis
      by (auto simp: claim_Reconcile_def diskClaimPhaseReady_def diskClaimPhaseFailed_def split: prod.splits)
  next
    case (Inr r)
    then obtain m seen disk where id: "identify env c = Inr (m, seen, disk)" by (metis prod_cases3)
    have named: "named_disk env c seen disk" and path: "od_path disk = dc_byIDPath c"
      using identify_named [OF id] by (auto simp: named_disk_def)
    show ?thesis
    proof (cases "w_ReadMarker w n (dc_machineRef c) (od_path disk)")
      case (Inl msg)
      with assms open_phase id idle show ?thesis
        by (auto simp: claim_Reconcile_def diskClaimPhaseReady_def diskClaimPhaseFailed_def)
    next
      case (Inr r)
      then obtain u b where rd: "w_ReadMarker w n (dc_machineRef c) (od_path disk) = Inr (u, b)" by (cases r) auto
      have mk: "marker n (place_of c) = u" "finished n (place_of c) = b"
        using read_marker [OF rd] path by (auto simp: place_of_def)
      have eq: "claim_Reconcile w env c n = (e, c', n')" by (rule assms)
      show ?thesis
      proof (cases "u = dc_uid c \<or> u \<noteq> ''''")
        case True
        then show ?thesis
          using eq open_phase id rd mk failed idle
          by (auto simp: claim_Reconcile_def diskClaimPhaseReady_def diskClaimPhaseFailed_def split: if_splits prod.splits)
      next
        case False
        then show ?thesis
          using eq open_phase id rd mk failed destroys [OF named] authorised_iff [of env m seen disk]
          by (auto simp: claim_Reconcile_def diskClaimPhaseReady_def diskClaimPhaseFailed_def split: if_splits prod.splits option.splits)
      qed
    qed
  qed
qed

end

context disk_wiper
begin

lemma destroy_effect:
  assumes "destroy w env c disk n = (e, c', n')" "od_path disk = dc_byIDPath c" "dc_phase c \<noteq> ''Ready''"
  shows "(\<forall>l. l \<noteq> place_of c \<longrightarrow> marker n' l = marker n l \<and> finished n' l = finished n l \<and> wiped n' l = wiped n l)"
    and "marker n' (place_of c) = dc_uid c \<and> wiped n' (place_of c) \<le> Suc (wiped n (place_of c))
      \<or> marker n' (place_of c) = marker n (place_of c) \<and> wiped n' (place_of c) = wiped n (place_of c)"
    and "finished n' (place_of c) \<Longrightarrow> finished n (place_of c) \<or> wiped n' (place_of c) = Suc (wiped n (place_of c))"
    and "dc_phase c' = ''Ready'' \<Longrightarrow> marker n' (place_of c) = dc_uid c \<and> wiped n' (place_of c) = Suc (wiped n (place_of c))"
proof -
  let ?l = "place_of c"
  consider (none) "n' = n" "dc_phase c' \<noteq> ''Ready''"
    | (began) e1 where "w_Claim w n (dc_machineRef c) (dc_byIDPath c) (dc_uid c) (dc_destination c) = (e1, n')" "dc_phase c' \<noteq> ''Ready''"
    | (marked) n1 e2 where "w_Claim w n (dc_machineRef c) (dc_byIDPath c) (dc_uid c) (dc_destination c) = (None, n1)"
        "w_MarkComplete w n1 (dc_machineRef c) (dc_byIDPath c) (dc_uid c) = (e2, n')"
    using destroy_node [OF assms(1)] assms(2,3) by auto
  then have "(\<forall>l. l \<noteq> ?l \<longrightarrow> marker n' l = marker n l \<and> finished n' l = finished n l \<and> wiped n' l = wiped n l)
    \<and> (marker n' ?l = dc_uid c \<and> wiped n' ?l \<le> Suc (wiped n ?l) \<or> marker n' ?l = marker n ?l \<and> wiped n' ?l = wiped n ?l)
    \<and> (finished n' ?l \<longrightarrow> finished n ?l \<or> wiped n' ?l = Suc (wiped n ?l))
    \<and> (dc_phase c' = ''Ready'' \<longrightarrow> marker n' ?l = dc_uid c \<and> wiped n' ?l = Suc (wiped n ?l))"
  proof cases
    case none
    then show ?thesis by simp
  next
    case (began e1)
    then show ?thesis using claim_elsewhere [OF began(1)] claim_here [OF began(1)] by (auto simp: place_of_def)
  next
    case (marked n1 e2)
    then show ?thesis
      using claim_elsewhere [OF marked(1)] claim_done [OF marked(1)] mark [OF marked(2)] by (auto simp: place_of_def)
  qed
  then show "(\<forall>l. l \<noteq> ?l \<longrightarrow> marker n' l = marker n l \<and> finished n' l = finished n l \<and> wiped n' l = wiped n l)"
    and "marker n' ?l = dc_uid c \<and> wiped n' ?l \<le> Suc (wiped n ?l) \<or> marker n' ?l = marker n ?l \<and> wiped n' ?l = wiped n ?l"
    and "finished n' ?l \<Longrightarrow> finished n ?l \<or> wiped n' ?l = Suc (wiped n ?l)"
    and "dc_phase c' = ''Ready'' \<Longrightarrow> marker n' ?l = dc_uid c \<and> wiped n' ?l = Suc (wiped n ?l)"
    by blast+
qed

lemma pass_sound:
  assumes "claim_Reconcile w env c n = (e, c', n')" "sound_disks marker finished wiped n" "dc_uid c \<noteq> ''''"
  shows "sound_disks marker finished wiped n'"
  using assms(1)
proof (cases rule: pass_cases)
  case idle
  then show ?thesis using assms(2) by simp
next
  case (destroys seen disk)
  have p: "od_path disk = dc_byIDPath c" using destroys(1) by (simp add: named_disk_def)
  note d = destroy_effect [OF destroys(7) p destroys(5)]
  have zero: "wiped n (place_of c) = 0" "\<not> finished n (place_of c)" using sound_at [OF assms(2), of "place_of c"] destroys(4) by auto
  show ?thesis
    unfolding sound_disks_def
  proof
    fix l
    show "wiped n' l \<le> 1 \<and> (0 < wiped n' l \<longrightarrow> marker n' l \<noteq> '''') \<and> (finished n' l \<longrightarrow> 0 < wiped n' l)"
      using d(1) [rule_format, of l] d(2,3) zero sound_at [OF assms(2), of l] assms(3) by (cases "l = place_of c") auto
  qed
qed

lemma pass_ready:
  assumes "claim_Reconcile w env c n = (e, c', n')" "sound_disks marker finished wiped n" "dc_phase c' = ''Ready''" "dc_phase c \<noteq> ''Ready''"
  shows "marker n' (place_of c) = dc_uid c \<and> wiped n' (place_of c) = 1"
  using assms(1)
proof (cases rule: pass_cases)
  case idle
  then show ?thesis using assms(3,4) sound_at [OF assms(2), of "place_of c"] by (auto simp: le_Suc_eq)
next
  case (destroys seen disk)
  have p: "od_path disk = dc_byIDPath c" using destroys(1) by (simp add: named_disk_def)
  have "wiped n (place_of c) = 0" using sound_at [OF assms(2), of "place_of c"] destroys(4) by auto
  then show ?thesis using destroy_effect(4) [OF destroys(7) p destroys(5) assms(3)] by simp
qed

lemma pass_wipes:
  assumes "claim_Reconcile w env c n = (e, c', n')" "wiped n' l \<noteq> wiped n l"
  shows "l = place_of c \<and> marker n l = '''' \<and> marker n' l = dc_uid c \<and> wiped n' l \<le> Suc (wiped n l)
    \<and> dc_phase c \<noteq> ''Ready'' \<and> dc_phase c \<noteq> ''Failed''
    \<and> (\<exists>seen disk. named_disk env c seen disk \<and> ce_now env - seen \<le> observationMaxAge \<and> od_occupancy disk = ''free'')"
  using assms(1)
proof (cases rule: pass_cases)
  case idle
  then show ?thesis using assms(2) by simp
next
  case (destroys seen disk)
  have p: "od_path disk = dc_byIDPath c" using destroys(1) by (simp add: named_disk_def)
  note d = destroy_effect [OF destroys(7) p destroys(5)]
  have "l = place_of c" using d(1) [rule_format, of l] assms(2) by blast
  then show ?thesis using d(2) destroys assms(2) by auto
qed

end

end
