(* ===== verification/Disk_Theorems.thy ===== *)
theory Disk_Theorems
  imports Disk_Safety
begin

text \<open>
  The properties of disk claims over runs, per pass, and together with the agent's reports, with two Wipers
  that keep the promises of the locale: the manager's, and one that keeps its markers in a map.
\<close>

section \<open>Wipers\<close>

interpretation manager_wiper: disk_wiper unconfiguredWiper "\<lambda>n l. ''''" "\<lambda>n l. False" "\<lambda>n l. 0"
  by unfold_locales (auto simp: unconfiguredWiper_def Let_def)

record marker_node =
  mn_markers :: "place \<Rightarrow> string"
  mn_completed :: "place \<Rightarrow> bool"
  mn_wiped :: "place \<Rightarrow> nat"
  mn_readErr :: "string option"
  mn_claimErr :: "string option"
  mn_completeErr :: "string option"

definition marker_wiper :: "marker_node wiper" where
  "marker_wiper =
     \<lparr>w_ReadMarker = (\<lambda>n m p. case mn_readErr n of Some e \<Rightarrow> Inl e | None \<Rightarrow> Inr (mn_markers n (m, p), mn_completed n (m, p))),
      w_Claim = (\<lambda>n m p u d. (mn_claimErr n, n\<lparr>mn_markers := (mn_markers n)((m, p) := u), mn_wiped := (mn_wiped n)((m, p) := Suc (mn_wiped n (m, p)))\<rparr>)),
      w_MarkComplete = (\<lambda>n m p u. case mn_completeErr n of Some e \<Rightarrow> (Some e, n)
        | None \<Rightarrow> (None, n\<lparr>mn_completed := (mn_completed n)((m, p) := True)\<rparr>))\<rparr>"


section \<open>Runs\<close>

text \<open>
  The claims by some name, and the node. Between passes the claim objects may change in any way, as long as
  an object has a UID: specs edited, objects created and deleted, status writes lost.
\<close>

definition uids :: "(nat \<Rightarrow> disk_claim option) \<Rightarrow> bool" where
  "uids claims \<longleftrightarrow> (\<forall>i c. claims i = Some c \<longrightarrow> dc_uid c \<noteq> '''')"

inductive claim_step :: "'n wiper \<Rightarrow> (nat \<Rightarrow> disk_claim option) \<times> 'n \<Rightarrow> (nat \<Rightarrow> disk_claim option) \<times> 'n \<Rightarrow> bool" for w where
  Pass: "claim_step w (claims, n) (claims(i \<mapsto> c'), n')" if "claims i = Some c" "claim_Reconcile w env c n = (e, c', n')"
| Users: "claim_step w (claims, n) (claims', n)" if "uids claims'"

inductive_simps claim_step_simps: "claim_step w (claims, n) s'"




definition blank_node :: marker_node where
  "blank_node = \<lparr>mn_markers = (\<lambda>l. ''''), mn_completed = (\<lambda>l. False), mn_wiped = (\<lambda>l. 0),
     mn_readErr = None, mn_claimErr = None, mn_completeErr = Some ''disk full''\<rparr>"

definition w_byid :: string where "w_byid = ''/dev/disk/by-id/wwn-0x5''"

definition w_claim :: disk_claim where
  "w_claim = \<lparr>dc_uid = ''u1'', dc_generation = 1, dc_machineRef = ''m1'', dc_byIDPath = w_byid, dc_serial = ''T'',
     dc_destination = ''wipe'', dc_phase = '''', dc_phaseSince = None, dc_claimUID = '''', dc_message = '''', dc_completion = None\<rparr>"

definition w_reported :: claim_machine where
  "w_reported = \<lparr>cm_name = ''m1'', cm_storage = Some \<lparr>ms_observed = [w_disk\<lparr>od_path := w_byid\<rparr>], ms_observedAt = Some 0, ms_local = None\<rparr>\<rparr>"

text \<open>The second status patch, the one that records \<open>Ready\<close>, is lost.\<close>

definition w_claim_env :: claim_env where
  "w_claim_env = \<lparr>ce_now = 60 * second, ce_machine = Inr w_reported, ce_patch1 = None, ce_patch2 = Some ''conflict''\<rparr>"





section \<open>The agent's reports\<close>

text \<open>
  Every report of the node agent fits the schema of \<open>FrameMachine\<close>: at most 64 disks, each with a
  serial that is not empty, every string within its bound in characters, a known occupancy, at most 16
  distinct memberships and a size that is an int32. One value past its bound would have the API server
  refuse the whole report.
\<close>

theorem agent_report_fits:
  "case ObserveDisks lsblk of Inl e \<Rightarrow> True | Inr disks \<Rightarrow> length disks \<le> 64 \<and> list_all disk_fits disks"
  using observe_loop_fits [of "[]"]
  by (auto simp: ObserveDisks_def ObserveDisksIndexed_def split: lsblk_answer.splits)

lemma walk_Cons: "walk dev = dev # concat (map walk (lb_children dev))"
  by (cases dev) simp

text \<open>
  The agent calls a disk free exactly when \<open>lsblk\<close> lists nothing built on it, no signature on it and no
  mount of it.
\<close>

theorem free_means_blank:
  "occupancyOf dev = ''free'' \<longleftrightarrow>
     lb_children dev = [] \<and> str (lb_fstype dev) = '''' \<and> str (lb_mountPoint dev) = ''''"
  by (auto simp: occupancyOf_def occupancyMounted_def firstMountPoint_def anyFSType_def walk_Cons [of dev] Let_def
    split: if_splits option.splits)

text \<open>
  C25. The disk claims and the agent's reports do not meet. The agent publishes the path \<open>lsblk\<close> prints,
  which is a kernel name, as the disk's path and the stable name as another field; a claim must name a path
  under \<open>/dev/disk/by-id\<close> and compares it with the first. So a claim on any machine whose report comes from
  the agent never reaches the Wiper, and ends \<open>Failed\<close>.
\<close>

theorem agent_disks_never_claimed:
  assumes "ObserveDisks (LsblkDevices devs) = Inr disks" "\<forall>dev \<in> set devs. \<not> has_prefix (lb_path dev) ''/dev/disk/by-id/''"
    "ce_machine env = Inr m" "cm_storage m = Some ms" "od_path ` set (ms_observed ms) \<subseteq> od_path ` set disks"
    "ce_patch1 env = None" "dc_phase c \<noteq> ''Ready''"
  shows "snd (snd (claim_Reconcile w env c n)) = n \<and> dc_phase (fst (snd (claim_Reconcile w env c n))) = ''Failed''"
proof -
  have kernel: "\<not> has_prefix (od_path d) ''/dev/disk/by-id/''" if "d \<in> set (ms_observed ms)" for d
  proof -
    from that assms(5) obtain d' where "d' \<in> set disks" "od_path d = od_path d'" by auto
    moreover have "d' \<in> set (observe_loop devs [])" using calculation(1) assms(1) by (simp add: ObserveDisks_def ObserveDisksIndexed_def)
    ultimately obtain dev where "dev \<in> set devs" "od_path d = lb_path dev"
      using observe_loop_from [of d' devs "[]"] by (auto simp: observe_disk_def Let_def)
    with assms(2) show ?thesis by simp
  qed
  have "\<nexists>m seen d. identify env c = Inr (m, seen, d)"
  proof (intro notI, elim exE)
    fix m' seen d assume "identify env c = Inr (m', seen, d)"
    then have nd: "named_disk env c seen d" by (rule identify_named)
    then have "d \<in> set (ms_observed ms)" "has_prefix (od_path d) ''/dev/disk/by-id/''"
      using assms(3,4) unfolding named_disk_def by (auto dest!: arg_cong [of _ _ set])
    with kernel show False by blast
  qed
  then obtain msg where "identify env c = Inl msg" by (metis prod_cases3 sum.exhaust)
  then show ?thesis
    using assms(6,7) by (auto simp: claim_Reconcile_def claim_fail_def setPhase_def diskClaimPhaseFailed_def diskClaimPhaseReady_def)
qed

definition w_sda :: lsblk_device where
  "w_sda = Lsblk ''sda'' ''/dev/sda'' (Some ''T'') 5000000000 ''disk'' None None (Some ''0x5'') None RotaNull None []"

theorem agent_disks_never_claimed_witness:
  "\<exists>disks. ObserveDisks (LsblkDevices [w_sda]) = Inr disks \<and> map od_serialNumber disks = [dc_serial w_claim]
     \<and> dc_phase (fst (snd (claim_Reconcile marker_wiper
          (w_claim_env\<lparr>ce_machine := Inr \<lparr>cm_name = ''m1'', cm_storage = Some \<lparr>ms_observed = disks, ms_observedAt = Some 0, ms_local = None\<rparr>\<rparr>\<rparr>)
          w_claim blank_node))) = ''Failed''"
proof -
  have "isl (ObserveDisks (LsblkDevices [w_sda])) = False \<and> map od_serialNumber (projr (ObserveDisks (LsblkDevices [w_sda]))) = [dc_serial w_claim]"
    by code_simp
  then obtain disks where d: "ObserveDisks (LsblkDevices [w_sda]) = Inr disks" "map od_serialNumber disks = [dc_serial w_claim]"
    by (cases "ObserveDisks (LsblkDevices [w_sda])") auto
  have "\<forall>dev \<in> set [w_sda]. \<not> has_prefix (lb_path dev) ''/dev/disk/by-id/''" by (simp add: w_sda_def has_prefix_def)
  from agent_disks_never_claimed [OF d(1) this,
      of "w_claim_env\<lparr>ce_machine := Inr \<lparr>cm_name = ''m1'', cm_storage = Some \<lparr>ms_observed = disks, ms_observedAt = Some 0, ms_local = None\<rparr>\<rparr>\<rparr>"
         _ _ w_claim marker_wiper blank_node] d
  show ?thesis by (auto simp: w_claim_env_def w_claim_def)
qed

end
