(* ===== verification/Account_Webhook.thy ===== *)
theory Account_Webhook
  imports Go_Text
begin

text \<open>
  \<open>internal/webhook/frame/v1beta1/frameuser_webhook.go\<close>: the admission checks on accounts, with the types
  of \<open>frameuser_types.go\<close>.

  \<open>fold_case\<close> is the simple case folding of Unicode, an argument, so that \<open>strings.EqualFold\<close> is equality of
  the folded strings. The request of the context and the listing of the accounts are arguments that may be
  errors.
\<close>

section \<open>Data\<close>

definition RoleAdmin :: string where "RoleAdmin = ''admin''"
definition RoleOperator :: string where "RoleOperator = ''operator''"
definition RoleViewer :: string where "RoleViewer = ''viewer''"
definition PasswordDisabled :: string where "PasswordDisabled = ''disabled''"
definition StateEnabled :: string where "StateEnabled = ''enabled''"
definition StateDisabled :: string where "StateDisabled = ''disabled''"

record webauthn_credential =
  wc_id :: string
  wc_publicKey :: string
  wc_signCount :: nat
  wc_addedAt :: instant
  wc_label :: string

record frame_user =
  fu_namespace :: string
  fu_name :: string
  fu_email :: string
  fu_role :: string
  fu_passwordAuth :: string
  fu_state :: string
  fu_passwordHash :: string
  fu_credentials :: "webauthn_credential list"

record admission_request =
  rq_username :: string
  rq_groups :: "string list"
  rq_subResource :: string

type_synonym request_context = "string + admission_request"
type_synonym user_listing = "string + frame_user list"

definition adminGroup :: string where "adminGroup = ''frame:admins''"
definition clusterAdminGroup :: string where "clusterAdminGroup = ''system:masters''"

section \<open>Checks\<close>

definition isEnabled :: "string \<Rightarrow> bool" where
  "isEnabled state \<longleftrightarrow> state \<noteq> StateDisabled"

definition stateOrEnabled :: "string \<Rightarrow> string" where
  "stateOrEnabled state = (if state = '''' then StateEnabled else state)"

definition requireAdminRequester :: "request_context \<Rightarrow> string \<Rightarrow> string option" where
  "requireAdminRequester ctx action =
     (case ctx of
        Inl e \<Rightarrow> Some (''refusing to '' @ action @ '': cannot identify who is making the request ('' @ e @ '')'')
      | Inr req \<Rightarrow>
          if list_ex (\<lambda>g. g = adminGroup \<or> g = clusterAdminGroup) (rq_groups req) then None
          else Some (''refusing to '' @ action @ '': '' @ quoted (rq_username req) @ '' is not an admin. ''
            @ ''Only a member of '' @ adminGroup @ '' (a FrameUser with spec.role: admin) or '' @ clusterAdminGroup @ '' may do this ''
            @ em_dash @ '' otherwise anyone who can create or patch a FrameUser can make themselves an admin, ''
            @ ''and anyone who can delete one can remove an admin who is not the last one''))"

definition anyAdminExists :: "user_listing \<Rightarrow> string + bool" where
  "anyAdminExists listing =
     (case listing of
        Inl e \<Rightarrow> Inl (''cannot verify existing admins: '' @ e)
      | Inr users \<Rightarrow> Inr (list_ex (\<lambda>u. fu_role u = RoleAdmin) users))"

definition requireAnotherAdmin :: "user_listing \<Rightarrow> string \<Rightarrow> string option" where
  "requireAnotherAdmin listing excluding =
     (case listing of
        Inl e \<Rightarrow> Some (''cannot verify remaining admins: '' @ e)
      | Inr users \<Rightarrow>
          if list_ex (\<lambda>u. fu_name u \<noteq> excluding \<and> fu_role u = RoleAdmin \<and> isEnabled (fu_state u)) users then None
          else Some (''refusing to remove the last admin ('' @ excluding @ ''): no other enabled account holds the admin role''))"

definition requireEmailUnclaimed :: "(string \<Rightarrow> string) \<Rightarrow> user_listing \<Rightarrow> string \<Rightarrow> string \<Rightarrow> string option" where
  "requireEmailUnclaimed fold_case listing email excluding =
     (if email = '''' then None
      else case listing of
        Inl e \<Rightarrow> Some (''cannot verify that '' @ quoted email @ '' is unclaimed: '' @ e)
      | Inr users \<Rightarrow>
          (case find (\<lambda>u. fu_name u \<noteq> excluding \<and> fold_case (fu_email u) = fold_case email) users of
             None \<Rightarrow> None
           | Some u \<Rightarrow> Some (''refusing to set spec.email to '' @ quoted email @ '': that address is already claimed by FrameUser ''
               @ quoted (fu_name u) @ ''. Two accounts sharing an address, in any casing, resolve to each other by list ''
               @ ''order at sign-in, so whoever holds either credential can be issued the other's ''
               @ ''identity and role'')))"

definition guardPasswordHash :: "request_context \<Rightarrow> string \<Rightarrow> string \<Rightarrow> string option" where
  "guardPasswordHash ctx oldHash newHash =
     (if newHash = oldHash then None
      else if (case ctx of Inr req \<Rightarrow> rq_subResource req = ''status'' | Inl e \<Rightarrow> False) then None
      else if newHash = '''' then
        Some (''refusing to clear status.passwordHash: this write does not carry the stored hash, ''
          @ ''which destroys the account's password with a success response ''
          @ ''(a full replace at v1alpha1 that omits spec.passwordHash does exactly this). ''
          @ ''Patch the field instead of replacing the object, or write it through the ''
          @ ''v1beta1 frameusers/status subresource'')
      else
        Some (''refusing to change status.passwordHash on the main resource: it is credential material ''
          @ ''and only the v1beta1 frameusers/status subresource may write it (F11). ''
          @ ''Writing spec.passwordHash at the deprecated v1alpha1 version is the same write and is ''
          @ ''refused for the same reason''))"

section \<open>The three validators\<close>

text \<open>\<open>None\<close> admits the write.\<close>

definition and_then :: "string option \<Rightarrow> string option \<Rightarrow> string option" where
  "and_then a b = (case a of Some e \<Rightarrow> Some e | None \<Rightarrow> b)"

definition ValidateCreate ::
  "(string \<Rightarrow> string) \<Rightarrow> request_context \<Rightarrow> user_listing \<Rightarrow> frame_user \<Rightarrow> string option" where
  "ValidateCreate fold_case ctx listing obj =
     and_then (guardPasswordHash ctx '''' (fu_passwordHash obj))
       (and_then (requireEmailUnclaimed fold_case listing (fu_email obj) (fu_name obj))
          (if fu_role obj \<noteq> RoleAdmin then None
           else case anyAdminExists listing of
             Inl e \<Rightarrow> Some e
           | Inr False \<Rightarrow> None
           | Inr True \<Rightarrow> requireAdminRequester ctx (''create a FrameUser with spec.role: '' @ quoted (fu_role obj))))"

definition ValidateUpdate ::
  "(string \<Rightarrow> string) \<Rightarrow> request_context \<Rightarrow> user_listing \<Rightarrow> frame_user \<Rightarrow> frame_user \<Rightarrow> string option" where
  "ValidateUpdate fold_case ctx listing oldObj newObj =
     and_then (guardPasswordHash ctx (fu_passwordHash oldObj) (fu_passwordHash newObj))
       (and_then
         (if fu_role oldObj \<noteq> fu_role newObj then
            requireAdminRequester ctx (''change spec.role from '' @ quoted (fu_role oldObj) @ '' to '' @ quoted (fu_role newObj))
          else None)
       (and_then
         (if isEnabled (fu_state oldObj) \<noteq> isEnabled (fu_state newObj) then
            requireAdminRequester ctx (''change spec.state from '' @ quoted (stateOrEnabled (fu_state oldObj)) @ '' to ''
              @ quoted (stateOrEnabled (fu_state newObj)))
          else None)
       (and_then
         (if fu_email oldObj \<noteq> fu_email newObj then
            and_then
              (requireAdminRequester ctx (''change spec.email from '' @ quoted (fu_email oldObj) @ '' to '' @ quoted (fu_email newObj)))
              (requireEmailUnclaimed fold_case listing (fu_email newObj) (fu_name newObj))
          else None)
       (if fu_role oldObj = RoleAdmin \<and> isEnabled (fu_state oldObj) \<and> \<not> isEnabled (fu_state newObj) then
          requireAnotherAdmin listing (fu_name oldObj)
        else if fu_role oldObj \<noteq> RoleAdmin \<or> fu_role newObj = RoleAdmin then None
        else requireAnotherAdmin listing (fu_name oldObj)))))"

definition ValidateDelete :: "request_context \<Rightarrow> user_listing \<Rightarrow> frame_user \<Rightarrow> string option" where
  "ValidateDelete ctx listing obj =
     (if fu_role obj \<noteq> RoleAdmin then None
      else and_then (requireAdminRequester ctx (''delete admin FrameUser '' @ quoted (fu_name obj)))
             (requireAnotherAdmin listing (fu_name obj)))"

section \<open>Admitted writes\<close>

text \<open>
  The accounts of the cluster under writes the webhook admits, one after the other and each against the
  current list. A status write reaches no validator; it changes credentials and hash only.
\<close>

definition same_spec :: "frame_user \<Rightarrow> frame_user \<Rightarrow> bool" where
  "same_spec u v \<longleftrightarrow> fu_namespace v = fu_namespace u \<and> fu_name v = fu_name u \<and> fu_email v = fu_email u
     \<and> fu_role v = fu_role u \<and> fu_state v = fu_state u \<and> fu_passwordAuth v = fu_passwordAuth u"

definition put_user :: "frame_user \<Rightarrow> frame_user list \<Rightarrow> frame_user list" where
  "put_user v users = map (\<lambda>u. if fu_namespace u = fu_namespace v \<and> fu_name u = fu_name v then v else u) users"

definition drop_user :: "frame_user \<Rightarrow> frame_user list \<Rightarrow> frame_user list" where
  "drop_user v users = filter (\<lambda>u. \<not> (fu_namespace u = fu_namespace v \<and> fu_name u = fu_name v)) users"

inductive account_step :: "(string \<Rightarrow> string) \<Rightarrow> request_context \<Rightarrow> frame_user list \<Rightarrow> frame_user list \<Rightarrow> bool" for fold_case ctx where
  Create: "account_step fold_case ctx users (users @ [u])"
    if "\<not> list_ex (\<lambda>x. fu_namespace x = fu_namespace u \<and> fu_name x = fu_name u) users" "ValidateCreate fold_case ctx (Inr users) u = None"
| Update: "account_step fold_case ctx users (put_user v users)"
    if "u \<in> set users" "fu_namespace v = fu_namespace u" "fu_name v = fu_name u" "ValidateUpdate fold_case ctx (Inr users) u v = None"
| Delete: "account_step fold_case ctx users (drop_user u users)"
    if "u \<in> set users" "ValidateDelete ctx (Inr users) u = None"
| Status: "account_step fold_case ctx users (put_user v users)"
    if "u \<in> set users" "same_spec u v"

end
