(* ===== verification/Sealed_Token.thy ===== *)
theory Sealed_Token
  imports Go_Text
begin

text \<open>
  \<open>internal/authd/challenge.go\<close>: sealed, expiring tokens, with the parts of \<open>encoding/base64\<close> and
  \<open>encoding/binary\<close> they use. The keyed hash is an argument, a function of the message.
\<close>

section \<open>Base64, URL alphabet, no padding\<close>

definition b64_char :: "nat \<Rightarrow> char" where
  "b64_char n =
     (if n < 26 then char_of (65 + n) else if n < 52 then char_of (71 + n) else if n < 62 then char_of (n - 4)
      else if n = 62 then CHR ''-'' else CHR ''_'')"

definition b64_value :: "char \<Rightarrow> nat option" where
  "b64_value c =
     (let b = byte c in
      if 65 \<le> b \<and> b \<le> 90 then Some (b - 65) else if 97 \<le> b \<and> b \<le> 122 then Some (b - 71)
      else if 48 \<le> b \<and> b \<le> 57 then Some (b + 4) else if b = 45 then Some 62 else if b = 95 then Some 63 else None)"

fun b64_encode :: "string \<Rightarrow> string" where
  "b64_encode [] = []"
| "b64_encode [a] = [b64_char (byte a div 4), b64_char (byte a mod 4 * 16)]"
| "b64_encode [a, b] = [b64_char (byte a div 4), b64_char (byte a mod 4 * 16 + byte b div 16), b64_char (byte b mod 16 * 4)]"
| "b64_encode (a # b # c # r) =
     [b64_char (byte a div 4), b64_char (byte a mod 4 * 16 + byte b div 16), b64_char (byte b mod 16 * 4 + byte c div 64),
      b64_char (byte c mod 64)] @ b64_encode r"

fun b64_groups :: "nat list \<Rightarrow> string option" where
  "b64_groups [] = Some []"
| "b64_groups [p] = None"
| "b64_groups [p, q] = Some [char_of (p * 4 + q div 16)]"
| "b64_groups [p, q, r] = Some [char_of (p * 4 + q div 16), char_of (q mod 16 * 16 + r div 4)]"
| "b64_groups (p # q # r # s # t) =
     map_option (\<lambda>x. [char_of (p * 4 + q div 16), char_of (q mod 16 * 16 + r div 4), char_of (r mod 4 * 64 + s)] @ x) (b64_groups t)"

text \<open>\<open>DecodeString\<close> skips line ends, and does not check the unused bits of the last group.\<close>

fun b64_values :: "string \<Rightarrow> nat list option" where
  "b64_values [] = Some []"
| "b64_values (c # s) =
     (if byte c = 10 \<or> byte c = 13 then b64_values s
      else case b64_value c of None \<Rightarrow> None | Some v \<Rightarrow> map_option ((#) v) (b64_values s))"

definition b64_decode :: "string \<Rightarrow> string option" where
  "b64_decode s = (case b64_values s of None \<Rightarrow> None | Some vs \<Rightarrow> b64_groups vs)"

text \<open>\<open>base64.RawStdEncoding\<close> differs from the URL alphabet in two letters.\<close>

definition b64std_encode :: "string \<Rightarrow> string" where
  "b64std_encode s = map (\<lambda>c. if c = CHR ''-'' then CHR ''+'' else if c = CHR ''_'' then CHR ''/'' else c) (b64_encode s)"

definition b64std_decode :: "string \<Rightarrow> string option" where
  "b64std_decode s =
     (if CHR ''-'' \<in> set s \<or> CHR ''_'' \<in> set s then None
      else b64_decode (map (\<lambda>c. if c = CHR ''+'' then CHR ''-'' else if c = CHR ''/'' then CHR ''_'' else c) s))"

text \<open>\<open>base64.StdEncoding\<close> pads to a multiple of four.\<close>

definition b64pad_encode :: "string \<Rightarrow> string" where
  "b64pad_encode s = b64std_encode s @ replicate ((3 - length s mod 3) mod 3) CHR ''=''"

section \<open>Big-endian numbers\<close>

fun be_bytes :: "nat \<Rightarrow> nat \<Rightarrow> string" where
  "be_bytes 0 n = []"
| "be_bytes (Suc k) n = be_bytes k (n div 256) @ [char_of (n mod 256)]"

definition be_value :: "string \<Rightarrow> nat" where
  "be_value s = foldl (\<lambda>a c. a * 256 + byte c) 0 s"

section \<open>Tokens\<close>

datatype purpose = PurposeSession | PurposeChallenge | PurposeInvite | PurposeEnrol

fun purpose_str :: "purpose \<Rightarrow> string" where
  "purpose_str PurposeSession = ''session''"
| "purpose_str PurposeChallenge = ''challenge''"
| "purpose_str PurposeInvite = ''invite''"
| "purpose_str PurposeEnrol = ''enrol''"

text \<open>\<open>time.Time.Unix\<close>, and the instant of a Unix time.\<close>

definition unix :: "instant \<Rightarrow> int" where
  "unix t = t div second"

definition token_sign :: "(string \<Rightarrow> string) \<Rightarrow> purpose \<Rightarrow> string \<Rightarrow> string" where
  "token_sign mac p encoded = mac (purpose_str p @ [CHR 0x00] @ encoded)"

definition sealed_text :: "instant \<Rightarrow> string \<Rightarrow> duration \<Rightarrow> string" where
  "sealed_text now data ttl = b64_encode (be_bytes 8 (nat (unix (now + ttl) mod 2 ^ 64)) @ data)"

definition Seal :: "(string \<Rightarrow> string) \<Rightarrow> instant \<Rightarrow> purpose \<Rightarrow> string \<Rightarrow> duration \<Rightarrow> string" where
  "Seal mac now p data ttl =
     (let encoded = sealed_text now data ttl
      in encoded @ ''.'' @ b64_encode (token_sign mac p encoded))"

text \<open>\<open>strings.Cut\<close> at the first dot.\<close>

definition cut_dot :: "string \<Rightarrow> (string \<times> string) option" where
  "cut_dot s =
     (let a = takeWhile (\<lambda>c. c \<noteq> CHR ''.'') s in
      if a = s then None else Some (a, drop (Suc (length a)) s))"

definition Open :: "(string \<Rightarrow> string) \<Rightarrow> instant \<Rightarrow> purpose \<Rightarrow> string \<Rightarrow> string option" where
  "Open mac now p token =
     (case cut_dot token of
        None \<Rightarrow> None
      | Some (encoded, sig) \<Rightarrow>
          (case b64_decode sig of
             None \<Rightarrow> None
           | Some got \<Rightarrow>
               if got \<noteq> token_sign mac p encoded then None
               else case b64_decode encoded of
                 None \<Rightarrow> None
               | Some payload \<Rightarrow>
                   if length payload < 8 then None
                   else if now > wrap64 (int (be_value (take 8 payload))) * second then None
                   else Some (drop 8 payload)))"

section \<open>Round trips\<close>

lemma byte_less [simp]: "byte c < 256"
  by (simp add: byte_def)

lemma byte_char_of [simp]: "n < 256 \<Longrightarrow> byte (char_of n) = n"
  by (simp add: byte_def)

lemma char_of_byte [simp]: "char_of (byte c) = c"
  by (simp add: byte_def)

lemma b64_value_char: "n < 64 \<Longrightarrow> b64_value (b64_char n) = Some n"
  by (auto simp: b64_char_def b64_value_def Let_def byte_def)

lemma b64_char_plain:
  assumes "n < 64"
  shows "byte (b64_char n) \<noteq> 10 \<and> byte (b64_char n) \<noteq> 13 \<and> b64_char n \<noteq> CHR ''.''"
proof -
  have "byte (CHR ''.'') = 46" by (simp add: byte_def)
  moreover have "byte (b64_char n) \<noteq> 10 \<and> byte (b64_char n) \<noteq> 13 \<and> byte (b64_char n) \<noteq> 46"
    using assms by (auto simp: b64_char_def byte_def)
  ultimately show ?thesis by metis
qed

lemma b64_values_map: "list_all (\<lambda>n. n < 64) ns \<Longrightarrow> b64_values (map b64_char ns) = Some ns"
  by (induction ns) (simp_all add: b64_value_char b64_char_plain)

text \<open>The six-bit digits of an encoding.\<close>

fun sextets :: "string \<Rightarrow> nat list" where
  "sextets [] = []"
| "sextets [a] = [byte a div 4, byte a mod 4 * 16]"
| "sextets [a, b] = [byte a div 4, byte a mod 4 * 16 + byte b div 16, byte b mod 16 * 4]"
| "sextets (a # b # c # r) =
     [byte a div 4, byte a mod 4 * 16 + byte b div 16, byte b mod 16 * 4 + byte c div 64, byte c mod 64] @ sextets r"

lemma b64_encode_sextets: "b64_encode s = map b64_char (sextets s)"
  by (induction s rule: sextets.induct) simp_all

lemma byte_parts: "byte a div 4 < 64" "byte a div 16 < 16" "byte a div 64 < 4"
  using byte_less [of a] by (simp_all add: less_mult_imp_div_less)

lemma byte_rests: "byte a mod 4 < 4" "byte a mod 16 < 16" "byte a mod 64 < 64"
  by simp_all

lemma sextet_bounds:
  "byte a div 4 < 64" "byte a mod 4 * 16 + byte b div 16 < 64" "byte a mod 16 * 4 + byte b div 64 < 64"
  "byte a mod 4 * 16 < 64" "byte a mod 16 * 4 < 64"
  using byte_parts [of a] byte_parts [of b] byte_rests [of a] by linarith+

lemma sextets_less: "list_all (\<lambda>n. n < 64) (sextets s)"
  by (induction s rule: sextets.induct) (simp_all add: sextet_bounds)

lemma regroup:
  "char_of (byte a div 4 * 4 + (byte a mod 4 * 16) div 16) = a"
  "char_of (byte a div 4 * 4 + (byte a mod 4 * 16 + byte b div 16) div 16) = a"
  "char_of ((byte a mod 4 * 16 + byte b div 16) mod 16 * 16 + (byte b mod 16 * 4) div 4) = b"
  "char_of ((byte a mod 4 * 16 + byte b div 16) mod 16 * 16 + (byte b mod 16 * 4 + byte c div 64) div 4) = b"
  "char_of ((byte b mod 16 * 4 + byte c div 64) mod 4 * 64 + byte c mod 64) = c"
proof -
  have split: "(x * m + y) div m = x" "(x * m + y) mod m = y" if "y < m" for x y m :: nat
    using that by simp_all
  note s = split [OF byte_parts(2)] split [OF byte_parts(3)]
  show "char_of (byte a div 4 * 4 + (byte a mod 4 * 16) div 16) = a"
    "char_of (byte a div 4 * 4 + (byte a mod 4 * 16 + byte b div 16) div 16) = a"
    "char_of ((byte a mod 4 * 16 + byte b div 16) mod 16 * 16 + (byte b mod 16 * 4) div 4) = b"
    "char_of ((byte a mod 4 * 16 + byte b div 16) mod 16 * 16 + (byte b mod 16 * 4 + byte c div 64) div 4) = b"
    "char_of ((byte b mod 16 * 4 + byte c div 64) mod 4 * 64 + byte c mod 64) = c"
    by (simp_all only: s div_mult_mod_eq nonzero_mult_div_cancel_right char_of_byte)
qed

lemma b64_groups_sextets: "b64_groups (sextets s) = Some s"
  by (induction s rule: sextets.induct) (simp_all only: sextets.simps b64_groups.simps append.simps regroup option.map)

lemma b64_decode_encode: "b64_decode (b64_encode s) = Some s"
  by (simp add: b64_decode_def b64_encode_sextets b64_values_map sextets_less b64_groups_sextets)

lemma b64_encode_plain: "c \<in> set (b64_encode s) \<Longrightarrow> c \<noteq> CHR ''.''"
  using sextets_less [of s] b64_char_plain by (auto simp: b64_encode_sextets list_all_iff)

lemma length_be_bytes [simp]: "length (be_bytes k n) = k"
  by (induction k n rule: be_bytes.induct) simp_all

lemma be_value_bytes: "be_value (be_bytes k n) = n mod 256 ^ k"
proof (induction k n rule: be_bytes.induct)
  case (1 n)
  then show ?case by (simp add: be_value_def)
next
  case (2 k n)
  then have "be_value (be_bytes (Suc k) n) = (n div 256 mod 256 ^ k) * 256 + n mod 256"
    by (simp add: be_value_def byte_def)
  also have "\<dots> = n mod 256 ^ Suc k"
    by (simp add: mod_mult2_eq mult.commute)
  finally show ?case .
qed

section \<open>What opens\<close>

lemma cut_dot_join: "CHR ''.'' \<notin> set a \<Longrightarrow> cut_dot (a @ ''.'' @ b) = Some (a, b)"
proof -
  assume "CHR ''.'' \<notin> set a"
  then have "takeWhile (\<lambda>c. c \<noteq> CHR ''.'') (a @ ''.'' @ b) = a"
    by (subst takeWhile_append2) auto
  then show ?thesis by (simp add: cut_dot_def Let_def)
qed

lemma purposes_apart:
  assumes "purpose_str p @ [CHR 0x00] @ x = purpose_str q @ [CHR 0x00] @ y"
  shows "p = q"
  using assms by (cases p; cases q) simp_all

lemma wrap64_word: "- (2 ^ 63) \<le> x \<Longrightarrow> x < 2 ^ 63 \<Longrightarrow> wrap64 (x mod 2 ^ 64) = x"
  by (simp add: wrap64_def mod_add_left_eq)

lemma expiry_read:
  assumes "- (2 ^ 63) \<le> x" "x < 2 ^ 63"
  shows "wrap64 (int (be_value (take 8 (be_bytes 8 (nat (x mod 2 ^ 64)) @ data)))) = x"
proof -
  have "nat (x mod 2 ^ 64) < 256 ^ 8"
    by (simp add: nat_less_iff)
  then have "be_value (be_bytes 8 (nat (x mod 2 ^ 64))) = nat (x mod 2 ^ 64)"
    by (simp add: be_value_bytes)
  then show ?thesis using wrap64_word [OF assms] by simp
qed

text \<open>The keyed hash tells the purposes of one sealed text apart.\<close>

definition separates :: "(string \<Rightarrow> string) \<Rightarrow> string \<Rightarrow> bool" where
  "separates mac e \<longleftrightarrow> inj_on mac (range (\<lambda>r. purpose_str r @ [CHR 0x00] @ e))"

lemma token_sign_eq: "separates mac e \<Longrightarrow> token_sign mac p e = token_sign mac q e \<longleftrightarrow> p = q"
  unfolding token_sign_def separates_def using purposes_apart by (subst inj_on_eq_iff) auto

lemma cut_dot_Seal:
  "cut_dot (Seal mac now p data ttl) = Some (sealed_text now data ttl, b64_encode (token_sign mac p (sealed_text now data ttl)))"
  using b64_encode_plain unfolding Seal_def Let_def sealed_text_def by (intro cut_dot_join) blast

lemma Open_other_purpose:
  "separates mac (sealed_text now data ttl) \<Longrightarrow> q \<noteq> p \<Longrightarrow> Open mac now' q (Seal mac now p data ttl) = None"
  by (auto simp: Open_def cut_dot_Seal b64_decode_encode token_sign_eq)

lemma Open_data: "Open mac now' p (Seal mac now p data ttl) \<in> {None, Some data}"
  by (auto simp: Open_def cut_dot_Seal b64_decode_encode sealed_text_def)

lemma Open_in_time:
  assumes "- (2 ^ 63) \<le> unix (now + ttl)" "unix (now + ttl) < 2 ^ 63"
  shows "Open mac now' p (Seal mac now p data ttl) = (if now' \<le> unix (now + ttl) * second then Some data else None)"
  using expiry_read [OF assms, of data] by (auto simp: Open_def cut_dot_Seal b64_decode_encode sealed_text_def)

text \<open>
  C31. A sealed value opens to itself until its expiry, at the second the clock plus the lifetime falls in, and
  only for the purpose it was sealed for: the same token presented as any other purpose, or later, opens to
  nothing. The keyed hash is taken not to collide on the four messages one sealed text can be signed as.
\<close>

theorem token_round_trip:
  assumes "separates mac (sealed_text now data ttl)"
    and "- (2 ^ 63) \<le> unix (now + ttl)" "unix (now + ttl) < 2 ^ 63"
  shows "Open mac now' q (Seal mac now p data ttl) =
    (if q = p \<and> now' \<le> unix (now + ttl) * second then Some data else None)"
  using Open_other_purpose [OF assms(1)] Open_in_time [OF assms(2,3)] by (cases "q = p") simp_all

theorem token_round_trip_witness:
  "Open (\<lambda>m. m) 5000000000 PurposeSession (Seal (\<lambda>m. m) 0 PurposeSession ''alice'' 7000000000) = Some ''alice'' \<and>
   Open (\<lambda>m. m) 5000000000 PurposeInvite (Seal (\<lambda>m. m) 0 PurposeSession ''alice'' 7000000000) = None \<and>
   Open (\<lambda>m. m) 7000000001 PurposeSession (Seal (\<lambda>m. m) 0 PurposeSession ''alice'' 7000000000) = None"
proof -
  have i: "separates (\<lambda>m. m) (sealed_text 0 ''alice'' 7000000000)"
    by (simp add: separates_def)
  have b: "- (2 ^ 63) \<le> unix (0 + 7000000000)" "unix (0 + 7000000000) < 2 ^ 63"
    by (simp_all add: unix_def second_def)
  show ?thesis
    by (simp add: token_round_trip [OF i b] unix_def second_def)
qed

end
