(* ===== verification/Authd_Store.thy ===== *)
theory Authd_Store
  imports Account_Webhook Sealed_Token
begin

text \<open>
  The account store and the token issuer of authd: \<open>store.go\<close>, \<open>state.go\<close>, \<open>issuer.go\<close> and the account names
  of \<open>server_bootstrap.go\<close> under \<open>internal/authd\<close>.

  The API server behind the store is the list of all accounts with the admission webhook in front of it. Of
  one request, \<open>ae_listing k\<close> is the error of its \<open>k\<close>th list call, and \<open>ae_create\<close>, \<open>ae_update\<close> and \<open>ae_delete\<close>
  are the errors of its writes beyond those the model computes.
\<close>

section \<open>Answers of the API server\<close>

record authd_env =
  ae_now :: instant
  ae_listing :: "nat \<Rightarrow> string option"
  ae_ctx :: request_context
  ae_create :: "string option"
  ae_update :: "string option"
  ae_delete :: "string option"
  ae_sign :: "string option"

datatype store_err = ErrUserNotFound | ErrLastCredential string | ErrAlreadyExists | OtherErr string

definition Store_list :: "authd_env \<Rightarrow> nat \<Rightarrow> string \<Rightarrow> frame_user list \<Rightarrow> store_err + frame_user list" where
  "Store_list e k ns users =
     (case ae_listing e k of
        Some err \<Rightarrow> Inl (OtherErr (''listing users: '' @ err))
      | None \<Rightarrow> Inr (filter (\<lambda>u. fu_namespace u = ns) users))"

section \<open>Look-ups\<close>

definition ByEmail :: "authd_env \<Rightarrow> nat \<Rightarrow> string \<Rightarrow> frame_user list \<Rightarrow> string \<Rightarrow> store_err + frame_user" where
  "ByEmail e k ns users email =
     (case Store_list e k ns users of
        Inl err \<Rightarrow> Inl err
      | Inr items \<Rightarrow> (case find (\<lambda>u. fu_email u = email) items of None \<Rightarrow> Inl ErrUserNotFound | Some u \<Rightarrow> Inr u))"

definition ByCredentialID :: "authd_env \<Rightarrow> nat \<Rightarrow> string \<Rightarrow> frame_user list \<Rightarrow> string \<Rightarrow> store_err + frame_user" where
  "ByCredentialID e k ns users credID =
     (case Store_list e k ns users of
        Inl err \<Rightarrow> Inl err
      | Inr items \<Rightarrow>
          (case find (\<lambda>u. list_ex (\<lambda>c. wc_id c = credID) (fu_credentials u)) items of
             None \<Rightarrow> Inl ErrUserNotFound
           | Some u \<Rightarrow> Inr u))"

definition AdminCount :: "authd_env \<Rightarrow> nat \<Rightarrow> string \<Rightarrow> frame_user list \<Rightarrow> store_err + nat" where
  "AdminCount e k ns users =
     (case Store_list e k ns users of
        Inl err \<Rightarrow> Inl err
      | Inr items \<Rightarrow> Inr (length (filter (\<lambda>u. fu_role u = RoleAdmin) items)))"

section \<open>Writes\<close>

text \<open>
  A creation meets the schema's defaults, then the webhook, then the storage, which refuses a name in use.
\<close>

definition with_defaults :: "frame_user \<Rightarrow> frame_user" where
  "with_defaults u =
     u\<lparr>fu_passwordAuth := (if fu_passwordAuth u = '''' then PasswordDisabled else fu_passwordAuth u),
       fu_state := (if fu_state u = '''' then StateEnabled else fu_state u)\<rparr>"

definition Store_Create ::
  "(string \<Rightarrow> string) \<Rightarrow> authd_env \<Rightarrow> string \<Rightarrow> frame_user list \<Rightarrow> frame_user \<Rightarrow> store_err + frame_user list" where
  "Store_Create fold_case e ns users u0 =
     (let u = with_defaults (if fu_namespace u0 = '''' then u0\<lparr>fu_namespace := ns\<rparr> else u0) in
      case ae_create e of
        Some err \<Rightarrow> Inl (OtherErr (''creating user: '' @ err))
      | None \<Rightarrow>
          (case ValidateCreate fold_case (ae_ctx e) (Inr users) u of
             Some err \<Rightarrow> Inl (OtherErr (''creating user: '' @ err))
           | None \<Rightarrow>
               if list_ex (\<lambda>x. fu_namespace x = fu_namespace u \<and> fu_name x = fu_name u) users then Inl ErrAlreadyExists
               else Inr (users @ [u])))"

definition status_update :: "authd_env \<Rightarrow> frame_user list \<Rightarrow> frame_user \<Rightarrow> store_err + frame_user list" where
  "status_update e users u = (case ae_update e of Some err \<Rightarrow> Inl (OtherErr err) | None \<Rightarrow> Inr (put_user u users))"

definition AddCredential ::
  "authd_env \<Rightarrow> frame_user list \<Rightarrow> frame_user \<Rightarrow> webauthn_credential \<Rightarrow> store_err + frame_user list" where
  "AddCredential e users u cred =
     (if list_ex (\<lambda>c. wc_id c = wc_id cred) (fu_credentials u)
      then Inl (OtherErr (''credential '' @ wc_id cred @ '' is already enrolled''))
      else status_update e users (u\<lparr>fu_credentials := fu_credentials u @ [cred]\<rparr>))"

text \<open>The count goes into the first credential of that ID.\<close>

fun count_in :: "string \<Rightarrow> nat \<Rightarrow> webauthn_credential list \<Rightarrow> webauthn_credential list option" where
  "count_in credID n [] = None"
| "count_in credID n (c # cs) =
     (if wc_id c = credID then Some (c\<lparr>wc_signCount := n\<rparr> # cs) else map_option ((#) c) (count_in credID n cs))"

definition UpdateSignCount ::
  "authd_env \<Rightarrow> frame_user list \<Rightarrow> frame_user \<Rightarrow> string \<Rightarrow> nat \<Rightarrow> store_err + frame_user list" where
  "UpdateSignCount e users u credID n =
     (case count_in credID n (fu_credentials u) of
        None \<Rightarrow> Inl ErrUserNotFound
      | Some cs \<Rightarrow> status_update e users (u\<lparr>fu_credentials := cs\<rparr>))"

definition RemoveCredential ::
  "authd_env \<Rightarrow> frame_user list \<Rightarrow> frame_user \<Rightarrow> string \<Rightarrow> store_err + frame_user list" where
  "RemoveCredential e users u credID =
     (let kept = filter (\<lambda>c. wc_id c \<noteq> credID) (fu_credentials u) in
      if \<not> list_ex (\<lambda>c. wc_id c = credID) (fu_credentials u) then Inl ErrUserNotFound
      else if kept = [] then Inl (ErrLastCredential (fu_email u @ '' would become unreachable''))
      else status_update e users (u\<lparr>fu_credentials := kept\<rparr>))"

section \<open>Who may be issued an identity\<close>

definition requireIssuable :: "frame_user option \<Rightarrow> bool" where
  "requireIssuable u = (case u of None \<Rightarrow> False | Some v \<Rightarrow> fu_state v \<noteq> StateDisabled)"

definition GroupForRole :: "string \<Rightarrow> string" where
  "GroupForRole role =
     (if role = RoleAdmin then ''admins'' else if role = RoleOperator then ''operators''
      else if role = RoleViewer then ''viewers'' else '''')"

record claims =
  cl_issuer :: string
  cl_subject :: string
  cl_audience :: "string list"
  cl_issuedAt :: int
  cl_notBefore :: int
  cl_expiry :: int
  cl_email :: string
  cl_groups :: "string list"

text \<open>The serialised token stands for its claims.\<close>

definition Mint :: "authd_env \<Rightarrow> string \<Rightarrow> string \<Rightarrow> string \<Rightarrow> string \<Rightarrow> duration \<Rightarrow> string + claims" where
  "Mint e url clientID email role ttl =
     (let group = GroupForRole role in
      if group = '''' then Inl (''unknown role '' @ quoted role)
      else case ae_sign e of
        Some err \<Rightarrow> Inl err
      | None \<Rightarrow> Inr \<lparr>cl_issuer = url, cl_subject = email, cl_audience = [clientID], cl_issuedAt = unix (ae_now e),
          cl_notBefore = unix (ae_now e), cl_expiry = unix (ae_now e + ttl), cl_email = email, cl_groups = [group]\<rparr>)"

end
