(* ===== verification/Authd_Names.thy ===== *)
theory Authd_Names
  imports Go_Text
begin

text \<open>
  The object names authd derives from e-mail addresses: \<open>emailPattern\<close> and \<open>frameUserNameForEmail\<close> of
  \<open>internal/authd/server_bootstrap.go\<close>. Lower-casing beyond ASCII and SHA-256 are arguments.
\<close>

section \<open>Addresses\<close>

definition maxEmailLength :: nat where
  "maxEmailLength = 254"

text \<open>The class \<open>[^@\s]\<close>, where \<open>\s\<close> is the white space of ASCII.\<close>

definition mail_char :: "char \<Rightarrow> bool" where
  "mail_char c \<longleftrightarrow> c \<noteq> CHR ''@'' \<and> byte c \<notin> {9, 10, 12, 13, 32}"

definition emailPattern :: "string \<Rightarrow> bool" where
  "emailPattern s =
     (let a = takeWhile mail_char s; r = drop (length a) s in
      a \<noteq> [] \<and> r \<noteq> [] \<and> hd r = CHR ''@'' \<and> tl r \<noteq> [] \<and> list_all mail_char (tl r))"

section \<open>Names\<close>

definition name_alnum :: "char \<Rightarrow> bool" where
  "name_alnum c \<longleftrightarrow> 97 \<le> byte c \<and> byte c \<le> 122 \<or> 48 \<le> byte c \<and> byte c \<le> 57"

definition name_char :: "char \<Rightarrow> bool" where
  "name_char c \<longleftrightarrow> name_alnum c \<or> c = CHR ''-'' \<or> c = CHR ''.''"

definition spell_at :: "string \<Rightarrow> string" where
  "spell_at s = concat (map (\<lambda>c. if c = CHR ''@'' then ''-at-'' else [c]) s)"

definition safe_rune :: "string \<Rightarrow> char" where
  "safe_rune r = (case r of [c] \<Rightarrow> if name_char c then c else CHR ''-'' | _ \<Rightarrow> CHR ''-'')"

definition trim_right :: "string \<Rightarrow> string" where
  "trim_right s = rev (dropWhile (\<lambda>c. c = CHR ''-'' \<or> c = CHR ''.'') (rev s))"

definition trim_both :: "string \<Rightarrow> string" where
  "trim_both s = trim_right (dropWhile (\<lambda>c. c = CHR ''-'' \<or> c = CHR ''.'') s)"

definition hex_digit :: "nat \<Rightarrow> char" where
  "hex_digit n = ''0123456789abcdef'' ! n"

definition hex_encode :: "string \<Rightarrow> string" where
  "hex_encode s = concat (map (\<lambda>c. [hex_digit (byte c div 16), hex_digit (byte c mod 16)]) s)"

definition maxNameLength :: nat where
  "maxNameLength = 64"

definition frameUserNameForEmail :: "(string \<Rightarrow> string) \<Rightarrow> (string \<Rightarrow> string) \<Rightarrow> string \<Rightarrow> string" where
  "frameUserNameForEmail to_lower sha256 email =
     (let lower = to_lower email;
          base = trim_both (map safe_rune (runes (spell_at lower)))
      in if base = [] then []
         else let suffix = ''-'' @ take 8 (hex_encode (sha256 lower));
                  base' = (if length base + length suffix > maxNameLength
                           then trim_right (take (maxNameLength - length suffix) base) else base)
              in base' @ suffix)"

section \<open>The names are bounded and legal\<close>

lemma trim_right_prefix: "\<exists>r. trim_right s @ r = s"
proof -
  have "rev (takeWhile P (rev s) @ dropWhile P (rev s)) = s" for P :: "char \<Rightarrow> bool" by simp
  then show ?thesis unfolding trim_right_def rev_append by metis
qed

lemma length_trim_right: "length (trim_right s) \<le> length s"
  using length_dropWhile_le [of _ "rev s"] by (simp add: trim_right_def)

lemma set_trim_right: "set (trim_right s) \<subseteq> set s"
  by (auto simp: trim_right_def dest: set_dropWhileD)

lemma trim_right_keeps_head:
  assumes "s \<noteq> []" "hd s \<noteq> CHR ''-''" "hd s \<noteq> CHR ''.''"
  shows "trim_right s \<noteq> []" "hd (trim_right s) = hd s"
proof -
  obtain a t where s: "s = a # t" using assms(1) by (cases s) auto
  have "\<exists>x \<in> set (rev s). \<not> (x = CHR ''-'' \<or> x = CHR ''.'')" using s assms by auto
  then show ne: "trim_right s \<noteq> []" by (auto simp: trim_right_def)
  obtain r where "trim_right s @ r = s" using trim_right_prefix by blast
  then show "hd (trim_right s) = hd s" using hd_append2 [OF ne, of r] by simp
qed

lemma trim_both_head:
  assumes "trim_both s \<noteq> []"
  shows "hd (trim_both s) \<noteq> CHR ''-'' \<and> hd (trim_both s) \<noteq> CHR ''.''"
proof -
  define d where "d = dropWhile (\<lambda>c. c = CHR ''-'' \<or> c = CHR ''.'') s"
  have tb: "trim_both s = trim_right d" by (simp only: trim_both_def d_def)
  have ne: "d \<noteq> []" using assms unfolding tb by (auto simp: trim_right_def)
  then have "\<not> (hd d = CHR ''-'' \<or> hd d = CHR ''.'')" unfolding d_def by (rule hd_dropWhile)
  then show ?thesis using trim_right_keeps_head [OF ne] tb by simp
qed

lemma set_trim_both: "set (trim_both s) \<subseteq> set s"
  using set_trim_right by (force simp: trim_both_def dest: set_dropWhileD)

lemma name_char_safe_rune: "name_char (safe_rune r)"
  by (auto simp: safe_rune_def name_char_def split: list.splits)

lemma name_alnum_hex: "n < 16 \<Longrightarrow> name_alnum (hex_digit n)"
proof -
  have "list_all name_alnum ''0123456789abcdef''" by (simp add: name_alnum_def byte_def)
  moreover have "hex_digit n \<in> set ''0123456789abcdef''" if "n < 16"
    unfolding hex_digit_def using that by (intro nth_mem) simp
  ultimately show "n < 16 \<Longrightarrow> name_alnum (hex_digit n)" unfolding list_all_iff by blast
qed

lemma hex_encode_alnum: "list_all name_alnum (hex_encode s)"
proof (induction s)
  case (Cons c s)
  have "byte c < 256" by (simp add: byte_def)
  then have "byte c div 16 < 16" by (simp add: less_mult_imp_div_less)
  with Cons show ?case by (simp add: hex_encode_def name_alnum_hex)
qed (simp add: hex_encode_def)

lemma length_hex_encode: "length (hex_encode s) = 2 * length s"
  by (induction s) (simp_all add: hex_encode_def)

lemma rune_bytes_high:
  assumes "128 \<le> byte a" "c \<in> set (take (rune_len (a # t)) (a # t))"
  shows "128 \<le> byte c"
proof -
  consider "t = []" | b where "t = [b]" | b d where "t = [b, d]" | b d f r where "t = b # d # f # r"
    by (metis neq_Nil_conv)
  then show ?thesis
    using assms by cases (auto simp: rune_len_def tail3_def tail4_def cont_byte_def split: if_splits)
qed

lemma ascii_rune: "byte c < 128 \<Longrightarrow> c \<in> set s \<Longrightarrow> [c] \<in> set (runes s)"
proof (induction s rule: runes.induct)
  case (2 a t)
  show ?case
  proof (cases "byte a < 128")
    case True
    then have "rune_len (a # t) = 1" by (simp add: rune_len_def)
    then show ?thesis using 2 by (auto simp: runes.simps(2))
  next
    case False
    have "c \<in> set (take (rune_len (a # t)) (a # t) @ drop (rune_len (a # t)) (a # t))"
      using 2(4) by simp
    then have "c \<in> set (drop (rune_len (a # t)) (a # t))"
      using rune_bytes_high [of a c t] False 2(3) by (simp only: set_append Un_iff) linarith
    then show ?thesis
      using 2(1,2) [OF _ 2(3)] False 2(3) by (cases "rune_len (a # t)") (auto simp: runes.simps(2))
  qed
qed simp

lemma spell_at_a: "CHR ''@'' \<in> set s \<Longrightarrow> CHR ''a'' \<in> set (spell_at s)"
  by (force simp: spell_at_def)

lemma trim_both_empty:
  assumes "trim_both s = []" "c \<in> set s"
  shows "c = CHR ''-'' \<or> c = CHR ''.''"
proof -
  define d where "d = dropWhile (\<lambda>c. c = CHR ''-'' \<or> c = CHR ''.'') s"
  have "d = []"
  proof (rule ccontr)
    assume ne: "d \<noteq> []"
    then have "\<not> (hd d = CHR ''-'' \<or> hd d = CHR ''.'')" unfolding d_def by (rule hd_dropWhile)
    then show False using trim_right_keeps_head [OF ne] assms(1) by (simp add: trim_both_def d_def)
  qed
  then show ?thesis using assms(2) by (simp add: d_def dropWhile_eq_Nil_conv)
qed

lemma pattern_has_at: "emailPattern s \<Longrightarrow> CHR ''@'' \<in> set s"
  using in_set_dropD hd_in_set unfolding emailPattern_def Let_def by metis

text \<open>
  The name of every acceptable address is not empty, has at most the 64 bytes a WebAuthn user handle may
  have, holds only lower-case letters, digits, hyphens and dots, begins with a letter or digit, and ends in
  a hyphen and the first eight hexadecimal digits of the hash of the address, however much was cut.
\<close>

theorem account_name_legal:
  assumes "emailPattern email" "CHR ''@'' \<in> set email \<Longrightarrow> CHR ''@'' \<in> set (to_lower email)"
    "length (sha256 (to_lower email)) = 32"
  shows "\<exists>base. frameUserNameForEmail to_lower sha256 email = base @ ''-'' @ take 8 (hex_encode (sha256 (to_lower email)))
     \<and> base \<noteq> [] \<and> length base \<le> 55 \<and> name_alnum (hd base) \<and> list_all name_char base
     \<and> length (frameUserNameForEmail to_lower sha256 email) \<le> 64"
proof -
  define base where "base = trim_both (map safe_rune (runes (spell_at (to_lower email))))"
  define base' where "base' = (if length base > 55 then trim_right (take 55 base) else base)"
  have "safe_rune [CHR ''a''] \<in> set (map safe_rune (runes (spell_at (to_lower email))))"
    using ascii_rune [OF _ spell_at_a [OF assms(2) [OF pattern_has_at [OF assms(1)]]]] by (simp add: byte_def)
  then have ne: "base \<noteq> []"
    using trim_both_empty by (force simp: base_def safe_rune_def name_char_def name_alnum_def byte_def)
  have legal: "list_all name_char base"
    unfolding base_def list_all_iff using set_trim_both name_char_safe_rune by fastforce
  have "hd base \<noteq> CHR ''-''" "hd base \<noteq> CHR ''.''" using trim_both_head ne unfolding base_def by blast+
  then have "name_alnum (hd base)" using legal ne by (cases base) (auto simp: name_char_def)
  moreover have "hd base' = hd base \<and> base' \<noteq> [] \<and> length base' \<le> 55 \<and> set base' \<subseteq> set base"
    using trim_right_keeps_head [of "take 55 base"] length_trim_right [of "take 55 base"] set_trim_right [of "take 55 base"]
      \<open>hd base \<noteq> CHR ''-''\<close> \<open>hd base \<noteq> CHR ''.''\<close> ne set_take_subset [of 55 base] by (auto simp: base'_def hd_take)
  moreover have "frameUserNameForEmail to_lower sha256 email = base' @ ''-'' @ take 8 (hex_encode (sha256 (to_lower email)))"
    using ne assms(3) by (simp add: frameUserNameForEmail_def Let_def base_def [symmetric] base'_def maxNameLength_def length_hex_encode)
  ultimately show ?thesis
    using legal assms(3) by (intro exI [of _ base']) (auto simp: list_all_iff length_hex_encode)
qed

theorem account_name_legal_witness:
  "frameUserNameForEmail id (\<lambda>s. replicate 32 CHR 0xA5) ''bob+ops@example.com'' = ''bob-ops-at-example.com-a5a5a5a5''
   \<and> length (frameUserNameForEmail id (\<lambda>s. replicate 32 CHR 0xA5) ''bob+ops@example.com'') \<le> 64"
proof -
  have "emailPattern ''bob+ops@example.com''" by code_simp
  then have "length (frameUserNameForEmail id (\<lambda>s. replicate 32 CHR 0xA5) ''bob+ops@example.com'') \<le> 64"
    using account_name_legal [of "''bob+ops@example.com''" id "\<lambda>s. replicate 32 CHR 0xA5"] by auto
  moreover have "frameUserNameForEmail id (\<lambda>s. replicate 32 CHR 0xA5) ''bob+ops@example.com'' = ''bob-ops-at-example.com-a5a5a5a5''"
    by code_simp
  ultimately show ?thesis by blast
qed

section \<open>A name no object can have\<close>

text \<open>The names the API server takes: labels between dots, each beginning and ending with a letter or digit.\<close>

fun dot_labels :: "string \<Rightarrow> string list" where
  "dot_labels [] = [[]]"
| "dot_labels (c # s) =
     (if c = CHR ''.'' then [] # dot_labels s else case dot_labels s of [] \<Rightarrow> [[c]] | l # ls \<Rightarrow> (c # l) # ls)"

definition dns_label :: "string \<Rightarrow> bool" where
  "dns_label l \<longleftrightarrow> l \<noteq> [] \<and> name_alnum (hd l) \<and> name_alnum (last l) \<and> list_all (\<lambda>c. name_alnum c \<or> c = CHR ''-'') l"

definition dns_subdomain :: "string \<Rightarrow> bool" where
  "dns_subdomain s \<longleftrightarrow> length s \<le> 253 \<and> list_all dns_label (dot_labels s)"

lemma short_name:
  "map safe_rune (runes (spell_at ''ann.@lab'')) = ''ann.-at-lab'' \<and> trim_both ''ann.-at-lab'' = ''ann.-at-lab''"
  by code_simp

text \<open>
  An address whose local part ends in a dot passes the check on addresses, and whatever the hash, the
  name derived from it is not one the API server takes: a label begins with a hyphen.
\<close>

theorem dotted_address_unnameable:
  "emailPattern ''ann.@lab'' \<and> \<not> dns_subdomain (frameUserNameForEmail (\<lambda>s. s) sha256 ''ann.@lab'')"
proof -
  have pattern: "emailPattern ''ann.@lab''" by code_simp
  obtain h where "frameUserNameForEmail (\<lambda>s. s) sha256 ''ann.@lab'' = ''ann.-at-lab'' @ h"
    using short_name by (simp add: frameUserNameForEmail_def Let_def maxNameLength_def)
  moreover have "\<not> dns_subdomain (''ann.-at-lab'' @ h)"
    by (auto simp: dns_subdomain_def dns_label_def name_alnum_def byte_def split: list.splits)
  ultimately show ?thesis using pattern by simp
qed

end
