(* ===== verification/Authd_Server.thy ===== *)
theory Authd_Server
  imports Authd_Store Authd_Names
begin

text \<open>
  The HTTP surface of authd: \<open>webauthn.go\<close>, \<open>server.go\<close>, \<open>server_session.go\<close>, \<open>server_webauthn.go\<close>,
  \<open>server_bootstrap.go\<close>, \<open>server_invite.go\<close> and \<open>server_credentials.go\<close> under \<open>internal/authd\<close>.

  A handler takes the request, the answers of the API server and the accounts, and gives the accounts after
  it and the response. The WebAuthn library and the JSON of its session data are the functions of
  \<open>webauthn_lib\<close>; a request holds its decoded JSON body, \<open>None\<close> when decoding fails.
\<close>

section \<open>The WebAuthn library as seen by the code\<close>

record lib_credential =
  lc_id :: string
  lc_publicKey :: string
  lc_signCount :: nat
  lc_cloneWarning :: bool
  lc_userVerified :: bool

record wa_user =
  wu_id :: string
  wu_name :: string
  wu_displayName :: string
  wu_credentials :: "lib_credential list"

record session_data =
  sd_userVerification :: string
  sd_rest :: string

record webauthn_lib =
  wl_beginLogin :: "string \<Rightarrow> (string \<times> string) option"
  wl_beginRegistration :: "wa_user \<Rightarrow> string \<Rightarrow> (string \<times> string) option"
  wl_decodeSession :: "string \<Rightarrow> session_data option"
  wl_parseCreation :: "string \<Rightarrow> string option"
  wl_createCredential :: "wa_user \<Rightarrow> session_data \<Rightarrow> string \<Rightarrow> lib_credential option"
  wl_parseAssertion :: "string \<Rightarrow> string option"
  wl_rawID :: "string \<Rightarrow> string"
  wl_validate :: "wa_user \<Rightarrow> session_data \<Rightarrow> string \<Rightarrow> lib_credential option"

section \<open>Configuration\<close>

record server_config =
  sc_mac :: "string \<Rightarrow> string"
  sc_bootstrapSecret :: string
  sc_bootstrapSecretName :: string
  sc_namespace :: string
  sc_tokenTTL :: duration
  sc_sessionTTL :: duration
  sc_inviteTTL :: duration
  sc_consoleOrigin :: string
  sc_issuerURL :: string
  sc_clientID :: string
  sc_uvMode :: string
  sc_foldCase :: "string \<Rightarrow> string"
  sc_toLower :: "string \<Rightarrow> string"
  sc_sha256 :: "string \<Rightarrow> string"
  sc_lib :: webauthn_lib

definition NewServer :: "server_config \<Rightarrow> server_config" where
  "NewServer cfg =
     (let cfg = (if sc_sessionTTL cfg = 0 then cfg\<lparr>sc_sessionTTL := 12 * 3600 * second\<rparr> else cfg) in
      if sc_inviteTTL cfg = 0 then cfg\<lparr>sc_inviteTTL := 24 * 3600 * second\<rparr> else cfg)"

definition UserVerificationLog :: string where "UserVerificationLog = ''log''"
definition UserVerificationRequired :: string where "UserVerificationRequired = ''required''"

definition ParseUserVerificationMode :: "string \<Rightarrow> string + string" where
  "ParseUserVerificationMode s =
     (if s = '''' \<or> s = UserVerificationLog then Inr UserVerificationLog
      else if s = UserVerificationRequired then Inr UserVerificationRequired
      else Inl (''unknown user verification mode '' @ quoted s @ '' (want '' @ quoted UserVerificationLog @ '' or ''
        @ quoted UserVerificationRequired @ '')''))"

definition requiresUV :: "server_config \<Rightarrow> bool" where
  "requiresUV cfg \<longleftrightarrow> sc_uvMode cfg = UserVerificationRequired"

section \<open>Ceremonies\<close>

definition challengeTTL :: duration where
  "challengeTTL = 300 * second"

definition withoutUVRequirement :: "session_data \<Rightarrow> session_data" where
  "withoutUVRequirement s = (if sd_userVerification s = ''required'' then s\<lparr>sd_userVerification := ''preferred''\<rparr> else s)"

definition WebAuthnCredentials :: "frame_user \<Rightarrow> lib_credential list" where
  "WebAuthnCredentials u =
     List.map_filter (\<lambda>c. case b64_decode (wc_id c) of
         None \<Rightarrow> None
       | Some i \<Rightarrow> (case b64std_decode (wc_publicKey c) of
            None \<Rightarrow> None
          | Some pk \<Rightarrow> Some \<lparr>lc_id = i, lc_publicKey = pk, lc_signCount = wc_signCount c, lc_cloneWarning = False,
              lc_userVerified = False\<rparr>)) (fu_credentials u)"

definition webauthnUser :: "frame_user \<Rightarrow> wa_user" where
  "webauthnUser u = \<lparr>wu_id = fu_name u, wu_name = fu_email u, wu_displayName = fu_email u, wu_credentials = WebAuthnCredentials u\<rparr>"

definition seal_session :: "server_config \<Rightarrow> authd_env \<Rightarrow> string \<times> string \<Rightarrow> string \<times> string" where
  "seal_session cfg e os = (fst os, Seal (sc_mac cfg) (ae_now e) PurposeChallenge (snd os) challengeTTL)"

definition openSession :: "server_config \<Rightarrow> authd_env \<Rightarrow> string \<Rightarrow> session_data option" where
  "openSession cfg e sealed =
     (case Open (sc_mac cfg) (ae_now e) PurposeChallenge sealed of
        None \<Rightarrow> None
      | Some payload \<Rightarrow> wl_decodeSession (sc_lib cfg) payload)"

text \<open>The options ask for user verification in the required mode, and leave it open otherwise.\<close>

definition uv_option :: "server_config \<Rightarrow> string" where
  "uv_option cfg = (if requiresUV cfg then ''required'' else '''')"

definition BeginRegistration :: "server_config \<Rightarrow> authd_env \<Rightarrow> frame_user \<Rightarrow> (string \<times> string) option" where
  "BeginRegistration cfg e u =
     map_option (seal_session cfg e) (wl_beginRegistration (sc_lib cfg) (webauthnUser u) (uv_option cfg))"

definition BeginLogin :: "server_config \<Rightarrow> authd_env \<Rightarrow> (string \<times> string) option" where
  "BeginLogin cfg e = map_option (seal_session cfg e) (wl_beginLogin (sc_lib cfg) (uv_option cfg))"

datatype ceremony_err = CeremonyFailed | ErrUserNotVerified | ErrCounterRegression | StoreFailed store_err

definition FinishRegistration ::
  "server_config \<Rightarrow> authd_env \<Rightarrow> frame_user list \<Rightarrow> frame_user \<Rightarrow> string \<Rightarrow> string \<Rightarrow> string \<Rightarrow> ceremony_err + frame_user list" where
  "FinishRegistration cfg e users u sealed response label =
     (case openSession cfg e sealed of
        None \<Rightarrow> Inl CeremonyFailed
      | Some session \<Rightarrow>
          (case wl_parseCreation (sc_lib cfg) response of
             None \<Rightarrow> Inl CeremonyFailed
           | Some parsed \<Rightarrow>
               (case wl_createCredential (sc_lib cfg) (webauthnUser u) (withoutUVRequirement session) parsed of
                  None \<Rightarrow> Inl CeremonyFailed
                | Some cred \<Rightarrow>
                    if requiresUV cfg \<and> \<not> lc_userVerified cred then Inl ErrUserNotVerified
                    else case AddCredential e users u
                        \<lparr>wc_id = b64_encode (lc_id cred), wc_publicKey = b64std_encode (lc_publicKey cred),
                         wc_signCount = lc_signCount cred, wc_addedAt = trunc_second (ae_now e), wc_label = label\<rparr> of
                      Inl err \<Rightarrow> Inl (StoreFailed err)
                    | Inr users' \<Rightarrow> Inr users')))"

definition recordLoginCounter ::
  "authd_env \<Rightarrow> frame_user list \<Rightarrow> frame_user \<Rightarrow> lib_credential \<Rightarrow> ceremony_err + frame_user list" where
  "recordLoginCounter e users u cred =
     (if lc_cloneWarning cred then Inl ErrCounterRegression
      else case UpdateSignCount e users u (b64_encode (lc_id cred)) (lc_signCount cred) of
        Inl err \<Rightarrow> Inl (StoreFailed err)
      | Inr users' \<Rightarrow> Inr users')"

text \<open>
  \<open>ValidateDiscoverableLogin\<close> asks the look-up once, for the credential the assertion names, and then
  validates the assertion against the account found.
\<close>

definition FinishLogin ::
  "server_config \<Rightarrow> authd_env \<Rightarrow> frame_user list \<Rightarrow> string \<Rightarrow> string \<Rightarrow> ceremony_err + (frame_user \<times> frame_user list)" where
  "FinishLogin cfg e users sealed response =
     (case openSession cfg e sealed of
        None \<Rightarrow> Inl CeremonyFailed
      | Some session \<Rightarrow>
          (case wl_parseAssertion (sc_lib cfg) response of
             None \<Rightarrow> Inl CeremonyFailed
           | Some parsed \<Rightarrow>
               (case ByCredentialID e 0 (sc_namespace cfg) users (b64_encode (wl_rawID (sc_lib cfg) parsed)) of
                  Inl err \<Rightarrow> Inl CeremonyFailed
                | Inr matched \<Rightarrow>
                    (case wl_validate (sc_lib cfg) (webauthnUser matched) (withoutUVRequirement session) parsed of
                       None \<Rightarrow> Inl CeremonyFailed
                     | Some cred \<Rightarrow>
                         if requiresUV cfg \<and> \<not> lc_userVerified cred then Inl ErrUserNotVerified
                         else case recordLoginCounter e users matched cred of
                           Inl err \<Rightarrow> Inl err
                         | Inr users' \<Rightarrow> Inr (matched, users')))))"

section \<open>Requests and responses\<close>

datatype call =
    Discovery
  | JWKS
  | Healthz
  | Bootstrap "(string \<times> string) option"
  | Token
  | Logout
  | LoginBegin
  | LoginFinish "string option"
  | RegisterBegin
  | RegisterFinish "string option"
  | Invite "(string \<times> string) option"
  | InviteLink "string option"
  | InviteAccept "string option"
  | ListCredentials
  | RevokeCredential string

record request =
  hr_call :: call
  hr_session :: "string option"
  hr_challenge :: "string option"
  hr_user :: string
  hr_label :: string

record cookie =
  ck_name :: string
  ck_value :: string
  ck_path :: string
  ck_maxAge :: int

record credentialView =
  cv_id :: string
  cv_label :: string
  cv_addedAt :: instant
  cv_signCount :: nat

datatype answer =
    NoBody
  | Message string
  | Document string
  | Config "(string \<times> string list) list"
  | Keys string
  | IdToken claims int
  | InviteURL string
  | Views "credentialView list"

record response =
  rs_status :: nat
  rs_cookies :: "cookie list"
  rs_answer :: answer

definition http_Error :: "nat \<Rightarrow> string \<Rightarrow> response" where
  "http_Error status msg = \<lparr>rs_status = status, rs_cookies = [], rs_answer = Message msg\<rparr>"

definition sessionCookie :: string where "sessionCookie = ''frame_session''"
definition challengeCookie :: string where "challengeCookie = ''frame_challenge''"

section \<open>Sessions\<close>

definition setSessionFor :: "server_config \<Rightarrow> authd_env \<Rightarrow> frame_user \<Rightarrow> purpose \<Rightarrow> duration \<Rightarrow> cookie" where
  "setSessionFor cfg e u p ttl =
     \<lparr>ck_name = sessionCookie, ck_value = Seal (sc_mac cfg) (ae_now e) p (fu_email u) ttl, ck_path = ''/'', ck_maxAge = quot ttl second\<rparr>"

definition setSession :: "server_config \<Rightarrow> authd_env \<Rightarrow> frame_user \<Rightarrow> cookie" where
  "setSession cfg e u = setSessionFor cfg e u PurposeSession (sc_sessionTTL cfg)"

definition enrolSessionTTL :: duration where
  "enrolSessionTTL = 15 * 60 * second"

definition setEnrolSession :: "server_config \<Rightarrow> authd_env \<Rightarrow> frame_user \<Rightarrow> cookie" where
  "setEnrolSession cfg e u = setSessionFor cfg e u PurposeEnrol enrolSessionTTL"

definition setChallenge :: "string \<Rightarrow> cookie" where
  "setChallenge sealed = \<lparr>ck_name = challengeCookie, ck_value = sealed, ck_path = ''/auth'', ck_maxAge = quot challengeTTL second\<rparr>"

fun open_first :: "server_config \<Rightarrow> authd_env \<Rightarrow> purpose list \<Rightarrow> string \<Rightarrow> string option" where
  "open_first cfg e [] v = None"
| "open_first cfg e (p # ps) v =
     (case Open (sc_mac cfg) (ae_now e) p v of Some email \<Rightarrow> Some email | None \<Rightarrow> open_first cfg e ps v)"

text \<open>The account a cookie stands for, \<open>None\<close> when the handler has answered 401. This is list call 0.\<close>

definition sessionUserFor ::
  "server_config \<Rightarrow> authd_env \<Rightarrow> frame_user list \<Rightarrow> request \<Rightarrow> purpose list \<Rightarrow> frame_user option" where
  "sessionUserFor cfg e users r purposes =
     (case hr_session r of
        None \<Rightarrow> None
      | Some v \<Rightarrow>
          (case open_first cfg e purposes v of
             None \<Rightarrow> None
           | Some email \<Rightarrow>
               (case ByEmail e 0 (sc_namespace cfg) users email of
                  Inl err \<Rightarrow> None
                | Inr u \<Rightarrow> if requireIssuable (Some u) then Some u else None)))"

definition sessionUser :: "server_config \<Rightarrow> authd_env \<Rightarrow> frame_user list \<Rightarrow> request \<Rightarrow> frame_user option" where
  "sessionUser cfg e users r = sessionUserFor cfg e users r [PurposeSession]"

definition unauthorized :: response where
  "unauthorized = http_Error 401 ''unauthorized''"

definition handleToken :: "server_config \<Rightarrow> authd_env \<Rightarrow> frame_user list \<Rightarrow> request \<Rightarrow> response" where
  "handleToken cfg e users r =
     (case sessionUser cfg e users r of
        None \<Rightarrow> unauthorized
      | Some u \<Rightarrow>
          (case Mint e (sc_issuerURL cfg) (sc_clientID cfg) (fu_email u) (fu_role u) (sc_tokenTTL cfg) of
             Inl err \<Rightarrow> http_Error 500 ''internal error''
           | Inr cl \<Rightarrow> \<lparr>rs_status = 200, rs_cookies = [], rs_answer = IdToken cl (quot (sc_tokenTTL cfg) second)\<rparr>))"

definition handleLogout :: response where
  "handleLogout = \<lparr>rs_status = 204,
     rs_cookies = [\<lparr>ck_name = sessionCookie, ck_value = '''', ck_path = ''/'', ck_maxAge = -1\<rparr>], rs_answer = NoBody\<rparr>"

section \<open>Passkey routes\<close>

definition handleLoginBegin :: "server_config \<Rightarrow> authd_env \<Rightarrow> response" where
  "handleLoginBegin cfg e =
     (case BeginLogin cfg e of
        None \<Rightarrow> http_Error 500 ''internal error''
      | Some (options, sealed) \<Rightarrow> \<lparr>rs_status = 200, rs_cookies = [setChallenge sealed], rs_answer = Document options\<rparr>)"

definition handleLoginFinish ::
  "server_config \<Rightarrow> authd_env \<Rightarrow> frame_user list \<Rightarrow> request \<Rightarrow> string option \<Rightarrow> frame_user list \<times> response" where
  "handleLoginFinish cfg e users r body =
     (case hr_challenge r of
        None \<Rightarrow> (users, unauthorized)
      | Some sealed \<Rightarrow>
          (case body of
             None \<Rightarrow> (users, http_Error 400 ''invalid request'')
           | Some response \<Rightarrow>
               (case FinishLogin cfg e users sealed response of
                  Inl err \<Rightarrow> (users, unauthorized)
                | Inr (u, users') \<Rightarrow>
                    if requireIssuable (Some u)
                    then (users', \<lparr>rs_status = 204, rs_cookies = [setSession cfg e u], rs_answer = NoBody\<rparr>)
                    else (users', unauthorized))))"

definition handleRegisterBegin :: "server_config \<Rightarrow> authd_env \<Rightarrow> frame_user list \<Rightarrow> request \<Rightarrow> response" where
  "handleRegisterBegin cfg e users r =
     (case sessionUserFor cfg e users r [PurposeSession, PurposeEnrol] of
        None \<Rightarrow> unauthorized
      | Some u \<Rightarrow>
          (case BeginRegistration cfg e u of
             None \<Rightarrow> http_Error 500 ''internal error''
           | Some (options, sealed) \<Rightarrow> \<lparr>rs_status = 200, rs_cookies = [setChallenge sealed], rs_answer = Document options\<rparr>))"

definition handleRegisterFinish ::
  "server_config \<Rightarrow> authd_env \<Rightarrow> frame_user list \<Rightarrow> request \<Rightarrow> string option \<Rightarrow> frame_user list \<times> response" where
  "handleRegisterFinish cfg e users r body =
     (case sessionUserFor cfg e users r [PurposeSession, PurposeEnrol] of
        None \<Rightarrow> (users, unauthorized)
      | Some u \<Rightarrow>
          (case hr_challenge r of
             None \<Rightarrow> (users, unauthorized)
           | Some sealed \<Rightarrow>
               (case body of
                  None \<Rightarrow> (users, http_Error 400 ''invalid request'')
                | Some response \<Rightarrow>
                    (case FinishRegistration cfg e users u sealed response (hr_label r) of
                       Inl err \<Rightarrow> (users, http_Error 400 ''registration failed'')
                     | Inr users' \<Rightarrow> (users', \<lparr>rs_status = 204, rs_cookies = [], rs_answer = NoBody\<rparr>)))))"

section \<open>Bootstrap\<close>

text \<open>The accounts, and whether the Secret with the bootstrap token is still there.\<close>

record authd_world =
  aw_users :: "frame_user list"
  aw_secret :: bool

definition deleteBootstrapSecret :: "server_config \<Rightarrow> authd_env \<Rightarrow> bool \<Rightarrow> bool" where
  "deleteBootstrapSecret cfg e present =
     (if sc_bootstrapSecretName cfg = '''' then present else case ae_delete e of Some err \<Rightarrow> present | None \<Rightarrow> False)"

definition new_user :: "server_config \<Rightarrow> string \<Rightarrow> string \<Rightarrow> string \<Rightarrow> string \<Rightarrow> frame_user" where
  "new_user cfg name email role state =
     \<lparr>fu_namespace = sc_namespace cfg, fu_name = name, fu_email = email, fu_role = role, fu_passwordAuth = PasswordDisabled,
      fu_state = state, fu_passwordHash = '''', fu_credentials = []\<rparr>"

definition handleBootstrap ::
  "server_config \<Rightarrow> authd_env \<Rightarrow> authd_world \<Rightarrow> (string \<times> string) option \<Rightarrow> authd_world \<times> response" where
  "handleBootstrap cfg e w body =
     (let notFound = (w, http_Error 404 ''404 page not found'') in
      case AdminCount e 0 (sc_namespace cfg) (aw_users w) of
        Inl err \<Rightarrow> notFound
      | Inr n \<Rightarrow>
          if n > 0 then notFound
          else if sc_bootstrapSecret cfg = '''' then notFound
          else case body of
            None \<Rightarrow> (w, http_Error 400 ''invalid request'')
          | Some (token, email) \<Rightarrow>
              if token \<noteq> sc_bootstrapSecret cfg then (w, unauthorized)
              else if \<not> emailPattern email \<or> length email > maxEmailLength then (w, http_Error 400 ''invalid request'')
              else
                let name = frameUserNameForEmail (sc_toLower cfg) (sc_sha256 cfg) email in
                if name = '''' then (w, http_Error 400 ''invalid request'')
                else
                  let user = new_user cfg name email RoleAdmin '''' in
                  case Store_Create (sc_foldCase cfg) e (sc_namespace cfg) (aw_users w) user of
                    Inl err \<Rightarrow> (w, http_Error 500 ''internal error'')
                  | Inr users' \<Rightarrow>
                      (\<lparr>aw_users = users', aw_secret = deleteBootstrapSecret cfg e (aw_secret w)\<rparr>,
                       \<lparr>rs_status = 204, rs_cookies = [setSession cfg e user], rs_answer = NoBody\<rparr>))"

section \<open>Invitations\<close>

text \<open>\<open>url.QueryEscape\<close>.\<close>

definition unreserved :: "char \<Rightarrow> bool" where
  "unreserved c =
     (let b = byte c in 65 \<le> b \<and> b \<le> 90 \<or> 97 \<le> b \<and> b \<le> 122 \<or> 48 \<le> b \<and> b \<le> 57 \<or> b = 45 \<or> b = 95 \<or> b = 46 \<or> b = 126)"

definition QueryEscape :: "string \<Rightarrow> string" where
  "QueryEscape s =
     concat (map (\<lambda>c. if unreserved c then [c] else if c = CHR '' '' then ''+''
       else [CHR ''%'', ''0123456789ABCDEF'' ! (byte c div 16), ''0123456789ABCDEF'' ! (byte c mod 16)]) s)"

definition invite_url :: "server_config \<Rightarrow> authd_env \<Rightarrow> string \<Rightarrow> response" where
  "invite_url cfg e email =
     \<lparr>rs_status = 200, rs_cookies = [],
      rs_answer = InviteURL (sc_consoleOrigin cfg @ ''/invite#token=''
        @ QueryEscape (Seal (sc_mac cfg) (ae_now e) PurposeInvite email (sc_inviteTTL cfg)))\<rparr>"

definition inviteeAlreadyExists :: "server_config \<Rightarrow> authd_env \<Rightarrow> frame_user list \<Rightarrow> string \<Rightarrow> store_err + bool" where
  "inviteeAlreadyExists cfg e users email =
     (case Store_list e 1 (sc_namespace cfg) users of
        Inl err \<Rightarrow> Inl err
      | Inr items \<Rightarrow> Inr (list_ex (\<lambda>u. sc_foldCase cfg (fu_email u) = sc_foldCase cfg email) items))"

definition handleInvite ::
  "server_config \<Rightarrow> authd_env \<Rightarrow> frame_user list \<Rightarrow> request \<Rightarrow> (string \<times> string) option \<Rightarrow> frame_user list \<times> response" where
  "handleInvite cfg e users r body =
     (case sessionUser cfg e users r of
        None \<Rightarrow> (users, unauthorized)
      | Some caller \<Rightarrow>
          if fu_role caller \<noteq> RoleAdmin then (users, http_Error 403 ''forbidden'')
          else case body of
            None \<Rightarrow> (users, http_Error 400 ''invalid request'')
          | Some (email, role) \<Rightarrow>
              if \<not> emailPattern email \<or> length email > maxEmailLength then (users, http_Error 400 ''invalid request: email'')
              else if role \<noteq> RoleOperator \<and> role \<noteq> RoleViewer then
                (users, http_Error 400 (''an invitation may only create an operator or a viewer.''
                  @ (if role = RoleAdmin then '' Create the account as one of those, then promote it from the Accounts screen, ''
                       @ ''which acts under your own identity rather than authd's'' else '''')))
              else case inviteeAlreadyExists cfg e users email of
                Inl err \<Rightarrow> (users, http_Error 500 ''internal error'')
              | Inr exists \<Rightarrow>
                  if exists then (users, http_Error 409 ''an account with that email already exists'')
                  else
                    let name = frameUserNameForEmail (sc_toLower cfg) (sc_sha256 cfg) email in
                    if name = '''' then (users, http_Error 400 ''invalid request: email'')
                    else case Store_Create (sc_foldCase cfg) e (sc_namespace cfg) users (new_user cfg name email role StateEnabled) of
                      Inl ErrAlreadyExists \<Rightarrow> (users, http_Error 409 ''an account with that name already exists'')
                    | Inl err \<Rightarrow> (users, http_Error 500 ''internal error'')
                    | Inr users' \<Rightarrow> (users', invite_url cfg e email))"

definition has_credential :: "frame_user \<Rightarrow> bool" where
  "has_credential u \<longleftrightarrow> fu_credentials u \<noteq> [] \<or> fu_passwordHash u \<noteq> ''''"

definition handleInviteLink :: "server_config \<Rightarrow> authd_env \<Rightarrow> frame_user list \<Rightarrow> request \<Rightarrow> string option \<Rightarrow> response" where
  "handleInviteLink cfg e users r body =
     (case sessionUser cfg e users r of
        None \<Rightarrow> unauthorized
      | Some caller \<Rightarrow>
          if fu_role caller \<noteq> RoleAdmin then http_Error 403 ''forbidden''
          else case body of
            None \<Rightarrow> http_Error 400 ''invalid request''
          | Some email \<Rightarrow>
              (case ByEmail e 1 (sc_namespace cfg) users email of
                 Inl ErrUserNotFound \<Rightarrow> http_Error 404 ''no account with that email''
               | Inl err \<Rightarrow> http_Error 500 ''internal error''
               | Inr u \<Rightarrow>
                   if \<not> requireIssuable (Some u) then http_Error 403 ''this account is disabled''
                   else if has_credential u then http_Error 410 ''this account already has a credential''
                   else invite_url cfg e (fu_email u)))"

definition handleInviteAccept :: "server_config \<Rightarrow> authd_env \<Rightarrow> frame_user list \<Rightarrow> string option \<Rightarrow> response" where
  "handleInviteAccept cfg e users body =
     (let invalid = http_Error 401 ''this invitation link is invalid or has expired'' in
      case body of
        None \<Rightarrow> http_Error 400 ''invalid request''
      | Some token \<Rightarrow>
          (case Open (sc_mac cfg) (ae_now e) PurposeInvite token of
             None \<Rightarrow> invalid
           | Some email \<Rightarrow>
               (case ByEmail e 0 (sc_namespace cfg) users email of
                  Inl err \<Rightarrow> invalid
                | Inr u \<Rightarrow>
                    if \<not> requireIssuable (Some u) then http_Error 403 ''this account is disabled''
                    else if has_credential u then http_Error 410 ''this account already has a credential''
                    else \<lparr>rs_status = 204, rs_cookies = [setEnrolSession cfg e u], rs_answer = NoBody\<rparr>)))"

section \<open>Credentials\<close>

definition subjectOf :: "server_config \<Rightarrow> authd_env \<Rightarrow> frame_user list \<Rightarrow> request \<Rightarrow> frame_user \<Rightarrow> response + frame_user" where
  "subjectOf cfg e users r caller =
     (let email = hr_user r in
      if email = '''' \<or> email = fu_email caller then Inr caller
      else if fu_role caller \<noteq> RoleAdmin then Inl (http_Error 403 ''forbidden'')
      else case ByEmail e 1 (sc_namespace cfg) users email of
        Inl err \<Rightarrow> Inl (http_Error 404 ''no such account'')
      | Inr u \<Rightarrow> Inr u)"

definition handleListCredentials :: "server_config \<Rightarrow> authd_env \<Rightarrow> frame_user list \<Rightarrow> request \<Rightarrow> response" where
  "handleListCredentials cfg e users r =
     (case sessionUser cfg e users r of
        None \<Rightarrow> unauthorized
      | Some caller \<Rightarrow>
          (case subjectOf cfg e users r caller of
             Inl resp \<Rightarrow> resp
           | Inr subject \<Rightarrow>
               \<lparr>rs_status = 200, rs_cookies = [],
                rs_answer = Views (map (\<lambda>c. \<lparr>cv_id = wc_id c, cv_label = wc_label c, cv_addedAt = wc_addedAt c, cv_signCount = wc_signCount c\<rparr>)
                  (fu_credentials subject))\<rparr>))"

definition handleRevokeCredential ::
  "server_config \<Rightarrow> authd_env \<Rightarrow> frame_user list \<Rightarrow> request \<Rightarrow> string \<Rightarrow> frame_user list \<times> response" where
  "handleRevokeCredential cfg e users r credID =
     (case sessionUser cfg e users r of
        None \<Rightarrow> (users, unauthorized)
      | Some caller \<Rightarrow>
          (case subjectOf cfg e users r caller of
             Inl resp \<Rightarrow> (users, resp)
           | Inr subject \<Rightarrow>
               (case RemoveCredential e users subject credID of
                  Inr users' \<Rightarrow> (users', \<lparr>rs_status = 204, rs_cookies = [], rs_answer = NoBody\<rparr>)
                | Inl ErrUserNotFound \<Rightarrow> (users, http_Error 404 ''no such credential'')
                | Inl (ErrLastCredential msg) \<Rightarrow>
                    (users, http_Error 409 (''refusing to remove this account's last credential: '' @ ''it would become unreachable''))
                | Inl err \<Rightarrow> (users, http_Error 500 ''internal error''))))"

section \<open>The routes\<close>

text \<open>The discovery document as its fields, and the key set by the ID of its one key.\<close>

definition keyID :: string where "keyID = ''frame-authd''"

definition handleDiscovery :: "server_config \<Rightarrow> response" where
  "handleDiscovery cfg = \<lparr>rs_status = 200, rs_cookies = [], rs_answer = Config
     [(''issuer'', [sc_issuerURL cfg]), (''jwks_uri'', [sc_issuerURL cfg @ ''/keys'']),
      (''id_token_signing_alg_values_supported'', [''ES256'']), (''response_types_supported'', [''id_token'']),
      (''subject_types_supported'', [''public'']),
      (''claims_supported'', [''iss'', ''sub'', ''aud'', ''exp'', ''iat'', ''email'', ''groups''])]\<rparr>"

definition handleJWKS :: response where
  "handleJWKS = \<lparr>rs_status = 200, rs_cookies = [], rs_answer = Keys keyID\<rparr>"

definition ServeHTTP :: "server_config \<Rightarrow> authd_env \<Rightarrow> authd_world \<Rightarrow> request \<Rightarrow> authd_world \<times> response" where
  "ServeHTTP cfg e w r =
     (let users = aw_users w;
          same = (\<lambda>resp. (w, resp));
          change = (\<lambda>(users', resp). (w\<lparr>aw_users := users'\<rparr>, resp))
      in case hr_call r of
        Discovery \<Rightarrow> same (handleDiscovery cfg)
      | JWKS \<Rightarrow> same handleJWKS
      | Healthz \<Rightarrow> same \<lparr>rs_status = 200, rs_cookies = [], rs_answer = NoBody\<rparr>
      | Bootstrap body \<Rightarrow> handleBootstrap cfg e w body
      | Token \<Rightarrow> same (handleToken cfg e users r)
      | Logout \<Rightarrow> same handleLogout
      | LoginBegin \<Rightarrow> same (handleLoginBegin cfg e)
      | LoginFinish body \<Rightarrow> change (handleLoginFinish cfg e users r body)
      | RegisterBegin \<Rightarrow> same (handleRegisterBegin cfg e users r)
      | RegisterFinish body \<Rightarrow> change (handleRegisterFinish cfg e users r body)
      | Invite body \<Rightarrow> change (handleInvite cfg e users r body)
      | InviteLink body \<Rightarrow> same (handleInviteLink cfg e users r body)
      | InviteAccept body \<Rightarrow> same (handleInviteAccept cfg e users body)
      | ListCredentials \<Rightarrow> same (handleListCredentials cfg e users r)
      | RevokeCredential credID \<Rightarrow> change (handleRevokeCredential cfg e users r credID))"

end
