(* ===== verification/Account_Safety.thy ===== *)
theory Account_Safety
  imports Account_Webhook
begin

text \<open>
  What the admission checks keep of the accounts: one key one account, a mailbox under one name only, an
  enabled admin once there is one, and the admins as they are in the face of everybody else. Accounts are
  namespaced and the checks exclude the writer by its name alone, so a mailbox is unique within a
  namespace, and not across namespaces.
\<close>

section \<open>Well-formed accounts\<close>

abbreviation user_key :: "frame_user \<Rightarrow> string \<times> string" where
  "user_key u \<equiv> (fu_namespace u, fu_name u)"

text \<open>Two accounts claim one mailbox.\<close>

definition shares_mailbox :: "(string \<Rightarrow> string) \<Rightarrow> frame_user \<Rightarrow> frame_user \<Rightarrow> bool" where
  "shares_mailbox fold_case u v \<longleftrightarrow> fu_email u \<noteq> '''' \<and> fu_email v \<noteq> '''' \<and> fold_case (fu_email u) = fold_case (fu_email v)"

text \<open>A mailbox belongs to accounts of one name.\<close>

definition mailbox_by_name :: "(string \<Rightarrow> string) \<Rightarrow> frame_user list \<Rightarrow> bool" where
  "mailbox_by_name fold_case users \<longleftrightarrow>
     (\<forall>u v. u \<in> set users \<and> v \<in> set users \<and> fu_name u \<noteq> fu_name v \<and> fu_email u \<noteq> '''' \<and> fu_email v \<noteq> ''''
        \<longrightarrow> fold_case (fu_email u) \<noteq> fold_case (fu_email v))"

definition enabled_admin :: "frame_user \<Rightarrow> bool" where
  "enabled_admin u \<longleftrightarrow> fu_role u = RoleAdmin \<and> isEnabled (fu_state u)"

definition has_admin :: "frame_user list \<Rightarrow> bool" where
  "has_admin users \<longleftrightarrow> list_ex enabled_admin users"

definition accounts_ok :: "(string \<Rightarrow> string) \<Rightarrow> frame_user list \<Rightarrow> bool" where
  "accounts_ok fold_case users \<longleftrightarrow> distinct (map user_key users) \<and> mailbox_by_name fold_case users"

lemma and_then_None [simp]: "and_then a b = None \<longleftrightarrow> a = None \<and> b = None"
  by (cases a) (simp_all add: and_then_def)

lemma map_key_put: "map user_key (put_user v users) = map user_key users"
  by (induction users) (auto simp: put_user_def)

lemma set_put_user:
  "x \<in> set (put_user v users) \<Longrightarrow> x = v \<or> x \<in> set users \<and> user_key x \<noteq> user_key v"
  by (auto simp: put_user_def split: if_splits)

lemma in_put_user: "x \<in> set users \<Longrightarrow> user_key x \<noteq> user_key v \<Longrightarrow> x \<in> set (put_user v users)"
  by (force simp: put_user_def)

lemma new_in_put_user: "u \<in> set users \<Longrightarrow> user_key v = user_key u \<Longrightarrow> v \<in> set (put_user v users)"
  by (force simp: put_user_def)

section \<open>Names and mailboxes\<close>

lemma unclaimed_all:
  "requireEmailUnclaimed fold_case (Inr users) email excluding = None \<Longrightarrow> email \<noteq> '''' \<Longrightarrow> x \<in> set users \<Longrightarrow> fu_name x \<noteq> excluding \<Longrightarrow>
     fold_case (fu_email x) \<noteq> fold_case email"
  by (auto simp: requireEmailUnclaimed_def find_None_iff split: option.splits)

lemma mailbox_put:
  assumes "mailbox_by_name fold_case users" "u \<in> set users" "fu_name v = fu_name u"
    "fu_email v = fu_email u \<or> requireEmailUnclaimed fold_case (Inr users) (fu_email v) (fu_name v) = None"
  shows "mailbox_by_name fold_case (put_user v users)"
proof -
  have away: "fold_case (fu_email x) \<noteq> fold_case (fu_email v)"
    if "x \<in> set users" "fu_name x \<noteq> fu_name v" "fu_email x \<noteq> ''''" "fu_email v \<noteq> ''''" for x
  proof (cases "fu_email v = fu_email u")
    case True
    with that assms(1-3) show ?thesis unfolding mailbox_by_name_def by metis
  next
    case False
    with that assms(4) unclaimed_all show ?thesis by blast
  qed
  show ?thesis
    unfolding mailbox_by_name_def
  proof (intro allI impI, elim conjE)
    fix x y
    assume "x \<in> set (put_user v users)" "y \<in> set (put_user v users)" "fu_name x \<noteq> fu_name y" "fu_email x \<noteq> ''''" "fu_email y \<noteq> ''''"
    then show "fold_case (fu_email x) \<noteq> fold_case (fu_email y)"
      using set_put_user [of x v users] set_put_user [of y v users] away [of x] away [of y] assms(1)
      unfolding mailbox_by_name_def by metis
  qed
qed

lemma step_accounts_ok:
  assumes "account_step fold_case ctx users users'" "accounts_ok fold_case users"
  shows "accounts_ok fold_case users'"
  using assms(1)
proof cases
  case (Create u)
  have "requireEmailUnclaimed fold_case (Inr users) (fu_email u) (fu_name u) = None"
    using Create(3) by (simp add: ValidateCreate_def)
  then have away: "fold_case (fu_email x) \<noteq> fold_case (fu_email u)" if "x \<in> set users" "fu_name x \<noteq> fu_name u" "fu_email u \<noteq> ''''" for x
    using unclaimed_all that by blast
  have "mailbox_by_name fold_case users'"
    unfolding mailbox_by_name_def
  proof (intro allI impI, elim conjE)
    fix x y
    assume "x \<in> set users'" "y \<in> set users'" "fu_name x \<noteq> fu_name y" "fu_email x \<noteq> ''''" "fu_email y \<noteq> ''''"
    then show "fold_case (fu_email x) \<noteq> fold_case (fu_email y)"
      using away [of x] away [of y] assms(2) Create(1) unfolding accounts_ok_def mailbox_by_name_def
      by (metis Un_iff empty_iff insert_iff list.set(1,2) set_append)
  qed
  moreover have "distinct (map user_key users')"
    using assms(2) Create(1,2) by (auto simp: accounts_ok_def list_ex_iff)
  ultimately show ?thesis by (simp add: accounts_ok_def)
next
  case (Update u v)
  have "fu_email v = fu_email u \<or> requireEmailUnclaimed fold_case (Inr users) (fu_email v) (fu_name v) = None"
    using Update(5) by (auto simp: ValidateUpdate_def split: if_splits)
  then show ?thesis
    using assms(2) Update mailbox_put [of fold_case users u v] by (simp add: accounts_ok_def map_key_put)
next
  case (Delete u)
  then show ?thesis
    using assms(2) by (auto simp: accounts_ok_def drop_user_def mailbox_by_name_def distinct_map_filter)
next
  case (Status u v)
  then show ?thesis
    using assms(2) mailbox_put [of fold_case users u v] by (simp add: accounts_ok_def map_key_put same_spec_def)
qed

section \<open>The admins\<close>

lemma another_admin:
  "requireAnotherAdmin (Inr users) name = None \<Longrightarrow> \<exists>x. x \<in> set users \<and> fu_name x \<noteq> name \<and> enabled_admin x"
  by (auto simp: requireAnotherAdmin_def list_ex_iff enabled_admin_def split: if_splits)

lemma has_adminI: "x \<in> set users \<Longrightarrow> enabled_admin x \<Longrightarrow> has_admin users"
  by (auto simp: has_admin_def list_ex_iff)

lemma put_keeps_admin:
  assumes "distinct (map user_key users)" "u \<in> set users" "user_key v = user_key u" "has_admin users"
    "enabled_admin u \<Longrightarrow> enabled_admin v \<or> (\<exists>x. x \<in> set users \<and> fu_name x \<noteq> fu_name v \<and> enabled_admin x)"
  shows "has_admin (put_user v users)"
proof -
  obtain x where x: "x \<in> set users" "enabled_admin x" using assms(4) by (auto simp: has_admin_def list_ex_iff)
  show ?thesis
  proof (cases "user_key x = user_key v")
    case True
    then have "x = u" using distinct_map_unique [OF assms(1) x(1) assms(2)] assms(3) by simp
    with x(2) assms(5) consider "enabled_admin v" | y where "y \<in> set users" "fu_name y \<noteq> fu_name v" "enabled_admin y" by blast
    then show ?thesis
    proof cases
      case 1
      then show ?thesis using has_adminI new_in_put_user [OF assms(2,3)] by blast
    next
      case 2
      then show ?thesis using has_adminI in_put_user [of y users v] by auto
    qed
  next
    case False
    then show ?thesis using has_adminI in_put_user [OF x(1)] x(2) by blast
  qed
qed

lemma step_has_admin:
  assumes "account_step fold_case ctx users users'" "accounts_ok fold_case users" "has_admin users"
  shows "has_admin users'"
  using assms(1)
proof cases
  case (Create u)
  then show ?thesis using assms(3) by (simp add: has_admin_def)
next
  case (Update u v)
  have "enabled_admin v \<or> (\<exists>x. x \<in> set users \<and> fu_name x \<noteq> fu_name v \<and> enabled_admin x)" if "enabled_admin u"
    using Update(4,5) that another_admin [of users "fu_name u"] by (auto simp: ValidateUpdate_def enabled_admin_def split: if_splits)
  then show ?thesis
    using put_keeps_admin [of users u v] assms(2,3) Update by (simp add: accounts_ok_def)
next
  case (Delete u)
  show ?thesis
  proof (cases "enabled_admin u")
    case True
    then obtain x where "x \<in> set users" "fu_name x \<noteq> fu_name u" "enabled_admin x"
      using Delete(3) another_admin [of users "fu_name u"] by (auto simp: ValidateDelete_def enabled_admin_def)
    then show ?thesis using Delete(1) by (intro has_adminI [of x]) (auto simp: drop_user_def)
  next
    case False
    obtain x where x: "x \<in> set users" "enabled_admin x" using assms(3) by (auto simp: has_admin_def list_ex_iff)
    then have "user_key x \<noteq> user_key u"
      using False distinct_map_unique [of user_key users x u] Delete(2) assms(2) by (auto simp: accounts_ok_def)
    then show ?thesis using Delete(1) x by (intro has_adminI [of x]) (auto simp: drop_user_def)
  qed
next
  case (Status u v)
  then have "enabled_admin v" if "enabled_admin u" using that by (simp add: enabled_admin_def same_spec_def)
  then show ?thesis
    using put_keeps_admin [of users u v] assms(2,3) Status by (simp add: accounts_ok_def same_spec_def)
qed

text \<open>Of two accounts of one namespace at most one claims a mailbox; across namespaces only accounts of one name share it.\<close>

lemma shared_only_across:
  assumes "accounts_ok fold_case users" "u \<in> set users" "v \<in> set users" "user_key u \<noteq> user_key v" "shares_mailbox fold_case u v"
  shows "fu_name u = fu_name v \<and> fu_namespace u \<noteq> fu_namespace v"
proof -
  have "fu_name u = fu_name v" using assms(1-3,5) unfolding accounts_ok_def mailbox_by_name_def shares_mailbox_def by metis
  then show ?thesis using assms(4) by simp
qed

lemma run_keeps:
  assumes "(\<lambda>a b. \<exists>ctx. account_step fold_case ctx a b)\<^sup>*\<^sup>* users users'" "accounts_ok fold_case users" "has_admin users"
  shows "accounts_ok fold_case users' \<and> has_admin users'"
  using assms(1)
proof (induction rule: rtranclp_induct)
  case base
  then show ?case using assms by simp
next
  case (step a b)
  then show ?case using step_accounts_ok step_has_admin by blast
qed

text \<open>
  C26. Starting from accounts with distinct keys, mailboxes under one name each and an enabled admin, every
  sequence of admitted creations, updates, deletions and status writes, by anybody, keeps all three: an
  enabled admin always remains, and two accounts come to claim one mailbox, in any casing, only if they have
  the same name in different namespaces, so never within one namespace.
\<close>

theorem admin_remains:
  assumes "(\<lambda>a b. \<exists>ctx. account_step fold_case ctx a b)\<^sup>*\<^sup>* users users'" "accounts_ok fold_case users" "has_admin users"
  shows "distinct (map user_key users') \<and> has_admin users'
    \<and> (\<forall>u v. u \<in> set users' \<and> v \<in> set users' \<and> user_key u \<noteq> user_key v \<and> shares_mailbox fold_case u v \<longrightarrow>
         fu_name u = fu_name v \<and> fu_namespace u \<noteq> fu_namespace v)"
proof -
  note k = run_keeps [OF assms]
  have "distinct (map user_key users')" using k by (simp add: accounts_ok_def)
  then show ?thesis using k shared_only_across by blast
qed

text \<open>
  The exception is real, although \<open>requireEmailUnclaimed\<close> is there to keep two accounts from one mailbox: for
  every account, anybody who may create accounts is admitted with an account of the same name and address
  in a namespace that has no account of that name.
\<close>

lemma namespaces_share_mailbox:
  assumes "accounts_ok fold_case users" "\<forall>x \<in> set users. fu_email x \<noteq> ''''" "u \<in> set users"
    and "fu_name v = fu_name u" "fu_email v = fu_email u" "fu_role v \<noteq> RoleAdmin" "fu_passwordHash v = ''''"
    and "\<forall>x \<in> set users. user_key x \<noteq> user_key v"
  shows "account_step fold_case ctx users (users @ [v]) \<and> user_key u \<noteq> user_key v \<and> shares_mailbox fold_case u v"
proof -
  have "fold_case (fu_email x) \<noteq> fold_case (fu_email v)" if "x \<in> set users" "fu_name x \<noteq> fu_name v" for x
    using that assms(1-5) unfolding accounts_ok_def mailbox_by_name_def by metis
  then have "requireEmailUnclaimed fold_case (Inr users) (fu_email v) (fu_name v) = None"
    by (auto simp: requireEmailUnclaimed_def find_Some_iff in_set_conv_nth split: option.splits)
  then have "ValidateCreate fold_case ctx (Inr users) v = None"
    using assms(6,7) by (simp add: ValidateCreate_def guardPasswordHash_def)
  moreover have "\<not> list_ex (\<lambda>x. fu_namespace x = fu_namespace v \<and> fu_name x = fu_name v) users"
    using assms(8) by (auto simp: list_ex_iff)
  ultimately have "account_step fold_case ctx users (users @ [v])" by (rule account_step.Create [rotated])
  then show ?thesis using assms(2,3,5,8) by (auto simp: shares_mailbox_def)
qed

definition w_user :: "string \<Rightarrow> string \<Rightarrow> string \<Rightarrow> frame_user" where
  "w_user ns name role = \<lparr>fu_namespace = ns, fu_name = name, fu_email = name @ ''@lab'', fu_role = role, fu_passwordAuth = ''disabled'',
     fu_state = ''enabled'', fu_passwordHash = '''', fu_credentials = []\<rparr>"

definition admin_ctx :: request_context where
  "admin_ctx = Inr \<lparr>rq_username = ''alice@lab'', rq_groups = [''frame:admins''], rq_subResource = ''''\<rparr>"

theorem admin_remains_witness:
  "\<exists>users'. (\<lambda>a b. \<exists>ctx. account_step id ctx a b)\<^sup>*\<^sup>* [w_user ''auth'' ''alice'' ''admin'', w_user ''auth'' ''bob'' ''admin''] users'
     \<and> length users' = 1 \<and> has_admin users'"
proof -
  let ?a = "w_user ''auth'' ''alice'' ''admin''" and ?b = "w_user ''auth'' ''bob'' ''admin''"
  have st: "account_step id admin_ctx [?a, ?b] (drop_user ?a [?a, ?b])"
    by (rule account_step.Delete) (simp_all add: ValidateDelete_def requireAdminRequester_def admin_ctx_def adminGroup_def
      requireAnotherAdmin_def RoleAdmin_def isEnabled_def StateDisabled_def w_user_def)
  have "accounts_ok id [?a, ?b]" "has_admin [?a, ?b]" "length (drop_user ?a [?a, ?b]) = 1"
    by (auto simp: accounts_ok_def mailbox_by_name_def has_admin_def enabled_admin_def RoleAdmin_def isEnabled_def StateDisabled_def
      drop_user_def w_user_def)
  then show ?thesis
    using admin_remains [of id "[?a, ?b]" "drop_user ?a [?a, ?b]"] r_into_rtranclp [of "\<lambda>a b. \<exists>ctx. account_step id ctx a b"] st by blast
qed

section \<open>Who may change the admins\<close>

definition admin_request :: "request_context \<Rightarrow> bool" where
  "admin_request ctx = (case ctx of Inl e \<Rightarrow> False | Inr req \<Rightarrow> list_ex (\<lambda>g. g = adminGroup \<or> g = clusterAdminGroup) (rq_groups req))"

text \<open>The admins as the rest of the system knows them: who they are, under which address, and whether enabled.\<close>

definition admin_view :: "frame_user list \<Rightarrow> (string \<times> string \<times> string \<times> bool) list" where
  "admin_view users = map (\<lambda>u. (fu_namespace u, fu_name u, fu_email u, isEnabled (fu_state u))) (filter (\<lambda>u. fu_role u = RoleAdmin) users)"

lemma requester_admin: "requireAdminRequester ctx action = None \<longleftrightarrow> admin_request ctx"
  by (auto simp: requireAdminRequester_def admin_request_def split: sum.splits)

lemma admin_view_put:
  assumes "distinct (map user_key users)" "u \<in> set users" "user_key v = user_key u" "fu_email v = fu_email u" "fu_role v = fu_role u"
    "isEnabled (fu_state v) = isEnabled (fu_state u)"
  shows "admin_view (put_user v users) = admin_view users"
proof -
  have same: "x = u" if "x \<in> set users" "user_key x = user_key v" for x
    using distinct_map_unique [OF assms(1) that(1) assms(2)] that(2) assms(3) by simp
  have "admin_view (put_user v xs) = admin_view xs" if "set xs \<subseteq> set users" for xs
    using that
  proof (induction xs)
    case Nil
    then show ?case by (simp add: put_user_def)
  next
    case (Cons x xs)
    then show ?case using same [of x] assms(3-6) by (auto simp: put_user_def admin_view_def)
  qed
  then show ?thesis by simp
qed

text \<open>
  C27. Once an account holds the admin role, no admitted write of anybody outside the admin groups changes
  the admins: not which accounts they are, not their addresses, and not whether they are enabled.
\<close>

theorem only_admins_change_admins:
  assumes "account_step fold_case ctx users users'" "accounts_ok fold_case users" "\<not> admin_request ctx" "admin_view users \<noteq> []"
  shows "admin_view users' = admin_view users"
  using assms(1)
proof cases
  case (Create u)
  have "list_ex (\<lambda>u. fu_role u = RoleAdmin) users"
    using assms(4) by (auto simp: admin_view_def list_ex_iff filter_empty_conv)
  then have "fu_role u \<noteq> RoleAdmin"
    using Create(3) assms(3) requester_admin by (auto simp: ValidateCreate_def anyAdminExists_def)
  then show ?thesis using Create(1) by (simp add: admin_view_def)
next
  case (Update u v)
  then have "fu_role v = fu_role u" "isEnabled (fu_state v) = isEnabled (fu_state u)" "fu_email v = fu_email u"
    using assms(3) requester_admin by (auto simp: ValidateUpdate_def split: if_splits)
  then show ?thesis using admin_view_put [of users u v] Update assms(2) by (simp add: accounts_ok_def)
next
  case (Delete u)
  then have "fu_role u \<noteq> RoleAdmin" using assms(3) requester_admin by (auto simp: ValidateDelete_def split: if_splits)
  moreover have "x = u" if "x \<in> set users" "user_key x = user_key u" for x
    using distinct_map_unique [of user_key users x u] that Delete(2) assms(2) by (simp add: accounts_ok_def)
  ultimately have "filter (\<lambda>x. fu_role x = RoleAdmin) (drop_user u users) = filter (\<lambda>x. fu_role x = RoleAdmin) users"
    unfolding drop_user_def filter_filter by (intro filter_cong) auto
  then show ?thesis using Delete(1) by (simp add: admin_view_def)
next
  case (Status u v)
  then show ?thesis using admin_view_put [of users u v] assms(2) by (simp add: accounts_ok_def same_spec_def)
qed

theorem only_admins_change_admins_witness:
  "\<exists>users'. account_step id (Inl ''no request'') [w_user ''auth'' ''alice'' ''admin''] users' \<and> length users' = 2
     \<and> admin_view users' = [(''auth'', ''alice'', ''alice@lab'', True)]"
proof -
  let ?a = "w_user ''auth'' ''alice'' ''admin''" and ?b = "w_user ''auth'' ''bob'' ''viewer''"
  have st: "account_step id (Inl ''no request'') [?a] ([?a] @ [?b])"
    by (rule account_step.Create) (simp_all add: ValidateCreate_def guardPasswordHash_def requireEmailUnclaimed_def RoleAdmin_def w_user_def)
  have view: "admin_view [?a] = [(''auth'', ''alice'', ''alice@lab'', True)]"
    by (simp add: admin_view_def RoleAdmin_def isEnabled_def StateDisabled_def w_user_def)
  have "accounts_ok id [?a]" "\<not> admin_request (Inl ''no request'')"
    by (auto simp: accounts_ok_def mailbox_by_name_def admin_request_def)
  then show ?thesis
    using only_admins_change_admins [OF st] st view by (intro exI [of _ "[?a] @ [?b]"]) simp
qed

end
