(* ===== verification/Authd_Safety.thy ===== *)
theory Authd_Safety
  imports Authd_Server Account_Safety
begin

text \<open>
  What a request to authd can do to the accounts: create one the webhook admits, or rewrite the credentials of
  one without touching anything else of it.
\<close>

section \<open>Reads\<close>

lemma find_in: "find P xs = Some x \<Longrightarrow> x \<in> set xs \<and> P x"
  by (auto simp: find_Some_iff)

lemma ByEmail_found:
  "ByEmail e k ns users email = Inr u \<Longrightarrow> u \<in> set users \<and> fu_namespace u = ns \<and> fu_email u = email"
  by (auto simp: ByEmail_def Store_list_def split: option.splits sum.splits dest!: find_in)

lemma ByCredentialID_found:
  "ByCredentialID e k ns users i = Inr u \<Longrightarrow> u \<in> set users \<and> fu_namespace u = ns \<and> (\<exists>c \<in> set (fu_credentials u). wc_id c = i)"
  by (auto simp: ByCredentialID_def Store_list_def list_ex_iff split: option.splits sum.splits dest!: find_in)

lemma sessionUserFor_found:
  assumes "sessionUserFor cfg e users r ps = Some u"
  shows "u \<in> set users \<and> fu_namespace u = sc_namespace cfg \<and> fu_state u \<noteq> StateDisabled
    \<and> (\<exists>v. hr_session r = Some v \<and> open_first cfg e ps v = Some (fu_email u))"
  using assms by (auto simp: sessionUserFor_def requireIssuable_def split: option.splits sum.splits if_splits dest: ByEmail_found)

lemma subjectOf_found:
  "subjectOf cfg e users r caller = Inr u \<Longrightarrow> caller \<in> set users \<Longrightarrow> u \<in> set users"
  by (auto simp: subjectOf_def Let_def split: if_splits sum.splits dest: ByEmail_found)

section \<open>Writes\<close>

text \<open>A status write keeps the rest of the account, and an account that holds a key holds one after it.\<close>

definition rekeyed :: "frame_user \<Rightarrow> frame_user \<Rightarrow> bool" where
  "rekeyed u v \<longleftrightarrow> same_spec u v \<and> fu_passwordHash v = fu_passwordHash u \<and> fu_credentials v \<noteq> []"

definition authd_write :: "server_config \<Rightarrow> authd_env \<Rightarrow> frame_user list \<Rightarrow> frame_user list \<Rightarrow> bool" where
  "authd_write cfg e users users' \<longleftrightarrow>
     users' = users
   \<or> (\<exists>u v. u \<in> set users \<and> users' = put_user v users \<and> rekeyed u v)
   \<or> (\<exists>u. users' = users @ [u] \<and> fu_credentials u = [] \<and> fu_namespace u = sc_namespace cfg
        \<and> \<not> list_ex (\<lambda>x. fu_namespace x = fu_namespace u \<and> fu_name x = fu_name u) users
        \<and> ValidateCreate (sc_foldCase cfg) (ae_ctx e) (Inr users) u = None
        \<and> (fu_role u = RoleAdmin \<longrightarrow> (\<forall>x \<in> set users. fu_namespace x = sc_namespace cfg \<longrightarrow> fu_role x \<noteq> RoleAdmin)))"

lemma count_in_nonempty: "count_in i n cs = Some cs' \<Longrightarrow> cs' \<noteq> []"
  by (induction cs arbitrary: cs') (auto split: if_splits)

lemma status_update_write:
  "status_update e users (u\<lparr>fu_credentials := cs\<rparr>) = Inr users' \<Longrightarrow> u \<in> set users \<Longrightarrow> cs \<noteq> [] \<Longrightarrow> authd_write cfg e users users'"
  unfolding authd_write_def status_update_def
  by (intro disjI2 disjI1 exI [of _ u] exI [of _ "u\<lparr>fu_credentials := cs\<rparr>"])
    (auto simp: rekeyed_def same_spec_def split: option.splits)

lemma AddCredential_write: "AddCredential e users u c = Inr users' \<Longrightarrow> u \<in> set users \<Longrightarrow> authd_write cfg e users users'"
  using status_update_write [where u = u and cs = "fu_credentials u @ [c]"] by (simp add: AddCredential_def split: if_splits)

lemma UpdateSignCount_write: "UpdateSignCount e users u i n = Inr users' \<Longrightarrow> u \<in> set users \<Longrightarrow> authd_write cfg e users users'"
  using status_update_write [where u = u] count_in_nonempty by (auto simp: UpdateSignCount_def split: option.splits)

lemma RemoveCredential_write: "RemoveCredential e users u i = Inr users' \<Longrightarrow> u \<in> set users \<Longrightarrow> authd_write cfg e users users'"
  using status_update_write [where u = u] by (simp add: RemoveCredential_def Let_def split: if_splits)

lemma Store_Create_write:
  assumes "Store_Create (sc_foldCase cfg) e ns users (new_user cfg name email role state) = Inr users'" "sc_namespace cfg = ns"
    "role = RoleAdmin \<Longrightarrow> \<forall>x \<in> set users. fu_namespace x = ns \<longrightarrow> fu_role x \<noteq> RoleAdmin"
  shows "authd_write cfg e users users'"
  using assms unfolding authd_write_def
  by (intro disjI2) (auto simp: Store_Create_def Let_def new_user_def with_defaults_def split: option.splits if_splits)

lemma write_refl [simp]: "authd_write cfg e users users"
  by (simp add: authd_write_def)

lemma FinishLogin_write: "FinishLogin cfg e users s b = Inr (u, users') \<Longrightarrow> authd_write cfg e users users'"
  using UpdateSignCount_write ByCredentialID_found
  by (fastforce simp: FinishLogin_def recordLoginCounter_def split: option.splits sum.splits if_splits)

lemma FinishRegistration_write:
  "FinishRegistration cfg e users u s b l = Inr users' \<Longrightarrow> u \<in> set users \<Longrightarrow> authd_write cfg e users users'"
  using AddCredential_write by (fastforce simp: FinishRegistration_def split: option.splits sum.splits if_splits)

section \<open>Every handler\<close>

lemma AdminCount_zero: "AdminCount e k ns users = Inr 0 \<Longrightarrow> \<forall>x \<in> set users. fu_namespace x = ns \<longrightarrow> fu_role x \<noteq> RoleAdmin"
  by (auto simp: AdminCount_def Store_list_def filter_empty_conv split: option.splits sum.splits)

lemma handleBootstrap_write: "authd_write cfg e (aw_users w) (aw_users (fst (handleBootstrap cfg e w body)))"
proof (cases "AdminCount e 0 (sc_namespace cfg) (aw_users w)")
  case (Inl err)
  then show ?thesis by (simp add: handleBootstrap_def)
next
  case (Inr n)
  show ?thesis
  proof (cases "n = 0")
    case True
    then show ?thesis
      using Inr Store_Create_write AdminCount_zero [of e 0 "sc_namespace cfg" "aw_users w"]
      by (auto simp: handleBootstrap_def Let_def split: option.splits sum.splits)
  next
    case False
    with Inr show ?thesis by (simp add: handleBootstrap_def)
  qed
qed

lemma invited_write:
  assumes "Store_Create (sc_foldCase cfg) e (sc_namespace cfg) users (new_user cfg name email role state) = Inr users'"
    "role = RoleOperator \<or> role = RoleViewer"
  shows "authd_write cfg e users users'"
  by (rule Store_Create_write [OF assms(1)]) (use assms(2) in \<open>auto simp: RoleAdmin_def RoleOperator_def RoleViewer_def\<close>)

lemma handleInvite_write: "authd_write cfg e users (fst (handleInvite cfg e users r body))"
proof (cases "sessionUser cfg e users r"; cases body)
  fix caller b assume c: "sessionUser cfg e users r = Some caller" and b: "body = Some b"
  obtain email role where br: "b = (email, role)" by force
  let ?name = "frameUserNameForEmail (sc_toLower cfg) (sc_sha256 cfg) email"
  let ?made = "Store_Create (sc_foldCase cfg) e (sc_namespace cfg) users (new_user cfg ?name email role StateEnabled)"
  have made: "fst (handleInvite cfg e users r body) = users
      \<or> ?made = Inr (fst (handleInvite cfg e users r body)) \<and> (role = RoleOperator \<or> role = RoleViewer)"
  proof (cases ?made)
    case (Inl err)
    then show ?thesis using c b br
      by (cases err; cases "inviteeAlreadyExists cfg e users email") (auto simp: handleInvite_def Let_def)
  next
    case (Inr users')
    then show ?thesis using c b br
      by (cases "inviteeAlreadyExists cfg e users email") (auto simp: handleInvite_def Let_def)
  qed
  then show ?thesis using invited_write by fastforce
qed (simp_all add: handleInvite_def split: option.splits)

lemma handleLoginFinish_write: "authd_write cfg e users (fst (handleLoginFinish cfg e users r body))"
  using FinishLogin_write by (auto simp: handleLoginFinish_def split: option.splits sum.splits)

lemma handleRegisterFinish_write: "authd_write cfg e users (fst (handleRegisterFinish cfg e users r body))"
  using FinishRegistration_write sessionUserFor_found
  by (fastforce simp: handleRegisterFinish_def split: option.splits sum.splits)

lemma handleRevokeCredential_write: "authd_write cfg e users (fst (handleRevokeCredential cfg e users r i))"
  using RemoveCredential_write subjectOf_found sessionUserFor_found
  by (fastforce simp: handleRevokeCredential_def sessionUser_def split: option.splits sum.splits store_err.splits)

lemma serve_write: "authd_write cfg e (aw_users w) (aw_users (fst (ServeHTTP cfg e w r)))"
  by (cases "hr_call r")
    (simp_all add: ServeHTTP_def Let_def case_prod_unfold handleBootstrap_write handleInvite_write handleLoginFinish_write
      handleRegisterFinish_write handleRevokeCredential_write)

lemma write_step: "authd_write cfg e users users' \<Longrightarrow> users' = users \<or> account_step (sc_foldCase cfg) (ae_ctx e) users users'"
  unfolding authd_write_def rekeyed_def by (blast intro: account_step.Status account_step.Create)

section \<open>Runs\<close>

definition authd_run :: "server_config \<Rightarrow> authd_world \<Rightarrow> authd_world \<Rightarrow> bool" where
  "authd_run cfg = (\<lambda>w w'. \<exists>e r. w' = fst (ServeHTTP cfg e w r))\<^sup>*\<^sup>*"

lemma write_ok: "authd_write cfg e users users' \<Longrightarrow> accounts_ok (sc_foldCase cfg) users \<Longrightarrow> accounts_ok (sc_foldCase cfg) users'"
  using write_step step_accounts_ok by blast

definition kept :: "frame_user \<Rightarrow> frame_user \<Rightarrow> bool" where
  "kept u v \<longleftrightarrow> same_spec u v \<and> fu_passwordHash v = fu_passwordHash u \<and> (fu_credentials u \<noteq> [] \<longrightarrow> fu_credentials v \<noteq> [])"

lemma kept_refl [simp]: "kept u u"
  by (simp add: kept_def same_spec_def)

lemma kept_trans: "kept u v \<Longrightarrow> kept v x \<Longrightarrow> kept u x"
  by (auto simp: kept_def same_spec_def)

text \<open>The accounts of before, each kept, followed by those created since.\<close>

definition grown :: "string \<Rightarrow> frame_user list \<Rightarrow> frame_user list \<Rightarrow> bool" where
  "grown ns users users' \<longleftrightarrow>
     length users \<le> length users' \<and> list_all2 kept users (take (length users) users')
   \<and> length (filter (\<lambda>u. fu_namespace u = ns \<and> fu_role u = RoleAdmin) users')
       \<le> max 1 (length (filter (\<lambda>u. fu_namespace u = ns \<and> fu_role u = RoleAdmin) users))"

lemma put_kept:
  assumes "distinct (map user_key users)" "u \<in> set users" "rekeyed u v"
  shows "list_all2 kept users (put_user v users)"
proof -
  have same: "kept x (if fu_namespace x = fu_namespace v \<and> fu_name x = fu_name v then v else x)" if "x \<in> set users" for x
  proof (cases "user_key x = user_key v")
    case True
    then have "x = u"
      using distinct_map_unique [OF assms(1) that assms(2)] assms(3) by (simp add: rekeyed_def same_spec_def)
    then show ?thesis using True assms(3) by (simp add: kept_def rekeyed_def)
  qed auto
  then show ?thesis unfolding put_user_def by (simp add: list_all2_map2 list.rel_refl_strong)
qed

lemma kept_admins:
  "list_all2 kept users users' \<Longrightarrow>
     length (filter (\<lambda>u. fu_namespace u = ns \<and> fu_role u = RoleAdmin) users')
       = length (filter (\<lambda>u. fu_namespace u = ns \<and> fu_role u = RoleAdmin) users)"
  by (induction rule: list_all2_induct) (auto simp: kept_def same_spec_def)

lemma write_grown:
  assumes "authd_write cfg e users users'" "distinct (map user_key users)"
  shows "grown (sc_namespace cfg) users users'"
proof -
  have refl: "list_all2 kept users users" by (simp add: list.rel_refl)
  from assms(1) consider "users' = users" | u v where "u \<in> set users" "users' = put_user v users" "rekeyed u v"
    | u where "users' = users @ [u]"
        "fu_role u = RoleAdmin \<longrightarrow> (\<forall>x \<in> set users. fu_namespace x = sc_namespace cfg \<longrightarrow> fu_role x \<noteq> RoleAdmin)"
    unfolding authd_write_def by blast
  then show ?thesis
  proof cases
    case 1
    then show ?thesis using refl by (simp add: grown_def)
  next
    case 2
    then have k: "list_all2 kept users users'" using put_kept assms(2) by blast
    then show ?thesis using kept_admins [OF k] list_all2_lengthD [OF k] by (simp add: grown_def)
  next
    case 3
    then show ?thesis using refl by (auto simp: grown_def filter_empty_conv)
  qed
qed

end
