(* ===== verification/Authd_Theorems.thy ===== *)
theory Authd_Theorems
  imports Authd_Safety
begin

text \<open>
  The properties of authd: its writes against the admission webhook, runs of requests, what the enrolment
  cookie is good for, where sessions come from, and that an enrolled key signs in.
\<close>

section \<open>The accounts\<close>

text \<open>
  Whatever the request and the answers of the API server, authd leaves the accounts as they are or takes
  one step the admission webhook admits for authd's own identity.
\<close>

theorem authd_refines_accounts:
  "aw_users (fst (ServeHTTP cfg e w r)) = aw_users w
     \<or> account_step (sc_foldCase cfg) (ae_ctx e) (aw_users w) (aw_users (fst (ServeHTTP cfg e w r)))"
  using write_step serve_write by blast

lemma kept_list_trans: "list_all2 kept xs ys \<Longrightarrow> list_all2 kept ys zs \<Longrightarrow> list_all2 kept xs zs"
  using list_all2_trans [of kept kept kept] kept_trans by blast

lemma grown_trans:
  assumes "grown ns a b" "grown ns b c"
  shows "grown ns a c"
proof -
  have "list_all2 kept (take (length a) b) (take (length a) (take (length b) c))"
    using assms(2) by (intro list_all2_takeI) (simp add: grown_def)
  moreover have "take (length a) (take (length b) c) = take (length a) c"
    using assms(1) by (simp add: grown_def min_def)
  ultimately have "list_all2 kept a (take (length a) c)"
    using assms(1) kept_list_trans [of a "take (length a) b"] by (simp add: grown_def)
  then show ?thesis using assms by (auto simp: grown_def)
qed

lemma authd_run_ok:
  assumes "authd_run cfg w w'" "accounts_ok (sc_foldCase cfg) (aw_users w)"
  shows "accounts_ok (sc_foldCase cfg) (aw_users w') \<and> grown (sc_namespace cfg) (aw_users w) (aw_users w')"
  using assms(1) unfolding authd_run_def
proof (induction rule: rtranclp_induct)
  case base
  then show ?case using assms(2) by (simp add: grown_def list.rel_refl)
next
  case (step x y)
  then obtain e r where y: "y = fst (ServeHTTP cfg e x r)" by blast
  have w: "authd_write cfg e (aw_users x) (aw_users y)" unfolding y by (rule serve_write)
  have "accounts_ok (sc_foldCase cfg) (aw_users y)" using write_ok [OF w] step.IH by blast
  moreover have "grown (sc_namespace cfg) (aw_users x) (aw_users y)"
    using write_grown [OF w] step.IH by (simp add: accounts_ok_def)
  ultimately show ?case using grown_trans step.IH by blast
qed

text \<open>
  C29. Over any sequence of requests, whoever sends them and whatever fails: no account is removed, and its
  name, address, role and state are never changed; an account that holds a passkey always holds one; no
  two accounts of one namespace, authd's or another, come to claim one mailbox, and across namespaces only
  accounts of the same name; and authd never makes a second admin, only the first.
\<close>

theorem authd_run_keeps_accounts:
  assumes "authd_run cfg w w'" "accounts_ok (sc_foldCase cfg) (aw_users w)"
  shows "distinct (map user_key (aw_users w')) \<and> grown (sc_namespace cfg) (aw_users w) (aw_users w')
    \<and> (\<forall>u v. u \<in> set (aw_users w') \<and> v \<in> set (aw_users w') \<and> user_key u \<noteq> user_key v \<and> shares_mailbox (sc_foldCase cfg) u v \<longrightarrow>
         fu_name u = fu_name v \<and> fu_namespace u \<noteq> fu_namespace v)"
proof -
  note k = authd_run_ok [OF assms]
  have "distinct (map user_key (aw_users w'))" using k by (simp add: accounts_ok_def)
  then show ?thesis using k shared_only_across by blast
qed

section \<open>The enrolment cookie\<close>

lemma enrol_cookie_closed:
  assumes "hr_session r = Some (Seal (sc_mac cfg) t PurposeEnrol email enrolSessionTTL)"
    "separates (sc_mac cfg) (sealed_text t email enrolSessionTTL)"
  shows "sessionUser cfg e users r = None"
  using assms Open_other_purpose [OF assms(2)] by (simp add: sessionUser_def sessionUserFor_def)

lemma no_cookie [simp]: "sessionUser cfg e users (r\<lparr>hr_session := None\<rparr>) = None"
  by (simp add: sessionUser_def sessionUserFor_def)

text \<open>
  C30. The cookie of an accepted invitation is worth nothing on every route but the two of enrolment: each
  answers and writes exactly as it does with no session cookie at all, whatever role the account has.
\<close>

theorem enrol_cookie_only_enrols:
  assumes "hr_session r = Some (Seal (sc_mac cfg) t PurposeEnrol email enrolSessionTTL)"
    "separates (sc_mac cfg) (sealed_text t email enrolSessionTTL)"
    "hr_call r \<noteq> RegisterBegin" "\<forall>body. hr_call r \<noteq> RegisterFinish body"
  shows "ServeHTTP cfg e w r = ServeHTTP cfg e w (r\<lparr>hr_session := None\<rparr>)"
proof -
  note same = enrol_cookie_closed [OF assms(1,2)]
  have "handleToken cfg e users r = handleToken cfg e users (r\<lparr>hr_session := None\<rparr>)"
    "handleInvite cfg e users r ib = handleInvite cfg e users (r\<lparr>hr_session := None\<rparr>) ib"
    "handleInviteLink cfg e users r lb = handleInviteLink cfg e users (r\<lparr>hr_session := None\<rparr>) lb"
    "handleListCredentials cfg e users r = handleListCredentials cfg e users (r\<lparr>hr_session := None\<rparr>)"
    "handleRevokeCredential cfg e users r i = handleRevokeCredential cfg e users (r\<lparr>hr_session := None\<rparr>) i"
    "handleLoginFinish cfg e users r bb = handleLoginFinish cfg e users (r\<lparr>hr_session := None\<rparr>) bb" for users ib lb i bb
    using same [of e users]
    by (simp_all add: handleToken_def handleInvite_def handleInviteLink_def handleListCredentials_def handleRevokeCredential_def
      handleLoginFinish_def)
  then show ?thesis
    using assms(3,4) by (cases "hr_call r") (simp_all add: ServeHTTP_def)
qed

section \<open>Where sessions come from\<close>

definition bootstrapped :: "server_config \<Rightarrow> authd_world \<Rightarrow> request \<Rightarrow> string \<Rightarrow> bool" where
  "bootstrapped cfg w r email \<longleftrightarrow>
     hr_call r = Bootstrap (Some (sc_bootstrapSecret cfg, email)) \<and> sc_bootstrapSecret cfg \<noteq> ''''
   \<and> \<not> (\<exists>u. u \<in> set (aw_users w) \<and> fu_namespace u = sc_namespace cfg \<and> fu_role u = RoleAdmin)"

text \<open>A passkey of the account was shown, checked by the library, and with the user verified where that is required.\<close>

definition signed_in :: "server_config \<Rightarrow> authd_env \<Rightarrow> authd_world \<Rightarrow> request \<Rightarrow> string \<Rightarrow> bool" where
  "signed_in cfg e w r email \<longleftrightarrow>
     (\<exists>b s session parsed u cred. hr_call r = LoginFinish (Some b) \<and> hr_challenge r = Some s \<and> openSession cfg e s = Some session
        \<and> wl_parseAssertion (sc_lib cfg) b = Some parsed
        \<and> u \<in> set (aw_users w) \<and> fu_namespace u = sc_namespace cfg \<and> fu_email u = email \<and> fu_state u \<noteq> StateDisabled
        \<and> (\<exists>k. k \<in> set (fu_credentials u) \<and> wc_id k = b64_encode (wl_rawID (sc_lib cfg) parsed))
        \<and> wl_validate (sc_lib cfg) (webauthnUser u) (withoutUVRequirement session) parsed = Some cred
        \<and> \<not> (requiresUV cfg \<and> \<not> lc_userVerified cred) \<and> \<not> lc_cloneWarning cred)"

lemma FinishLogin_facts:
  assumes "FinishLogin cfg e users s b = Inr (u, users')"
  shows "\<exists>session parsed cred. openSession cfg e s = Some session \<and> wl_parseAssertion (sc_lib cfg) b = Some parsed
    \<and> u \<in> set users \<and> fu_namespace u = sc_namespace cfg
    \<and> (\<exists>k. k \<in> set (fu_credentials u) \<and> wc_id k = b64_encode (wl_rawID (sc_lib cfg) parsed))
    \<and> wl_validate (sc_lib cfg) (webauthnUser u) (withoutUVRequirement session) parsed = Some cred
    \<and> \<not> (requiresUV cfg \<and> \<not> lc_userVerified cred) \<and> \<not> lc_cloneWarning cred"
proof -
  obtain session where s: "openSession cfg e s = Some session"
    using assms by (auto simp: FinishLogin_def split: option.splits)
  obtain parsed where p: "wl_parseAssertion (sc_lib cfg) b = Some parsed"
    using assms s by (auto simp: FinishLogin_def split: option.splits)
  obtain m where m: "ByCredentialID e 0 (sc_namespace cfg) users (b64_encode (wl_rawID (sc_lib cfg) parsed)) = Inr m"
    using assms s p by (auto simp: FinishLogin_def split: sum.splits)
  obtain cred where c: "wl_validate (sc_lib cfg) (webauthnUser m) (withoutUVRequirement session) parsed = Some cred"
    using assms s p m by (auto simp: FinishLogin_def split: option.splits)
  have "m = u \<and> \<not> (requiresUV cfg \<and> \<not> lc_userVerified cred) \<and> \<not> lc_cloneWarning cred"
    using assms s p m c by (auto simp: FinishLogin_def recordLoginCounter_def split: if_splits sum.splits)
  then show ?thesis using s p c ByCredentialID_found [OF m] by blast
qed

lemma Open_empty [simp]: "Open mac t p '''' = None"
  by (simp add: Open_def cut_dot_def)

lemma session_opens: "Open (sc_mac cfg) t PurposeSession (ck_value (setSession cfg e u)) = Some x \<Longrightarrow> x = fu_email u"
  using Open_data [of "sc_mac cfg" t PurposeSession "ae_now e" "fu_email u" "sc_sessionTTL cfg"]
  by (auto simp: setSession_def setSessionFor_def)

lemma login_session:
  assumes "c \<in> set (rs_cookies (snd (handleLoginFinish cfg e (aw_users w) r body)))" "hr_call r = LoginFinish body"
    "Open (sc_mac cfg) t PurposeSession (ck_value c) = Some email"
  shows "signed_in cfg e w r email"
proof -
  obtain s b u users' where sb: "hr_challenge r = Some s" "body = Some b"
      "FinishLogin cfg e (aw_users w) s b = Inr (u, users')" "fu_state u \<noteq> StateDisabled" "c = setSession cfg e u"
    using assms(1)
    by (auto simp: handleLoginFinish_def unauthorized_def http_Error_def requireIssuable_def split: option.splits sum.splits if_splits)
  then have "fu_email u = email" using assms(3) session_opens by blast
  then show ?thesis
    using FinishLogin_facts [OF sb(3)] sb assms(2) unfolding signed_in_def by blast
qed

lemma bootstrap_session:
  assumes "c \<in> set (rs_cookies (snd (handleBootstrap cfg e w body)))" "hr_call r = Bootstrap body"
    "Open (sc_mac cfg) t PurposeSession (ck_value c) = Some email"
  shows "bootstrapped cfg w r email"
proof -
  have "AdminCount e 0 (sc_namespace cfg) (aw_users w) = Inr 0"
    using assms(1) by (auto simp: handleBootstrap_def http_Error_def Let_def split: sum.splits if_splits)
  moreover have "\<exists>tok em. body = Some (tok, em) \<and> tok = sc_bootstrapSecret cfg \<and> tok \<noteq> ''''
      \<and> (\<exists>name. c = setSession cfg e (new_user cfg name em RoleAdmin ''''))"
    using assms(1) by (auto simp: handleBootstrap_def unauthorized_def http_Error_def Let_def split: sum.splits if_splits option.splits)
  ultimately show ?thesis
    using assms(2,3) by (auto simp: bootstrapped_def new_user_def dest!: AdminCount_zero session_opens)
qed

lemma accept_no_session:
  assumes "c \<in> set (rs_cookies (handleInviteAccept cfg e users body))"
    "\<forall>u. u \<in> set users \<longrightarrow> separates (sc_mac cfg) (sealed_text (ae_now e) (fu_email u) enrolSessionTTL)"
  shows "Open (sc_mac cfg) t PurposeSession (ck_value c) = None"
proof -
  obtain u where "u \<in> set users" "c = setEnrolSession cfg e u"
    using assms(1)
    by (auto simp: handleInviteAccept_def Let_def http_Error_def split: option.splits sum.splits if_splits dest: ByEmail_found)
  then show ?thesis using assms(2) Open_other_purpose by (auto simp: setEnrolSession_def setSessionFor_def)
qed

text \<open>Every other route sets no cookie under the session's name, or the empty one.\<close>

lemma other_routes:
  assumes "c \<in> set (rs_cookies (snd (ServeHTTP cfg e w r)))" "ck_name c = sessionCookie" "ck_value c \<noteq> ''''"
    "\<forall>b. hr_call r \<noteq> LoginFinish b" "\<forall>b. hr_call r \<noteq> Bootstrap b"
  shows "\<exists>b. hr_call r = InviteAccept b"
proof (cases "hr_call r")
  case (Invite b)
  have "rs_cookies (snd (handleInvite cfg e (aw_users w) r b)) = []"
    by (simp add: handleInvite_def Let_def unauthorized_def http_Error_def invite_url_def case_prod_unfold
      split: option.split sum.split store_err.split)
  then show ?thesis using assms(1) Invite by (simp add: ServeHTTP_def case_prod_unfold Let_def)
next
  case (RegisterFinish b)
  have "rs_cookies (snd (handleRegisterFinish cfg e (aw_users w) r b)) = []"
    by (simp add: handleRegisterFinish_def unauthorized_def http_Error_def split: option.split sum.split)
  then show ?thesis using assms(1) RegisterFinish by (simp add: ServeHTTP_def case_prod_unfold Let_def)
next
  case (RevokeCredential i)
  have "rs_cookies resp = []" if "subjectOf cfg e (aw_users w) r u = Inl resp" for u resp
    using that by (auto simp: subjectOf_def Let_def http_Error_def split: if_splits sum.splits)
  then have "rs_cookies (snd (handleRevokeCredential cfg e (aw_users w) r i)) = []"
    by (simp add: handleRevokeCredential_def unauthorized_def http_Error_def split: option.split sum.split store_err.split)
  then show ?thesis using assms(1) RevokeCredential by (simp add: ServeHTTP_def case_prod_unfold Let_def)
next
  case ListCredentials
  have "rs_cookies resp = []" if "subjectOf cfg e (aw_users w) r u = Inl resp" for u resp
    using that by (auto simp: subjectOf_def Let_def http_Error_def split: if_splits sum.splits)
  then have "rs_cookies (handleListCredentials cfg e (aw_users w) r) = []"
    by (simp add: handleListCredentials_def unauthorized_def http_Error_def split: option.split sum.split)
  then show ?thesis using assms(1) ListCredentials by (simp add: ServeHTTP_def)
next
  case (InviteLink b)
  have "rs_cookies (handleInviteLink cfg e (aw_users w) r b) = []"
    by (simp add: handleInviteLink_def unauthorized_def http_Error_def invite_url_def split: option.split sum.split store_err.split)
  then show ?thesis using assms(1) InviteLink by (simp add: ServeHTTP_def)
qed (use assms in \<open>auto simp: ServeHTTP_def handleDiscovery_def handleJWKS_def handleToken_def handleLogout_def handleLoginBegin_def
    handleRegisterBegin_def unauthorized_def http_Error_def setChallenge_def sessionCookie_def challengeCookie_def
    split: option.splits sum.splits\<close>)

text \<open>
  C28. A response hands out a cookie that is good as a session for an address only when the request is the
  bootstrap of that address with the configured secret while there is no admin, or the end of a sign-in in
  which a passkey held by the enabled account of that address was verified. Accepting an invitation never
  does.
\<close>

theorem session_provenance:
  assumes "c \<in> set (rs_cookies (snd (ServeHTTP cfg e w r)))" "ck_name c = sessionCookie"
    "Open (sc_mac cfg) t PurposeSession (ck_value c) = Some email"
    "\<forall>u. u \<in> set (aw_users w) \<longrightarrow> separates (sc_mac cfg) (sealed_text (ae_now e) (fu_email u) enrolSessionTTL)"
  shows "bootstrapped cfg w r email \<or> signed_in cfg e w r email"
proof (cases "(\<exists>b. hr_call r = LoginFinish b) \<or> (\<exists>b. hr_call r = Bootstrap b)")
  case True
  then show ?thesis
    using assms(1,3) bootstrap_session login_session by (fastforce simp: ServeHTTP_def case_prod_unfold Let_def)
next
  case False
  have "ck_value c \<noteq> ''''" using assms(3) by auto
  then obtain b where "hr_call r = InviteAccept b" using other_routes [OF assms(1,2)] False by blast
  then show ?thesis using assms(1,3) accept_no_session [OF _ assms(4)] by (simp add: ServeHTTP_def)
qed

section \<open>An enrolled key signs in\<close>

lemma find_unique: "u \<in> set xs \<Longrightarrow> P u \<Longrightarrow> (\<And>x. x \<in> set xs \<Longrightarrow> x \<noteq> u \<Longrightarrow> \<not> P x) \<Longrightarrow> find P xs = Some u"
  by (induction xs) auto

lemma std_swap:
  assumes "CHR ''+'' \<notin> set s" "CHR ''/'' \<notin> set s"
  shows "map ((\<lambda>c. if c = CHR ''+'' then CHR ''-'' else if c = CHR ''/'' then CHR ''_'' else c)
     \<circ> (\<lambda>c. if c = CHR ''-'' then CHR ''+'' else if c = CHR ''_'' then CHR ''/'' else c)) s = s"
  using assms by (intro map_idI) auto

lemma b64_char_url: "n < 64 \<Longrightarrow> b64_char n \<noteq> CHR ''+'' \<and> b64_char n \<noteq> CHR ''/''"
proof (rule conjI; rule notI)
  assume n: "n < 64"
  have v: "b64_value (b64_char n) = Some n" using n by (rule b64_value_char)
  show False if "b64_char n = CHR ''+''" using v unfolding that by (simp add: b64_value_def byte_def)
  show False if "b64_char n = CHR ''/''" using v unfolding that by (simp add: b64_value_def byte_def)
qed

lemma b64std_decode_encode: "b64std_decode (b64std_encode s) = Some s"
proof -
  have url: "CHR ''+'' \<notin> set (b64_encode s)" "CHR ''/'' \<notin> set (b64_encode s)"
    using b64_char_url sextets_less [of s] unfolding b64_encode_sextets list_all_iff set_map by (metis imageE)+
  then show ?thesis
    using std_swap [OF url] by (auto simp: b64std_decode_def b64std_encode_def b64_decode_encode)
qed

definition enrolled :: "authd_env \<Rightarrow> string \<Rightarrow> lib_credential \<Rightarrow> webauthn_credential" where
  "enrolled e label k = \<lparr>wc_id = b64_encode (lc_id k), wc_publicKey = b64std_encode (lc_publicKey k),
     wc_signCount = lc_signCount k, wc_addedAt = trunc_second (ae_now e), wc_label = label\<rparr>"

lemma enrolled_decodes:
  "enrolled e label k \<in> set (fu_credentials u) \<Longrightarrow>
     \<exists>j. j \<in> set (wu_credentials (webauthnUser u)) \<and> lc_id j = lc_id k \<and> lc_publicKey j = lc_publicKey k"
  unfolding webauthnUser_def WebAuthnCredentials_def map_filter_def
  by (force simp: enrolled_def b64_decode_encode b64std_decode_encode image_iff)

lemma count_in_found: "c \<in> set cs \<Longrightarrow> wc_id c = i \<Longrightarrow> \<exists>cs'. count_in i n cs = Some cs'"
  by (induction cs) auto

definition key_unknown :: "string \<Rightarrow> frame_user list \<Rightarrow> string \<Rightarrow> bool" where
  "key_unknown ns users i \<longleftrightarrow>
     \<not> list_ex (\<lambda>a. fu_namespace a = ns \<and> list_ex (\<lambda>c. wc_id c = i) (fu_credentials a)) users"

lemma register_result:
  assumes "sessionUserFor cfg e (aw_users w) r [PurposeSession, PurposeEnrol] = Some u"
    "hr_call r = RegisterFinish (Some b)" "hr_challenge r = Some s" "openSession cfg e s = Some x"
    "wl_parseCreation (sc_lib cfg) b = Some p" "wl_createCredential (sc_lib cfg) (webauthnUser u) (withoutUVRequirement x) p = Some k"
    "requiresUV cfg \<longrightarrow> lc_userVerified k" "ae_update e = None"
    "key_unknown (sc_namespace cfg) (aw_users w) (b64_encode (lc_id k))"
  shows "ServeHTTP cfg e w r = (w\<lparr>aw_users := put_user (u\<lparr>fu_credentials := fu_credentials u @ [enrolled e (hr_label r) k]\<rparr>) (aw_users w)\<rparr>,
    \<lparr>rs_status = 204, rs_cookies = [], rs_answer = NoBody\<rparr>)"
proof -
  have "\<not> list_ex (\<lambda>c. wc_id c = b64_encode (lc_id k)) (fu_credentials u)"
    using sessionUserFor_found [OF assms(1)] assms(9) by (auto simp: key_unknown_def list_ex_iff)
  then show ?thesis
    using assms(1-8) by (cases "requiresUV cfg") (simp_all add: ServeHTTP_def Let_def handleRegisterFinish_def FinishRegistration_def AddCredential_def status_update_def enrolled_def)
qed

text \<open>The account the new key finds afterwards.\<close>

lemma key_finds_account:
  assumes "u \<in> set users" "fu_namespace u = ns" "key_unknown ns users (b64_encode (lc_id k))" "ae_listing e n = None"
  shows "ByCredentialID e n ns (put_user (u\<lparr>fu_credentials := cs @ [enrolled e' l k]\<rparr>) users) (b64_encode (lc_id k))
    = Inr (u\<lparr>fu_credentials := cs @ [enrolled e' l k]\<rparr>)"
proof -
  let ?v = "u\<lparr>fu_credentials := cs @ [enrolled e' l k]\<rparr>" and ?P = "\<lambda>u. list_ex (\<lambda>c. wc_id c = b64_encode (lc_id k)) (fu_credentials u)"
  have "find ?P (filter (\<lambda>u. fu_namespace u = ns) (put_user ?v users)) = Some ?v"
  proof (rule find_unique)
    show "?v \<in> set (filter (\<lambda>u. fu_namespace u = ns) (put_user ?v users))"
      using new_in_put_user [OF assms(1), of ?v] assms(2) by simp
    show "?P ?v" by (simp add: enrolled_def)
    show "\<not> ?P x" if "x \<in> set (filter (\<lambda>u. fu_namespace u = ns) (put_user ?v users))" "x \<noteq> ?v" for x
      using that set_put_user [of x ?v users] assms(3) by (auto simp: key_unknown_def list_ex_iff)
  qed
  then show ?thesis using assms(4) by (simp add: ByCredentialID_def Store_list_def)
qed

lemma login_result:
  assumes "ByCredentialID e 0 (sc_namespace cfg) (aw_users w) (b64_encode i) = Inr v" "fu_state v \<noteq> StateDisabled"
    "hr_call r = LoginFinish (Some b)" "hr_challenge r = Some s" "openSession cfg e s = Some x"
    "wl_parseAssertion (sc_lib cfg) b = Some p" "wl_rawID (sc_lib cfg) p = i"
    "wl_validate (sc_lib cfg) (webauthnUser v) (withoutUVRequirement x) p = Some k" "lc_id k = i" "\<not> lc_cloneWarning k"
    "requiresUV cfg \<longrightarrow> lc_userVerified k" "ae_update e = None"
  shows "snd (ServeHTTP cfg e w r) = \<lparr>rs_status = 204, rs_cookies = [setSession cfg e v], rs_answer = NoBody\<rparr>"
proof -
  obtain cs where cs: "count_in (b64_encode i) (lc_signCount k) (fu_credentials v) = Some cs"
    using ByCredentialID_found [OF assms(1)] count_in_found by blast
  then have "recordLoginCounter e (aw_users w) v k = Inr (put_user (v\<lparr>fu_credentials := cs\<rparr>) (aw_users w))"
    using assms(9,10,12) by (simp add: recordLoginCounter_def UpdateSignCount_def status_update_def)
  then show ?thesis
    using assms by (cases "requiresUV cfg")
      (simp_all add: ServeHTTP_def Let_def handleLoginFinish_def FinishLogin_def requireIssuable_def)
qed

text \<open>
  A passkey enrolled by a successful registration signs its account in: when the same key later answers a
  login challenge, and the library verifies answers of a key it is given by ID and public key, the response
  is a session for that account. So what the store keeps of a key is enough to find and to verify it.
\<close>

theorem enrolled_key_signs_in:
  assumes "sessionUserFor cfg e1 (aw_users w) r1 [PurposeSession, PurposeEnrol] = Some u"
    "hr_call r1 = RegisterFinish (Some b1)" "hr_challenge r1 = Some s1" "openSession cfg e1 s1 = Some x1"
    "wl_parseCreation (sc_lib cfg) b1 = Some p1"
    "wl_createCredential (sc_lib cfg) (webauthnUser u) (withoutUVRequirement x1) p1 = Some k"
    "requiresUV cfg \<longrightarrow> lc_userVerified k" "ae_update e1 = None"
    "key_unknown (sc_namespace cfg) (aw_users w) (b64_encode (lc_id k))"
    and "hr_call r2 = LoginFinish (Some b2)" "hr_challenge r2 = Some s2" "openSession cfg e2 s2 = Some x2"
    "wl_parseAssertion (sc_lib cfg) b2 = Some p2" "wl_rawID (sc_lib cfg) p2 = lc_id k"
    "\<forall>a j. j \<in> set (wu_credentials a) \<and> lc_id j = lc_id k \<and> lc_publicKey j = lc_publicKey k \<longrightarrow>
       wl_validate (sc_lib cfg) a (withoutUVRequirement x2) p2 = Some k2"
    "lc_id k2 = lc_id k" "\<not> lc_cloneWarning k2" "requiresUV cfg \<longrightarrow> lc_userVerified k2"
    "ae_listing e2 0 = None" "ae_update e2 = None"
  shows "rs_status (snd (ServeHTTP cfg e1 w r1)) = 204
    \<and> snd (ServeHTTP cfg e2 (fst (ServeHTTP cfg e1 w r1)) r2)
        = \<lparr>rs_status = 204, rs_cookies = [setSession cfg e2 u], rs_answer = NoBody\<rparr>"
proof -
  let ?v = "u\<lparr>fu_credentials := fu_credentials u @ [enrolled e1 (hr_label r1) k]\<rparr>"
  have reg: "ServeHTTP cfg e1 w r1 = (w\<lparr>aw_users := put_user ?v (aw_users w)\<rparr>, \<lparr>rs_status = 204, rs_cookies = [], rs_answer = NoBody\<rparr>)"
    using register_result [OF assms(1-9)] .
  have u: "u \<in> set (aw_users w)" "fu_namespace u = sc_namespace cfg" "fu_state u \<noteq> StateDisabled"
    using sessionUserFor_found [OF assms(1)] by auto
  have finds: "ByCredentialID e2 0 (sc_namespace cfg) (aw_users (w\<lparr>aw_users := put_user ?v (aw_users w)\<rparr>)) (b64_encode (lc_id k)) = Inr ?v"
    using key_finds_account [OF u(1,2) assms(9,19)] by simp
  have "enrolled e1 (hr_label r1) k \<in> set (fu_credentials ?v)" by simp
  then have "wl_validate (sc_lib cfg) (webauthnUser ?v) (withoutUVRequirement x2) p2 = Some k2"
    using enrolled_decodes assms(15) by blast
  then have "snd (ServeHTTP cfg e2 (w\<lparr>aw_users := put_user ?v (aw_users w)\<rparr>) r2)
      = \<lparr>rs_status = 204, rs_cookies = [setSession cfg e2 ?v], rs_answer = NoBody\<rparr>"
    using login_result [OF finds _ assms(10-14) _ assms(16-18,20)] u(3) by simp
  then show ?thesis using reg by (simp add: setSession_def setSessionFor_def)
qed

section \<open>A concrete server\<close>

text \<open>A library whose keys are their own IDs, and a server over it with two accounts.\<close>

definition d_key :: "string \<Rightarrow> lib_credential" where
  "d_key i = \<lparr>lc_id = i, lc_publicKey = i, lc_signCount = 0, lc_cloneWarning = False, lc_userVerified = True\<rparr>"

definition d_lib :: webauthn_lib where
  "d_lib = \<lparr>wl_beginLogin = (\<lambda>uv. Some (''{}'', ''L'')), wl_beginRegistration = (\<lambda>a uv. Some (''{}'', ''R'')),
     wl_decodeSession = (\<lambda>s. Some \<lparr>sd_userVerification = '''', sd_rest = s\<rparr>), wl_parseCreation = Some,
     wl_createCredential = (\<lambda>a s p. Some (d_key p)), wl_parseAssertion = Some, wl_rawID = (\<lambda>p. p),
     wl_validate = (\<lambda>a s p. if list_ex (\<lambda>j. lc_id j = p \<and> lc_publicKey j = p) (wu_credentials a) then Some (d_key p) else None)\<rparr>"

definition d_cfg :: server_config where
  "d_cfg = NewServer \<lparr>sc_mac = (\<lambda>m. m), sc_bootstrapSecret = ''s3cret'', sc_bootstrapSecretName = ''frame-bootstrap'', sc_namespace = ''auth'',
     sc_tokenTTL = 900 * second, sc_sessionTTL = 0, sc_inviteTTL = 0, sc_consoleOrigin = ''https://lab'', sc_issuerURL = ''https://auth.lab'',
     sc_clientID = ''frame'', sc_uvMode = ''required'', sc_foldCase = (\<lambda>s. s), sc_toLower = (\<lambda>s. s),
     sc_sha256 = (\<lambda>s. replicate 32 CHR 0xA5), sc_lib = d_lib\<rparr>"

definition d_env :: "instant \<Rightarrow> authd_env" where
  "d_env t = \<lparr>ae_now = t, ae_listing = (\<lambda>k. None), ae_ctx = Inl ''service account'', ae_create = None, ae_update = None,
     ae_delete = None, ae_sign = None\<rparr>"

definition d_user :: "string \<Rightarrow> string \<Rightarrow> string list \<Rightarrow> frame_user" where
  "d_user name role keys = (w_user ''auth'' name role)\<lparr>fu_credentials := map (\<lambda>i. enrolled (d_env 0) i (d_key i)) keys\<rparr>"

definition d_world :: "string list \<Rightarrow> authd_world" where
  "d_world keys = \<lparr>aw_users = [d_user ''alice'' ''admin'' [''KA''], d_user ''bob'' ''operator'' keys], aw_secret = False\<rparr>"

definition d_cookie :: "purpose \<Rightarrow> string \<Rightarrow> duration \<Rightarrow> string" where
  "d_cookie p data ttl = Seal (\<lambda>m. m) 0 p data ttl"

definition d_request :: "call \<Rightarrow> string option \<Rightarrow> string option \<Rightarrow> request" where
  "d_request c session challenge = \<lparr>hr_call = c, hr_session = session, hr_challenge = challenge, hr_user = '''', hr_label = ''key''\<rparr>"

definition enrol_request :: "string \<Rightarrow> request" where
  "enrol_request k = d_request (RegisterFinish (Some k)) (Some (d_cookie PurposeEnrol ''bob@lab'' enrolSessionTTL))
     (Some (d_cookie PurposeChallenge ''R'' challengeTTL))"

definition login_request :: "string \<Rightarrow> request" where
  "login_request k = d_request (LoginFinish (Some k)) None (Some (d_cookie PurposeChallenge ''L'' challengeTTL))"

lemma d_separates: "separates (\<lambda>m. m) t"
  by (simp add: separates_def)

lemma d_opens:
  assumes "second \<le> ttl" "ttl \<le> 10 ^ 15" "t \<le> ttl - second"
  shows "Open (\<lambda>m. m) t p (d_cookie p data ttl) = Some data"
proof -
  have "t \<le> unix ttl * second" "0 \<le> unix ttl" "unix ttl < 2 ^ 63"
    using assms by (simp_all add: unix_def second_def)
  then show ?thesis using Open_in_time [of 0 ttl "\<lambda>m. m" t p data] by (simp add: d_cookie_def)
qed

lemma d_closed: "q \<noteq> p \<Longrightarrow> Open (\<lambda>m. m) t q (d_cookie p data ttl) = None"
  unfolding d_cookie_def by (rule Open_other_purpose [OF d_separates])

lemma b64_encode_inj: "b64_encode a = b64_encode b \<longleftrightarrow> a = b"
  by (metis b64_decode_encode option.inject)

lemma d_cfg_simps [simp]:
  "sc_mac d_cfg = (\<lambda>m. m)" "sc_namespace d_cfg = ''auth''" "sc_lib d_cfg = d_lib" "requiresUV d_cfg"
  "sc_bootstrapSecret d_cfg = ''s3cret''" "sc_foldCase d_cfg = (\<lambda>s. s)"
  by (simp_all add: d_cfg_def NewServer_def Let_def requiresUV_def UserVerificationRequired_def)

lemma d_challenge: "t \<le> 299 * second \<Longrightarrow> openSession d_cfg (d_env t) (d_cookie PurposeChallenge data challengeTTL)
    = Some \<lparr>sd_userVerification = '''', sd_rest = data\<rparr>"
  by (simp add: openSession_def d_env_def d_opens challengeTTL_def second_def d_lib_def)

lemma d_enroller:
  assumes "t \<le> 299 * second"
  shows "sessionUserFor d_cfg (d_env t) (aw_users (d_world keys)) (enrol_request k) [PurposeSession, PurposeEnrol]
    = Some (d_user ''bob'' ''operator'' keys)"
  using assms by (simp add: sessionUserFor_def enrol_request_def d_request_def d_env_def d_closed d_opens enrolSessionTTL_def second_def
    ByEmail_def Store_list_def d_world_def d_user_def w_user_def requireIssuable_def StateDisabled_def)

lemma d_unknown:
  "key_unknown ''auth'' (aw_users (d_world [])) (b64_encode ''K1'')" "key_unknown ''auth'' (aw_users (d_world [''K1''])) (b64_encode ''K2'')"
  by (simp_all add: key_unknown_def d_world_def d_user_def w_user_def enrolled_def d_key_def b64_encode_inj del: b64_encode.simps)

lemma d_lib_simps [simp]:
  "wl_parseCreation d_lib b = Some b" "wl_createCredential d_lib a s p = Some (d_key p)" "wl_parseAssertion d_lib b = Some b"
  "wl_rawID d_lib p = p" "lc_id (d_key p) = p" "lc_publicKey (d_key p) = p" "lc_userVerified (d_key p)" "\<not> lc_cloneWarning (d_key p)"
  by (simp_all add: d_lib_def d_key_def)

lemma d_validates:
  "j \<in> set (wu_credentials a) \<and> lc_id j = p \<and> lc_publicKey j = p \<Longrightarrow> wl_validate d_lib a s p = Some (d_key p)"
  by (auto simp: d_lib_def list_ex_iff)

lemma d_env_simps [simp]: "ae_update (d_env t) = None" "ae_listing (d_env t) k = None" "ae_now (d_env t) = t"
  by (simp_all add: d_env_def)

lemma d_request_simps [simp]:
  "hr_call (d_request c s h) = c" "hr_session (d_request c s h) = s" "hr_challenge (d_request c s h) = h"
  by (simp_all add: d_request_def)

theorem enrolled_key_signs_in_witness:
  "snd (ServeHTTP d_cfg (d_env 60) (fst (ServeHTTP d_cfg (d_env 0) (d_world []) (enrol_request ''K1''))) (login_request ''K1''))
     = \<lparr>rs_status = 204, rs_cookies = [setSession d_cfg (d_env 60) (d_user ''bob'' ''operator'' [])], rs_answer = NoBody\<rparr>"
proof -
  have t: "0 \<le> 299 * second" "60 \<le> 299 * second" by (simp_all add: second_def)
  show ?thesis
    using enrolled_key_signs_in [OF d_enroller [OF t(1), of "[]" "''K1''"], of "''K1''" _ _ "''K1''" "d_key ''K1''" "login_request ''K1''" "''K1''" _
      "d_env 60" _ "''K1''" "d_key ''K1''", OF _ _ d_challenge [OF t(1)] _ _ _ _ _ _ _ d_challenge [OF t(2)]] d_unknown(1) d_validates
    by (simp add: enrol_request_def login_request_def)
qed

text \<open>
  The enrolment cookie outlives the first key: with a cookie granted before, a second key is enrolled into
  an account that already holds one, at a time when the invitation itself is refused as spent, and the
  second key then signs in as the account.
\<close>

theorem enrol_cookie_adds_second_key:
  "rs_status (snd (ServeHTTP d_cfg (d_env 60) (d_world [''K1''])
       (d_request (InviteAccept (Some (d_cookie PurposeInvite ''bob@lab'' (24 * 3600 * second)))) None None))) = 410
   \<and> rs_status (snd (ServeHTTP d_cfg (d_env 60) (d_world [''K1'']) (enrol_request ''K2''))) = 204
   \<and> snd (ServeHTTP d_cfg (d_env 60) (fst (ServeHTTP d_cfg (d_env 60) (d_world [''K1'']) (enrol_request ''K2''))) (login_request ''K2''))
      = \<lparr>rs_status = 204, rs_cookies = [setSession d_cfg (d_env 60) (d_user ''bob'' ''operator'' [''K1''])], rs_answer = NoBody\<rparr>"
  (is "?spent \<and> ?second \<and> ?in")
proof -
  let ?u = "d_user ''bob'' ''operator'' [''K1'']"
  let ?v = "?u\<lparr>fu_credentials := fu_credentials ?u @ [enrolled (d_env 60) (hr_label (enrol_request ''K2'')) (d_key ''K2'')]\<rparr>"
  have t: "60 \<le> 299 * second" by (simp add: second_def)
  have spent: ?spent
    by (simp add: ServeHTTP_def handleInviteAccept_def d_opens second_def ByEmail_def Store_list_def d_world_def d_user_def w_user_def
      requireIssuable_def StateDisabled_def has_credential_def http_Error_def)
  have reg: "ServeHTTP d_cfg (d_env 60) (d_world [''K1'']) (enrol_request ''K2'')
      = ((d_world [''K1''])\<lparr>aw_users := put_user ?v (aw_users (d_world [''K1'']))\<rparr>, \<lparr>rs_status = 204, rs_cookies = [], rs_answer = NoBody\<rparr>)"
    using d_unknown(2) d_challenge [OF t] by (intro register_result [OF d_enroller [OF t]]) (simp_all add: enrol_request_def)
  have found: "?u \<in> set (aw_users (d_world [''K1'']))" "fu_namespace ?u = ''auth''" "fu_state ?v \<noteq> StateDisabled"
    by (simp_all add: d_world_def d_user_def w_user_def StateDisabled_def)
  have "enrolled (d_env 60) (hr_label (enrol_request ''K2'')) (d_key ''K2'') \<in> set (fu_credentials ?v)" by simp
  then have valid: "wl_validate d_lib (webauthnUser ?v) s ''K2'' = Some (d_key ''K2'')" for s
    using enrolled_decodes d_validates by (metis d_lib_simps(5,6))
  have "snd (ServeHTTP d_cfg (d_env 60) ((d_world [''K1''])\<lparr>aw_users := put_user ?v (aw_users (d_world [''K1'']))\<rparr>) (login_request ''K2''))
      = \<lparr>rs_status = 204, rs_cookies = [setSession d_cfg (d_env 60) ?v], rs_answer = NoBody\<rparr>"
    using key_finds_account [OF found(1,2), of "d_key ''K2''" "d_env 60" 0] d_unknown(2) found(3) valid d_challenge [OF t, of "''L''"]
    by (intro login_result [where i = "''K2''" and k = "d_key ''K2''"]) (simp_all add: login_request_def)
  then show ?thesis using spent reg by (simp add: setSession_def setSessionFor_def)
qed

theorem authd_run_keeps_accounts_witness:
  "\<exists>w'. authd_run d_cfg (d_world []) w' \<and> key_unknown ''auth'' (aw_users (d_world [])) ''SzE''
     \<and> \<not> key_unknown ''auth'' (aw_users w') ''SzE'' \<and> grown ''auth'' (aw_users (d_world [])) (aw_users w')"
proof -
  let ?w = "fst (ServeHTTP d_cfg (d_env 0) (d_world []) (enrol_request ''K1''))"
  have t: "0 \<le> 299 * second" by (simp add: second_def)
  have i: "b64_encode ''K1'' = ''SzE''" by code_simp
  have run: "authd_run d_cfg (d_world []) ?w" unfolding authd_run_def by (intro r_into_rtranclp) blast
  have ok: "accounts_ok (\<lambda>s. s) (aw_users (d_world []))"
    by (auto simp: accounts_ok_def mailbox_by_name_def d_world_def d_user_def w_user_def)
  have "?w = (d_world [])\<lparr>aw_users := put_user ((d_user ''bob'' ''operator'' [])\<lparr>fu_credentials := fu_credentials (d_user ''bob'' ''operator'' [])
      @ [enrolled (d_env 0) (hr_label (enrol_request ''K1'')) (d_key ''K1'')]\<rparr>) (aw_users (d_world []))\<rparr>"
    using register_result [OF d_enroller [OF t], where b = "''K1''" and p = "''K1''" and k = "d_key ''K1''"] d_challenge [OF t] d_unknown(1)
    by (simp add: enrol_request_def)
  then have "\<not> key_unknown ''auth'' (aw_users ?w) ''SzE''"
    by (simp add: key_unknown_def d_world_def put_user_def d_user_def w_user_def enrolled_def i del: b64_encode.simps)
  then show ?thesis
    using authd_run_keeps_accounts [OF run] run ok d_unknown(1) i by auto
qed

theorem enrol_cookie_only_enrols_witness:
  "ServeHTTP d_cfg (d_env 60) (d_world []) (d_request Token (Some (d_cookie PurposeEnrol ''bob@lab'' enrolSessionTTL)) None)
     = (d_world [], unauthorized)"
  using enrol_cookie_only_enrols [of "d_request Token (Some (d_cookie PurposeEnrol ''bob@lab'' enrolSessionTTL)) None" d_cfg 0 "''bob@lab''"
    "d_env 60" "d_world []"] d_separates
  by (simp add: d_cookie_def ServeHTTP_def handleToken_def)

theorem session_provenance_witness:
  "signed_in d_cfg (d_env 0) (d_world [''K1'']) (login_request ''K1'') ''bob@lab''"
proof -
  let ?u = "d_user ''bob'' ''operator'' [''K1'']" and ?w = "d_world [''K1'']"
  have t: "0 \<le> 299 * second" by (simp add: second_def)
  have "enrolled (d_env 0) ''K1'' (d_key ''K1'') \<in> set (fu_credentials ?u)" by (simp add: d_user_def)
  then have valid: "wl_validate d_lib (webauthnUser ?u) s ''K1'' = Some (d_key ''K1'')" for s
    using enrolled_decodes d_validates by (metis d_lib_simps(5,6))
  have found: "ByCredentialID (d_env 0) 0 ''auth'' (aw_users ?w) (b64_encode ''K1'') = Inr ?u"
    by (simp add: ByCredentialID_def Store_list_def d_world_def d_user_def w_user_def enrolled_def b64_encode_inj del: b64_encode.simps)
  have "snd (ServeHTTP d_cfg (d_env 0) ?w (login_request ''K1''))
      = \<lparr>rs_status = 204, rs_cookies = [setSession d_cfg (d_env 0) ?u], rs_answer = NoBody\<rparr>"
    using found valid d_challenge [OF t, of "''L''"]
    by (intro login_result [where i = "''K1''" and k = "d_key ''K1''" and v = ?u])
      (simp_all add: login_request_def d_user_def w_user_def StateDisabled_def)
  moreover have "setSession d_cfg (d_env 0) ?u = \<lparr>ck_name = sessionCookie, ck_value = d_cookie PurposeSession ''bob@lab'' (43200 * second),
      ck_path = ''/'', ck_maxAge = 43200\<rparr>"
    by (simp add: setSession_def setSessionFor_def d_cfg_def NewServer_def Let_def d_cookie_def d_user_def w_user_def second_def quot_def)
  moreover have "Open (\<lambda>m. m) 0 PurposeSession (d_cookie PurposeSession ''bob@lab'' (43200 * second)) = Some ''bob@lab''"
    by (simp add: d_opens second_def)
  ultimately show ?thesis
    using session_provenance [of "setSession d_cfg (d_env 0) ?u" d_cfg "d_env 0" ?w "login_request ''K1''" 0 "''bob@lab''"] d_separates
    by (simp add: bootstrapped_def login_request_def)
qed

end
