(* ===== verification/Go_Net.thy ===== *)
theory Go_Net
  imports Go_Text
begin

text \<open>
  IP addresses as Go's \<open>net\<close> package reads and prints them: \<open>ParseIP\<close>, \<open>ParseCIDR\<close>, \<open>IP.To4\<close>,
  \<open>IPNet.Contains\<close> and \<open>JoinHostPort\<close>. An address is its bytes, 4 or 16 of them.
\<close>

section \<open>Splitting\<close>

text \<open>\<open>strings.Split\<close> at one character.\<close>

fun split_char :: "char \<Rightarrow> string \<Rightarrow> string list" where
  "split_char d [] = [[]]"
| "split_char d (c # s) =
     (if c = d then [] # split_char d s
      else case split_char d s of [] \<Rightarrow> [[c]] | f # fs \<Rightarrow> (c # f) # fs)"

lemma split_char_none: "d \<notin> set s \<Longrightarrow> split_char d s = [s]"
  by (induction s) auto

lemma split_char_join: "d \<notin> set s \<Longrightarrow> split_char d (s @ d # t) = s # split_char d t"
  by (induction s) auto

section \<open>Addresses\<close>

definition octet :: "string \<Rightarrow> nat option" where
  "octet f =
     (case parse_digits f of
        None \<Rightarrow> None
      | Some n \<Rightarrow> if (length f = 1 \<or> hd f \<noteq> CHR ''0'') \<and> n \<le> 255 then Some n else None)"

definition parseIPv4 :: "string \<Rightarrow> nat list option" where
  "parseIPv4 s =
     (case map octet (split_char (CHR ''.'') s) of
        [Some a, Some b, Some c, Some d] \<Rightarrow> Some [a, b, c, d]
      | _ \<Rightarrow> None)"

definition hex_val :: "char \<Rightarrow> nat option" where
  "hex_val c =
     (let b = byte c in
      if 48 \<le> b \<and> b \<le> 57 then Some (b - 48) else if 97 \<le> b \<and> b \<le> 102 then Some (b - 87)
      else if 65 \<le> b \<and> b \<le> 70 then Some (b - 55) else None)"

text \<open>At most four hexadecimal digits: how many, their value, and the rest; a fifth is an error.\<close>

fun hex_run :: "nat \<Rightarrow> nat \<Rightarrow> string \<Rightarrow> (nat \<times> nat \<times> string) option" where
  "hex_run off acc [] = Some (off, acc, [])"
| "hex_run off acc (c # s) =
     (case hex_val c of
        None \<Rightarrow> Some (off, acc, c # s)
      | Some v \<Rightarrow> if off > 3 then None else hex_run (Suc off) (acc * 16 + v) s)"

text \<open>The fields of an IPv6 address, with the place of the ellipsis; the first argument counts the fields left.\<close>

fun v6_fields :: "nat \<Rightarrow> nat list \<Rightarrow> nat option \<Rightarrow> string \<Rightarrow> (nat list \<times> nat option) option" where
  "v6_fields 0 bs ell s = (if s = [] then Some (bs, ell) else None)"
| "v6_fields (Suc n) bs ell s =
     (case hex_run 0 0 s of
        None \<Rightarrow> None
      | Some (off, acc, rest) \<Rightarrow>
          if off = 0 then None
          else if rest \<noteq> [] \<and> hd rest = CHR ''.'' then
            (if ell = None \<and> length bs \<noteq> 12 then None
             else if length bs + 4 > 16 then None
             else map_option (\<lambda>q. (bs @ q, ell)) (parseIPv4 s))
          else
            (let bs' = bs @ [acc div 256, acc mod 256] in
             if rest = [] then Some (bs', ell)
             else if hd rest \<noteq> CHR '':'' \<or> length rest = 1 then None
             else if hd (tl rest) = CHR '':'' then
               (if ell \<noteq> None then None
                else if tl (tl rest) = [] then Some (bs', Some (length bs'))
                else v6_fields n bs' (Some (length bs')) (tl (tl rest)))
             else v6_fields n bs' ell (tl rest)))"

definition v6_expand :: "nat list \<times> nat option \<Rightarrow> nat list option" where
  "v6_expand be =
     (let (bs, ell) = be in
      if length bs < 16 then
        (case ell of None \<Rightarrow> None | Some i \<Rightarrow> Some (take i bs @ replicate (16 - length bs) 0 @ drop i bs))
      else if ell \<noteq> None then None else Some bs)"

definition parseIPv6 :: "string \<Rightarrow> nat list option" where
  "parseIPv6 s =
     (if has_prefix s ''::'' then
        (if length s = 2 then Some (replicate 16 0)
         else Option.bind (v6_fields 8 [] (Some 0) (drop 2 s)) v6_expand)
      else Option.bind (v6_fields 8 [] None s) v6_expand)"

text \<open>An address with a zone is refused by both callers.\<close>

definition ParseAddr :: "string \<Rightarrow> nat list option" where
  "ParseAddr s =
     (if CHR ''%'' \<in> set s then None
      else case find (\<lambda>c. c = CHR ''.'' \<or> c = CHR '':'') s of
        None \<Rightarrow> None
      | Some c \<Rightarrow> if c = CHR ''.'' then parseIPv4 s else parseIPv6 s)"

definition As16 :: "nat list \<Rightarrow> nat list" where
  "As16 a = (if length a = 4 then replicate 10 0 @ [255, 255] @ a else a)"

definition ParseIP :: "string \<Rightarrow> nat list option" where
  "ParseIP s = map_option As16 (ParseAddr s)"

definition To4 :: "nat list \<Rightarrow> nat list option" where
  "To4 a =
     (if length a = 4 then Some a
      else if length a = 16 \<and> take 10 a = replicate 10 0 \<and> a ! 10 = 255 \<and> a ! 11 = 255 then Some (drop 12 a)
      else None)"

section \<open>Networks\<close>

record ip_net =
  in_ip :: "nat list"
  in_mask :: "nat list"
  in_ones :: nat

definition CIDRMask :: "nat \<Rightarrow> nat \<Rightarrow> nat list" where
  "CIDRMask ones bytes = map (\<lambda>i. if 8 * i + 8 \<le> ones then 255 else if ones \<le> 8 * i then 0 else 256 - 2 ^ (8 * i + 8 - ones)) [0..<bytes]"

text \<open>A byte under a byte of a prefix mask: \<open>256 - 2^k\<close> clears the low \<open>k\<close> bits.\<close>

definition masked :: "nat \<Rightarrow> nat \<Rightarrow> nat" where
  "masked b m = b div (256 - m) * (256 - m)"

definition mask_bytes :: "nat list \<Rightarrow> nat list \<Rightarrow> nat list" where
  "mask_bytes a m = map2 masked a m"

definition ParseCIDR :: "string \<Rightarrow> (nat list \<times> ip_net) option" where
  "ParseCIDR s =
     (let a = takeWhile (\<lambda>c. c \<noteq> CHR ''/'') s; m = drop (Suc (length a)) s in
      if a = s then None
      else case ParseAddr a of
        None \<Rightarrow> None
      | Some b \<Rightarrow>
          (case parse_digits m of
             None \<Rightarrow> None
           | Some n \<Rightarrow>
               if n > 8 * length b then None
               else Some (As16 b, \<lparr>in_ip = mask_bytes b (CIDRMask n (length b)), in_mask = CIDRMask n (length b), in_ones = n\<rparr>)))"

definition Contains :: "ip_net \<Rightarrow> nat list \<Rightarrow> bool" where
  "Contains n ip =
     (let nn = (case To4 (in_ip n) of Some q \<Rightarrow> q | None \<Rightarrow> in_ip n);
          m = (if length nn = 4 \<and> length (in_mask n) = 16 then drop 12 (in_mask n) else in_mask n);
          x = (case To4 ip of Some q \<Rightarrow> q | None \<Rightarrow> ip)
      in length x = length nn \<and> mask_bytes nn m = mask_bytes x m)"

definition ip4_str :: "nat list \<Rightarrow> string" where
  "ip4_str a = join_with ''.'' (map nat_str a)"

text \<open>\<open>JoinHostPort\<close> brackets a host with a colon.\<close>

definition JoinHostPort :: "string \<Rightarrow> string \<Rightarrow> string" where
  "JoinHostPort host port = (if CHR '':'' \<in> set host then ''['' @ host @ '']:'' @ port else host @ '':'' @ port)"

section \<open>Printing IPv6\<close>

fun hex_str :: "nat \<Rightarrow> string" where
  "hex_str n = (if n < 16 then [''0123456789abcdef'' ! n] else hex_str (n div 16) @ [''0123456789abcdef'' ! (n mod 16)])"

declare hex_str.simps [simp del]

fun groups16 :: "nat list \<Rightarrow> nat list" where
  "groups16 (a # b # r) = (a * 256 + b) # groups16 r"
| "groups16 _ = []"

definition zero_run :: "nat list \<Rightarrow> nat \<Rightarrow> nat" where
  "zero_run gs i = length (takeWhile (\<lambda>g. g = 0) (drop i gs))"

text \<open>The first of the longest runs of at least two zero groups.\<close>

definition longest_zeros :: "nat list \<Rightarrow> (nat \<times> nat) option" where
  "longest_zeros gs =
     foldl (\<lambda>best i. let l = zero_run gs i in
        if l \<ge> 2 \<and> (case best of None \<Rightarrow> True | Some (a, n) \<Rightarrow> l > n) then Some (i, l) else best) None [0..<length gs]"

definition ip6_str :: "nat list \<Rightarrow> string" where
  "ip6_str a =
     (let gs = groups16 a; part = (\<lambda>xs. join_with '':'' (map hex_str xs)) in
      case longest_zeros gs of
        None \<Rightarrow> part gs
      | Some (i, l) \<Rightarrow> part (take i gs) @ ''::'' @ part (drop (i + l) gs))"

definition IP_String :: "nat list \<Rightarrow> string" where
  "IP_String a = (case To4 a of Some q \<Rightarrow> ip4_str q | None \<Rightarrow> ip6_str a)"

definition IPNet_String :: "ip_net \<Rightarrow> string" where
  "IPNet_String n =
     (case To4 (in_ip n) of
        Some q \<Rightarrow> ip4_str q @ ''/'' @ nat_str (if length (in_mask n) = 16 then in_ones n - 96 else in_ones n)
      | None \<Rightarrow> ip6_str (in_ip n) @ ''/'' @ nat_str (in_ones n))"

section \<open>What an accepted address is made of\<close>

definition addr_char :: "char \<Rightarrow> bool" where
  "addr_char c \<longleftrightarrow> hex_val c \<noteq> None \<or> c = CHR ''.'' \<or> c = CHR '':''"

lemma digit_hex: "is_digit c \<Longrightarrow> hex_val c \<noteq> None"
  by (simp add: is_digit_def hex_val_def Let_def)

lemma digits_val_digits: "digits_val acc s = Some n \<Longrightarrow> list_all is_digit s"
  by (induction acc s rule: digits_val.induct) (auto split: if_splits)

lemma octet_digits: "octet f = Some n \<Longrightarrow> list_all is_digit f"
  by (auto simp: octet_def parse_digits_def digits_val_digits split: option.splits if_splits)

lemma split_char_chars: "list_all (list_all P) (split_char d s) \<Longrightarrow> list_all (\<lambda>c. P c \<or> c = d) s"
  by (induction s) (auto split: list.splits if_splits)

lemma parseIPv4_chars:
  assumes "parseIPv4 s = Some b"
  shows "list_all addr_char s" "length b = 4" "list_all (\<lambda>n. n \<le> 255) b"
proof -
  obtain x1 x2 x3 x4 where m: "map octet (split_char (CHR ''.'') s) = [Some x1, Some x2, Some x3, Some x4]" "b = [x1, x2, x3, x4]"
    using assms by (auto simp: parseIPv4_def split: list.splits option.splits)
  then obtain f1 f2 f3 f4 where f: "split_char (CHR ''.'') s = [f1, f2, f3, f4]"
    "octet f1 = Some x1" "octet f2 = Some x2" "octet f3 = Some x3" "octet f4 = Some x4"
    by (auto simp: map_eq_Cons_conv)
  then have "list_all (\<lambda>c. is_digit c \<or> c = CHR ''.'') s"
    using octet_digits by (intro split_char_chars) auto
  then show "list_all addr_char s" by (rule list.pred_mono_strong) (auto simp: addr_char_def dest: digit_hex)
  show "length b = 4" "list_all (\<lambda>n. n \<le> 255) b"
    using m(2) f(2-5) by (auto simp: octet_def split: option.splits if_splits)
qed

lemma hex_run_chars: "hex_run off acc s = Some (n, v, r) \<Longrightarrow> \<exists>p. s = p @ r \<and> list_all addr_char p"
proof (induction off acc s rule: hex_run.induct)
  case (2 off acc c s)
  show ?case
  proof (cases "hex_val c")
    case None
    then show ?thesis using 2 by auto
  next
    case (Some x)
    with 2 obtain p where "s = p @ r" "list_all addr_char p" by (auto split: if_splits)
    moreover have "addr_char c" using Some by (simp add: addr_char_def)
    ultimately show ?thesis by (intro exI [of _ "c # p"]) simp
  qed
qed simp

lemma v6_fields_chars: "v6_fields n bs ell s = Some res \<Longrightarrow> list_all addr_char s"
proof (induction n bs ell s rule: v6_fields.induct)
  case (2 n bs ell s)
  obtain off acc rest where h: "hex_run 0 0 s = Some (off, acc, rest)" "off \<noteq> 0"
    using "2.prems" by (auto split: option.splits if_splits)
  obtain p where p: "s = p @ rest" "list_all addr_char p" using hex_run_chars [OF h(1)] by blast
  have colon: "addr_char (CHR '':'')" by (simp add: addr_char_def)
  consider "rest = []" | r where "rest = CHR ''.'' # r" | r d where "rest = CHR '':'' # d # r"
    using "2.prems" h by (cases rest; cases "tl rest") (auto simp: Let_def split: if_splits)
  then show ?case
  proof cases
    case 1
    then show ?thesis using p by simp
  next
    case 2
    then show ?thesis using "2.prems" h parseIPv4_chars(1) by (auto split: if_splits)
  next
    case (3 r d)
    show ?thesis
    proof (cases "d = CHR '':''")
      case True
      have "list_all addr_char r"
        using "2.prems" h 3 True "2.IH"(1) [OF h(1) refl refl h(2)] by (cases "r = []") (auto simp: Let_def split: if_splits)
      then show ?thesis using p 3 True colon by simp
    next
      case False
      have "list_all addr_char (d # r)"
        using "2.prems" h 3 False "2.IH"(2) [OF h(1) refl refl h(2)] by (auto simp: Let_def split: if_splits)
      then show ?thesis using p 3 colon by simp
    qed
  qed
qed (simp split: if_splits)

lemma ParseAddr_chars: "ParseAddr s = Some b \<Longrightarrow> list_all addr_char s"
proof -
  assume a: "ParseAddr s = Some b"
  have "list_all addr_char s" if "parseIPv6 s = Some b"
  proof (cases "has_prefix s ''::''")
    case True
    then have s: "''::'' @ drop 2 s = s" using has_prefixD [OF True] by (metis One_nat_def Suc_1 length_Cons list.size(3))
    have "list_all addr_char (drop 2 s)"
      using that True v6_fields_chars by (cases "length s = 2") (auto simp: parseIPv6_def bind_eq_Some_conv)
    moreover have "addr_char (CHR '':'')" by (simp add: addr_char_def)
    ultimately have "list_all addr_char (''::'' @ drop 2 s)" by simp
    then show ?thesis unfolding s .
  next
    case False
    then show ?thesis using that v6_fields_chars by (auto simp: parseIPv6_def bind_eq_Some_conv)
  qed
  then show ?thesis using a parseIPv4_chars(1) by (auto simp: ParseAddr_def split: option.splits if_splits)
qed

section \<open>Printing an IPv4 address and reading it back\<close>

lemma nat_str_digits: "list_all is_digit (nat_str n)"
  using digits_val_digits [OF digits_val_nat_str] .

lemma nat_str_no: "\<not> is_digit c \<Longrightarrow> c \<notin> set (nat_str n)"
  using nat_str_digits [of n] by (auto simp: list_all_iff)

lemma nat_str_hd: "n \<noteq> 0 \<Longrightarrow> hd (nat_str n) \<noteq> CHR ''0''"
proof (induction n rule: nat_str.induct)
  case (1 n)
  show ?case
  proof (cases "n < 10")
    case True
    then have "byte (digit_char n) \<noteq> byte (CHR ''0'')" using 1 by (simp add: byte_digit_char byte_def [of "CHR ''0''"])
    then show ?thesis using True by (subst nat_str.simps) auto
  next
    case False
    then show ?thesis using 1 by (subst nat_str.simps) (simp add: hd_append)
  qed
qed

lemma octet_nat_str:
  assumes "n \<le> 255"
  shows "octet (nat_str n) = Some n"
proof -
  have "length (nat_str n) = 1 \<or> hd (nat_str n) \<noteq> CHR ''0''"
    using nat_str_hd [of n] by (cases "n = 0") (auto simp: nat_str.simps [of 0])
  then show ?thesis using assms by (simp add: octet_def parse_digits_def digits_val_nat_str)
qed

lemma find_first: "P y \<Longrightarrow> \<forall>x \<in> set xs. \<not> P x \<Longrightarrow> find P (xs @ y # r) = Some y"
  by (induction xs) auto

lemma ParseAddr_ip4_str:
  assumes "length q = 4" "list_all (\<lambda>n. n \<le> 255) q"
  shows "ParseAddr (ip4_str q) = Some q" and "CHR ''/'' \<notin> set (ip4_str q)"
proof -
  obtain a b c d where q: "q = [a, b, c, d]" using assms(1) by (auto simp: numeral_eq_Suc length_Suc_conv)
  have str: "ip4_str q = nat_str a @ CHR ''.'' # nat_str b @ CHR ''.'' # nat_str c @ CHR ''.'' # nat_str d"
    by (simp add: q ip4_str_def)
  have nd: "\<not> is_digit (CHR ''.'')" "\<not> is_digit (CHR '':'')" "\<not> is_digit (CHR ''%'')" "\<not> is_digit (CHR ''/'')"
    by (simp_all add: is_digit_def byte_def)
  note no = nd [THEN nat_str_no]
  have "split_char (CHR ''.'') (ip4_str q) = [nat_str a, nat_str b, nat_str c, nat_str d]"
    unfolding str using no by (simp add: split_char_join split_char_none)
  then have "parseIPv4 (ip4_str q) = Some q" using assms(2) by (simp add: parseIPv4_def octet_nat_str q)
  moreover have "find (\<lambda>c. c = CHR ''.'' \<or> c = CHR '':'') (nat_str a @ CHR ''.'' # r) = Some (CHR ''.'')" for r
    using no(1,2) [of a] by (intro find_first) auto
  moreover have "CHR ''%'' \<notin> set (ip4_str q)" unfolding str using no(3) by simp
  ultimately show "ParseAddr (ip4_str q) = Some q" unfolding ParseAddr_def by (simp add: str)
  show "CHR ''/'' \<notin> set (ip4_str q)" unfolding str using no(4) by simp
qed

lemma ParseCIDR_IPv4:
  assumes "length q = 4" "list_all (\<lambda>n. n \<le> 255) q" "n \<le> 32"
  shows "ParseCIDR (ip4_str q @ ''/'' @ nat_str n) =
    Some (As16 q, \<lparr>in_ip = mask_bytes q (CIDRMask n 4), in_mask = CIDRMask n 4, in_ones = n\<rparr>)"
proof -
  have t: "takeWhile (\<lambda>c. c \<noteq> CHR ''/'') (ip4_str q @ ''/'' @ nat_str n) = ip4_str q"
    using ParseAddr_ip4_str(2) [OF assms(1,2)] by (subst takeWhile_append2) auto
  show ?thesis
    unfolding ParseCIDR_def t using assms ParseAddr_ip4_str(1) [OF assms(1,2)]
    by (simp add: Let_def parse_digits_def digits_val_nat_str)
qed

end
