(* ===== verification/Provision_Spec.thy ===== *)
theory Provision_Spec
  imports Go_Net Sealed_Token
begin

text \<open>
  The specification of an installation and the document an installer image carries: \<open>types.go\<close>,
  \<open>autoinstall.go\<close>, \<open>layout.go\<close>, \<open>beacon.go\<close> and the shape checks of \<open>join.go\<close> under \<open>internal/provision\<close>.

  Reading an authorized key (\<open>golang.org/x/crypto/ssh\<close>), rendering YAML (\<open>gopkg.in/yaml.v3\<close>) and \<open>url.Parse\<close>
  are arguments. A map of the storage section is the list of its entries.
\<close>

section \<open>Data\<close>

record pv_network =
  pn_address :: string
  pn_gateway :: string
  pn_dns :: "string list"

record pv_disk =
  pd_byID :: string
  pd_sizeBytes :: int

record pv_layout =
  pl_kind :: string
  pl_disks :: "pv_disk list"

record pv_cluster =
  pc_mode :: string
  pc_serverURL :: string
  pc_joinToken :: string
  pc_k3sVersion :: string

record pv_spec =
  ps_uid :: string
  ps_hostname :: string
  ps_network :: pv_network
  ps_layout :: pv_layout
  ps_sshPublicKey :: string
  ps_cluster :: pv_cluster
  ps_bootMode :: string

definition LayoutSingleDisk :: string where "LayoutSingleDisk = ''single-disk''"
definition LayoutMirror :: string where "LayoutMirror = ''mirror''"
definition ClusterInit :: string where "ClusterInit = ''init''"
definition ClusterJoin :: string where "ClusterJoin = ''join''"
definition bootUEFI :: string where "bootUEFI = ''UEFI''"
definition bootLegacy :: string where "bootLegacy = ''Legacy''"

abbreviation sq :: string where "sq \<equiv> [CHR 0x27]"
abbreviation dq :: string where "dq \<equiv> [CHR 0x22]"
abbreviation bsl :: string where "bsl \<equiv> [CHR 0x5C]"

section \<open>Shapes\<close>

definition alnum :: "char \<Rightarrow> bool" where
  "alnum c = (let b = byte c in 48 \<le> b \<and> b \<le> 57 \<or> 65 \<le> b \<and> b \<le> 90 \<or> 97 \<le> b \<and> b \<le> 122)"

definition lower_alnum :: "char \<Rightarrow> bool" where
  "lower_alnum c = (let b = byte c in 48 \<le> b \<and> b \<le> 57 \<or> 97 \<le> b \<and> b \<le> 122)"

definition hostnameShape :: "string \<Rightarrow> bool" where
  "hostnameShape s \<longleftrightarrow> s \<noteq> [] \<and> length s \<le> 63 \<and> lower_alnum (hd s) \<and> lower_alnum (last s)
     \<and> list_all (\<lambda>c. lower_alnum c \<or> c = CHR ''-'') s"

definition uidShape :: "string \<Rightarrow> bool" where
  "uidShape s \<longleftrightarrow> s \<noteq> [] \<and> length s \<le> 64 \<and> list_all (\<lambda>c. alnum c \<or> c = CHR ''-'') s"

definition byIDName :: "string \<Rightarrow> bool" where
  "byIDName s \<longleftrightarrow> has_prefix s ''/dev/disk/by-id/'' \<and> length s > 16
     \<and> list_all (\<lambda>c. alnum c \<or> c \<in> set ''_.:+-'') (drop 16 s)"

definition beaconToken :: "string \<Rightarrow> bool" where
  "beaconToken s \<longleftrightarrow> length s = 32 \<and> list_all (\<lambda>c. is_digit c \<or> 97 \<le> byte c \<and> byte c \<le> 102) s"

definition checkShellValue :: "string \<Rightarrow> string \<Rightarrow> string option" where
  "checkShellValue field v =
     (if list_ex (\<lambda>c. byte c = 10 \<or> byte c = 13) v then Some (field @ '': must not contain a newline'')
      else if list_ex (\<lambda>c. c = CHR 0x27 \<or> c = CHR 0x5C) v then
        Some (field @ '': must not contain a quote or a backslash; this value is interpolated into a shell command in the installer'')
      else if list_ex (\<lambda>c. byte c < 32 \<or> byte c = 127) v then Some (field @ '': must not contain control characters'')
      else None)"

fun validate_disks :: "string list \<Rightarrow> pv_disk list \<Rightarrow> string option" where
  "validate_disks seen [] = None"
| "validate_disks seen (d # ds) =
     (case checkShellValue ''disk by-id'' (pd_byID d) of
        Some e \<Rightarrow> Some e
      | None \<Rightarrow>
          if \<not> byIDName (pd_byID d) then
            Some (''disk '' @ quoted (pd_byID d) @ '': must be a /dev/disk/by-id path with no subdirectories'')
          else if pd_sizeBytes d \<le> 0 then
            Some (''disk '' @ quoted (pd_byID d) @ '': size must be known, so the installer can refuse the wrong disk'')
          else if pd_byID d \<in> set seen then
            Some (''disk '' @ quoted (pd_byID d) @ '': named twice in the same layout; a mirror needs two different disks'')
          else validate_disks (pd_byID d # seen) ds)"

definition validateDisks :: "pv_disk list \<Rightarrow> string option" where
  "validateDisks disks = validate_disks [] disks"

text \<open>\<open>parse_key\<close> gives the comment and the options of an authorized key line.\<close>

type_synonym key_parser = "string \<Rightarrow> string + (string \<times> string list)"

definition checkPublicKeyOnly :: "key_parser \<Rightarrow> string \<Rightarrow> string option" where
  "checkPublicKeyOnly parse_key key =
     (let k = trim_space key; n = length (runes k) in
      if n = 0 \<or> n > 1024 then Some (''ssh key: must be between 1 and 1024 characters, got '' @ nat_str n)
      else if contains k ''PRIVATE KEY'' then
        Some ''ssh key: this is private key material, which must never enter an installer image''
      else if list_ex (\<lambda>c. byte c = 10 \<or> byte c = 13) k then
        Some ''ssh key: must be one key on one line; a second line is a second key''
      else case parse_key k of
        Inl e \<Rightarrow> Some (''ssh key: not a usable authorized_keys line: '' @ e)
      | Inr (comment, options) \<Rightarrow>
          if options \<noteq> [] then
            Some (''ssh key: carries authorized_keys options ('' @ quoted (join_with '','' options) @ ''); this value must be a bare key'')
          else case parse_key (trim_space comment) of
            Inr _ \<Rightarrow> Some ''ssh key: more than one key in this value; the second is hidden in the first one's comment field''
          | Inl _ \<Rightarrow> None)"

section \<open>Validation\<close>

definition layout_want :: "string \<Rightarrow> nat" where
  "layout_want kind = (if kind = LayoutSingleDisk then 1 else if kind = LayoutMirror then 2 else 0)"

text \<open>The result is the address as the document writes it.\<close>

definition check_network :: "pv_network \<Rightarrow> string + string" where
  "check_network n =
     (case ParseCIDR (pn_address n) of
        None \<Rightarrow> Inl (''network address '' @ quoted (pn_address n) @ '': invalid CIDR address: '' @ pn_address n)
      | Some (addr, ipnet) \<Rightarrow>
          (case To4 addr of
             None \<Rightarrow> Inl (''network address '' @ quoted (pn_address n) @ '': must be IPv4'')
           | Some _ \<Rightarrow>
               (case ParseIP (pn_gateway n) of
                  None \<Rightarrow> Inl (''network gateway '' @ quoted (pn_gateway n) @ '' is not an IP address'')
                | Some gw \<Rightarrow>
                    if gw = addr then Inl (''network gateway '' @ quoted (pn_gateway n) @ '' is the machine's own address'')
                    else if \<not> Contains ipnet gw then
                      Inl (''network gateway '' @ quoted (pn_gateway n) @ '' is outside '' @ IPNet_String ipnet @ '', the subnet of the machine's address'')
                    else if pn_dns n = [] then Inl ''network DNS: at least one resolver is required''
                    else case find (\<lambda>d. ParseIP d = None) (pn_dns n) of
                      Some d \<Rightarrow> Inl (''network DNS '' @ quoted d @ '' is not an IP address'')
                    | None \<Rightarrow> Inr (IP_String addr @ ''/'' @ nat_str (in_ones ipnet)))))"

definition check_layout :: "pv_layout \<Rightarrow> string option" where
  "check_layout l =
     (let want = layout_want (pl_kind l) in
      if want = 0 then Some (''layout '' @ quoted (pl_kind l) @ '': unknown kind'')
      else if length (pl_disks l) \<noteq> want then
        Some (''layout '' @ pl_kind l @ '': needs exactly '' @ nat_str want @ '' disks, got '' @ nat_str (length (pl_disks l)))
      else validateDisks (pl_disks l))"

definition validate :: "key_parser \<Rightarrow> pv_spec \<Rightarrow> string + string" where
  "validate parse_key s =
     (if \<not> uidShape (ps_uid s) then
        Inl (''spec: UID '' @ quoted (ps_uid s) @ '' must be 1-64 letters, digits or dashes; without it the installed system could not be told apart from any other machine at that address'')
      else if \<not> hostnameShape (ps_hostname s) then
        Inl (''spec: hostname '' @ quoted (ps_hostname s) @ '' must be a lowercase RFC 1123 label (letters, digits, dashes, 1-63 characters); it becomes the node name'')
      else if ps_bootMode s \<noteq> bootUEFI \<and> ps_bootMode s \<noteq> bootLegacy then
        Inl (''spec: boot mode '' @ quoted (ps_bootMode s) @ '' must be exactly '' @ quoted bootUEFI @ '' or '' @ quoted bootLegacy @ ''; the disk layout differs between the two'')
      else case checkPublicKeyOnly parse_key (ps_sshPublicKey s) of
        Some e \<Rightarrow> Inl e
      | None \<Rightarrow>
          (case check_network (ps_network s) of
             Inl e \<Rightarrow> Inl e
           | Inr cidr \<Rightarrow> (case check_layout (ps_layout s) of Some e \<Rightarrow> Inl e | None \<Rightarrow> Inr cidr)))"

definition ValidateSpec :: "key_parser \<Rightarrow> pv_spec \<Rightarrow> string option" where
  "ValidateSpec parse_key s = (case validate parse_key s of Inl e \<Rightarrow> Some e | Inr _ \<Rightarrow> None)"

end
