(* ===== verification/Provision_Render.thy ===== *)
theory Provision_Render
  imports Provision_Spec
begin

text \<open>
  The autoinstall document and the commands it carries: \<open>RenderAutoinstall\<close> and its helpers in
  \<open>internal/provision/autoinstall.go\<close>, \<open>layout.go\<close> and \<open>beacon.go\<close>.
\<close>

section \<open>Beacons\<close>

definition CheckpointEarly :: string where "CheckpointEarly = ''early''"
definition CheckpointLate :: string where "CheckpointLate = ''late''"
definition CheckpointFailed :: string where "CheckpointFailed = ''failed''"

definition ValidCheckpoint :: "string \<Rightarrow> bool" where
  "ValidCheckpoint s \<longleftrightarrow> s = CheckpointEarly \<or> s = CheckpointLate \<or> s = CheckpointFailed"

definition ValidateBeaconBase :: "string \<Rightarrow> string option" where
  "ValidateBeaconBase base = (if trim_space base = '''' then None else checkShellValue ''beacon base URL'' base)"

definition trim_slash :: "string \<Rightarrow> string" where
  "trim_slash s = (if s \<noteq> [] \<and> last s = CHR ''/'' then butlast s else s)"

definition BeaconURL :: "string \<Rightarrow> string \<Rightarrow> string \<Rightarrow> string" where
  "BeaconURL base token checkpoint = trim_slash base @ ''/beacon/'' @ token @ ''/'' @ checkpoint"

definition BeaconSend :: "string \<Rightarrow> string \<Rightarrow> string \<Rightarrow> string" where
  "BeaconSend base token checkpoint =
     (if trim_space base = '''' then ''''
      else ''wget -q -T 5 -O /dev/null '' @ sq @ BeaconURL base token checkpoint @ sq @ '' || true'')"

definition BeaconHeartbeat :: "string \<Rightarrow> string \<Rightarrow> string \<Rightarrow> string" where
  "BeaconHeartbeat base token checkpoint =
     (if trim_space base = '''' then ''''
      else ''(while true; do '' @ BeaconSend base token checkpoint @ ''; sleep 15; done) </dev/null >/dev/null 2>&1 &'')"

section \<open>Disks\<close>

definition diskPlaceholders :: "string list" where
  "diskPlaceholders = [''/dev/frame-disk-a'', ''/dev/frame-disk-b'']"

definition diskSizeAssertion :: "pv_layout \<Rightarrow> string" where
  "diskSizeAssertion l =
     (if pl_disks l = [] then ''true''
      else join_with '' && '' (map (\<lambda>d. ''[ '' @ dq @ ''$(blockdev --getsize64 '' @ pd_byID d @ '' 2>/dev/null)'' @ dq @ '' = ''
        @ dq @ int_str (pd_sizeBytes d) @ dq @ '' ]'') (pl_disks l)))"

definition resolve_cmd :: "nat \<Rightarrow> pv_disk \<Rightarrow> string" where
  "resolve_cmd i d =
     ''p'' @ nat_str i @ ''=$(readlink -f '' @ sq @ pd_byID d @ sq @ '') && [ -b '' @ dq @ ''$p'' @ nat_str i @ dq @ '' ] || { echo ''
       @ sq @ ''FRAME: '' @ pd_byID d @ '' is not a block device, refusing'' @ sq @ '' > /dev/console; exit 1; }''"

definition distinct_cmd :: "pv_disk list \<Rightarrow> nat \<Rightarrow> string" where
  "distinct_cmd ds i =
     ''[ '' @ dq @ ''$p0'' @ dq @ '' != '' @ dq @ ''$p'' @ nat_str i @ dq @ '' ] || { echo '' @ sq @ ''FRAME: '' @ pd_byID (ds ! 0) @ '' and ''
       @ pd_byID (ds ! i) @ '' are the same disk, refusing'' @ sq @ '' > /dev/console; exit 1; }''"

definition rewrite_cmd :: "nat \<Rightarrow> string" where
  "rewrite_cmd i = ''sed -i '' @ dq @ ''s#'' @ diskPlaceholders ! i @ ''#$p'' @ nat_str i @ ''#g'' @ dq @ '' /autoinstall.yaml''"

text \<open>\<^term>\<open>None\<close> is the panic of indexing the two placeholders, or the roots, out of range.\<close>

definition diskResolution :: "pv_layout \<Rightarrow> string option" where
  "diskResolution l =
     (let ds = pl_disks l in
      if length ds > length diskPlaceholders then None
      else Some (join_with ''; '' (map (\<lambda>i. resolve_cmd i (ds ! i)) [0..<length ds] @ map (distinct_cmd ds) [1..<length ds]
        @ map rewrite_cmd [0..<length ds])))"

datatype cfg_val = CStr string | CInt int | CBool bool | CList "string list"

type_synonym cfg_item = "(string \<times> cfg_val) list"

definition disk_items :: "bool \<Rightarrow> nat \<Rightarrow> cfg_item list" where
  "disk_items uefi i =
     (let d = ''disk'' @ nat_str i;
          disk = [(''type'', CStr ''disk''), (''id'', CStr d), (''path'', CStr (diskPlaceholders ! i)), (''ptable'', CStr ''gpt''),
            (''wipe'', CStr ''superblock-recursive''), (''preserve'', CBool False)] @ (if uefi then [] else [(''grub_device'', CBool True)]);
          boot = (if uefi then
              [(''type'', CStr ''partition''), (''id'', CStr (d @ ''-esp'')), (''device'', CStr d), (''number'', CInt 1), (''size'', CStr ''1G''),
               (''flag'', CStr ''boot''), (''grub_device'', CBool True), (''wipe'', CStr ''superblock''), (''preserve'', CBool False)]
            else
              [(''type'', CStr ''partition''), (''id'', CStr (d @ ''-biosgrub'')), (''device'', CStr d), (''number'', CInt 1), (''size'', CStr ''1M''),
               (''flag'', CStr ''bios_grub''), (''preserve'', CBool False)]);
          root = [(''type'', CStr ''partition''), (''id'', CStr (d @ ''-root'')), (''device'', CStr d), (''number'', CInt 2), (''size'', CInt (-1)),
            (''wipe'', CStr ''superblock''), (''preserve'', CBool False)]
      in [disk, boot, root]
         @ (if uefi then [[(''type'', CStr ''format''), (''id'', CStr (d @ ''-esp-fs'')), (''volume'', CStr (d @ ''-esp'')), (''fstype'', CStr ''fat32'')]]
            else []))"

definition storageConfig :: "pv_layout \<Rightarrow> string \<Rightarrow> cfg_item list option" where
  "storageConfig l bootMode =
     (let uefi = (bootMode = bootUEFI);
          n = length (pl_disks l);
          roots = map (\<lambda>i. ''disk'' @ nat_str i @ ''-root'') [0..<n];
          mirror = (pl_kind l = LayoutMirror)
      in if n = 0 \<or> n > length diskPlaceholders then None
      else Some (concat (map (disk_items uefi) [0..<n])
         @ (if mirror then [[(''type'', CStr ''raid''), (''id'', CStr ''md0''), (''name'', CStr ''md0''), (''raidlevel'', CStr ''raid1''),
              (''devices'', CList roots), (''preserve'', CBool False)]] else [])
         @ [[(''type'', CStr ''format''), (''id'', CStr ''root-fs''), (''volume'', CStr (if mirror then ''md0'' else roots ! 0)), (''fstype'', CStr ''ext4'')],
            [(''type'', CStr ''mount''), (''id'', CStr ''root-mnt''), (''device'', CStr ''root-fs''), (''path'', CStr ''/'')]]
         @ (if uefi then [[(''type'', CStr ''mount''), (''id'', CStr ''esp-mnt''), (''device'', CStr ''disk0-esp-fs''), (''path'', CStr ''/boot/efi'')]] else [])))"

section \<open>The commands of the target\<close>

definition markerPath :: string where "markerPath = ''/etc/frame-install-uid''"
definition targetRoot :: string where "targetRoot = ''/target''"
definition macPlaceholder :: string where "macPlaceholder = ''FRAME_PIN_MAC''"
definition devPlaceholder :: string where "devPlaceholder = ''FRAME_PIN_DEV''"

record pinned_ethernet =
  pe_mac :: string
  pe_name :: string
  pe_dhcp4 :: bool
  pe_addresses :: "string list"
  pe_via :: string
  pe_dns :: "string list"

definition writeFileCommand :: "string \<Rightarrow> string \<Rightarrow> string \<Rightarrow> string" where
  "writeFileCommand path content mode =
     ''echo '' @ sq @ b64pad_encode content @ sq @ '' | base64 -d > '' @ sq @ path @ sq @ '' && chmod '' @ mode @ '' '' @ sq @ path @ sq"

definition relockCommand :: "(string list list \<Rightarrow> string) \<Rightarrow> string \<Rightarrow> string" where
  "relockCommand yaml_runcmd target =
     writeFileCommand (target @ ''/etc/cloud/cloud.cfg.d/99-zz-frame-lock.cfg'') (yaml_runcmd [[''passwd'', ''-l'', ''frame'']]) ''644''"

definition refuse_cmd :: "string \<Rightarrow> string" where
  "refuse_cmd why = ''echo '' @ sq @ ''FRAME: '' @ why @ '', refusing'' @ sq @ '' > /dev/console; exit 1''"

definition pinned :: "string \<Rightarrow> pv_network \<Rightarrow> pinned_ethernet" where
  "pinned cidr n = \<lparr>pe_mac = macPlaceholder, pe_name = devPlaceholder, pe_dhcp4 = False, pe_addresses = [cidr], pe_via = pn_gateway n, pe_dns = pn_dns n\<rparr>"

definition netplanPin :: "(pinned_ethernet \<Rightarrow> string) \<Rightarrow> string \<Rightarrow> pv_spec \<Rightarrow> string \<Rightarrow> string \<Rightarrow> string" where
  "netplanPin yaml_pin cidr s target sysClassNet =
     (let gw = pn_gateway (ps_network s);
          pinnedFile = target @ ''/etc/netplan/60-frame.yaml'';
          doc = yaml_pin (pinned cidr (ps_network s))
      in join_with ''; ''
        [''dev=$(ip -o route get '' @ sq @ gw @ sq @ '' 2>/dev/null | sed -n '' @ sq @ ''s/.* dev '' @ bsl @ ''([^ ]*'' @ bsl @ '').*/'' @ bsl @ ''1/p'' @ sq @ '')'',
         ''case '' @ dq @ ''$dev'' @ dq @ '' in '' @ sq @ sq @ ''|.*|*[!A-Za-z0-9_.-]*) '' @ refuse_cmd (''no port carries the route to '' @ gw) @ '';; esac'',
         ''[ '' @ dq @ ''$dev'' @ dq @ '' != lo ] || { '' @ refuse_cmd (''the route to '' @ gw @ '' goes over loopback'') @ ''; }'',
         ''mac=$(cat '' @ sq @ sysClassNet @ sq @ ''/'' @ dq @ ''$dev'' @ dq @ ''/address 2>/dev/null)'',
         ''case '' @ dq @ ''$mac'' @ dq @ '' in 00:00:00:00:00:00) '' @ refuse_cmd ''the gateway port has no hardware address'' @ '';; ''
           @ concat (replicate 5 ''[0-9a-f][0-9a-f]:'') @ ''[0-9a-f][0-9a-f]) ;; *) '' @ refuse_cmd ''no MAC address for the gateway port'' @ '';; esac'',
         ''rm -f '' @ sq @ target @ ''/etc/netplan/'' @ sq @ ''*.yaml '' @ sq @ target @ ''/etc/cloud/cloud.cfg.d/90-installer-network.cfg'' @ sq
           @ '' && echo '' @ sq @ b64pad_encode doc @ sq @ '' | base64 -d | sed '' @ dq @ ''s/'' @ macPlaceholder @ ''/$mac/; s/'' @ devPlaceholder @ ''/$dev/'' @ dq
           @ '' > '' @ sq @ pinnedFile @ sq @ '' && chmod 600 '' @ sq @ pinnedFile @ sq @ '' && ''
           @ writeFileCommand (target @ ''/etc/cloud/cloud.cfg.d/99-zz-frame-network.cfg'') (''network: {config: disabled}'' @ [CHR 0x0A]) ''644''])"

section \<open>The document\<close>

definition lockedPasswordHash :: string where
  "lockedPasswordHash = ''$6$RqkZHWLekUnwUvem$NpQkV0V.Whw0jxqSQxY/D2/HstLVk8T.QSY0UxlJbolWFfqb84.szv0vflKVeFgAhrkHxwtNtlSFZXXxYR2jf1''"

record ai_ethernet =
  ae_match :: "(string \<times> string) list"
  ae_optional :: bool
  ae_dhcp4 :: bool
  ae_addresses :: "string list"
  ae_routes :: "(string \<times> string) list list"
  ae_nameservers :: "(string \<times> string list) list"

record ai_identity =
  aid_hostname :: string
  aid_username :: string
  aid_realname :: string
  aid_password :: string

record ai_ssh =
  as_installServer :: bool
  as_allowPW :: bool
  as_authorizedKeys :: "string list"

record autoinstall =
  ai_version :: int
  ai_interactive :: "string list"
  ai_refresh :: "(string \<times> bool) list"
  ai_updates :: string
  ai_apt :: "(string \<times> string) list"
  ai_locale :: string
  ai_keyboard :: "(string \<times> string) list"
  ai_netVersion :: int
  ai_ethernets :: "(string \<times> ai_ethernet) list"
  ai_swap :: "(string \<times> int) list"
  ai_storage :: "cfg_item list"
  ai_identity :: ai_identity
  ai_ssh :: ai_ssh
  ai_early :: "string list"
  ai_late :: "string list"
  ai_error :: "string list"
  ai_shutdown :: string

definition early_commands :: "pv_layout \<Rightarrow> string \<Rightarrow> string list" where
  "early_commands l resolution =
     [''if ! ( '' @ diskSizeAssertion l @ '' ); then echo '' @ sq @ ''FRAME: named disk is not the expected size, refusing'' @ sq
        @ '' > /dev/console; exit 1; fi'',
      resolution]"

definition late_commands ::
  "(pinned_ethernet \<Rightarrow> string) \<Rightarrow> (string list list \<Rightarrow> string) \<Rightarrow> string \<Rightarrow> pv_spec \<Rightarrow> string list" where
  "late_commands yaml_pin yaml_runcmd cidr s =
     [''echo '' @ sq @ ''frame ALL=(ALL) NOPASSWD:ALL'' @ sq @ '' > /target/etc/sudoers.d/frame && chmod 440 /target/etc/sudoers.d/frame'',
      ''echo '' @ sq @ ps_uid s @ sq @ '' > /target'' @ markerPath @ '' && chmod 444 /target'' @ markerPath,
      ''echo '' @ sq @ ps_hostname s @ sq @ '' > /target/etc/hostname && (grep -qx '' @ sq @ ''127.0.1.1 '' @ ps_hostname s @ sq
        @ '' /target/etc/hosts || echo '' @ sq @ ''127.0.1.1 '' @ ps_hostname s @ sq @ '' >> /target/etc/hosts)'',
      ''curtin in-target --target=/target -- passwd -l frame'',
      netplanPin yaml_pin cidr s targetRoot ''/sys/class/net'',
      relockCommand yaml_runcmd targetRoot]"

definition document ::
  "pv_spec \<Rightarrow> string \<Rightarrow> cfg_item list \<Rightarrow> string list \<Rightarrow> string list \<Rightarrow> string list \<Rightarrow> autoinstall" where
  "document s cidr cfg early late errs =
     \<lparr>ai_version = 1, ai_interactive = [], ai_refresh = [(''update'', False)], ai_updates = ''security'',
      ai_apt = [(''fallback'', ''offline-install'')], ai_locale = ''en_US.UTF-8'', ai_keyboard = [(''layout'', ''us'')],
      ai_netVersion = 2,
      ai_ethernets = [(''frame0'', \<lparr>ae_match = [(''name'', ''en*'')], ae_optional = True, ae_dhcp4 = False, ae_addresses = [cidr],
        ae_routes = [[(''to'', ''default''), (''via'', pn_gateway (ps_network s))]],
        ae_nameservers = [(''addresses'', pn_dns (ps_network s))]\<rparr>)],
      ai_swap = [(''size'', 0)], ai_storage = cfg,
      ai_identity = \<lparr>aid_hostname = ps_hostname s, aid_username = ''frame'', aid_realname = ''Frame'', aid_password = lockedPasswordHash\<rparr>,
      ai_ssh = \<lparr>as_installServer = True, as_allowPW = False, as_authorizedKeys = [trim_space (ps_sshPublicKey s)]\<rparr>,
      ai_early = early, ai_late = late, ai_error = errs, ai_shutdown = ''reboot''\<rparr>"

text \<open>What a rendering ends in: the document's text, an error, or a panic.\<close>

datatype 'a rendered = Rendered 'a | Refused string | Panicked

text \<open>
  \<open>render_doc\<close> is \<open>RenderAutoinstall\<close> up to \<open>yaml.Marshal\<close>; the YAML printer is an argument, as the
  key parser is.
\<close>

definition render_doc ::
  "key_parser \<Rightarrow> (pinned_ethernet \<Rightarrow> string) \<Rightarrow> (string list list \<Rightarrow> string) \<Rightarrow> pv_spec \<Rightarrow> string \<Rightarrow> string \<Rightarrow> autoinstall rendered" where
  "render_doc parse yaml_pin yaml_runcmd s beaconBase token =
     (case validate parse s of
        Inl e \<Rightarrow> Refused e
      | Inr cidr \<Rightarrow>
          (case ValidateBeaconBase beaconBase of
             Some e \<Rightarrow> Refused e
           | None \<Rightarrow>
               (case (diskResolution (ps_layout s), storageConfig (ps_layout s) (ps_bootMode s)) of
                  (Some res, Some cfg) \<Rightarrow>
                    (let on = trim_space beaconBase \<noteq> '''' in
                     Rendered (document s cidr cfg
                       (early_commands (ps_layout s) res
                          @ (if on then [BeaconSend beaconBase token CheckpointEarly, BeaconHeartbeat beaconBase token CheckpointEarly] else []))
                       (late_commands yaml_pin yaml_runcmd cidr s @ (if on then [BeaconSend beaconBase token CheckpointLate] else []))
                       (if on then [BeaconSend beaconBase token CheckpointFailed] else [])))
                | _ \<Rightarrow> Panicked)))"

definition RenderAutoinstall ::
  "key_parser \<Rightarrow> (pinned_ethernet \<Rightarrow> string) \<Rightarrow> (string list list \<Rightarrow> string) \<Rightarrow> (autoinstall \<Rightarrow> string + string)
     \<Rightarrow> pv_spec \<Rightarrow> string \<Rightarrow> string \<Rightarrow> string rendered" where
  "RenderAutoinstall parse yaml_pin yaml_runcmd yaml_doc s beaconBase token =
     (case render_doc parse yaml_pin yaml_runcmd s beaconBase token of
        Rendered d \<Rightarrow> (case yaml_doc d of Inl e \<Rightarrow> Refused e | Inr b \<Rightarrow> Rendered (''#cloud-config'' @ [CHR 0x0A] @ b))
      | Refused e \<Rightarrow> Refused e
      | Panicked \<Rightarrow> Panicked)"

end
