(* ===== verification/Provision_Join.thy ===== *)
theory Provision_Join
  imports Provision_Render
begin

text \<open>
  Talking to the installed machine: \<open>internal/provision/join.go\<close> (the shape checks, \<open>Join\<close>, the
  kubeconfig rewrite and \<open>shellQuote\<close>) and \<open>ssh.go\<close> (\<open>Dial\<close> and \<open>WaitForOurSystem\<close>). What the machine
  answers is an argument, and every command sent to it is recorded.
\<close>

section \<open>Shape checks\<close>

fun drop_digits :: "string \<Rightarrow> string" where
  "drop_digits [] = []"
| "drop_digits (c # cs) = (if is_digit c then drop_digits cs else c # cs)"

text \<open>Reads \<open>[0-9]+\<close> followed by the given text, and gives what is left.\<close>

definition digits_then :: "string \<Rightarrow> string \<Rightarrow> string option" where
  "digits_then t s =
     (let r = drop_digits s in if s = [] \<or> r = s \<or> \<not> has_prefix r t then None else Some (drop (length t) r))"

definition k3sVersionPattern :: "string \<Rightarrow> bool" where
  "k3sVersionPattern v =
     (has_prefix v ''v'' \<and>
      (case digits_then ''.'' (drop 1 v) of None \<Rightarrow> False | Some a \<Rightarrow>
       (case digits_then ''.'' a of None \<Rightarrow> False | Some b \<Rightarrow>
        (case digits_then ''+k3s'' b of None \<Rightarrow> False | Some c \<Rightarrow> c \<noteq> [] \<and> list_all is_digit c))))"

definition validateK3sVersion :: "string \<Rightarrow> string option" where
  "validateK3sVersion v =
     (if k3sVersionPattern v then None
      else Some (''k3s version '' @ quoted v @ '' does not look like a k3s version (want vX.Y.Z+k3sN)''))"

definition joinTokenPattern :: "string \<Rightarrow> bool" where
  "joinTokenPattern v \<longleftrightarrow> v \<noteq> [] \<and> list_all (\<lambda>c. alnum c \<or> c \<in> set '':._-'') v"

definition maxJoinTokenLen :: nat where "maxJoinTokenLen = 512"

definition validateJoinToken :: "string \<Rightarrow> string option" where
  "validateJoinToken v =
     (if length v > maxJoinTokenLen then
        Some (''join token: must be between 1 and '' @ nat_str maxJoinTokenLen @ '' characters, got '' @ nat_str (length v))
      else if \<not> joinTokenPattern v then Some ''join token: contains a character outside [A-Za-z0-9:._-]''
      else None)"

text \<open>What \<open>url.Parse\<close> gives; which texts it accepts depends on the release of Go, so it is an argument.\<close>

record url_parts =
  up_scheme :: string
  up_host :: string
  up_hostname :: string
  up_user :: bool
  up_path :: string
  up_rawQuery :: string
  up_fragment :: string
  up_redacted :: string

type_synonym url_parser = "string \<Rightarrow> string + url_parts"

definition schemeHTTPS :: string where "schemeHTTPS = ''https''"

definition validateServerURL :: "url_parser \<Rightarrow> string \<Rightarrow> string option" where
  "validateServerURL parse_url v =
     (case parse_url v of
        Inl _ \<Rightarrow> Some ''server URL does not parse as a URL''
      | Inr u \<Rightarrow>
          (let name = ''server URL '' @ quoted (up_redacted u) in
           if up_scheme u \<noteq> schemeHTTPS then Some (name @ '': scheme must be https, got '' @ quoted (up_scheme u))
           else if up_host u = '''' then Some (name @ '': no host'')
           else if up_user u then Some (name @ '': must not carry embedded credentials'')
           else if up_path u \<noteq> '''' \<or> up_rawQuery u \<noteq> '''' \<or> up_fragment u \<noteq> '''' then
             Some (name @ '': must be scheme and host only, no path, query or fragment'')
           else None))"

definition validateNodeAddress :: "string \<Rightarrow> string option" where
  "validateNodeAddress v = (if ParseIP v = None then Some (''node address '' @ quoted v @ '' is not an IP address'') else None)"

definition wrap_err :: "string \<Rightarrow> string option \<Rightarrow> string option" where
  "wrap_err p e = map_option (\<lambda>t. p @ t) e"

definition ValidateClusterTarget :: "url_parser \<Rightarrow> pv_cluster \<Rightarrow> string option" where
  "ValidateClusterTarget parse_url t =
     (case validateK3sVersion (pc_k3sVersion t) of
        Some e \<Rightarrow> Some (''cluster target: '' @ e)
      | None \<Rightarrow>
          if pc_mode t = ClusterInit then None
          else if pc_mode t = ClusterJoin then
            (case validateJoinToken (pc_joinToken t) of
               Some e \<Rightarrow> Some (''cluster target: '' @ e)
             | None \<Rightarrow> wrap_err ''cluster target: '' (validateServerURL parse_url (pc_serverURL t)))
          else Some (''cluster target: unknown mode '' @ quoted (pc_mode t) @ '' (want '' @ quoted ClusterInit @ '' or '' @ quoted ClusterJoin @ '')''))"

section \<open>The kubeconfig\<close>

text \<open>A YAML document as \<open>yaml.Unmarshal\<close> gives it to \<open>any\<close>; \<open>YOther\<close> is every scalar and every other mapping.\<close>

datatype yval = YMap "(string \<times> yval) list" | YList "yval list" | YOther string

fun ykey :: "string \<Rightarrow> (string \<times> yval) list \<Rightarrow> yval option" where
  "ykey k [] = None"
| "ykey k ((a, v) # r) = (if a = k then Some v else ykey k r)"

fun yset :: "string \<Rightarrow> yval \<Rightarrow> (string \<times> yval) list \<Rightarrow> (string \<times> yval) list" where
  "yset k v [] = [(k, v)]"
| "yset k v ((a, w) # r) = (if a = k then (k, v) # r else (a, w) # yset k v r)"

definition set_server :: "string \<Rightarrow> yval \<Rightarrow> yval option" where
  "set_server server c =
     (case c of
        YMap entry \<Rightarrow>
          (case ykey ''cluster'' entry of
             Some (YMap cluster) \<Rightarrow> Some (YMap (yset ''cluster'' (YMap (yset ''server'' (YOther server) cluster)) entry))
           | _ \<Rightarrow> None)
      | _ \<Rightarrow> None)"

definition rewrite_one :: "string \<Rightarrow> yval \<Rightarrow> yval" where
  "rewrite_one server c = (case set_server server c of Some d \<Rightarrow> d | None \<Rightarrow> c)"

type_synonym yaml_reader = "string \<Rightarrow> string + (string \<times> yval) list"
type_synonym yaml_writer = "(string \<times> yval) list \<Rightarrow> string + string"

definition RewriteKubeconfigServer :: "yaml_reader \<Rightarrow> yaml_writer \<Rightarrow> string \<Rightarrow> string \<Rightarrow> string + string" where
  "RewriteKubeconfigServer unmarshal marshal raw address =
     (case unmarshal raw of
        Inl e \<Rightarrow> Inl (''parsing kubeconfig: '' @ e)
      | Inr doc \<Rightarrow>
          (case ykey ''clusters'' doc of
             None \<Rightarrow> Inl ''kubeconfig has no clusters field''
           | Some (YList clusters) \<Rightarrow>
               (let server = ''https://'' @ JoinHostPort address ''6443'' in
                if clusters = [] then Inl ''kubeconfig has no clusters''
                else if list_all (\<lambda>c. set_server server c = None) clusters then
                  Inl ''kubeconfig has no cluster.server field to rewrite''
                else case marshal (yset ''clusters'' (YList (map (rewrite_one server) clusters)) doc) of
                  Inl e \<Rightarrow> Inl (''marshaling kubeconfig: '' @ e)
                | Inr out \<Rightarrow> Inr out)
           | Some _ \<Rightarrow> Inl ''kubeconfig clusters field is not a list''))"

fun first_line :: "string list \<Rightarrow> string option" where
  "first_line [] = None"
| "first_line (l # ls) = (let t = trim_space l in if t = '''' then first_line ls else Some t)"

definition sudoPreamble :: "string \<Rightarrow> string option" where
  "sudoPreamble out =
     (case first_line (split_char (CHR 0x0A) out) of
        None \<Rightarrow> None
      | Some t \<Rightarrow> if has_prefix t ''sudo:'' then Some t else None)"

section \<open>Sessions\<close>

text \<open>
  \<open>sshSession\<close>: what the machine answers to a command, on the merged output (\<open>Run\<close>, \<open>RunWithInput\<close>) or
  on standard output alone (\<open>Output\<close>).
\<close>

record session =
  ss_hostKey :: string
  ss_run :: "string \<Rightarrow> string + string"
  ss_input :: "string \<Rightarrow> string \<Rightarrow> string + string"
  ss_output :: "string \<Rightarrow> string + string"

datatype sent = SRun string | SInput string string | SOutput string

definition ReadFile :: "session \<Rightarrow> string \<Rightarrow> string + string" where
  "ReadFile sess path = ss_run sess (''cat '' @ path)"

text \<open>What answers a connection: nothing that can be used, or a machine presenting a host key.\<close>

datatype conn = Unreachable string | Answers session

definition Dial :: "(string \<Rightarrow> string option) \<Rightarrow> conn \<Rightarrow> string \<Rightarrow> string \<Rightarrow> string \<Rightarrow> string + session" where
  "Dial key_error c addr key expectedHostKey =
     (case key_error key of
        Some e \<Rightarrow> Inl (''parsing SSH key: '' @ e)
      | None \<Rightarrow>
          (case c of
             Unreachable e \<Rightarrow> Inl e
           | Answers sess \<Rightarrow>
               (let want = trim_space expectedHostKey; hostKey = trim_space (ss_hostKey sess) in
                if want \<noteq> '''' \<and> hostKey \<noteq> want then
                  Inl (''ssh: handshake failed: host key changed for '' @ addr @ '': presented host key '' @ hostKey @ '', expected '' @ want)
                else Inr (sess\<lparr>ss_hostKey := hostKey\<rparr>))))"

text \<open>One turn of \<open>WaitForOurSystem\<close>'s loop: the host key of the proven machine, or why this attempt was not it.\<close>

definition wait_attempt :: "(string \<Rightarrow> string option) \<Rightarrow> string \<Rightarrow> string \<Rightarrow> string \<Rightarrow> conn \<Rightarrow> string + string" where
  "wait_attempt key_error addr key uid c =
     (case Dial key_error c addr key '''' of
        Inl e \<Rightarrow> Inl e
      | Inr sess \<Rightarrow>
          (case ReadFile sess markerPath of
             Inl _ \<Rightarrow> Inl (addr @ '' has no '' @ markerPath @ '': this is a system we did not install'')
           | Inr b \<Rightarrow>
               if trim_space b \<noteq> uid then
                 Inl (addr @ '' carries install UID '' @ quoted (trim_space b) @ '', not '' @ quoted uid @ '': this is a different system at that address'')
               else Inr (trim_space (ss_hostKey sess))))"

text \<open>
  The loop, over the connections it gets before its context ends and the error the context then has. A
  phase's context has a deadline, so there are finitely many.
\<close>

fun wait_loop :: "(string \<Rightarrow> string option) \<Rightarrow> string \<Rightarrow> string \<Rightarrow> string \<Rightarrow> string \<Rightarrow> string option \<Rightarrow> conn list \<Rightarrow> string + string" where
  "wait_loop key_error addr key uid ctxErr lst [] =
     Inl (''waiting for '' @ addr @ '' to come up as our system: '' @ ctxErr
       @ (case lst of None \<Rightarrow> '', and no attempt had completed before it'' | Some e \<Rightarrow> '' (last attempt: '' @ e @ '')''))"
| "wait_loop key_error addr key uid ctxErr lst (c # cs) =
     (case wait_attempt key_error addr key uid c of
        Inr hostKey \<Rightarrow> Inr hostKey
      | Inl e \<Rightarrow> wait_loop key_error addr key uid ctxErr (Some e) cs)"

definition WaitForOurSystem :: "(string \<Rightarrow> string option) \<Rightarrow> string \<Rightarrow> string \<Rightarrow> string \<Rightarrow> string \<Rightarrow> conn list \<Rightarrow> string + string" where
  "WaitForOurSystem key_error addr key uid0 ctxErr cs =
     (let uid = trim_space uid0 in
      if uid = '''' then
        Inl (''waiting for '' @ addr @ '': no install UID to check against, so no machine could be told apart from any other at that address'')
      else wait_loop key_error addr key uid ctxErr None cs)"

section \<open>Join\<close>

fun esc_quote :: "string \<Rightarrow> string" where
  "esc_quote [] = []"
| "esc_quote (c # cs) = (if c = CHR 0x27 then sq @ bsl @ sq @ sq else [c]) @ esc_quote cs"

definition shellQuote :: "string \<Rightarrow> string" where
  "shellQuote s = sq @ esc_quote s @ sq"

definition k3sKubeconfigPath :: string where "k3sKubeconfigPath = ''/etc/rancher/k3s/k3s.yaml''"
definition k3sInstallerURL :: string where "k3sInstallerURL = ''https://get.k3s.io''"
definition k3sInstallerPath :: string where "k3sInstallerPath = ''frame-k3s-install.sh''"
definition k3sJoinTokenPath :: string where "k3sJoinTokenPath = ''/etc/rancher/k3s/frame-join-token''"

definition writeJoinTokenCmd :: string where
  "writeJoinTokenCmd = ''sudo -n sh -c '' @ sq @ ''umask 077 && mkdir -p /etc/rancher/k3s && cat > '' @ k3sJoinTokenPath @ sq"

definition download_cmd :: string where
  "download_cmd = ''curl -sfL -o '' @ k3sInstallerPath @ '' '' @ k3sInstallerURL"

definition installer_cmd :: "string \<Rightarrow> string \<Rightarrow> string" where
  "installer_cmd env args = env @ '' sh '' @ k3sInstallerPath @ '' '' @ args @ ''; rc=$?; rm -f '' @ k3sInstallerPath @ ''; exit $rc''"

definition installK3s :: "session \<Rightarrow> string \<Rightarrow> string \<Rightarrow> string option \<times> sent list" where
  "installK3s sess env args =
     (case ss_run sess download_cmd of
        Inl e \<Rightarrow> (Some (''downloading the k3s installer from '' @ k3sInstallerURL @ '': '' @ e), [SRun download_cmd])
      | Inr _ \<Rightarrow>
          (let cmd = installer_cmd env args in
           ((case ss_run sess cmd of Inl e \<Rightarrow> Some e | Inr _ \<Rightarrow> None), [SRun download_cmd, SRun cmd])))"

definition init_env :: "pv_cluster \<Rightarrow> string" where
  "init_env t = ''INSTALL_K3S_VERSION='' @ shellQuote (pc_k3sVersion t)"

definition join_env :: "pv_cluster \<Rightarrow> string" where
  "join_env t = ''INSTALL_K3S_VERSION='' @ shellQuote (pc_k3sVersion t) @ '' K3S_URL='' @ shellQuote (pc_serverURL t)
     @ '' K3S_TOKEN_FILE='' @ shellQuote k3sJoinTokenPath"

definition init_args :: "string \<Rightarrow> string" where
  "init_args nodeAddress = ''server --cluster-init --node-ip '' @ shellQuote nodeAddress"

definition join_args :: "string \<Rightarrow> string" where
  "join_args nodeAddress = ''agent --node-ip '' @ shellQuote nodeAddress"

text \<open>The kubeconfig of the cluster just started; its reading is the last step of \<open>ClusterInit\<close>.\<close>

definition read_kubeconfig :: "yaml_reader \<Rightarrow> yaml_writer \<Rightarrow> session \<Rightarrow> string \<Rightarrow> string + string" where
  "read_kubeconfig unmarshal marshal sess nodeAddress =
     (case ss_output sess (''sudo -n cat '' @ k3sKubeconfigPath) of
        Inl e \<Rightarrow> Inl (''the cluster started but its kubeconfig is not readable, so nobody can talk to it: '' @ e)
      | Inr raw \<Rightarrow>
          (case sudoPreamble raw of
             Some msg \<Rightarrow> Inl (''the kubeconfig read came back with sudo's own output in front of it ('' @ quoted msg
               @ ''), so it is not the file: fix that warning on the machine -- most often an /etc/hosts entry for its own hostname -- rather than parsing around it'')
           | None \<Rightarrow> RewriteKubeconfigServer unmarshal marshal raw nodeAddress))"

text \<open>The result is an error, or the kubeconfig; \<^const>\<open>None\<close> is the nil kubeconfig of a node that joined.\<close>

definition Join :: "url_parser \<Rightarrow> yaml_reader \<Rightarrow> yaml_writer \<Rightarrow> session \<Rightarrow> pv_cluster \<Rightarrow> string \<Rightarrow> (string + string option) \<times> sent list" where
  "Join parse_url unmarshal marshal sess t nodeAddress =
     (case validateK3sVersion (pc_k3sVersion t) of
        Some e \<Rightarrow> (Inl (''cluster: '' @ e @ ''; an unpinned or malformed install makes two machines built a week apart different machines''), [])
      | None \<Rightarrow>
     (case validateNodeAddress nodeAddress of
        Some e \<Rightarrow> (Inl (''cluster: '' @ e), [])
      | None \<Rightarrow>
     if pc_mode t = ClusterInit then
       (case installK3s sess (init_env t) (init_args nodeAddress) of
          (Some e, cmds) \<Rightarrow> (Inl (''k3s server --cluster-init: '' @ e), cmds)
        | (None, cmds) \<Rightarrow>
            ((case read_kubeconfig unmarshal marshal sess nodeAddress of Inl e \<Rightarrow> Inl e | Inr k \<Rightarrow> Inr (Some k)),
             cmds @ [SOutput (''sudo -n cat '' @ k3sKubeconfigPath)]))
     else if pc_mode t = ClusterJoin then
       (case validateJoinToken (pc_joinToken t) of
          Some e \<Rightarrow> (Inl (''cluster join: '' @ e @ ''. It lives at /var/lib/rancher/k3s/server/node-token on a server node and must be placed in a Secret first''), [])
        | None \<Rightarrow>
       (case validateServerURL parse_url (pc_serverURL t) of
          Some e \<Rightarrow> (Inl (''cluster join: '' @ e), [])
        | None \<Rightarrow>
       (case ss_input sess writeJoinTokenCmd (pc_joinToken t) of
          Inl e \<Rightarrow> (Inl (''writing the join token to '' @ k3sJoinTokenPath @ '' on the node: '' @ e), [SInput writeJoinTokenCmd (pc_joinToken t)])
        | Inr _ \<Rightarrow>
       (case installK3s sess (join_env t) (join_args nodeAddress) of
          (Some e, cmds) \<Rightarrow> (Inl (''k3s agent: '' @ e), SInput writeJoinTokenCmd (pc_joinToken t) # cmds)
        | (None, cmds) \<Rightarrow> (Inr None, SInput writeJoinTokenCmd (pc_joinToken t) # cmds)))))
     else (Inl (''cluster: unknown mode '' @ quoted (pc_mode t)), [])))"

end
