(* ===== verification/Provision_Install.thy ===== *)
theory Provision_Install
  imports Provision_Join
begin

text \<open>
  One installation from end to end: \<open>Install\<close> in \<open>internal/provision/install.go\<close>, over the phases and the
  collaborators of \<open>types.go\<close>. What the BMC, the image store, the machine and the target cluster answer is
  an environment; the calls made to them are recorded in order.
\<close>

section \<open>Phases and collaborators\<close>

definition PhasePending :: string where "PhasePending = ''Pending''"
definition PhasePreparing :: string where "PhasePreparing = ''Preparing''"
definition PhaseMediaAttached :: string where "PhaseMediaAttached = ''MediaAttached''"
definition PhaseInstalling :: string where "PhaseInstalling = ''Installing''"
definition PhaseInstalled :: string where "PhaseInstalled = ''Installed''"
definition PhaseJoining :: string where "PhaseJoining = ''Joining''"
definition PhaseReady :: string where "PhaseReady = ''Ready''"
definition PhaseFailed :: string where "PhaseFailed = ''Failed''"

lemmas phase_defs = PhasePending_def PhasePreparing_def PhaseMediaAttached_def PhaseInstalling_def PhaseInstalled_def
  PhaseJoining_def PhaseReady_def PhaseFailed_def

record inst_opts =
  io_bootMode :: string
  io_sshUser :: string
  io_sshKey :: string
  io_nodeAddress :: string
  io_confirmSerial :: string
  io_phaseTimeout :: "string \<rightharpoonup> duration"
  io_poll :: duration

record inst_res =
  ir_phase :: string
  ir_failedPhase :: string
  ir_hostKey :: string
  ir_kubeconfig :: "string option"
  ir_nodeName :: string

datatype act =
    Report string
  | ReportToken string
  | ReadSerial
  | BuildImage pv_spec
  | BeforeMedia
  | InsertMedia string
  | MediaInserted
  | SetBootOnce string string
  | ResetMachine string
  | WaitSystem string string string
  | DialMachine string string string
  | Sent sent
  | CloseSession
  | NodeReady "string option" string
  | EjectMedia
  | ClearBootOverride
  | RemoveImage string

datatype ctx_state = CtxLive | CtxDeadline | CtxCanceled

text \<open>
  The answers. \<open>ie_ctx\<close> is the state of a phase's context when an error of that phase is worded,
  \<open>ie_conns\<close> what answers while the phase Installing lasts, \<open>ie_polls\<close> what the target cluster answers
  after the first \<open>ie_poll\<close> while the phase Ready lasts; \<^const>\<open>None\<close> is no error.
\<close>

record inst_env =
  ie_report :: bool
  ie_reportToken :: bool
  ie_ctx :: "string \<Rightarrow> ctx_state"
  ie_serial :: "string + string"
  ie_build :: "pv_spec \<Rightarrow> string + (string \<times> string)"
  ie_before :: "string option option"
  ie_insert :: "string option"
  ie_inserted :: "string + bool"
  ie_bootOnce :: "string option"
  ie_reset :: "string option"
  ie_conns :: "conn list"
  ie_waitErr :: string
  ie_joinConn :: conn
  ie_poll :: "string + bool"
  ie_polls :: "(string + bool) list"
  ie_eject :: "string option"
  ie_clear :: "string option"
  ie_remove :: "string option"
  ie_keyError :: "string \<Rightarrow> string option"
  ie_parseKey :: key_parser
  ie_parseURL :: url_parser
  ie_unmarshal :: yaml_reader
  ie_marshal :: yaml_writer

section \<open>The guards\<close>

definition requiredPhaseTimeouts :: "string list" where
  "requiredPhaseTimeouts = [PhasePending, PhasePreparing, PhaseMediaAttached, PhaseInstalling, PhaseJoining, PhaseReady]"

definition phase_timeout :: "inst_opts \<Rightarrow> string \<Rightarrow> duration" where
  "phase_timeout opt p = (case io_phaseTimeout opt p of None \<Rightarrow> 0 | Some d \<Rightarrow> d)"

definition validateOptions :: "inst_opts \<Rightarrow> string option" where
  "validateOptions opt =
     (if io_bootMode opt \<noteq> bootUEFI \<and> io_bootMode opt \<noteq> bootLegacy then
        Some (''boot mode '' @ quoted (io_bootMode opt) @ '': must be exactly '' @ quoted bootUEFI @ '' or '' @ quoted bootLegacy
          @ '', never inherited from the machine'')
      else map_option (\<lambda>p. ''phase '' @ p @ '' has no configured timeout'') (find (\<lambda>p. phase_timeout opt p \<le> 0) requiredPhaseTimeouts))"

definition validatePendingSpec :: "key_parser \<Rightarrow> url_parser \<Rightarrow> pv_spec \<Rightarrow> string \<Rightarrow> string option" where
  "validatePendingSpec parse_key parse_url s nodeAddress =
     (case ValidateSpec parse_key s of
        Some e \<Rightarrow> Some e
      | None \<Rightarrow>
          (case ValidateClusterTarget parse_url (ps_cluster s) of
             Some e \<Rightarrow> Some e
           | None \<Rightarrow> wrap_err ''cluster target: '' (validateNodeAddress nodeAddress)))"

definition phaseErr :: "ctx_state \<Rightarrow> string \<Rightarrow> string" where
  "phaseErr c e =
     (case c of
        CtxDeadline \<Rightarrow> ''this phase's own timeout expired: '' @ e
      | CtxCanceled \<Rightarrow> ''the request was canceled: '' @ e
      | CtxLive \<Rightarrow> e)"

definition checkConfirmedSerial :: "string \<Rightarrow> string \<Rightarrow> string option" where
  "checkConfirmedSerial serial confirmed =
     (if confirmed = '''' then
        Some ''no serial was confirmed for this install: refusing, because an empty confirmation proves nothing about which machine this is''
      else if serial = '''' then
        Some (''the machine reports an empty serial: refusing, because it cannot be compared against the confirmed serial '' @ quoted confirmed)
      else if serial \<noteq> confirmed then
        Some (''this machine reports serial '' @ quoted serial @ '' and the request confirmed '' @ quoted confirmed
          @ '': refusing, because the cost of being wrong here is a wiped disk on the wrong machine'')
      else None)"

definition attachMediaAndBoot :: "inst_env \<Rightarrow> string \<Rightarrow> string \<Rightarrow> string option \<times> act list" where
  "attachMediaAndBoot e url bootMode =
     (let pe = (\<lambda>t. Some (phaseErr (ie_ctx e PhaseMediaAttached) t)) in
      case ie_insert e of
        Some x \<Rightarrow> (pe (''inserting installer media: '' @ x), [InsertMedia url])
      | None \<Rightarrow>
     (case ie_inserted e of
        Inl x \<Rightarrow> (pe (''reading media-inserted status: '' @ x), [InsertMedia url, MediaInserted])
      | Inr ok \<Rightarrow>
     if \<not> ok then (Some ''the BMC accepted the insert but reports no media attached'', [InsertMedia url, MediaInserted])
     else (case ie_bootOnce e of
        Some x \<Rightarrow> (pe (''setting the one-time boot override: '' @ x), [InsertMedia url, MediaInserted, SetBootOnce ''Cd'' bootMode])
      | None \<Rightarrow>
          ((case ie_reset e of Some x \<Rightarrow> pe (''power-cycling the machine: '' @ x) | None \<Rightarrow> None),
           [InsertMedia url, MediaInserted, SetBootOnce ''Cd'' bootMode, ResetMachine ''ForceRestart'']))))"

text \<open>The poll of the target cluster: the error, if the node never became Ready, and the number of questions asked.\<close>

fun ready_loop :: "string \<Rightarrow> string option \<Rightarrow> string + bool \<Rightarrow> (string + bool) list \<Rightarrow> string option \<times> nat" where
  "ready_loop host lst (Inr True) bs = (None, 1)"
| "ready_loop host lst a [] =
     (let lst' = (case a of Inl e \<Rightarrow> Some e | Inr _ \<Rightarrow> lst) in
      (Some (''node '' @ host @ '' never became Ready'' @ (case lst' of None \<Rightarrow> '''' | Some e \<Rightarrow> '': '' @ e)), 1))"
| "ready_loop host lst a (b # bs) =
     (let lst' = (case a of Inl e \<Rightarrow> Some e | Inr _ \<Rightarrow> lst) in
      case ready_loop host lst' b bs of (r, n) \<Rightarrow> (r, Suc n))"

section \<open>Install\<close>

type_synonym inst_run = "inst_res \<times> string option \<times> act list"

definition report :: "inst_env \<Rightarrow> string \<Rightarrow> inst_res \<times> act list \<Rightarrow> inst_res \<times> act list" where
  "report e p st = (case st of (res, tr) \<Rightarrow> (res\<lparr>ir_phase := p\<rparr>, tr @ (if ie_report e then [Report p] else [])))"

definition failed :: "inst_env \<Rightarrow> string \<Rightarrow> string \<Rightarrow> inst_res \<times> act list \<Rightarrow> inst_run" where
  "failed e p err st =
     (case st of (res, tr) \<Rightarrow> (case report e PhaseFailed (res\<lparr>ir_failedPhase := p\<rparr>, tr) of (res', tr') \<Rightarrow> (res', Some err, tr')))"

definition tell :: "act list \<Rightarrow> inst_res \<times> act list \<Rightarrow> inst_res \<times> act list" where
  "tell as st = (case st of (res, tr) \<Rightarrow> (res, tr @ as))"

definition ready_phase :: "inst_env \<Rightarrow> pv_spec \<Rightarrow> string option \<Rightarrow> inst_res \<times> act list \<Rightarrow> inst_run" where
  "ready_phase e s kubeconfig st =
     (case st of (res, tr) \<Rightarrow>
      (case ready_loop (ps_hostname s) None (ie_poll e) (ie_polls e) of
         (r, n) \<Rightarrow>
           (let st' = (res\<lparr>ir_nodeName := ps_hostname s\<rparr>, tr @ replicate n (NodeReady kubeconfig (ps_hostname s))) in
            case r of
              None \<Rightarrow> (case report e PhaseReady st' of (res', tr') \<Rightarrow> (res', None, tr'))
            | Some t \<Rightarrow> failed e PhaseReady (phaseErr (ie_ctx e PhaseReady) t) st')))"

definition join_phase :: "inst_env \<Rightarrow> pv_spec \<Rightarrow> inst_opts \<Rightarrow> inst_res \<times> act list \<Rightarrow> inst_run" where
  "join_phase e s opt st0 =
     (let addr = JoinHostPort (io_nodeAddress opt) ''22'';
          hostKey = ir_hostKey (fst st0);
          st = tell [DialMachine addr (io_sshUser opt) hostKey] (report e PhaseJoining st0);
          pe = phaseErr (ie_ctx e PhaseJoining)
      in case Dial (ie_keyError e) (ie_joinConn e) addr (io_sshKey opt) hostKey of
           Inl x \<Rightarrow> failed e PhaseJoining (pe x) st
         | Inr sess \<Rightarrow>
             (case Join (ie_parseURL e) (ie_unmarshal e) (ie_marshal e) sess (ps_cluster s) (io_nodeAddress opt) of
                (r, cmds) \<Rightarrow>
                  (let st' = tell (map Sent cmds @ [CloseSession]) st in
                   case r of
                     Inl x \<Rightarrow> failed e PhaseJoining (pe x) st'
                   | Inr kubeconfig \<Rightarrow> ready_phase e s kubeconfig (case st' of (res, tr) \<Rightarrow> (res\<lparr>ir_kubeconfig := kubeconfig\<rparr>, tr)))))"

definition installing_phase :: "inst_env \<Rightarrow> pv_spec \<Rightarrow> inst_opts \<Rightarrow> inst_res \<times> act list \<Rightarrow> inst_run" where
  "installing_phase e s opt st0 =
     (let addr = JoinHostPort (io_nodeAddress opt) ''22'';
          st = tell [WaitSystem addr (io_sshUser opt) (ps_uid s)] (report e PhaseInstalling st0)
      in case WaitForOurSystem (ie_keyError e) addr (io_sshKey opt) (ps_uid s) (ie_waitErr e) (ie_conns e) of
           Inl x \<Rightarrow> failed e PhaseInstalling x st
         | Inr hostKey \<Rightarrow> join_phase e s opt (report e PhaseInstalled (case st of (res, tr) \<Rightarrow> (res\<lparr>ir_hostKey := hostKey\<rparr>, tr))))"

text \<open>Everything between the deferred cleanup's registration and its run.\<close>

definition touched :: "inst_env \<Rightarrow> pv_spec \<Rightarrow> inst_opts \<Rightarrow> string \<Rightarrow> inst_res \<times> act list \<Rightarrow> inst_run" where
  "touched e s opt url st0 =
     (let st = (if ie_before e = None then st0 else tell [BeforeMedia] st0) in
      case ie_before e of
        Some (Some x) \<Rightarrow> failed e PhasePreparing
          (phaseErr (ie_ctx e PhasePreparing) (''the last check before media is attached refused: '' @ x)) st
      | _ \<Rightarrow>
          (case attachMediaAndBoot e url (io_bootMode opt) of
             (r, as) \<Rightarrow>
               (let st' = tell as (report e PhaseMediaAttached st) in
                case r of
                  Some x \<Rightarrow> failed e PhaseMediaAttached x st'
                | None \<Rightarrow> installing_phase e s opt st')))"

definition err_text :: "string option \<Rightarrow> string" where
  "err_text x = (case x of None \<Rightarrow> ''<nil>'' | Some t \<Rightarrow> t)"

definition cleanup :: "inst_env \<Rightarrow> string \<Rightarrow> inst_run \<Rightarrow> inst_run" where
  "cleanup e token run =
     (case run of (res, err, tr) \<Rightarrow>
      (let removeErr = (if ie_eject e = None then ie_remove e else None);
           tr1 = tr @ [EjectMedia, ClearBootOverride] @ (if ie_eject e = None then [RemoveImage token] else [])
       in if ie_eject e = None \<and> ie_clear e = None \<and> removeErr = None then (res, err, tr1)
          else case report e PhaseFailed (res, tr1) of
            (res1, tr2) \<Rightarrow>
              (let res2 = (if ir_failedPhase res1 = '''' then res1\<lparr>ir_failedPhase := ir_phase res\<rparr> else res1);
                   cleanupErr = ''cleanup failed and the machine needs attention -- it may still have installer media attached and a one-time boot override set (eject: ''
                     @ err_text (ie_eject e) @ '', clear boot override: '' @ err_text (ie_clear e) @ '', remove image: '' @ err_text removeErr @ '')''
               in (res2, Some (case err of None \<Rightarrow> cleanupErr | Some x \<Rightarrow> x @ ''; additionally, '' @ cleanupErr), tr2))))"

definition new_res :: inst_res where
  "new_res = \<lparr>ir_phase = PhasePending, ir_failedPhase = '''', ir_hostKey = '''', ir_kubeconfig = None, ir_nodeName = ''''\<rparr>"

definition Install :: "inst_env \<Rightarrow> pv_spec \<Rightarrow> inst_opts \<Rightarrow> inst_run" where
  "Install e s0 opt =
     (let s = s0\<lparr>ps_bootMode := io_bootMode opt\<rparr>;
          st = report e PhasePending (new_res, [])
      in case validateOptions opt of
           Some x \<Rightarrow> failed e PhasePending x st
         | None \<Rightarrow>
      (case validatePendingSpec (ie_parseKey e) (ie_parseURL e) s (io_nodeAddress opt) of
           Some x \<Rightarrow> failed e PhasePending x st
         | None \<Rightarrow>
      (let st1 = tell [ReadSerial] st in
       case ie_serial e of
           Inl x \<Rightarrow> failed e PhasePending (phaseErr (ie_ctx e PhasePending) (''reading the machine's serial: '' @ x)) st1
         | Inr serial \<Rightarrow>
      (case checkConfirmedSerial serial (io_confirmSerial opt) of
           Some x \<Rightarrow> failed e PhasePending x st1
         | None \<Rightarrow>
      (let st2 = tell [BuildImage s] (report e PhasePreparing st1) in
       case ie_build e s of
           Inl x \<Rightarrow> failed e PhasePreparing (phaseErr (ie_ctx e PhasePreparing) (''building the installer image: '' @ x)) st2
         | Inr (url, token) \<Rightarrow>
             cleanup e token (touched e s opt url (tell (if ie_reportToken e then [ReportToken token] else []) st2)))))))"

end
