(* ===== verification/Install_Safety.thy ===== *)
theory Install_Safety
  imports Provision_Install
begin

text \<open>
  What an installation guarantees, on every path: the calls it makes before it knows which machine it
  drives, what it leaves on the hardware, and what it means to have ended well.
\<close>

section \<open>The hardware\<close>

text \<open>
  What the calls may have left on the machine: a call that inserts or overrides counts whatever it
  answered, one that undoes counts only when it succeeded.
\<close>

record hardware =
  hw_media :: bool
  hw_override :: bool

fun hw_step :: "inst_env \<Rightarrow> act \<Rightarrow> hardware \<Rightarrow> hardware" where
  "hw_step e (InsertMedia u) h = h\<lparr>hw_media := True\<rparr>"
| "hw_step e (SetBootOnce t m) h = h\<lparr>hw_override := True\<rparr>"
| "hw_step e EjectMedia h = (if ie_eject e = None then h\<lparr>hw_media := False\<rparr> else h)"
| "hw_step e ClearBootOverride h = (if ie_clear e = None then h\<lparr>hw_override := False\<rparr> else h)"
| "hw_step e a h = h"

definition hw_clean :: hardware where
  "hw_clean = \<lparr>hw_media = False, hw_override = False\<rparr>"

definition hw_after :: "inst_env \<Rightarrow> act list \<Rightarrow> hardware" where
  "hw_after e tr = fold (hw_step e) tr hw_clean"

text \<open>The calls that change a machine, send it something, or take its image away.\<close>

fun changes_machine :: "act \<Rightarrow> bool" where
  "changes_machine (InsertMedia u) = True"
| "changes_machine (SetBootOnce t m) = True"
| "changes_machine (ResetMachine t) = True"
| "changes_machine EjectMedia = True"
| "changes_machine ClearBootOverride = True"
| "changes_machine (Sent x) = True"
| "changes_machine (RemoveImage t) = True"
| "changes_machine a = False"

fun phases :: "act list \<Rightarrow> string list" where
  "phases [] = []"
| "phases (Report p # as) = p # phases as"
| "phases (a # as) = phases as"

lemma phases_append [simp]: "phases (as @ bs) = phases as @ phases bs"
  by (induction as rule: phases.induct) auto

lemma phases_sent [simp]: "phases (map Sent cmds) = []"
  by (induction cmds) auto

lemma phases_polls [simp]: "phases (replicate n (NodeReady k h)) = []"
  by (induction n) auto

lemma idle_hw [simp]: "\<not> list_ex changes_machine as \<Longrightarrow> fold (hw_step e) as h = h"
proof (induction as arbitrary: h)
  case (Cons a as)
  then show ?case by (cases a) auto
qed simp

section \<open>How a run splits\<close>

text \<open>Either the machine was never touched and the run failed, or every guard passed and the cleanup ran.\<close>

lemma checkConfirmedSerial_None:
  "checkConfirmedSerial serial confirmed = None \<longleftrightarrow> confirmed \<noteq> '''' \<and> serial = confirmed"
  unfolding checkConfirmedSerial_def by auto

lemma Install_cases:
  obtains (refused) p x as where
      "Install e s opt = (new_res\<lparr>ir_phase := PhaseFailed, ir_failedPhase := p\<rparr>, Some x, as)" "p = PhasePending \<or> p = PhasePreparing"
      "\<not> list_ex changes_machine as"
      "ie_report e \<Longrightarrow> phases as = (if p = PhasePending then [PhasePending] else [PhasePending, PhasePreparing]) @ [PhaseFailed]"
  | (driven) url token as where
      "validateOptions opt = None" "validatePendingSpec (ie_parseKey e) (ie_parseURL e) (s\<lparr>ps_bootMode := io_bootMode opt\<rparr>) (io_nodeAddress opt) = None"
      "ie_serial e = Inr (io_confirmSerial opt)" "io_confirmSerial opt \<noteq> ''''"
      "ie_build e (s\<lparr>ps_bootMode := io_bootMode opt\<rparr>) = Inr (url, token)"
      "Install e s opt = cleanup e token (touched e (s\<lparr>ps_bootMode := io_bootMode opt\<rparr>) opt url (new_res\<lparr>ir_phase := PhasePreparing\<rparr>, as))"
      "\<not> list_ex changes_machine as"
      "ie_report e \<Longrightarrow> phases as = [PhasePending, PhasePreparing]"
proof (cases "validateOptions opt")
  case (Some x)
  then show ?thesis
    by (intro refused [where p = PhasePending and x = x])
      (auto simp: Install_def failed_def report_def new_res_def split: if_splits)
next
  case None
  note opts = this
  let ?s = "s\<lparr>ps_bootMode := io_bootMode opt\<rparr>"
  show ?thesis
  proof (cases "validatePendingSpec (ie_parseKey e) (ie_parseURL e) ?s (io_nodeAddress opt)")
    case (Some x)
    with opts show ?thesis
      by (intro refused [where p = PhasePending and x = x])
        (auto simp: Install_def failed_def report_def new_res_def split: if_splits)
  next
    case None
    note spec = this
    show ?thesis
    proof (cases "\<exists>serial. ie_serial e = Inr serial \<and> checkConfirmedSerial serial (io_confirmSerial opt) = None")
      case False
      then obtain x where "Install e s opt = failed e PhasePending x (tell [ReadSerial] (report e PhasePending (new_res, [])))"
        using opts spec by (cases "ie_serial e") (auto simp: Install_def Let_def)
      then show ?thesis
        by (intro refused [where p = PhasePending and x = x])
          (auto simp: failed_def report_def tell_def new_res_def split: if_splits)
    next
      case True
      then have ser: "ie_serial e = Inr (io_confirmSerial opt)" "io_confirmSerial opt \<noteq> ''''"
        "checkConfirmedSerial (io_confirmSerial opt) (io_confirmSerial opt) = None"
        by (auto simp: checkConfirmedSerial_None)
      show ?thesis
      proof (cases "ie_build e ?s")
        case (Inl x)
        with opts spec ser show ?thesis
          by (intro refused [where p = PhasePreparing])
            (auto simp: Install_def Let_def failed_def report_def tell_def new_res_def phase_defs split: if_splits)
      next
        case (Inr ut)
        obtain url token where "ut = (url, token)" by (cases ut)
        with Inr opts spec ser show ?thesis
          by (intro driven [where url = url and token = token])
            (auto simp: Install_def Let_def report_def tell_def new_res_def split: if_splits)
      qed
    qed
  qed
qed

section \<open>How a driven run ends\<close>

fun undoes :: "act \<Rightarrow> bool" where
  "undoes EjectMedia = True"
| "undoes ClearBootOverride = True"
| "undoes (RemoveImage t) = True"
| "undoes a = False"

text \<open>
  A part of a run that enters the phases of \<open>path\<close>: it ends well after all of them, or reports one
  failure after some of them, and undoes nothing itself.
\<close>

definition ends :: "string list \<Rightarrow> inst_env \<Rightarrow> inst_res \<Rightarrow> inst_res \<Rightarrow> string option \<Rightarrow> act list \<Rightarrow> bool" where
  "ends path e res r err bs \<longleftrightarrow>
     (\<exists>n \<le> length path. (ie_report e \<longrightarrow> phases bs = take n path @ (if err = None then [] else [PhaseFailed]))
        \<and> (err = None \<longrightarrow> n = length path))
     \<and> (if err = None then ir_phase r = PhaseReady \<and> ir_failedPhase r = ir_failedPhase res
        else ir_phase r = PhaseFailed \<and> ir_failedPhase r \<in> set requiredPhaseTimeouts)
     \<and> \<not> list_ex undoes bs"

lemma ends_phases:
  assumes "ends path e res r err bs" "ie_report e"
  obtains n where "n \<le> length path" "phases bs = take n path @ (if err = None then [] else [PhaseFailed])" "err = None \<longrightarrow> n = length path"
  using assms unfolding ends_def by blast

lemma ends_failed:
  assumes "p \<in> set requiredPhaseTimeouts" "ie_report e \<Longrightarrow> \<exists>n \<le> length path. phases b0 = take n path" "\<not> list_ex undoes b0"
  shows "\<exists>r bs. failed e p x (res', tr @ b0) = (r, Some x, tr @ bs) \<and> ends path e res r (Some x) bs"
  using assms by (auto simp: failed_def report_def ends_def split: if_splits)

lemma ends_after:
  assumes "ends p2 e res' r err b1" "ie_report e \<Longrightarrow> phases b0 = p1" "\<not> list_ex undoes b0" "ir_failedPhase res' = ir_failedPhase res"
  shows "ends (p1 @ p2) e res r err (b0 @ b1)"
proof -
  obtain n where n: "n \<le> length p2" "ie_report e \<longrightarrow> phases b1 = take n p2 @ (if err = None then [] else [PhaseFailed])"
    "err = None \<longrightarrow> n = length p2"
    using assms(1) unfolding ends_def by auto
  then have "\<exists>m \<le> length (p1 @ p2).
      (ie_report e \<longrightarrow> phases (b0 @ b1) = take m (p1 @ p2) @ (if err = None then [] else [PhaseFailed])) \<and> (err = None \<longrightarrow> m = length (p1 @ p2))"
    using assms(2) by (intro exI [where x = "length p1 + n"]) auto
  moreover have "if err = None then ir_phase r = PhaseReady \<and> ir_failedPhase r = ir_failedPhase res
      else ir_phase r = PhaseFailed \<and> ir_failedPhase r \<in> set requiredPhaseTimeouts" "\<not> list_ex undoes (b0 @ b1)"
    using assms(1,3,4) unfolding ends_def by auto
  ultimately show ?thesis unfolding ends_def by (intro conjI)
qed

lemma required_phases [simp]:
  "PhaseReady \<in> set requiredPhaseTimeouts" "PhaseJoining \<in> set requiredPhaseTimeouts" "PhaseInstalling \<in> set requiredPhaseTimeouts"
  "PhaseMediaAttached \<in> set requiredPhaseTimeouts" "PhasePreparing \<in> set requiredPhaseTimeouts"
  "PhasePending \<in> set requiredPhaseTimeouts"
  by (simp_all add: requiredPhaseTimeouts_def)

lemma undoes_polls [simp]: "\<not> list_ex undoes (replicate n (NodeReady k h))"
  by (induction n) auto

lemma undoes_sent [simp]: "\<not> list_ex undoes (map Sent cmds)"
  by (induction cmds) auto

lemma ready_phase_ends:
  obtains r err bs where "ready_phase e s k (res, tr) = (r, err, tr @ bs)" "ends [PhaseReady] e res r err bs"
    "err = None \<Longrightarrow> Inr True \<in> set (ie_poll e # ie_polls e) \<and> ir_hostKey r = ir_hostKey res \<and> ir_kubeconfig r = ir_kubeconfig res"
proof -
  obtain x n where l: "ready_loop (ps_hostname s) None (ie_poll e) (ie_polls e) = (x, n)"
    by (cases "ready_loop (ps_hostname s) None (ie_poll e) (ie_polls e)")
  have poll: "x = None \<Longrightarrow> Inr True \<in> set (a # bs)" if "ready_loop h lst a bs = (x, n)" for h lst a bs
    using that by (induction h lst a bs arbitrary: n rule: ready_loop.induct) (auto simp: Let_def split: prod.splits)
  show ?thesis
  proof (cases x)
    case None
    have "ready_phase e s k (res, tr) = (res\<lparr>ir_nodeName := ps_hostname s, ir_phase := PhaseReady\<rparr>, None,
        tr @ replicate n (NodeReady k (ps_hostname s)) @ (if ie_report e then [Report PhaseReady] else []))"
      using l None by (simp add: ready_phase_def report_def Let_def)
    then show ?thesis
      by (rule that) (use None poll [OF l] in \<open>auto simp: ends_def intro!: exI [where x = 1]\<close>)
  next
    case (Some y)
    obtain r bs where "failed e PhaseReady (phaseErr (ie_ctx e PhaseReady) y)
        (res\<lparr>ir_nodeName := ps_hostname s\<rparr>, tr @ replicate n (NodeReady k (ps_hostname s))) = (r, Some (phaseErr (ie_ctx e PhaseReady) y), tr @ bs)"
      "ends [PhaseReady] e res r (Some (phaseErr (ie_ctx e PhaseReady) y)) bs"
      using ends_failed [of PhaseReady e "[PhaseReady]" "replicate n (NodeReady k (ps_hostname s))"] by fastforce
    then show ?thesis using l Some by (intro that) (auto simp: ready_phase_def Let_def)
  qed
qed

text \<open>What a run that joined relies on: the pinned dial, the join and the cluster's answer.\<close>

definition joined :: "inst_env \<Rightarrow> pv_spec \<Rightarrow> inst_opts \<Rightarrow> string \<Rightarrow> string option \<Rightarrow> bool" where
  "joined e s opt hostKey kubeconfig \<longleftrightarrow>
     (\<exists>sess cmds. Dial (ie_keyError e) (ie_joinConn e) (JoinHostPort (io_nodeAddress opt) ''22'') (io_sshKey opt) hostKey = Inr sess
        \<and> Join (ie_parseURL e) (ie_unmarshal e) (ie_marshal e) sess (ps_cluster s) (io_nodeAddress opt) = (Inr kubeconfig, cmds))
     \<and> Inr True \<in> set (ie_poll e # ie_polls e)"

lemma join_phase_ends:
  obtains r err bs where "join_phase e s opt (res, tr) = (r, err, tr @ bs)" "ends [PhaseJoining, PhaseReady] e res r err bs"
    "err = None \<Longrightarrow> ir_hostKey r = ir_hostKey res \<and> joined e s opt (ir_hostKey r) (ir_kubeconfig r)"
proof -
  let ?addr = "JoinHostPort (io_nodeAddress opt) ''22''"
  let ?b0 = "(if ie_report e then [Report PhaseJoining] else []) @ [DialMachine ?addr (io_sshUser opt) (ir_hostKey res)]"
  let ?res = "res\<lparr>ir_phase := PhaseJoining\<rparr>"
  have fails: "\<exists>r y bs. join_phase e s opt (res, tr) = (r, Some y, tr @ bs) \<and> ends [PhaseJoining, PhaseReady] e res r (Some y) bs"
    if eq: "join_phase e s opt (res, tr) = failed e PhaseJoining x (?res, tr @ (?b0 @ c))" and c: "phases c = []" "\<not> list_ex undoes c" for x c
  proof -
    have "\<exists>r bs. failed e PhaseJoining x (?res, tr @ (?b0 @ c)) = (r, Some x, tr @ bs) \<and> ends [PhaseJoining, PhaseReady] e res r (Some x) bs"
      by (rule ends_failed) (use c in \<open>auto intro: exI [where x = 1]\<close>)
    then show ?thesis unfolding eq by blast
  qed
  show ?thesis
  proof (cases "Dial (ie_keyError e) (ie_joinConn e) ?addr (io_sshKey opt) (ir_hostKey res)")
    case (Inl x)
    then have "join_phase e s opt (res, tr) = failed e PhaseJoining (phaseErr (ie_ctx e PhaseJoining) x) (?res, tr @ (?b0 @ []))"
      by (simp add: join_phase_def Let_def report_def tell_def)
    then show ?thesis using fails [of _ "[]"] that by auto
  next
    case (Inr sess)
    obtain q cmds where j: "Join (ie_parseURL e) (ie_unmarshal e) (ie_marshal e) sess (ps_cluster s) (io_nodeAddress opt) = (q, cmds)"
      by (cases "Join (ie_parseURL e) (ie_unmarshal e) (ie_marshal e) sess (ps_cluster s) (io_nodeAddress opt)")
    let ?c = "map Sent cmds @ [CloseSession]"
    show ?thesis
    proof (cases q)
      case (Inl x)
      with Inr j have "join_phase e s opt (res, tr) = failed e PhaseJoining (phaseErr (ie_ctx e PhaseJoining) x) (?res, tr @ (?b0 @ ?c))"
        by (simp add: join_phase_def Let_def report_def tell_def)
      then show ?thesis using fails [of _ ?c] that by auto
    next
      case k: (Inr kc)
      obtain r err bs where run: "ready_phase e s kc (?res\<lparr>ir_kubeconfig := kc\<rparr>, tr @ ?b0 @ ?c) = (r, err, (tr @ ?b0 @ ?c) @ bs)"
        "ends [PhaseReady] e (?res\<lparr>ir_kubeconfig := kc\<rparr>) r err bs"
        "err = None \<Longrightarrow> Inr True \<in> set (ie_poll e # ie_polls e) \<and> ir_hostKey r = ir_hostKey res \<and> ir_kubeconfig r = kc"
        using ready_phase_ends [of e s kc "?res\<lparr>ir_kubeconfig := kc\<rparr>" "tr @ ?b0 @ ?c"] by auto
      have "ends ([PhaseJoining] @ [PhaseReady]) e res r err ((?b0 @ ?c) @ bs)"
        by (rule ends_after [OF run(2)]) auto
      then show ?thesis
        using Inr j k run(1,3) by (intro that [of r err "(?b0 @ ?c) @ bs"]) (auto simp: join_phase_def Let_def report_def tell_def joined_def)
    qed
  qed
qed

text \<open>What ends the phase Installing well: a machine at the address that carries this run's UID.\<close>

definition proven :: "inst_env \<Rightarrow> pv_spec \<Rightarrow> inst_opts \<Rightarrow> inst_res \<Rightarrow> bool" where
  "proven e s opt r \<longleftrightarrow>
     WaitForOurSystem (ie_keyError e) (JoinHostPort (io_nodeAddress opt) ''22'') (io_sshKey opt) (ps_uid s) (ie_waitErr e) (ie_conns e)
       = Inr (ir_hostKey r)
     \<and> joined e s opt (ir_hostKey r) (ir_kubeconfig r)"

lemma installing_phase_ends:
  obtains r err bs where "installing_phase e s opt (res, tr) = (r, err, tr @ bs)"
    "ends [PhaseInstalling, PhaseInstalled, PhaseJoining, PhaseReady] e res r err bs" "err = None \<Longrightarrow> proven e s opt r"
proof -
  let ?addr = "JoinHostPort (io_nodeAddress opt) ''22''"
  let ?path = "[PhaseInstalling, PhaseInstalled, PhaseJoining, PhaseReady]"
  let ?b0 = "(if ie_report e then [Report PhaseInstalling] else []) @ [WaitSystem ?addr (io_sshUser opt) (ps_uid s)]"
  let ?b1 = "?b0 @ (if ie_report e then [Report PhaseInstalled] else [])"
  let ?w = "WaitForOurSystem (ie_keyError e) ?addr (io_sshKey opt) (ps_uid s) (ie_waitErr e) (ie_conns e)"
  show ?thesis
  proof (cases ?w)
    case (Inl x)
    then have eq: "installing_phase e s opt (res, tr) = failed e PhaseInstalling x (res\<lparr>ir_phase := PhaseInstalling\<rparr>, tr @ ?b0)"
      by (simp add: installing_phase_def Let_def report_def tell_def)
    have "\<exists>r bs. failed e PhaseInstalling x (res\<lparr>ir_phase := PhaseInstalling\<rparr>, tr @ ?b0) = (r, Some x, tr @ bs) \<and> ends ?path e res r (Some x) bs"
      by (rule ends_failed) (auto intro: exI [where x = 1])
    then show ?thesis using that unfolding eq by auto
  next
    case (Inr hk)
    let ?res = "res\<lparr>ir_phase := PhaseInstalling, ir_hostKey := hk, ir_phase := PhaseInstalled\<rparr>"
    obtain r err bs where run: "join_phase e s opt (?res, tr @ ?b1) = (r, err, (tr @ ?b1) @ bs)"
      "ends [PhaseJoining, PhaseReady] e ?res r err bs"
      "err = None \<Longrightarrow> ir_hostKey r = ir_hostKey ?res \<and> joined e s opt (ir_hostKey r) (ir_kubeconfig r)"
      using join_phase_ends by blast
    have eq: "installing_phase e s opt (res, tr) = join_phase e s opt (?res, tr @ ?b1)"
      using Inr by (simp add: installing_phase_def Let_def report_def tell_def)
    have "ends ([PhaseInstalling, PhaseInstalled] @ [PhaseJoining, PhaseReady]) e res r err (?b1 @ bs)"
      by (rule ends_after [OF run(2)]) auto
    then show ?thesis
      using run(3) Inr by (intro that [OF eq [unfolded run(1) append_assoc [of tr]]]) (auto simp: proven_def)
  qed
qed

lemma attachMediaAndBoot_quiet:
  assumes "attachMediaAndBoot e url mode = (x, as)"
  shows "phases as = []" "\<not> list_ex undoes as"
  using assms by (auto simp: attachMediaAndBoot_def Let_def split: option.splits sum.splits if_splits)

lemma touched_ends:
  obtains r err bs where "touched e s opt url (res, tr) = (r, err, tr @ bs)"
    "ends [PhaseMediaAttached, PhaseInstalling, PhaseInstalled, PhaseJoining, PhaseReady] e res r err bs" "err = None \<Longrightarrow> proven e s opt r"
proof -
  let ?path = "[PhaseMediaAttached, PhaseInstalling, PhaseInstalled, PhaseJoining, PhaseReady]"
  let ?b0 = "if ie_before e = None then [] else [BeforeMedia]"
  obtain x as where att: "attachMediaAndBoot e url (io_bootMode opt) = (x, as)"
    by (cases "attachMediaAndBoot e url (io_bootMode opt)")
  let ?b1 = "?b0 @ (if ie_report e then [Report PhaseMediaAttached] else []) @ as"
  let ?res = "res\<lparr>ir_phase := PhaseMediaAttached\<rparr>"
  have "\<exists>r y bs. failed e p y' (res', tr @ b) = (r, Some y, tr @ bs) \<and> ends ?path e res r (Some y) bs"
    if "p \<in> set requiredPhaseTimeouts" "ie_report e \<Longrightarrow> \<exists>n \<le> length ?path. phases b = take n ?path" "\<not> list_ex undoes b" for p y' b res'
    using ends_failed [OF that, where x = y' and res' = res' and tr = tr and res = res] by blast
  note fails = this
  consider (before) y where "ie_before e = Some (Some y)" | (media) y where "\<forall>z. ie_before e \<noteq> Some (Some z)" "x = Some y"
    | (on) "\<forall>z. ie_before e \<noteq> Some (Some z)" "x = None"
    by (cases x) auto
  then show ?thesis
  proof cases
    case before
    then have "touched e s opt url (res, tr) = failed e PhasePreparing
        (phaseErr (ie_ctx e PhasePreparing) (''the last check before media is attached refused: '' @ y)) (res, tr @ [BeforeMedia])"
      by (simp add: touched_def Let_def tell_def)
    then obtain z where "touched e s opt url (res, tr) = failed e PhasePreparing z (res, tr @ [BeforeMedia])" by blast
    moreover have "\<exists>r y' bs. failed e PhasePreparing z (res, tr @ [BeforeMedia]) = (r, Some y', tr @ bs) \<and> ends ?path e res r (Some y') bs"
      by (rule fails) auto
    ultimately show ?thesis using that by auto
  next
    case media
    then have "touched e s opt url (res, tr) = failed e PhaseMediaAttached y (?res, tr @ ?b1)"
      using att by (cases "ie_before e") (auto simp: touched_def Let_def tell_def report_def split: option.splits)
    moreover have "\<exists>r y' bs. failed e PhaseMediaAttached y (?res, tr @ ?b1) = (r, Some y', tr @ bs) \<and> ends ?path e res r (Some y') bs"
      by (rule fails) (use attachMediaAndBoot_quiet [OF att] in \<open>auto intro: exI [where x = 1]\<close>)
    ultimately show ?thesis using that by auto
  next
    case on
    obtain r err bs where run: "installing_phase e s opt (?res, tr @ ?b1) = (r, err, (tr @ ?b1) @ bs)"
      "ends [PhaseInstalling, PhaseInstalled, PhaseJoining, PhaseReady] e ?res r err bs" "err = None \<Longrightarrow> proven e s opt r"
      using installing_phase_ends by blast
    have "touched e s opt url (res, tr) = installing_phase e s opt (?res, tr @ ?b1)"
      using on att by (cases "ie_before e") (auto simp: touched_def Let_def tell_def report_def split: option.splits)
    moreover have "ends ([PhaseMediaAttached] @ [PhaseInstalling, PhaseInstalled, PhaseJoining, PhaseReady]) e res r err (?b1 @ bs)"
      by (rule ends_after [OF run(2)]) (use attachMediaAndBoot_quiet [OF att] in auto)
    ultimately show ?thesis using run(1,3) by (intro that [of r err "?b1 @ bs"]) auto
  qed
qed

section \<open>The cleanup\<close>

text \<open>The text every run ends with that could not put the machine back.\<close>

definition needs_attention :: "string \<Rightarrow> bool" where
  "needs_attention err \<longleftrightarrow> contains err ''cleanup failed and the machine needs attention -- it may still have installer media attached and a one-time boot override set''"

lemma contains_after: "contains (a @ b @ c) b"
proof (induction a)
  case Nil
  have "has_prefix (b @ c) b" by (simp add: has_prefix_def)
  then show ?case by (cases "b @ c") simp_all
qed simp

definition undone :: "inst_env \<Rightarrow> bool" where
  "undone e \<longleftrightarrow> ie_eject e = None \<and> ie_clear e = None \<and> ie_remove e = None"

lemma cleanup_done:
  assumes "undone e"
  shows "cleanup e token (r, err, tr) = (r, err, tr @ [EjectMedia, ClearBootOverride, RemoveImage token])"
  using assms by (simp add: cleanup_def undone_def)

lemma cleanup_not_done:
  assumes "\<not> undone e"
  obtains r' x bs where "cleanup e token (r, err, tr) = (r', Some x, tr @ [EjectMedia, ClearBootOverride] @ bs)"
    "ir_phase r' = PhaseFailed" "ir_failedPhase r' = (if ir_failedPhase r = '''' then ir_phase r else ir_failedPhase r)"
    "needs_attention x" "\<forall>h. fold (hw_step e) bs h = h" "ie_report e \<Longrightarrow> phases bs = [PhaseFailed]"
    "\<forall>t. RemoveImage t \<in> set bs \<longrightarrow> ie_eject e = None"
proof -
  define why where "why = ''cleanup failed and the machine needs attention -- it may still have installer media attached and a one-time boot override set''"
  let ?rm = "if ie_eject e = None then ie_remove e else None"
  define rest where "rest = '' (eject: '' @ err_text (ie_eject e) @ '', clear boot override: '' @ err_text (ie_clear e) @ '', remove image: '' @ err_text ?rm @ '')''"
  have any: "\<not> (ie_eject e = None \<and> ie_clear e = None \<and> ?rm = None)"
    using assms by (auto simp: undone_def)
  define x where "x = (case err of None \<Rightarrow> why @ rest | Some y \<Rightarrow> y @ ''; additionally, '' @ why @ rest)"
  define bs where "bs = (if ie_eject e = None then [RemoveImage token] else []) @ (if ie_report e then [Report PhaseFailed] else [])"
  define r' where "r' = (if ir_failedPhase r = '''' then r\<lparr>ir_phase := PhaseFailed, ir_failedPhase := ir_phase r\<rparr> else r\<lparr>ir_phase := PhaseFailed\<rparr>)"
  have "contains x why"
    using contains_after [of "[]" why rest] contains_after [where a = "the err @ ''; additionally, ''" and b = why and c = rest]
    by (cases err) (simp_all add: x_def)
  then have "needs_attention x" by (simp add: needs_attention_def why_def)
  moreover have "cleanup e token (r, err, tr) = (r', Some x, tr @ [EjectMedia, ClearBootOverride] @ bs)"
    using any unfolding cleanup_def by (cases err) (simp_all add: Let_def report_def r'_def x_def bs_def why_def rest_def)
  ultimately show ?thesis
    by (intro that [of r' x bs]) (auto simp: r'_def bs_def)
qed

lemma cleanup_fails:
  assumes "cleanup e token (r0, err0, tr0) = (r, err, tr)" "ends path e new_res r0 err0 bs" "\<not> (undone e \<and> err0 = None)"
  shows "err \<noteq> None \<and> ir_phase r = PhaseFailed \<and> ir_failedPhase r \<in> set requiredPhaseTimeouts"
proof (cases "undone e")
  case True
  then show ?thesis using assms cleanup_done [OF True, of token r0 err0 tr0] by (auto simp: ends_def)
next
  case False
  then obtain x where "err = Some x" "ir_phase r = PhaseFailed"
    "ir_failedPhase r = (if ir_failedPhase r0 = '''' then ir_phase r0 else ir_failedPhase r0)"
    using assms(1) by (elim cleanup_not_done [of e token r0 err0 tr0]) auto
  then show ?thesis using assms(2) by (cases err0) (auto simp: ends_def new_res_def requiredPhaseTimeouts_def phase_defs)
qed

lemma hw_cleaned:
  assumes "\<forall>h. fold (hw_step e) bs h = h"
  shows "hw_media (hw_after e (tr @ [EjectMedia, ClearBootOverride] @ bs)) \<longrightarrow> ie_eject e \<noteq> None"
    and "hw_override (hw_after e (tr @ [EjectMedia, ClearBootOverride] @ bs)) \<longrightarrow> ie_clear e \<noteq> None"
  using assms by (auto simp: hw_after_def)

end
