(* ===== verification/Disk_Script.thy ===== *)
theory Disk_Script
  imports Provision_Render "HOL-Library.Sublist"
begin

text \<open>
  What the installer's shell does with the command of \<open>diskResolution\<close>: a reading of the POSIX shell
  as far as such commands go, written from the shell's rules and not from the command. What it does not
  know -- another program, an unquoted expansion, an open quote -- is \<^const>\<open>None\<close>.
\<close>

section \<open>Words\<close>

text \<open>Each character of a word keeps how it was quoted. \<open>Subst w\<close> is a word's beginning followed by \<open>$(\<close>.\<close>

datatype quoting = Bare | Dbl | Sgl

type_synonym sh_word = "(quoting \<times> char) list"

datatype dtok = Wd sh_word | Opr string | Subst sh_word

definition opened :: "sh_word option \<Rightarrow> sh_word" where
  "opened w = (case w of None \<Rightarrow> [] | Some cs \<Rightarrow> cs)"

definition ended :: "sh_word option \<Rightarrow> dtok list" where
  "ended w = (case w of None \<Rightarrow> [] | Some cs \<Rightarrow> [Wd cs])"

fun lex_sh :: "sh_word option \<Rightarrow> quoting \<Rightarrow> string \<Rightarrow> dtok list option" where
  "lex_sh w Sgl [] = None"
| "lex_sh w Sgl (c # cs) = (if c = CHR 0x27 then lex_sh w Bare cs else lex_sh (Some (opened w @ [(Sgl, c)])) Sgl cs)"
| "lex_sh w Dbl [] = None"
| "lex_sh w Dbl (c # cs) =
     (if c = CHR 0x22 then lex_sh w Bare cs
      else if c = CHR 0x5C \<or> c = CHR 0x60 then None
      else lex_sh (Some (opened w @ [(Dbl, c)])) Dbl cs)"
| "lex_sh w Bare [] = Some (ended w)"
| "lex_sh w Bare (c # cs) =
     (if c = CHR 0x27 then lex_sh (Some (opened w)) Sgl cs
      else if c = CHR 0x22 then lex_sh (Some (opened w)) Dbl cs
      else if c = CHR 0x5C \<or> c = CHR 0x60 \<or> c = CHR 0x0A \<or> c = CHR 0x23 then None
      else if c = CHR '' '' \<or> c = CHR 0x09 then map_option (\<lambda>r. ended w @ r) (lex_sh None Bare cs)
      else if c = CHR ''$'' \<and> cs \<noteq> [] \<and> hd cs = CHR ''('' then map_option (\<lambda>r. Subst (opened w) # r) (lex_sh None Bare (tl cs))
      else if c \<in> set ''&|'' \<and> cs \<noteq> [] \<and> hd cs = c then map_option (\<lambda>r. ended w @ Opr [c, c] # r) (lex_sh None Bare (tl cs))
      else if c \<in> set '';&|<>()'' then map_option (\<lambda>r. ended w @ Opr [c] # r) (lex_sh None Bare cs)
      else lex_sh (Some (opened w @ [(Bare, c)])) Bare cs)"

definition bare :: "string \<Rightarrow> sh_word" where
  "bare s = map (Pair Bare) s"

section \<open>Expansion\<close>

definition var_char :: "char \<Rightarrow> bool" where
  "var_char c \<longleftrightarrow> alnum c \<or> c = CHR ''_''"

text \<open>A variable inside double quotes is its value, unset the empty one, and is not split again.\<close>

function expand :: "(string \<rightharpoonup> string) \<Rightarrow> sh_word \<Rightarrow> string option" where
  "expand vs [] = Some []"
| "expand vs ((q, c) # cs) =
     (if q = Bare \<and> c \<in> set ''$*?~'' then None
      else if q = Dbl \<and> c = CHR ''$'' then
        (let isv = (\<lambda>x. fst x = Dbl \<and> var_char (snd x)); name = map snd (takeWhile isv cs) in
         if name = [] then None
         else map_option (\<lambda>r. (case vs name of None \<Rightarrow> [] | Some v \<Rightarrow> v) @ r) (expand vs (dropWhile isv cs)))
      else map_option (\<lambda>r. c # r) (expand vs cs))"
  by pat_completeness auto
termination by (relation "measure (\<lambda>(vs, w). length w)") (auto simp: le_imp_less_Suc length_dropWhile_le)

section \<open>Commands\<close>

text \<open>\<open>s#pattern#text#g\<close> on one string, for a pattern and a text in which sed gives no character a meaning.\<close>

function replace_all :: "string \<Rightarrow> string \<Rightarrow> string \<Rightarrow> string" where
  "replace_all pat rep [] = []"
| "replace_all pat rep (c # cs) =
     (if pat \<noteq> [] \<and> has_prefix (c # cs) pat then rep @ replace_all pat rep (drop (length pat) (c # cs))
      else c # replace_all pat rep cs)"
  by pat_completeness auto
termination by (relation "measure (\<lambda>(p, r, s). length s)") auto

definition sed_literal :: "string \<Rightarrow> bool" where
  "sed_literal s \<longleftrightarrow> list_all (\<lambda>c. c \<notin> set ''&#'' \<and> c \<noteq> CHR 0x5C \<and> c \<noteq> CHR 0x0A) s"

definition sed_script :: "string \<Rightarrow> (string \<times> string) option" where
  "sed_script e =
     (case split_char (CHR ''#'') e of
        [s, pat, rep, g] \<Rightarrow>
          if s = ''s'' \<and> g = ''g'' \<and> pat \<noteq> [] \<and> sed_literal pat \<and> list_all (\<lambda>c. c \<notin> set ''.*[]^$'') pat \<and> sed_literal rep
          then Some (pat, rep) else None
      | _ \<Rightarrow> None)"

text \<open>
  The machine a command runs on: \<open>readlink -f\<close> of a name, \<^const>\<open>None\<close> when it fails, and which paths are block
  devices. The state: the variables, the paths in \<open>/autoinstall.yaml\<close>, and what went to the console.
\<close>

record sh_state =
  sh_vars :: "string \<rightharpoonup> string"
  sh_paths :: "string list"
  sh_console :: "string list"

datatype sh_end = Status bool | Exit1

type_synonym sh_result = "(sh_end \<times> sh_state) option"

fun words_of :: "dtok list \<Rightarrow> sh_word list option" where
  "words_of [] = Some []"
| "words_of (Wd w # ts) = map_option (\<lambda>r. w # r) (words_of ts)"
| "words_of (t # ts) = None"

fun expand_all :: "(string \<rightharpoonup> string) \<Rightarrow> sh_word list \<Rightarrow> string list option" where
  "expand_all vs [] = Some []"
| "expand_all vs (w # ws) = (case expand vs w of None \<Rightarrow> None | Some x \<Rightarrow> map_option (\<lambda>r. x # r) (expand_all vs ws))"

definition command_words :: "sh_state \<Rightarrow> dtok list \<Rightarrow> string list option" where
  "command_words st ts = (case words_of ts of None \<Rightarrow> None | Some ws \<Rightarrow> expand_all (sh_vars st) ws)"

definition builtin :: "(string \<Rightarrow> bool) \<Rightarrow> sh_state \<Rightarrow> string list \<Rightarrow> sh_result" where
  "builtin blk st args =
     (case args of
        [a, b, x, y] \<Rightarrow>
          if a = ''['' \<and> b = ''-b'' \<and> y = '']'' then Some (Status (blk x), st)
          else if a = ''sed'' \<and> b = ''-i'' \<and> y = ''/autoinstall.yaml'' then
            map_option (\<lambda>(pat, rep). (Status True, st\<lparr>sh_paths := map (replace_all pat rep) (sh_paths st)\<rparr>)) (sed_script x)
          else None
      | [a, x, b, y, z] \<Rightarrow> if a = ''['' \<and> b = ''!='' \<and> z = '']'' then Some (Status (x \<noteq> y), st) else None
      | [a, b] \<Rightarrow> if a = ''exit'' \<and> b = ''1'' then Some (Exit1, st) else None
      | _ \<Rightarrow> None)"

text \<open>A simple command: an assignment from \<open>readlink\<close>, an \<open>echo\<close> to the console, or a program with its arguments.\<close>

definition simple :: "(string \<Rightarrow> string option) \<Rightarrow> (string \<Rightarrow> bool) \<Rightarrow> sh_state \<Rightarrow> dtok list \<Rightarrow> sh_result" where
  "simple rl blk st ts =
     (case ts of
        Subst w # r \<Rightarrow>
          (let name = butlast (map snd w) in
           if name = [] \<or> w \<noteq> bare (name @ ''='') \<or> \<not> list_all var_char name \<or> r = [] \<or> last r \<noteq> Opr '')'' then None
           else case command_words st (butlast r) of
             Some [a, b, x] \<Rightarrow>
               if a = ''readlink'' \<and> b = ''-f'' then
                 (case rl x of
                    None \<Rightarrow> Some (Status False, st\<lparr>sh_vars := (sh_vars st)(name \<mapsto> [])\<rparr>)
                  | Some p \<Rightarrow> Some (Status True, st\<lparr>sh_vars := (sh_vars st)(name \<mapsto> p)\<rparr>))
               else None
           | _ \<Rightarrow> None)
      | [Wd a, Wd x, Opr g, Wd f] \<Rightarrow>
          (case command_words st [Wd a, Wd x, Wd f] of
             Some [a', x', f'] \<Rightarrow>
               if a' = ''echo'' \<and> g = ''>'' \<and> f' = ''/dev/console'' then Some (Status True, st\<lparr>sh_console := sh_console st @ [x']\<rparr>) else None
           | _ \<Rightarrow> None)
      | _ \<Rightarrow> (case command_words st ts of None \<Rightarrow> None | Some args \<Rightarrow> builtin blk st args))"

section \<open>Lists of commands\<close>

datatype conn = Then | AndThen | OrElse

fun split_cmds :: "conn \<Rightarrow> dtok list \<Rightarrow> dtok list \<Rightarrow> (conn \<times> dtok list) list" where
  "split_cmds c acc [] = (if acc = [] \<and> c = Then then [] else [(c, acc)])"
| "split_cmds c acc (t # ts) =
     (if t = Opr '';'' then (c, acc) # split_cmds Then [] ts
      else if t = Opr ''&&'' then (c, acc) # split_cmds AndThen [] ts
      else if t = Opr ''||'' then (c, acc) # split_cmds OrElse [] ts
      else split_cmds c (acc @ [t]) ts)"

datatype sh_cmd = Simple "dtok list" | Group "(conn \<times> dtok list) list"

text \<open>A group reaches from the word \<open>{\<close> at the beginning of a command to the command \<open>}\<close>.\<close>

definition closes :: "conn \<times> dtok list \<Rightarrow> bool" where
  "closes x \<longleftrightarrow> x = (Then, [Wd (bare ''}'')])"

function group_cmds :: "(conn \<times> dtok list) list \<Rightarrow> (conn \<times> sh_cmd) list" where
  "group_cmds [] = []"
| "group_cmds ((c, ts) # r) =
     (if ts \<noteq> [] \<and> hd ts = Wd (bare ''{'') \<and> list_ex closes r then
        (c, Group ((Then, tl ts) # takeWhile (\<lambda>x. \<not> closes x) r)) # group_cmds (tl (dropWhile (\<lambda>x. \<not> closes x) r))
      else (c, Simple ts) # group_cmds r)"
  by pat_completeness auto
termination
proof (relation "measure length", goal_cases)
  case (2 c ts r)
  have "length (dropWhile (\<lambda>x. \<not> closes x) r) \<le> length r" by (rule length_dropWhile_le)
  then show ?case by simp
qed auto

fun run_list :: "(sh_state \<Rightarrow> 'c \<Rightarrow> sh_result) \<Rightarrow> bool \<Rightarrow> sh_state \<Rightarrow> (conn \<times> 'c) list \<Rightarrow> sh_result" where
  "run_list run ok st [] = Some (Status ok, st)"
| "run_list run ok st ((c, x) # r) =
     (if c = AndThen \<and> \<not> ok \<or> c = OrElse \<and> ok then run_list run ok st r
      else case run st x of
        None \<Rightarrow> None
      | Some (Exit1, st') \<Rightarrow> Some (Exit1, st')
      | Some (Status b, st') \<Rightarrow> run_list run b st' r)"

definition run_cmd :: "(string \<Rightarrow> string option) \<Rightarrow> (string \<Rightarrow> bool) \<Rightarrow> sh_state \<Rightarrow> sh_cmd \<Rightarrow> sh_result" where
  "run_cmd rl blk st c = (case c of Simple ts \<Rightarrow> simple rl blk st ts | Group l \<Rightarrow> run_list (simple rl blk) True st l)"

text \<open>How a command ends and the paths it leaves in the document.\<close>

definition sh_run :: "(string \<Rightarrow> string option) \<Rightarrow> (string \<Rightarrow> bool) \<Rightarrow> string \<Rightarrow> string list \<Rightarrow> (sh_end \<times> string list) option" where
  "sh_run rl blk cmd paths =
     (case lex_sh None Bare cmd of
        None \<Rightarrow> None
      | Some ts \<Rightarrow>
          map_option (\<lambda>(e, st). (e, sh_paths st))
            (run_list (run_cmd rl blk) True \<lparr>sh_vars = Map.empty, sh_paths = paths, sh_console = []\<rparr> (group_cmds (split_cmds Then [] ts))))"

section \<open>The resolution of the disks\<close>

definition quoted_word :: "string \<Rightarrow> sh_word" where
  "quoted_word s = map (Pair Sgl) s"

lemma lex_quoted: "CHR 0x27 \<notin> set v \<Longrightarrow> lex_sh (Some w) Sgl (v @ r) = lex_sh (Some (w @ quoted_word v)) Sgl r"
  by (induction v arbitrary: w) (auto simp: opened_def quoted_word_def)

lemma expand_quoted: "expand vs (quoted_word s @ r) = map_option (\<lambda>x. s @ x) (expand vs r)"
  by (induction s) (auto simp: quoted_word_def option.map_comp o_def option.map_ident)

definition in_dq :: "string \<Rightarrow> sh_word" where
  "in_dq s = map (Pair Dbl) s"

text \<open>The commands as the shell reads them.\<close>

definition refuse_toks :: "sh_word \<Rightarrow> dtok list" where
  "refuse_toks msg = [Opr ''||'', Wd (bare ''{''), Wd (bare ''echo''), Wd msg, Opr ''>'', Wd (bare ''/dev/console''), Opr '';'',
     Wd (bare ''exit''), Wd (bare ''1''), Opr '';'', Wd (bare ''}'')]"

definition resolve_toks :: "string \<Rightarrow> string \<Rightarrow> dtok list" where
  "resolve_toks v b = [Subst (bare (v @ ''='')), Wd (bare ''readlink''), Wd (bare ''-f''), Wd (quoted_word b), Opr '')'', Opr ''&&'',
     Wd (bare ''[''), Wd (bare ''-b''), Wd (in_dq (CHR ''$'' # v)), Wd (bare '']'')]
     @ refuse_toks (quoted_word ''FRAME: '' @ quoted_word b @ quoted_word '' is not a block device, refusing'')"

definition distinct_toks :: "string \<Rightarrow> string \<Rightarrow> string \<Rightarrow> string \<Rightarrow> dtok list" where
  "distinct_toks v v' b b' = [Wd (bare ''[''), Wd (in_dq (CHR ''$'' # v)), Wd (bare ''!=''), Wd (in_dq (CHR ''$'' # v')), Wd (bare '']'')]
     @ refuse_toks (quoted_word ''FRAME: '' @ quoted_word b @ quoted_word '' and '' @ quoted_word b' @ quoted_word '' are the same disk, refusing'')"

definition rewrite_toks :: "string \<Rightarrow> string \<Rightarrow> dtok list" where
  "rewrite_toks ph v = [Wd (bare ''sed''), Wd (bare ''-i''), Wd (in_dq (''s#'' @ ph @ ''#$'' @ v @ ''#g'')), Wd (bare ''/autoinstall.yaml'')]"

lemmas tok_defs = resolve_toks_def distinct_toks_def rewrite_toks_def refuse_toks_def bare_def in_dq_def

lemma nat_str_small: "nat_str 0 = ''0''" "nat_str (Suc 0) = ''1''"
  by code_simp+

lemma lex_resolve:
  assumes "i < 2" "CHR 0x27 \<notin> set (pd_byID d)"
  shows "lex_sh None Bare (resolve_cmd i d @ CHR '';'' # r) =
    map_option (\<lambda>x. resolve_toks (''p'' @ nat_str i) (pd_byID d) @ Opr '';'' # x) (lex_sh None Bare r)"
proof -
  have "i = 0 \<or> i = Suc 0" using assms(1) by auto
  then show ?thesis using assms(2)
    by (elim disjE) (simp_all add: resolve_cmd_def nat_str_small tok_defs lex_quoted opened_def ended_def option.map_comp o_def quoted_word_def)
qed


lemma lex_distinct:
  assumes "CHR 0x27 \<notin> set (pd_byID a)" "CHR 0x27 \<notin> set (pd_byID b)"
  shows "lex_sh None Bare (distinct_cmd [a, b] (Suc 0) @ CHR '';'' # r) =
    map_option (\<lambda>x. distinct_toks ''p0'' ''p1'' (pd_byID a) (pd_byID b) @ Opr '';'' # x) (lex_sh None Bare r)"
  using assms
  by (simp add: distinct_cmd_def nat_str_small tok_defs lex_quoted opened_def ended_def option.map_comp o_def quoted_word_def)

lemma lex_rewrite:
  assumes "i < 2"
  shows "lex_sh None Bare (rewrite_cmd i @ CHR '';'' # r) =
    map_option (\<lambda>x. rewrite_toks (diskPlaceholders ! i) (''p'' @ nat_str i) @ Opr '';'' # x) (lex_sh None Bare r)"
    "lex_sh None Bare (rewrite_cmd i) = Some (rewrite_toks (diskPlaceholders ! i) (''p'' @ nat_str i))"
proof -
  have "i = 0 \<or> i = Suc 0" using assms by auto
  note s = this rewrite_cmd_def diskPlaceholders_def nat_str_small tok_defs opened_def ended_def
  from s(1) show "lex_sh None Bare (rewrite_cmd i @ CHR '';'' # r) =
    map_option (\<lambda>x. rewrite_toks (diskPlaceholders ! i) (''p'' @ nat_str i) @ Opr '';'' # x) (lex_sh None Bare r)"
    by (elim disjE) (simp_all add: s(2-) option.map_comp o_def)
  from s(1) show "lex_sh None Bare (rewrite_cmd i) = Some (rewrite_toks (diskPlaceholders ! i) (''p'' @ nat_str i))"
    by (elim disjE) (simp_all add: s(2-))
qed



definition program :: "dtok list \<Rightarrow> (conn \<times> sh_cmd) list" where
  "program ts = group_cmds (split_cmds Then [] ts)"

definition refusal :: "sh_word \<Rightarrow> (conn \<times> dtok list) list" where
  "refusal msg = [(Then, [Wd (bare ''echo''), Wd msg, Opr ''>'', Wd (bare ''/dev/console'')]), (Then, [Wd (bare ''exit''), Wd (bare ''1'')])]"

lemma program_resolve:
  "program (resolve_toks v b @ Opr '';'' # x) =
     [(Then, Simple [Subst (bare (v @ ''='')), Wd (bare ''readlink''), Wd (bare ''-f''), Wd (quoted_word b), Opr '')'']),
      (AndThen, Simple [Wd (bare ''[''), Wd (bare ''-b''), Wd (in_dq (CHR ''$'' # v)), Wd (bare '']'')]),
      (OrElse, Group (refusal (quoted_word ''FRAME: '' @ quoted_word b @ quoted_word '' is not a block device, refusing'')))] @ program x"
  by (simp add: program_def resolve_toks_def refuse_toks_def refusal_def closes_def bare_def)

lemma program_distinct:
  "program (distinct_toks v v' b b' @ Opr '';'' # x) =
     [(Then, Simple [Wd (bare ''[''), Wd (in_dq (CHR ''$'' # v)), Wd (bare ''!=''), Wd (in_dq (CHR ''$'' # v')), Wd (bare '']'')]),
      (OrElse, Group (refusal (quoted_word ''FRAME: '' @ quoted_word b @ quoted_word '' and '' @ quoted_word b' @ quoted_word '' are the same disk, refusing'')))]
     @ program x"
  by (simp add: program_def distinct_toks_def refuse_toks_def refusal_def closes_def bare_def)

lemma program_rewrite:
  "program (rewrite_toks ph v @ Opr '';'' # x) = (Then, Simple (rewrite_toks ph v)) # program x"
  "program (rewrite_toks ph v) = [(Then, Simple (rewrite_toks ph v))]"
  by (simp_all add: program_def rewrite_toks_def closes_def bare_def)


text \<open>What each command does.\<close>

lemma expand_bare: "list_all (\<lambda>c. c \<notin> set ''$*?~'') s \<Longrightarrow> expand vs (bare s) = Some s"
  by (induction s) (auto simp: bare_def)

lemma expand_var:
  assumes "list_all var_char v" "v \<noteq> []"
  shows "expand vs (in_dq (CHR ''$'' # v)) = Some (case vs v of None \<Rightarrow> [] | Some x \<Rightarrow> x)"
proof -
  have w: "takeWhile (\<lambda>x. fst x = Dbl \<and> var_char (snd x)) (map (Pair Dbl) v) = map (Pair Dbl) v"
    "dropWhile (\<lambda>x. fst x = Dbl \<and> var_char (snd x)) (map (Pair Dbl) v) = []"
    using assms(1) by (auto simp: list_all_iff)
  show ?thesis using assms(2) by (simp add: in_dq_def Let_def o_def w)
qed

lemma run_refusal:
  assumes "expand (sh_vars st) msg = Some m"
  shows "run_cmd rl blk st (Group (refusal msg)) = Some (Exit1, st\<lparr>sh_console := sh_console st @ [m]\<rparr>)"
  using assms by (simp add: run_cmd_def refusal_def simple_def command_words_def builtin_def expand_bare)

lemma run_readlink:
  assumes "list_all var_char v" "v \<noteq> []"
  shows "run_cmd rl blk st (Simple [Subst (bare (v @ ''='')), Wd (bare ''readlink''), Wd (bare ''-f''), Wd (quoted_word b), Opr '')'']) =
    (case rl b of None \<Rightarrow> Some (Status False, st\<lparr>sh_vars := (sh_vars st)(v \<mapsto> [])\<rparr>)
     | Some p \<Rightarrow> Some (Status True, st\<lparr>sh_vars := (sh_vars st)(v \<mapsto> p)\<rparr>))"
proof -
  have "butlast (map snd (bare (v @ ''=''))) = v" by (simp add: bare_def o_def butlast_append)
  then show ?thesis using assms expand_quoted [of "sh_vars st" b "[]"]
    by (simp add: run_cmd_def simple_def command_words_def expand_bare Let_def)
qed

lemma run_isblock:
  assumes "list_all var_char v" "v \<noteq> []" "sh_vars st v = Some p"
  shows "run_cmd rl blk st (Simple [Wd (bare ''[''), Wd (bare ''-b''), Wd (in_dq (CHR ''$'' # v)), Wd (bare '']'')]) = Some (Status (blk p), st)"
  using assms by (simp add: run_cmd_def simple_def command_words_def expand_bare expand_var builtin_def del: expand.simps)

lemma run_differ:
  assumes "list_all var_char v" "v \<noteq> []" "sh_vars st v = Some p" "list_all var_char v'" "v' \<noteq> []" "sh_vars st v' = Some p'"
  shows "run_cmd rl blk st (Simple [Wd (bare ''[''), Wd (in_dq (CHR ''$'' # v)), Wd (bare ''!=''), Wd (in_dq (CHR ''$'' # v')), Wd (bare '']'')])
    = Some (Status (p \<noteq> p'), st)"
  using assms by (simp add: run_cmd_def simple_def command_words_def expand_bare expand_var builtin_def del: expand.simps)


text \<open>How a run from a state ends: the resolution, and the comparison, go on or refuse.\<close>

definition run_from :: "(string \<Rightarrow> string option) \<Rightarrow> (string \<Rightarrow> bool) \<Rightarrow> sh_state \<Rightarrow> dtok list \<Rightarrow> (sh_end \<times> string list) option" where
  "run_from rl blk st ts = map_option (\<lambda>(e, st). (e, sh_paths st)) (run_list (run_cmd rl blk) True st (program ts))"

lemma step_resolve:
  assumes "list_all var_char v" "v \<noteq> []"
  shows "run_from rl blk st (resolve_toks v b @ Opr '';'' # x) =
    (case rl b of
       Some p \<Rightarrow> if blk p then run_from rl blk (st\<lparr>sh_vars := (sh_vars st)(v \<mapsto> p)\<rparr>) x else Some (Exit1, sh_paths st)
     | None \<Rightarrow> Some (Exit1, sh_paths st))"
proof -
  let ?msg = "quoted_word ''FRAME: '' @ quoted_word b @ quoted_word '' is not a block device, refusing''"
  have m: "expand vs ?msg = Some (''FRAME: '' @ b @ '' is not a block device, refusing'')" for vs
    using expand_quoted [of vs "'' is not a block device, refusing''" "[]"] by (simp add: expand_quoted)
  show ?thesis
    by (cases "rl b"; cases "blk (the (rl b))")
      (auto simp: run_from_def program_resolve run_readlink [OF assms] run_isblock [OF assms] run_refusal [OF m])
qed

lemma step_distinct:
  assumes "list_all var_char v" "v \<noteq> []" "sh_vars st v = Some p" "list_all var_char v'" "v' \<noteq> []" "sh_vars st v' = Some p'"
  shows "run_from rl blk st (distinct_toks v v' b b' @ Opr '';'' # x) = (if p \<noteq> p' then run_from rl blk st x else Some (Exit1, sh_paths st))"
proof -
  let ?msg = "quoted_word ''FRAME: '' @ quoted_word b @ quoted_word '' and '' @ quoted_word b' @ quoted_word '' are the same disk, refusing''"
  have m: "expand vs ?msg = Some (''FRAME: '' @ b @ '' and '' @ b' @ '' are the same disk, refusing'')" for vs
    using expand_quoted [of vs "'' are the same disk, refusing''" "[]"] by (simp add: expand_quoted)
  show ?thesis by (cases "p = p'") (auto simp: run_from_def program_distinct run_differ [OF assms] run_refusal [OF m])
qed

text \<open>A rewrite puts the device in the place of its placeholder.\<close>

lemma run_rewrite:
  assumes "i < 2" "sh_vars st (''p'' @ nat_str i) = Some p" "sed_literal p"
  shows "run_cmd rl blk st (Simple (rewrite_toks (diskPlaceholders ! i) (''p'' @ nat_str i))) =
    Some (Status True, st\<lparr>sh_paths := map (replace_all (diskPlaceholders ! i) p) (sh_paths st)\<rparr>)"
proof -
  let ?ph = "diskPlaceholders ! i"
  have i: "i = 0 \<or> i = Suc 0" using assms(1) by auto
  then have e: "expand (sh_vars st) (in_dq (''s#'' @ ?ph @ ''#$'' @ (''p'' @ nat_str i) @ ''#g'')) = Some (''s#'' @ ?ph @ ''#'' @ p @ ''#g'')"
    using assms(2) by (elim disjE) (simp_all add: in_dq_def diskPlaceholders_def nat_str_small var_char_def alnum_def byte_def Let_def)
  have "CHR ''#'' \<notin> set p" using assms(3) by (auto simp: sed_literal_def list_all_iff)
  then have "sed_script (''s#'' @ ?ph @ ''#'' @ p @ ''#g'') = Some (?ph, p)"
    using i assms(3) by (elim disjE) (simp_all add: sed_script_def sed_literal_def diskPlaceholders_def split_char_join)
  then show ?thesis using e
    by (simp add: rewrite_toks_def run_cmd_def simple_def command_words_def expand_bare builtin_def del: append_Cons append.append_Cons)
qed


lemma replace_absent:
  assumes "\<not> sublist pat s"
  shows "replace_all pat rep s = s"
  using assms
proof (induction s)
  case (Cons c cs)
  have "\<not> has_prefix (c # cs) pat"
    using Cons.prems has_prefixD [of "c # cs" pat] by (metis prefixI prefix_imp_sublist)
  moreover have "\<not> sublist pat cs" using Cons.prems by (simp add: sublist_Cons_right)
  ultimately show ?case using Cons.IH by simp
qed simp

lemma replace_placeholders:
  "replace_all (diskPlaceholders ! 0) p (diskPlaceholders ! 0) = p"
  "replace_all (diskPlaceholders ! 0) p (diskPlaceholders ! 1) = diskPlaceholders ! 1"
  "replace_all (diskPlaceholders ! 1) p (diskPlaceholders ! 1) = p"
  by (simp_all add: diskPlaceholders_def has_prefix_def)

text \<open>
  What the command is for: the devices the names resolve to, when each is a block device and no two are the same.
\<close>

definition named_devices :: "(string \<Rightarrow> string option) \<Rightarrow> (string \<Rightarrow> bool) \<Rightarrow> pv_disk list \<Rightarrow> string list option" where
  "named_devices rl blk ds =
     (let ps = map (\<lambda>d. rl (pd_byID d)) ds in
      if list_all (\<lambda>p. p \<noteq> None \<and> blk (the p)) ps \<and> distinct ps then Some (map the ps) else None)"

text \<open>A device's path, as the kernel gives it: none of sed's characters, and not a placeholder.\<close>

definition device_path :: "string \<Rightarrow> bool" where
  "device_path x \<longleftrightarrow> sed_literal x \<and> \<not> sublist (diskPlaceholders ! 1) x"

lemma sh_run_from:
  "lex_sh None Bare cmd = Some ts \<Longrightarrow> sh_run rl blk cmd ps = run_from rl blk \<lparr>sh_vars = Map.empty, sh_paths = ps, sh_console = []\<rparr> ts"
  by (simp add: sh_run_def run_from_def program_def)

lemma var_names: "list_all var_char ''p0''" "''p0'' \<noteq> []" "list_all var_char ''p1''" "''p1'' \<noteq> []"
  by code_simp+

lemma one_disk_runs:
  assumes "diskResolution l = Some cmd" "pl_disks l = [a]" "CHR 0x27 \<notin> set (pd_byID a)" "\<And>x. blk x \<Longrightarrow> device_path x"
  shows "sh_run rl blk cmd [diskPlaceholders ! 0] =
    Some (case named_devices rl blk [a] of None \<Rightarrow> (Exit1, [diskPlaceholders ! 0]) | Some ps \<Rightarrow> (Status True, ps))"
proof -
  have c: "cmd = resolve_cmd 0 a @ CHR '';'' # CHR '' '' # rewrite_cmd 0"
    using assms(1,2) by (auto simp: diskResolution_def Let_def diskPlaceholders_def upt_rec split: if_splits)
  have "lex_sh None Bare cmd = Some (resolve_toks ''p0'' (pd_byID a) @ Opr '';'' # rewrite_toks (diskPlaceholders ! 0) ''p0'')"
    using assms(3) unfolding c by (simp add: lex_resolve lex_rewrite ended_def nat_str_small)
  moreover have "run_from rl blk st (rewrite_toks (diskPlaceholders ! 0) ''p0'') = Some (Status True, [p])"
    if "sh_paths st = [diskPlaceholders ! 0]" "sh_vars st ''p0'' = Some p" "blk p" for st p
    using assms(4) [OF that(3)] that run_rewrite [of 0 st p rl blk]
    by (simp add: run_from_def program_rewrite device_path_def nat_str_small replace_placeholders)
  ultimately show ?thesis by (simp add: sh_run_from step_resolve [OF var_names(1,2)] named_devices_def Let_def split: option.splits)
qed

lemma two_rewrites:
  assumes "sh_paths st = diskPlaceholders" "sh_vars st ''p0'' = Some p" "sh_vars st ''p1'' = Some q" "device_path p" "device_path q"
  shows "run_from rl blk st (rewrite_toks (diskPlaceholders ! 0) ''p0'' @ Opr '';'' # rewrite_toks (diskPlaceholders ! 1) ''p1'') = Some (Status True, [p, q])"
proof -
  let ?st = "st\<lparr>sh_paths := map (replace_all (diskPlaceholders ! 0) p) (sh_paths st)\<rparr>"
  have "run_cmd rl blk st (Simple (rewrite_toks (diskPlaceholders ! 0) ''p0'')) = Some (Status True, ?st)"
    using run_rewrite [of 0 st p rl blk] assms(2,4) by (simp add: device_path_def nat_str_small)
  moreover have "run_cmd rl blk ?st (Simple (rewrite_toks (diskPlaceholders ! 1) ''p1'')) =
      Some (Status True, ?st\<lparr>sh_paths := map (replace_all (diskPlaceholders ! 1) q) (sh_paths ?st)\<rparr>)"
    using run_rewrite [of 1 ?st q rl blk] assms(3,5) by (simp add: device_path_def nat_str_small)
  moreover have "map (replace_all (diskPlaceholders ! 1) q) (map (replace_all (diskPlaceholders ! 0) p) (sh_paths st)) = [p, q]"
  proof -
    have "sh_paths st = [diskPlaceholders ! 0, diskPlaceholders ! 1]" using assms(1) by (simp add: diskPlaceholders_def)
    then show ?thesis using assms(4) by (simp add: replace_placeholders [simplified] device_path_def replace_absent)
  qed
  ultimately show ?thesis by (simp add: run_from_def program_rewrite)
qed

lemma two_disks_run:
  assumes "diskResolution l = Some cmd" "pl_disks l = [a, b]" "CHR 0x27 \<notin> set (pd_byID a)" "CHR 0x27 \<notin> set (pd_byID b)"
    "\<And>x. blk x \<Longrightarrow> device_path x"
  shows "sh_run rl blk cmd diskPlaceholders =
    Some (case named_devices rl blk [a, b] of None \<Rightarrow> (Exit1, diskPlaceholders) | Some ps \<Rightarrow> (Status True, ps))"
proof -
  let ?p = "diskPlaceholders"
  have c: "cmd = resolve_cmd 0 a @ CHR '';'' # CHR '' '' # resolve_cmd 1 b @ CHR '';'' # CHR '' '' # distinct_cmd [a, b] 1
      @ CHR '';'' # CHR '' '' # rewrite_cmd 0 @ CHR '';'' # CHR '' '' # rewrite_cmd 1"
    using assms(1,2) by (auto simp: diskResolution_def Let_def diskPlaceholders_def upt_rec split: if_splits)
  have "lex_sh None Bare cmd = Some (resolve_toks ''p0'' (pd_byID a) @ Opr '';'' # resolve_toks ''p1'' (pd_byID b)
      @ Opr '';'' # distinct_toks ''p0'' ''p1'' (pd_byID a) (pd_byID b) @ Opr '';'' # rewrite_toks (?p ! 0) ''p0'' @ Opr '';'' # rewrite_toks (?p ! 1) ''p1'')"
    using assms(3,4) unfolding c by (simp add: lex_resolve lex_distinct lex_rewrite ended_def nat_str_small)
  then show ?thesis
    by (simp add: sh_run_from step_resolve [OF var_names(1,2)] step_resolve [OF var_names(3,4)]
        step_distinct [OF var_names(1,2) _ var_names(3,4)] two_rewrites [simplified] assms(5) named_devices_def Let_def split: option.splits)
qed

end
