(* ===== verification/Provision_Theorems.thy ===== *)
theory Provision_Theorems
  imports Provision_Join Disk_Script
begin

text \<open>
  The commands and the document sent to a machine: how a shell reads the commands of \<open>Join\<close>, where the
  join token goes, what the rendered storage and the interpolated values are, and the address the
  document writes.
\<close>

section \<open>A shell's words\<close>

text \<open>
  How a POSIX shell splits a command into words and operators, as far as the commands of \<open>Join\<close> go. A
  character of a word is marked when it was quoted and so stands for itself; double quotes are not used
  there and are refused, as an open quote is.
\<close>

datatype sh_tok = Word "(bool \<times> char) list" | Op char

definition flush :: "(bool \<times> char) list option \<Rightarrow> sh_tok list" where
  "flush w = (case w of None \<Rightarrow> [] | Some cs \<Rightarrow> [Word cs])"

definition push :: "(bool \<times> char) list option \<Rightarrow> bool \<times> char \<Rightarrow> (bool \<times> char) list option" where
  "push w c = Some ((case w of None \<Rightarrow> [] | Some cs \<Rightarrow> cs) @ [c])"

fun sh_lex :: "(bool \<times> char) list option \<Rightarrow> bool \<Rightarrow> string \<Rightarrow> sh_tok list option" where
  "sh_lex w True [] = None"
| "sh_lex w True (c # cs) = (if c = CHR 0x27 then sh_lex w False cs else sh_lex (push w (True, c)) True cs)"
| "sh_lex w False [] = Some (flush w)"
| "sh_lex w False (c # cs) =
     (if c = CHR 0x27 then sh_lex (Some (case w of None \<Rightarrow> [] | Some v \<Rightarrow> v)) True cs
      else if c = CHR 0x5C then (case cs of [] \<Rightarrow> None | d # ds \<Rightarrow> sh_lex (push w (True, d)) False ds)
      else if c = CHR 0x22 then None
      else if c = CHR '' '' \<or> c = CHR 0x09 then map_option (\<lambda>r. flush w @ r) (sh_lex None False cs)
      else if c \<in> set '';&|<>()'' \<or> c = CHR 0x0A then map_option (\<lambda>r. flush w @ Op c # r) (sh_lex None False cs)
      else sh_lex (push w (False, c)) False cs)"

definition plain :: "string \<Rightarrow> (bool \<times> char) list" where
  "plain s = map (\<lambda>c. (False, c)) s"

definition literal :: "string \<Rightarrow> (bool \<times> char) list" where
  "literal s = map (\<lambda>c. (True, c)) s"

lemma sh_lex_esc: "sh_lex (Some w) True (esc_quote v @ CHR 0x27 # r) = sh_lex (Some (w @ literal v)) False r"
  by (induction v arbitrary: w) (auto simp: push_def literal_def)

lemma sh_lex_quoted: "sh_lex w False (shellQuote v @ r) = sh_lex (Some ((case w of None \<Rightarrow> [] | Some u \<Rightarrow> u) @ literal v)) False r"
  by (simp add: shellQuote_def sh_lex_esc)

text \<open>
  C32. Whatever bytes the version, the server URL and the address hold, the shell of the machine reads the
  command that starts or joins a cluster as the same words: each value is one literal word, or the literal
  rest of its assignment, and nothing of it is an operator or is expanded.
\<close>

theorem join_command_words:
  "sh_lex None False (installer_cmd (init_env t) (init_args a)) =
     Some [Word (plain ''INSTALL_K3S_VERSION='' @ literal (pc_k3sVersion t)), Word (plain ''sh''), Word (plain k3sInstallerPath),
       Word (plain ''server''), Word (plain ''--cluster-init''), Word (plain ''--node-ip''), Word (literal a), Op (CHR '';''),
       Word (plain ''rc=$?''), Op (CHR '';''), Word (plain ''rm''), Word (plain ''-f''), Word (plain k3sInstallerPath), Op (CHR '';''),
       Word (plain ''exit''), Word (plain ''$rc'')]
   \<and> sh_lex None False (installer_cmd (join_env t) (join_args a)) =
     Some [Word (plain ''INSTALL_K3S_VERSION='' @ literal (pc_k3sVersion t)), Word (plain ''K3S_URL='' @ literal (pc_serverURL t)),
       Word (plain ''K3S_TOKEN_FILE='' @ literal k3sJoinTokenPath), Word (plain ''sh''), Word (plain k3sInstallerPath),
       Word (plain ''agent''), Word (plain ''--node-ip''), Word (literal a), Op (CHR '';''),
       Word (plain ''rc=$?''), Op (CHR '';''), Word (plain ''rm''), Word (plain ''-f''), Word (plain k3sInstallerPath), Op (CHR '';''),
       Word (plain ''exit''), Word (plain ''$rc'')]"
  by (simp add: installer_cmd_def init_env_def join_env_def init_args_def join_args_def sh_lex_quoted push_def flush_def plain_def k3sInstallerPath_def)

section \<open>A sample specification\<close>

definition w_key :: string where "w_key = ''ssh-ed25519 AAAA frame''"

definition w_parseKey :: key_parser where
  "w_parseKey k = (if k = w_key then Inr (''frame'', []) else Inl ''ssh: no key found'')"

definition w_spec :: pv_spec where
  "w_spec = \<lparr>ps_uid = ''0f0f'', ps_hostname = ''node-1'',
     ps_network = \<lparr>pn_address = ''192.0.2.210/24'', pn_gateway = ''192.0.2.1'', pn_dns = [''192.0.2.53'']\<rparr>,
     ps_layout = \<lparr>pl_kind = LayoutSingleDisk, pl_disks = [\<lparr>pd_byID = ''/dev/disk/by-id/wwn-0x5000'', pd_sizeBytes = 480\<rparr>]\<rparr>,
     ps_sshPublicKey = w_key,
     ps_cluster = \<lparr>pc_mode = ClusterJoin, pc_serverURL = ''https://192.0.2.1:6443'', pc_joinToken = ''K10abc::server:x'', pc_k3sVersion = ''v1.33.4+k3s1''\<rparr>,
     ps_bootMode = ''''\<rparr>"

definition w_session :: session where
  "w_session = \<lparr>ss_hostKey = ''ssh-ed25519 HK'', ss_run = (\<lambda>c. Inr (if c = ''cat '' @ markerPath then ''0f0f'' else '''')),
     ss_input = (\<lambda>c i. Inr ''''), ss_output = (\<lambda>c. Inr '''')\<rparr>"

definition w_url :: url_parser where
  "w_url u = Inr \<lparr>up_scheme = ''https'', up_host = ''192.0.2.1:6443'', up_hostname = ''192.0.2.1'', up_user = False, up_path = '''', up_rawQuery = '''', up_fragment = '''',
     up_redacted = u\<rparr>"

section \<open>The join token\<close>

fun command_of :: "sent \<Rightarrow> string" where
  "command_of (SRun c) = c"
| "command_of (SInput c i) = c"
| "command_of (SOutput c) = c"

text \<open>
  C33. The join token never shows on a command line: two joins that differ only in it, both tokens well-formed
  and the machine taking either from standard input the same way, send the same commands and end the same.
\<close>

theorem join_token_off_command_line:
  assumes "validateJoinToken (pc_joinToken t) = None" "validateJoinToken tok = None"
    and "ss_input sess writeJoinTokenCmd tok = ss_input sess writeJoinTokenCmd (pc_joinToken t)"
  shows "map command_of (snd (Join pu um ma sess (t\<lparr>pc_joinToken := tok\<rparr>) a)) = map command_of (snd (Join pu um ma sess t a))
    \<and> fst (Join pu um ma sess (t\<lparr>pc_joinToken := tok\<rparr>) a) = fst (Join pu um ma sess t a)"
  using assms by (auto simp: Join_def init_env_def join_env_def split: option.splits sum.splits prod.splits)

theorem join_token_off_command_line_witness:
  "map command_of (snd (Join w_url (\<lambda>r. Inl ''no'') (\<lambda>d. Inl ''no'') w_session (ps_cluster w_spec\<lparr>pc_joinToken := ''K10other''\<rparr>) ''192.0.2.210'')) =
     map command_of (snd (Join w_url (\<lambda>r. Inl ''no'') (\<lambda>d. Inl ''no'') w_session (ps_cluster w_spec) ''192.0.2.210''))
   \<and> length (snd (Join w_url (\<lambda>r. Inl ''no'') (\<lambda>d. Inl ''no'') w_session (ps_cluster w_spec) ''192.0.2.210'')) = 3"
proof -
  have "validateJoinToken (pc_joinToken (ps_cluster w_spec)) = None" "validateJoinToken ''K10other'' = None"
    "ss_input w_session writeJoinTokenCmd ''K10other'' = ss_input w_session writeJoinTokenCmd (pc_joinToken (ps_cluster w_spec))"
    "length (snd (Join w_url (\<lambda>r. Inl ''no'') (\<lambda>d. Inl ''no'') w_session (ps_cluster w_spec) ''192.0.2.210'')) = 3"
    by code_simp+
  then show ?thesis using join_token_off_command_line by blast
qed

section \<open>The rendered storage\<close>

fun cfg_get :: "string \<Rightarrow> cfg_item \<Rightarrow> cfg_val option" where
  "cfg_get k [] = None"
| "cfg_get k ((a, v) # r) = (if a = k then Some v else cfg_get k r)"

definition cfg_strs :: "string \<Rightarrow> cfg_item \<Rightarrow> string list" where
  "cfg_strs k it = (case cfg_get k it of Some (CStr s) \<Rightarrow> [s] | Some (CList l) \<Rightarrow> l | _ \<Rightarrow> [])"

definition cfg_ids :: "cfg_item list \<Rightarrow> string list" where
  "cfg_ids cfg = concat (map (cfg_strs ''id'') cfg)"

definition cfg_refs :: "cfg_item \<Rightarrow> string list" where
  "cfg_refs it = cfg_strs ''device'' it @ cfg_strs ''volume'' it @ cfg_strs ''devices'' it"

text \<open>Every entry refers to earlier entries only, as curtin builds them in order.\<close>

fun resolved :: "string list \<Rightarrow> cfg_item list \<Rightarrow> bool" where
  "resolved seen [] = True"
| "resolved seen (it # r) = (list_all (\<lambda>x. x \<in> set seen) (cfg_refs it) \<and> resolved (cfg_strs ''id'' it @ seen) r)"

definition has_type :: "string \<Rightarrow> cfg_item \<Rightarrow> bool" where
  "has_type t it \<longleftrightarrow> cfg_get ''type'' it = Some (CStr t)"

text \<open>The disks an installation wipes, by the path the document gives them.\<close>

definition wiped_paths :: "cfg_item list \<Rightarrow> string list" where
  "wiped_paths cfg = concat (map (cfg_strs ''path'') (filter (has_type ''disk'') cfg))"

definition root_mounts :: "cfg_item list \<Rightarrow> cfg_item list" where
  "root_mounts cfg = filter (\<lambda>it. has_type ''mount'' it \<and> cfg_get ''path'' it = Some (CStr ''/'')) cfg"

text \<open>The firmware can start disk \<open>i\<close> without the others: its own boot partition, and the boot loader's device.\<close>

definition boots_alone :: "string \<Rightarrow> cfg_item list \<Rightarrow> nat \<Rightarrow> bool" where
  "boots_alone mode cfg i =
     (let d = ''disk'' @ nat_str i;
          part = (\<lambda>f. filter (\<lambda>it. has_type ''partition'' it \<and> cfg_get ''device'' it = Some (CStr d) \<and> cfg_get ''flag'' it = Some (CStr f)) cfg)
      in if mode = bootUEFI then
           list_ex (\<lambda>it. cfg_get ''grub_device'' it = Some (CBool True)
             \<and> list_ex (\<lambda>f. has_type ''format'' f \<and> cfg_get ''volume'' f = cfg_get ''id'' it \<and> cfg_get ''fstype'' f = Some (CStr ''fat32'')) cfg) (part ''boot'')
         else part ''bios_grub'' \<noteq> []
           \<and> list_ex (\<lambda>it. has_type ''disk'' it \<and> cfg_get ''id'' it = Some (CStr d) \<and> cfg_get ''grub_device'' it = Some (CBool True)) cfg)"

definition storage_ok :: "pv_layout \<Rightarrow> string \<Rightarrow> cfg_item list \<Rightarrow> bool" where
  "storage_ok l mode cfg \<longleftrightarrow>
     distinct (cfg_ids cfg) \<and> resolved [] cfg \<and> wiped_paths cfg = take (length (pl_disks l)) diskPlaceholders
     \<and> length (root_mounts cfg) = 1 \<and> list_all (boots_alone mode cfg) [0..<length (pl_disks l)]"

lemma storageConfig_ok:
  assumes "check_layout l = None" "mode = bootUEFI \<or> mode = bootLegacy"
  shows "\<exists>cfg. storageConfig l mode = Some cfg \<and> storage_ok l mode cfg"
proof -
  define a where "a = \<lparr>pd_byID = [], pd_sizeBytes = 0\<rparr>"
  have cong: "storageConfig l mode = storageConfig l' mode" "storage_ok l = storage_ok l'"
    if "pl_kind l = pl_kind l'" "length (pl_disks l) = length (pl_disks l')" for l'
    using that by (auto simp: storageConfig_def storage_ok_def fun_eq_iff)
  define l1 where "l1 = \<lparr>pl_kind = LayoutSingleDisk, pl_disks = [a]\<rparr>"
  define l2 where "l2 = \<lparr>pl_kind = LayoutMirror, pl_disks = [a, a]\<rparr>"
  have "pl_kind l = LayoutSingleDisk \<and> length (pl_disks l) = 1 \<or> pl_kind l = LayoutMirror \<and> length (pl_disks l) = 2"
    using assms(1) by (auto simp: check_layout_def layout_want_def Let_def split: if_splits)
  then consider "storageConfig l mode = storageConfig l1 mode" "storage_ok l = storage_ok l1"
    | "storageConfig l mode = storageConfig l2 mode" "storage_ok l = storage_ok l2"
    using cong [of l1] cong [of l2] by (auto simp: l1_def l2_def)
  moreover have "storage_ok l1 bootUEFI (the (storageConfig l1 bootUEFI))" "storageConfig l1 bootUEFI \<noteq> None"
    "storage_ok l1 bootLegacy (the (storageConfig l1 bootLegacy))" "storageConfig l1 bootLegacy \<noteq> None"
    unfolding l1_def a_def by code_simp+
  moreover have "storage_ok l2 bootUEFI (the (storageConfig l2 bootUEFI))" "storageConfig l2 bootUEFI \<noteq> None"
    "storage_ok l2 bootLegacy (the (storageConfig l2 bootLegacy))" "storageConfig l2 bootLegacy \<noteq> None"
    unfolding l2_def a_def by code_simp+
  ultimately show ?thesis using assms(2) by (cases; elim disjE) auto
qed

lemma validate_parts:
  assumes "validate pk s = Inr cidr"
  shows "uidShape (ps_uid s)" "hostnameShape (ps_hostname s)" "ps_bootMode s = bootUEFI \<or> ps_bootMode s = bootLegacy"
    "check_network (ps_network s) = Inr cidr" "check_layout (ps_layout s) = None"
  using assms by (auto simp: validate_def split: if_splits option.splits sum.splits)

lemma diskResolution_ok: "check_layout l = None \<Longrightarrow> diskResolution l \<noteq> None"
  by (auto simp: check_layout_def layout_want_def diskResolution_def diskPlaceholders_def Let_def split: if_splits)

text \<open>Characters no shell gives a meaning to, quoted or not.\<close>

definition inert :: "char \<Rightarrow> bool" where
  "inert c \<longleftrightarrow> alnum c \<or> c \<in> set ''-_.:+/''"

lemma validate_disks_names: "validate_disks seen ds = None \<Longrightarrow> list_all (\<lambda>d. byIDName (pd_byID d)) ds"
  by (induction seen ds rule: validate_disks.induct) (auto split: option.splits if_splits)

lemma byIDName_inert:
  assumes "byIDName s"
  shows "list_all inert s"
proof -
  have s: "''/dev/disk/by-id/'' @ drop 16 s = s"
    using assms has_prefixD [of s "''/dev/disk/by-id/''"] by (simp add: byIDName_def numeral_eq_Suc)
  have "list_all inert (drop 16 s)" using assms by (auto simp: byIDName_def inert_def list_all_iff)
  moreover have "list_all inert ''/dev/disk/by-id/''" by code_simp
  ultimately have "list_all inert (''/dev/disk/by-id/'' @ drop 16 s)" by (simp only: list_all_append)
  then show ?thesis unfolding s .
qed

lemma disk_names_unquoted:
  assumes "check_layout l = None"
  shows "\<forall>d \<in> set (pl_disks l). CHR 0x27 \<notin> set (pd_byID d)"
proof -
  have "validate_disks [] (pl_disks l) = None"
    using assms by (auto simp: check_layout_def validateDisks_def Let_def split: if_splits)
  then have "list_all (\<lambda>d. list_all inert (pd_byID d)) (pl_disks l)"
    by (rule list.pred_mono_strong [OF validate_disks_names]) (rule byIDName_inert)
  moreover have "\<not> inert (CHR 0x27)" by code_simp
  ultimately show ?thesis by (auto simp: list_all_iff)
qed

lemma resolution_runs:
  assumes "check_layout l = None" "diskResolution l = Some cmd" "\<And>x. blk x \<Longrightarrow> device_path x"
  shows "sh_run rl blk cmd (take (length (pl_disks l)) diskPlaceholders) =
    Some (case named_devices rl blk (pl_disks l) of None \<Rightarrow> (Exit1, take (length (pl_disks l)) diskPlaceholders) | Some ps \<Rightarrow> (Status True, ps))"
proof -
  have "length (pl_disks l) = 1 \<or> length (pl_disks l) = 2"
    using assms(1) by (auto simp: check_layout_def layout_want_def Let_def split: if_splits)
  then consider a where "pl_disks l = [a]" | a b where "pl_disks l = [a, b]"
    by (auto simp: length_Suc_conv numeral_2_eq_2)
  then show ?thesis
  proof cases
    case 1
    have t: "take (length (pl_disks l)) diskPlaceholders = [diskPlaceholders ! 0]" using 1 by (simp add: diskPlaceholders_def)
    show ?thesis unfolding t unfolding 1
      by (rule one_disk_runs [OF assms(2) 1 _ assms(3)]) (use disk_names_unquoted [OF assms(1)] 1 in auto)
  next
    case 2
    have t: "take (length (pl_disks l)) diskPlaceholders = diskPlaceholders" using 2 by (simp add: diskPlaceholders_def)
    show ?thesis unfolding t unfolding 2
      by (rule two_disks_run [OF assms(2) 2 _ _ assms(3)]) (use disk_names_unquoted [OF assms(1)] 2 in auto)
  qed
qed

text \<open>
  C34. Rendering never panics. The storage of a rendered document is well-formed: identifiers are distinct and
  refer to earlier entries, one filesystem is mounted at the root, and every disk of the layout can be booted
  without the others. The disks it wipes are those the specification names: run by a shell, the second early
  command puts in their place the devices the names resolve to, in their order, when each is a block device
  and no two are the same, and otherwise stops the installation with the document as it was.
\<close>

theorem rendered_storage_well_formed:
  assumes "\<And>x. blk x \<Longrightarrow> device_path x"
  shows "render_doc pk yp yr s base tok \<noteq> Panicked
   \<and> (\<forall>d. render_doc pk yp yr s base tok = Rendered d \<longrightarrow>
        storage_ok (ps_layout s) (ps_bootMode s) (ai_storage d)
        \<and> sh_run rl blk (ai_early d ! 1) (wiped_paths (ai_storage d)) =
            Some (case named_devices rl blk (pl_disks (ps_layout s)) of
                    None \<Rightarrow> (Exit1, wiped_paths (ai_storage d))
                  | Some ps \<Rightarrow> (Status True, ps)))"
proof (cases "validate pk s")
  case (Inl x)
  then show ?thesis by (simp add: render_doc_def)
next
  case (Inr cidr)
  note p = validate_parts [OF Inr]
  obtain cfg res where c: "storageConfig (ps_layout s) (ps_bootMode s) = Some cfg" "storage_ok (ps_layout s) (ps_bootMode s) cfg"
    and r: "diskResolution (ps_layout s) = Some res"
    using storageConfig_ok [OF p(5,3)] diskResolution_ok [OF p(5)] by auto
  have w: "wiped_paths cfg = take (length (pl_disks (ps_layout s))) diskPlaceholders" using c(2) by (simp add: storage_ok_def)
  show ?thesis using Inr c r resolution_runs [OF p(5) r assms, folded w]
    by (auto simp: render_doc_def document_def early_commands_def Let_def split: option.splits)
qed

definition w_mirror :: pv_spec where
  "w_mirror = w_spec\<lparr>ps_bootMode := bootUEFI, ps_layout := \<lparr>pl_kind = LayoutMirror,
     pl_disks = [\<lparr>pd_byID = ''/dev/disk/by-id/wwn-0x5000'', pd_sizeBytes = 480\<rparr>, \<lparr>pd_byID = ''/dev/disk/by-id/wwn-0x5001'', pd_sizeBytes = 480\<rparr>]\<rparr>\<rparr>"

definition w_links :: "string \<Rightarrow> string option" where
  "w_links = map_of [(''/dev/disk/by-id/wwn-0x5000'', ''/dev/sdb''), (''/dev/disk/by-id/wwn-0x5001'', ''/dev/sda'')]"

definition w_blocks :: "string \<Rightarrow> bool" where
  "w_blocks x \<longleftrightarrow> x \<in> set [''/dev/sda'', ''/dev/sdb'']"

theorem rendered_storage_well_formed_witness:
  "\<exists>d. render_doc w_parseKey (\<lambda>p. ''pin'') (\<lambda>c. ''run'') w_mirror [] [] = Rendered d
     \<and> storage_ok (ps_layout w_mirror) bootUEFI (ai_storage d)
     \<and> sh_run w_links w_blocks (ai_early d ! 1) (wiped_paths (ai_storage d)) = Some (Status True, [''/dev/sdb'', ''/dev/sda''])"
proof -
  have "case render_doc w_parseKey (\<lambda>p. ''pin'') (\<lambda>c. ''run'') w_mirror [] [] of Rendered d \<Rightarrow> True | _ \<Rightarrow> False"
    by code_simp
  then obtain d where d: "render_doc w_parseKey (\<lambda>p. ''pin'') (\<lambda>c. ''run'') w_mirror [] [] = Rendered d"
    by (auto split: rendered.splits)
  have "device_path ''/dev/sda''" "device_path ''/dev/sdb''" by code_simp+
  then have b: "device_path x" if "w_blocks x" for x using that by (auto simp: w_blocks_def)
  have n: "named_devices w_links w_blocks (pl_disks (ps_layout w_mirror)) = Some [''/dev/sdb'', ''/dev/sda'']" by code_simp
  have m: "ps_bootMode w_mirror = bootUEFI" by (simp add: w_mirror_def)
  show ?thesis
    using rendered_storage_well_formed [of w_blocks w_parseKey "\<lambda>p. ''pin''" "\<lambda>c. ''run''" w_mirror "[]" "[]" w_links, OF b] d
    unfolding n m by simp
qed

section \<open>Interpolated values\<close>

lemma addr_char_inert: "addr_char c \<Longrightarrow> inert c"
  by (auto simp: addr_char_def inert_def hex_val_def alnum_def Let_def split: if_splits)

lemma check_network_gateway:
  assumes "check_network n = Inr cidr"
  shows "list_all addr_char (pn_gateway n)"
proof -
  have "ParseIP (pn_gateway n) \<noteq> None" using assms by (auto simp: check_network_def split: option.splits)
  then show ?thesis using ParseAddr_chars by (auto simp: ParseIP_def)
qed

text \<open>
  Every value an accepted specification puts into a command run as root in the installer -- the install
  UID, the hostname, the gateway and the disks' names -- consists of letters, digits and \<open>- _ . : + /\<close>, none
  of which a shell gives a meaning to, inside quotes or outside.
\<close>

theorem rendered_values_inert:
  assumes "validate pk s = Inr cidr"
  shows "list_all inert (ps_uid s) \<and> list_all inert (ps_hostname s) \<and> list_all inert (pn_gateway (ps_network s))
    \<and> list_all (\<lambda>d. list_all inert (pd_byID d)) (pl_disks (ps_layout s))"
proof -
  note p = validate_parts [OF assms]
  have "lower_alnum c \<Longrightarrow> alnum c" for c by (auto simp: lower_alnum_def alnum_def Let_def)
  then have "list_all inert (ps_uid s)" "list_all inert (ps_hostname s)"
    using p(1,2) by (auto simp: uidShape_def hostnameShape_def inert_def list_all_iff)
  moreover have "list_all inert (pn_gateway (ps_network s))"
    using check_network_gateway [OF p(4)] addr_char_inert by (auto simp: list_all_iff)
  moreover have "validate_disks [] (pl_disks (ps_layout s)) = None"
    using p(5) by (auto simp: check_layout_def validateDisks_def Let_def split: if_splits)
  then have "list_all (\<lambda>d. list_all inert (pd_byID d)) (pl_disks (ps_layout s))"
    by (rule list.pred_mono_strong [OF validate_disks_names]) (rule byIDName_inert)
  ultimately show ?thesis by simp
qed

theorem rendered_values_inert_witness:
  "list_all inert (ps_hostname w_spec) \<and> list_all inert (pn_gateway (ps_network w_spec))"
proof -
  have "validate w_parseKey (w_spec\<lparr>ps_bootMode := bootUEFI\<rparr>) = Inr ''192.0.2.210/24''" by code_simp
  from rendered_values_inert [OF this] show ?thesis by simp
qed

section \<open>The address the document writes\<close>

lemma To4_As16: "length q = 4 \<Longrightarrow> To4 (As16 q) = Some q"
  by (simp add: To4_def As16_def numeral_eq_Suc)

lemma ParseAddr_dotted:
  assumes "ParseAddr s = Some b" "CHR '':'' \<notin> set s"
  shows "length b = 4 \<and> list_all (\<lambda>n. n \<le> 255) b"
proof -
  have first: "c = CHR ''.''" if "find (\<lambda>c. c = CHR ''.'' \<or> c = CHR '':'') s = Some c" for c
    using that assms(2) by (auto simp: find_Some_iff in_set_conv_nth)
  have "parseIPv4 s = Some b"
  proof (cases "find (\<lambda>c. c = CHR ''.'' \<or> c = CHR '':'') s")
    case (Some c)
    then show ?thesis using assms(1) first [OF Some] by (simp add: ParseAddr_def split: if_splits)
  qed (use assms(1) in \<open>simp add: ParseAddr_def split: if_splits\<close>)
  then show ?thesis using parseIPv4_chars by blast
qed

text \<open>
  C35. The address of the document is the address of the specification: a dotted IPv4 address with its prefix,
  once accepted, is written as a text that reads back as the same address and the same network.
\<close>

theorem rendered_address_round_trip:
  assumes "validate pk s = Inr cidr" "CHR '':'' \<notin> set (pn_address (ps_network s))"
  shows "ParseCIDR cidr = ParseCIDR (pn_address (ps_network s)) \<and> ParseCIDR cidr \<noteq> None"
proof -
  let ?a = "pn_address (ps_network s)"
  note n = validate_parts(4) [OF assms(1)]
  obtain addr net where c: "ParseCIDR ?a = Some (addr, net)" "cidr = IP_String addr @ ''/'' @ nat_str (in_ones net)"
    using n by (auto simp: check_network_def split: option.splits if_splits)
  obtain q where q: "ParseAddr (takeWhile (\<lambda>c. c \<noteq> CHR ''/'') ?a) = Some q" "addr = As16 q" "in_ones net \<le> 8 * length q"
    "net = \<lparr>in_ip = mask_bytes q (CIDRMask (in_ones net) (length q)), in_mask = CIDRMask (in_ones net) (length q), in_ones = in_ones net\<rparr>"
    using c(1) by (auto simp: ParseCIDR_def Let_def split: option.splits if_splits)
  have l: "length q = 4" "list_all (\<lambda>n. n \<le> 255) q"
    using ParseAddr_dotted [OF q(1)] assms(2) by (auto dest: set_takeWhileD)
  have "cidr = ip4_str q @ ''/'' @ nat_str (in_ones net)" using c(2) q(2) To4_As16 [OF l(1)] by (simp add: IP_String_def)
  then show ?thesis using ParseCIDR_IPv4 [OF l, of "in_ones net"] q(2,3,4) l c(1) by simp
qed

theorem rendered_address_round_trip_witness:
  "ParseCIDR ''192.0.2.210/24'' = ParseCIDR (pn_address (ps_network (w_spec\<lparr>ps_bootMode := bootUEFI\<rparr>))) \<and> ParseCIDR ''192.0.2.210/24'' \<noteq> None"
proof -
  have "validate w_parseKey (w_spec\<lparr>ps_bootMode := bootUEFI\<rparr>) = Inr ''192.0.2.210/24''"
    "CHR '':'' \<notin> set (pn_address (ps_network (w_spec\<lparr>ps_bootMode := bootUEFI\<rparr>)))" by code_simp+
  from rendered_address_round_trip [OF this] show ?thesis .
qed

lemma ParseCIDR_mapped:
  "ParseCIDR ''::ffff:192.0.2.210/120'' = Some ([0, 0, 0, 0, 0, 0, 0, 0, 0, 0, 255, 255, 192, 0, 2, 210],
     \<lparr>in_ip = [0, 0, 0, 0, 0, 0, 0, 0, 0, 0, 255, 255, 192, 0, 2, 0], in_mask = replicate 15 255 @ [0], in_ones = 120\<rparr>)"
proof -
  have ten: "replicate 10 (0 :: nat) = [0, 0, 0, 0, 0, 0, 0, 0, 0, 0]" by code_simp
  have seven: "v6_fields 7 = v6_fields (Suc 6)" and eight: "v6_fields 8 = v6_fields (Suc 7)" by (simp_all del: v6_fields.simps)
  have v4: "parseIPv4 ''192.0.2.210'' = Some [192, 0, 2, 210]" by code_simp
  have h1: "hex_run 0 0 ''ffff:192.0.2.210'' = Some (4, 65535, '':192.0.2.210'')" by (simp add: hex_val_def byte_def Let_def)
  have h2: "hex_run 0 0 ''192.0.2.210'' = Some (3, 402, ''.0.2.210'')" by (simp add: hex_val_def byte_def Let_def)
  have "v6_fields 7 [255, 255] (Some 0) ''192.0.2.210'' = Some ([255, 255, 192, 0, 2, 210], Some 0)"
    unfolding seven v6_fields.simps(2) [of 6] h2 by (simp add: v4)
  then have "v6_fields 8 [] (Some 0) ''ffff:192.0.2.210'' = Some ([255, 255, 192, 0, 2, 210], Some 0)"
    unfolding eight v6_fields.simps(2) [of 7] h1 by simp
  then have "parseIPv6 ''::ffff:192.0.2.210'' = Some [0, 0, 0, 0, 0, 0, 0, 0, 0, 0, 255, 255, 192, 0, 2, 210]"
    by (simp add: parseIPv6_def has_prefix_def v6_expand_def ten)
  then have "ParseAddr ''::ffff:192.0.2.210'' = Some [0, 0, 0, 0, 0, 0, 0, 0, 0, 0, 255, 255, 192, 0, 2, 210]"
    by (simp add: ParseAddr_def)
  moreover define m :: "nat list" where "m = [0, 0, 0, 0, 0, 0, 0, 0, 0, 0, 255, 255, 192, 0, 2, 210]"
  moreover have "mask_bytes m (CIDRMask 120 16) = [0, 0, 0, 0, 0, 0, 0, 0, 0, 0, 255, 255, 192, 0, 2, 0]" "length m = 16"
    "CIDRMask 120 16 = replicate 15 255 @ [0]" "parse_digits ''120'' = Some 120" unfolding m_def by code_simp+
  ultimately show ?thesis unfolding m_def [symmetric] by (simp add: ParseCIDR_def Let_def As16_def)
qed

text \<open>
  The dotted form is needed: an IPv4-mapped IPv6 address passes the check for IPv4, and is then written as the
  IPv4 address with the prefix length it had among 128 bits, which is no network at all.
\<close>

theorem mapped_address_breaks_document:
  "check_network \<lparr>pn_address = ''::ffff:192.0.2.210/120'', pn_gateway = ''192.0.2.1'', pn_dns = [''192.0.2.53'']\<rparr> = Inr ''192.0.2.210/120''
   \<and> ParseCIDR ''192.0.2.210/120'' = None"
proof
  have gw: "ParseIP ''192.0.2.1'' = Some [0, 0, 0, 0, 0, 0, 0, 0, 0, 0, 255, 255, 192, 0, 2, 1]" "ParseIP ''192.0.2.53'' \<noteq> None" by code_simp+
  have c: "To4 [0, 0, 0, 0, 0, 0, 0, 0, 0, 0, 255, 255, 192, 0, 2, 210] = Some [192, 0, 2, 210]" "ip4_str [192, 0, 2, 210] = ''192.0.2.210''"
    "Contains \<lparr>in_ip = [0, 0, 0, 0, 0, 0, 0, 0, 0, 0, 255, 255, 192, 0, 2, 0], in_mask = replicate 15 255 @ [0], in_ones = 120\<rparr>
       [0, 0, 0, 0, 0, 0, 0, 0, 0, 0, 255, 255, 192, 0, 2, 1]" "nat_str 120 = ''120''" by code_simp+
  show "check_network \<lparr>pn_address = ''::ffff:192.0.2.210/120'', pn_gateway = ''192.0.2.1'', pn_dns = [''192.0.2.53'']\<rparr> = Inr ''192.0.2.210/120''"
    using gw(2) by (simp add: check_network_def ParseCIDR_mapped gw(1) c IP_String_def del: One_nat_def)
  show "ParseCIDR ''192.0.2.210/120'' = None" by code_simp
qed

end
