(* ===== verification/Install_Theorems.thy ===== *)
theory Install_Theorems
  imports Install_Safety Provision_Theorems
begin

text \<open>
  The properties of one installation: the confirmed machine, the hardware it leaves, what Ready means,
  and the order of the phases it reports.
\<close>

section \<open>Runs\<close>

lemma Install_run:
  assumes run: "Install e s opt = (r, err, tr)"
  obtains (early) p x where "err = Some x" "ir_phase r = PhaseFailed" "ir_failedPhase r = p" "p = PhasePending \<or> p = PhasePreparing"
      "\<not> list_ex changes_machine tr"
      "ie_report e \<Longrightarrow> phases tr = (if p = PhasePending then [PhasePending] else [PhasePending, PhasePreparing]) @ [PhaseFailed]"
  | (late) token r0 err0 as bs where
      "validateOptions opt = None" "validatePendingSpec (ie_parseKey e) (ie_parseURL e) (s\<lparr>ps_bootMode := io_bootMode opt\<rparr>) (io_nodeAddress opt) = None"
      "ie_serial e = Inr (io_confirmSerial opt)" "io_confirmSerial opt \<noteq> ''''"
      "cleanup e token (r0, err0, as @ bs) = (r, err, tr)"
      "ends [PhaseMediaAttached, PhaseInstalling, PhaseInstalled, PhaseJoining, PhaseReady] e new_res r0 err0 bs"
      "err0 = None \<Longrightarrow> proven e (s\<lparr>ps_bootMode := io_bootMode opt\<rparr>) opt r0"
      "\<not> list_ex changes_machine as" "ie_report e \<Longrightarrow> phases as = [PhasePending, PhasePreparing]"
proof (cases rule: Install_cases [of e s opt])
  case (refused p x as)
  then show ?thesis using run early by auto
next
  case (driven url token as)
  let ?s = "s\<lparr>ps_bootMode := io_bootMode opt\<rparr>"
  obtain r0 err0 bs where t: "touched e ?s opt url (new_res\<lparr>ir_phase := PhasePreparing\<rparr>, as) = (r0, err0, as @ bs)"
    "ends [PhaseMediaAttached, PhaseInstalling, PhaseInstalled, PhaseJoining, PhaseReady] e (new_res\<lparr>ir_phase := PhasePreparing\<rparr>) r0 err0 bs"
    "err0 = None \<Longrightarrow> proven e ?s opt r0"
    using touched_ends by blast
  show ?thesis
    by (rule late [of token r0 err0 as bs]) (use driven t run in \<open>auto simp: ends_def\<close>)
qed

lemma undoes_changes: "undoes a \<Longrightarrow> changes_machine a"
  by (cases a) auto

lemma no_removal: "\<not> list_ex undoes bs \<Longrightarrow> RemoveImage t \<notin> set bs" "\<not> list_ex changes_machine bs \<Longrightarrow> RemoveImage t \<notin> set bs"
  by (auto simp: list_ex_iff)

lemma Wait_proof:
  assumes "WaitForOurSystem ke addr key uid ctxErr cs = Inr hk"
  obtains sess m where "Answers sess \<in> set cs" "ReadFile sess markerPath = Inr m" "trim_space m = trim_space uid" "trim_space uid \<noteq> ''''"
    "hk = trim_space (trim_space (ss_hostKey sess))"
proof -
  have attempt: "\<exists>sess m. c = Answers sess \<and> ReadFile sess markerPath = Inr m \<and> trim_space m = u \<and> hk = trim_space (trim_space (ss_hostKey sess))"
    if "wait_attempt ke addr key u c = Inr hk" for u c
    using that by (cases c) (auto simp: wait_attempt_def Dial_def ReadFile_def Let_def split: sum.splits option.splits if_splits)
  have "\<exists>c \<in> set cs. wait_attempt ke addr key u c = Inr hk" if "wait_loop ke addr key u ctxErr l cs = Inr hk" for u l
    using that by (induction cs arbitrary: l) (auto split: sum.splits)
  then show ?thesis
    using assms attempt that by (fastforce simp: WaitForOurSystem_def Let_def split: if_splits)
qed

section \<open>A sample installation\<close>

definition w_opts :: inst_opts where
  "w_opts = \<lparr>io_bootMode = bootUEFI, io_sshUser = ''frame'', io_sshKey = ''PRIVATE'', io_nodeAddress = ''192.0.2.210'',
     io_confirmSerial = ''CZ3'', io_phaseTimeout = (\<lambda>p. Some second), io_poll = second\<rparr>"

definition w_env :: "string option \<Rightarrow> inst_env" where
  "w_env eject = \<lparr>ie_report = True, ie_reportToken = True, ie_ctx = (\<lambda>p. CtxLive), ie_serial = Inr ''CZ3'',
     ie_build = (\<lambda>s. Inr (''http://192.0.2.9/a.iso'', ''tok'')), ie_before = None, ie_insert = None, ie_inserted = Inr True, ie_bootOnce = None,
     ie_reset = None, ie_conns = [Unreachable ''connection refused'', Answers w_session], ie_waitErr = ''context deadline exceeded'',
     ie_joinConn = Answers w_session, ie_poll = Inr False, ie_polls = [Inr True], ie_eject = eject, ie_clear = None, ie_remove = None,
     ie_keyError = (\<lambda>k. None), ie_parseKey = w_parseKey, ie_parseURL = w_url, ie_unmarshal = (\<lambda>r. Inl ''''), ie_marshal = (\<lambda>d. Inl '''')\<rparr>"

definition w_run :: inst_run where "w_run = Install (w_env None) w_spec w_opts"
definition w_stuck :: inst_run where "w_stuck = Install (w_env (Some ''busy'')) w_spec w_opts"

lemma w_run_Ready: "ir_phase (fst w_run) = PhaseReady" "fst (snd w_run) = None" "list_ex changes_machine (snd (snd w_run))"
  by code_simp+

lemma w_stuck_media: "hw_media (hw_after (w_env (Some ''busy'')) (snd (snd w_stuck)))"
  by code_simp

section \<open>Properties\<close>

text \<open>
  C3. Nothing is inserted, overridden, reset, ejected or sent, and no image taken away, unless the options
  and the specification passed every check and the machine answered with exactly the non-empty serial
  that was confirmed.
\<close>

theorem install_only_on_confirmed_machine:
  assumes "Install e s opt = (r, err, tr)" "list_ex changes_machine tr"
  shows "ie_serial e = Inr (io_confirmSerial opt) \<and> io_confirmSerial opt \<noteq> '''' \<and> validateOptions opt = None
    \<and> validatePendingSpec (ie_parseKey e) (ie_parseURL e) (s\<lparr>ps_bootMode := io_bootMode opt\<rparr>) (io_nodeAddress opt) = None"
  using assms by (cases rule: Install_run [OF assms(1)]) auto

theorem install_only_on_confirmed_machine_witness:
  "list_ex changes_machine (snd (snd w_run)) \<and> ie_serial (w_env None) = Inr (io_confirmSerial w_opts)"
  using install_only_on_confirmed_machine [of "w_env None" w_spec w_opts "fst w_run" "fst (snd w_run)" "snd (snd w_run)"] w_run_Ready
  by (simp add: w_run_def)

text \<open>
  C4. However an installation ends, media may be left attached only if the eject failed and a boot override
  only if its clearing failed; then the run is Failed and its error says that the machine needs
  attention. The image is taken away only after the eject it depends on succeeded.
\<close>

theorem install_leaves_nothing_silently:
  assumes "Install e s opt = (r, err, tr)"
  shows "(hw_media (hw_after e tr) \<longrightarrow> ie_eject e \<noteq> None) \<and> (hw_override (hw_after e tr) \<longrightarrow> ie_clear e \<noteq> None)
    \<and> (hw_media (hw_after e tr) \<or> hw_override (hw_after e tr) \<longrightarrow> ir_phase r = PhaseFailed \<and> (\<exists>x. err = Some x \<and> needs_attention x))
    \<and> (\<forall>t. RemoveImage t \<in> set tr \<longrightarrow> ie_eject e = None)"
  using assms
proof (cases rule: Install_run)
  case (early p x)
  then show ?thesis using no_removal(2) by (auto simp: hw_after_def hw_clean_def)
next
  case (late token r0 err0 as bs)
  have quiet: "RemoveImage t \<notin> set (as @ bs)" for t
    using no_removal late(6,8) by (auto simp: ends_def)
  show ?thesis
  proof (cases "undone e")
    case True
    then have tr: "tr = (as @ bs) @ [EjectMedia, ClearBootOverride] @ [RemoveImage token]"
      using late(5) cleanup_done by auto
    show ?thesis using hw_cleaned [of e "[RemoveImage token]" "as @ bs"] True unfolding tr by (auto simp: undone_def)
  next
    case False
    then obtain x cs where c: "err = Some x" "tr = (as @ bs) @ [EjectMedia, ClearBootOverride] @ cs" "ir_phase r = PhaseFailed" "needs_attention x"
      "\<forall>h. fold (hw_step e) cs h = h" "\<forall>t. RemoveImage t \<in> set cs \<longrightarrow> ie_eject e = None"
      using late(5) by (elim cleanup_not_done [of e token r0 err0 "as @ bs"]) auto
    show ?thesis using hw_cleaned [OF c(5), of "as @ bs"] quiet c(1,3,4,6) unfolding c(2) by auto
  qed
qed

theorem install_leaves_nothing_silently_witness:
  "hw_media (hw_after (w_env (Some ''busy'')) (snd (snd w_stuck))) \<and> ir_phase (fst w_stuck) = PhaseFailed
     \<and> needs_attention (the (fst (snd w_stuck)))"
  using install_leaves_nothing_silently [of "w_env (Some ''busy'')" w_spec w_opts "fst w_stuck" "fst (snd w_stuck)" "snd (snd w_stuck)"] w_stuck_media
  by (auto simp: w_stuck_def)

text \<open>
  C5. An installation ends Ready exactly when it returns no error, and otherwise Failed with the phase it
  failed in. Ready means that the cleanup succeeded, that some machine at the address carried this run's
  UID, and that the machine the join then talked to presented that machine's host key.
\<close>

theorem install_ready_is_proven:
  assumes "Install e s opt = (r, err, tr)"
  shows "(err = None \<longleftrightarrow> ir_phase r = PhaseReady)
    \<and> (err \<noteq> None \<longrightarrow> ir_phase r = PhaseFailed \<and> ir_failedPhase r \<in> set requiredPhaseTimeouts)
    \<and> (err = None \<longrightarrow> undone e \<and> Inr True \<in> set (ie_poll e # ie_polls e)
        \<and> (\<exists>sess m. Answers sess \<in> set (ie_conns e) \<and> ReadFile sess markerPath = Inr m \<and> trim_space m = trim_space (ps_uid s)
             \<and> trim_space (ps_uid s) \<noteq> '''' \<and> ir_hostKey r = trim_space (trim_space (ss_hostKey sess)))
        \<and> (trim_space (ir_hostKey r) \<noteq> '''' \<longrightarrow>
             (\<exists>sess. ie_joinConn e = Answers sess \<and> trim_space (ss_hostKey sess) = trim_space (ir_hostKey r))))"
  using assms
proof (cases rule: Install_run)
  case (early p x)
  then show ?thesis by (auto simp: phase_defs requiredPhaseTimeouts_def)
next
  case (late token r0 err0 as bs)
  show ?thesis
  proof (cases "undone e \<and> err0 = None")
    case False
    then have "err \<noteq> None" "ir_phase r = PhaseFailed" "ir_failedPhase r \<in> set requiredPhaseTimeouts"
      using cleanup_fails [OF late(5,6)] by auto
    then show ?thesis by (auto simp: phase_defs)
  next
    case True
    then have r: "r = r0" "err = None" "ir_phase r = PhaseReady" and p: "proven e (s\<lparr>ps_bootMode := io_bootMode opt\<rparr>) opt r"
      using late(5,6,7) cleanup_done [of e token r0 err0 "as @ bs"] by (auto simp: ends_def)
    obtain sess m where "Answers sess \<in> set (ie_conns e)" "ReadFile sess markerPath = Inr m" "trim_space m = trim_space (ps_uid s)"
      "trim_space (ps_uid s) \<noteq> ''''" "ir_hostKey r = trim_space (trim_space (ss_hostKey sess))"
      using p unfolding proven_def by (auto elim: Wait_proof)
    moreover have "trim_space (ir_hostKey r) \<noteq> '''' \<longrightarrow>
        (\<exists>sess. ie_joinConn e = Answers sess \<and> trim_space (ss_hostKey sess) = trim_space (ir_hostKey r))" "Inr True \<in> set (ie_poll e # ie_polls e)"
      using p by (cases "ie_joinConn e"; auto simp: proven_def joined_def Dial_def Let_def split: option.splits if_splits)+
    ultimately show ?thesis using r True by blast
  qed
qed

theorem install_ready_is_proven_witness:
  "ir_phase (fst w_run) = PhaseReady \<and> undone (w_env None)
     \<and> (\<exists>sess m. Answers sess \<in> set (ie_conns (w_env None)) \<and> ReadFile sess markerPath = Inr m \<and> trim_space m = trim_space (ps_uid w_spec))"
  using install_ready_is_proven [of "w_env None" w_spec w_opts "fst w_run" "fst (snd w_run)" "snd (snd w_run)"] w_run_Ready
  unfolding w_run_def prod.collapse by blast

text \<open>
  C36. The phases an installation reports are an initial part of Pending, Preparing, MediaAttached,
  Installing, Installed, Joining, Ready, in that order, and then at most two reports of Failed, none of
  them exactly when it succeeds.
\<close>

theorem install_reports_in_order:
  assumes "Install e s opt = (r, err, tr)" "ie_report e"
  shows "\<exists>n k. phases tr = take n [PhasePending, PhasePreparing, PhaseMediaAttached, PhaseInstalling, PhaseInstalled, PhaseJoining, PhaseReady]
      @ replicate k PhaseFailed \<and> k \<le> 2 \<and> (k = 0 \<longleftrightarrow> err = None) \<and> (err = None \<longrightarrow> n = 7)"
  using assms(1)
proof (cases rule: Install_run)
  case (early p x)
  then show ?thesis using assms(2)
    by (intro exI [where x = "if p = PhasePending then 1 else 2"] exI [where x = 1]) auto
next
  case (late token r0 err0 as bs)
  define path where "path = [PhaseMediaAttached, PhaseInstalling, PhaseInstalled, PhaseJoining, PhaseReady]"
  obtain n where n: "n \<le> length path" "phases bs = take n path @ (if err0 = None then [] else [PhaseFailed])" "err0 = None \<longrightarrow> n = length path"
    using late(6) assms(2) unfolding path_def [symmetric] by (elim ends_phases)
  have "phases tr = phases as @ phases bs @ (if undone e then [] else [PhaseFailed]) \<and> (err = None \<longleftrightarrow> undone e \<and> err0 = None)"
  proof (cases "undone e")
    case True
    then show ?thesis using late(5) cleanup_done [OF True, of token r0 err0 "as @ bs"] by auto
  next
    case False
    obtain r' x cs where "cleanup e token (r0, err0, as @ bs) = (r', Some x, (as @ bs) @ [EjectMedia, ClearBootOverride] @ cs)"
      "ie_report e \<Longrightarrow> phases cs = [PhaseFailed]"
      by (rule cleanup_not_done [OF False, of token r0 err0 "as @ bs"]) (rule that)
    then show ?thesis using late(5) assms(2) False by simp
  qed
  then have tr: "phases tr = [PhasePending, PhasePreparing] @ take n path @ replicate ((if err0 = None then 0 else 1) + (if undone e then 0 else 1)) PhaseFailed"
    and err: "err = None \<longleftrightarrow> undone e \<and> err0 = None"
    using n(2) late(9) [OF assms(2)] by (auto simp: numeral_2_eq_2)
  have "take (n + 2) ([PhasePending, PhasePreparing] @ path) = [PhasePending, PhasePreparing] @ take n path" by simp
  moreover have "err = None \<longrightarrow> n + 2 = 7" using n(3) err by (simp add: path_def)
  ultimately show ?thesis using tr err unfolding path_def
    by (intro exI [where x = "n + 2"] exI [where x = "(if err0 = None then 0 else 1) + (if undone e then 0 else 1)"]) simp
qed

theorem install_reports_in_order_witness:
  "\<exists>n k. phases (snd (snd w_run)) = take n [PhasePending, PhasePreparing, PhaseMediaAttached, PhaseInstalling, PhaseInstalled, PhaseJoining, PhaseReady]
      @ replicate k PhaseFailed \<and> k \<le> 2 \<and> (k = 0 \<longleftrightarrow> fst (snd w_run) = None) \<and> n = 7"
  using install_reports_in_order [of "w_env None" w_spec w_opts "fst w_run" "fst (snd w_run)" "snd (snd w_run)"] w_run_Ready
  by (auto simp: w_run_def w_env_def)

end
