(* ===== verification/Beacon_Store.thy ===== *)
theory Beacon_Store
  imports Provision_Render
begin

text \<open>
  \<open>internal/provision/beaconstore.go\<close>: what provisiond remembers of the installations that report to it,
  and \<open>checkpointRank\<close> of \<open>beacon.go\<close>. A zero \<open>FailedAt\<close> is \<^const>\<open>None\<close>.
\<close>

section \<open>The store\<close>

definition defaultBeaconCapacity :: int where "defaultBeaconCapacity = 64"

record beacon_state =
  bs_lastCheckpoint :: string
  bs_lastSeen :: instant
  bs_failedAt :: "instant option"
  bs_count :: int

record beacon_store =
  st_capacity :: nat
  st_entries :: "string \<rightharpoonup> beacon_state"
  st_order :: "string list"

definition NewBeaconStore :: "int \<Rightarrow> beacon_store" where
  "NewBeaconStore capacity =
     \<lparr>st_capacity = nat (if capacity \<le> 0 then defaultBeaconCapacity else capacity), st_entries = Map.empty, st_order = []\<rparr>"

definition checkpointRank :: "string \<Rightarrow> nat" where
  "checkpointRank c = (if c = CheckpointLate then 1 else if c = CheckpointFailed then 2 else 0)"

text \<open>What one beacon makes of an installation's state; the other argument is the state before it, if there was one.\<close>

definition beacon_next :: "beacon_state option \<Rightarrow> string \<Rightarrow> instant \<Rightarrow> beacon_state" where
  "beacon_next prev checkpoint now =
     (let failedAt = (case prev of None \<Rightarrow> None | Some b \<Rightarrow> bs_failedAt b) in
      \<lparr>bs_lastCheckpoint =
         (case prev of
            None \<Rightarrow> checkpoint
          | Some b \<Rightarrow> if checkpointRank (bs_lastCheckpoint b) > checkpointRank checkpoint then bs_lastCheckpoint b else checkpoint),
       bs_lastSeen = now,
       bs_failedAt = (if checkpoint = CheckpointFailed \<and> failedAt = None then Some now else failedAt),
       bs_count = wrap64 ((case prev of None \<Rightarrow> 0 | Some b \<Rightarrow> bs_count b) + 1)\<rparr>)"

definition make_room :: "beacon_store \<Rightarrow> beacon_store" where
  "make_room s =
     (if length (st_order s) \<ge> st_capacity s then
        s\<lparr>st_order := tl (st_order s), st_entries := (st_entries s)(hd (st_order s) := None)\<rparr>
      else s)"

definition BeaconStore_Record :: "string \<Rightarrow> string \<Rightarrow> instant \<Rightarrow> beacon_store \<Rightarrow> beacon_store \<times> bool" where
  "BeaconStore_Record token checkpoint now s =
     (if \<not> beaconToken token \<or> \<not> ValidCheckpoint checkpoint then (s, False)
      else
        (let prev = st_entries s token;
             s1 = (if prev = None then (let r = make_room s in r\<lparr>st_order := st_order r @ [token]\<rparr>) else s)
         in (s1\<lparr>st_entries := (st_entries s1)(token \<mapsto> beacon_next prev checkpoint now)\<rparr>, True)))"

definition BeaconStore_Get :: "beacon_store \<Rightarrow> string \<Rightarrow> beacon_state option" where
  "BeaconStore_Get s token = st_entries s token"

definition BeaconStore_Forget :: "string \<Rightarrow> beacon_store \<Rightarrow> beacon_store" where
  "BeaconStore_Forget token s =
     (if st_entries s token = None then s
      else s\<lparr>st_entries := (st_entries s)(token := None), st_order := remove1 token (st_order s)\<rparr>)"

section \<open>The invariant\<close>

text \<open>
  The order lists the keys once each and never more than the capacity; only tokens and checkpoints of the
  closed shapes are stored, and a failure is dated exactly when one was reported.
\<close>

definition store_inv :: "beacon_store \<Rightarrow> bool" where
  "store_inv s \<longleftrightarrow>
     0 < st_capacity s \<and> distinct (st_order s) \<and> set (st_order s) = dom (st_entries s) \<and> length (st_order s) \<le> st_capacity s
     \<and> (\<forall>t b. st_entries s t = Some b \<longrightarrow>
          beaconToken t \<and> ValidCheckpoint (bs_lastCheckpoint b) \<and> (bs_failedAt b \<noteq> None \<longleftrightarrow> bs_lastCheckpoint b = CheckpointFailed))"

lemma store_inv_New: "store_inv (NewBeaconStore c)"
  by (simp add: store_inv_def NewBeaconStore_def defaultBeaconCapacity_def)

lemma checkpoints_distinct [simp]:
  "CheckpointEarly \<noteq> CheckpointLate" "CheckpointEarly \<noteq> CheckpointFailed" "CheckpointLate \<noteq> CheckpointFailed"
  "CheckpointLate \<noteq> CheckpointEarly" "CheckpointFailed \<noteq> CheckpointEarly" "CheckpointFailed \<noteq> CheckpointLate"
  by (simp_all add: CheckpointEarly_def CheckpointLate_def CheckpointFailed_def)

lemma beacon_next_ok:
  assumes "ValidCheckpoint c" "\<And>b. prev = Some b \<Longrightarrow> ValidCheckpoint (bs_lastCheckpoint b) \<and> (bs_failedAt b \<noteq> None \<longleftrightarrow> bs_lastCheckpoint b = CheckpointFailed)"
  shows "ValidCheckpoint (bs_lastCheckpoint (beacon_next prev c now))"
    "bs_failedAt (beacon_next prev c now) \<noteq> None \<longleftrightarrow> bs_lastCheckpoint (beacon_next prev c now) = CheckpointFailed"
  using assms by (cases prev; auto simp: beacon_next_def Let_def ValidCheckpoint_def checkpointRank_def)+

lemma make_room_inv:
  assumes "store_inv s"
  shows "store_inv (make_room s)" "length (st_order (make_room s)) < st_capacity (make_room s)"
proof -
  show "length (st_order (make_room s)) < st_capacity (make_room s)"
    using assms by (auto simp: store_inv_def make_room_def)
  show "store_inv (make_room s)"
  proof (cases "length (st_order s) \<ge> st_capacity s")
    case True
    then obtain t r where o: "st_order s = t # r" using assms by (cases "st_order s") (auto simp: store_inv_def)
    then have "t \<notin> set r" "insert t (set r) = dom (st_entries s)" using assms by (auto simp: store_inv_def)
    then have "set r = dom ((st_entries s)(t := None))" by auto
    then show ?thesis using True o assms by (auto simp: make_room_def store_inv_def)
  qed (simp add: make_room_def assms)
qed

lemma make_room_entry: "st_entries s t = None \<Longrightarrow> st_entries (make_room s) t = None"
  by (simp add: make_room_def)

lemma store_inv_Record:
  assumes "store_inv s"
  shows "store_inv (fst (BeaconStore_Record t c now s))"
proof (cases "beaconToken t \<and> ValidCheckpoint c")
  case ok: True
  define r where "r = (if st_entries s t = None then make_room s else s)"
  have r: "store_inv r" "st_entries s t = None \<Longrightarrow> length (st_order r) < st_capacity r \<and> st_entries r t = None"
    using assms make_room_inv make_room_entry by (auto simp: r_def)
  have eq: "fst (BeaconStore_Record t c now s) =
      r\<lparr>st_order := (if st_entries s t = None then st_order r @ [t] else st_order r),
        st_entries := (st_entries r)(t \<mapsto> beacon_next (st_entries s t) c now)\<rparr>"
    using ok by (simp add: BeaconStore_Record_def r_def Let_def)
  have prev: "ValidCheckpoint (bs_lastCheckpoint b) \<and> (bs_failedAt b \<noteq> None \<longleftrightarrow> bs_lastCheckpoint b = CheckpointFailed)"
    if "st_entries s t = Some b" for b
    using assms that unfolding store_inv_def by blast
  have next_ok: "ValidCheckpoint (bs_lastCheckpoint (beacon_next (st_entries s t) c now))"
    "bs_failedAt (beacon_next (st_entries s t) c now) \<noteq> None \<longleftrightarrow> bs_lastCheckpoint (beacon_next (st_entries s t) c now) = CheckpointFailed"
    using beacon_next_ok [of c "st_entries s t" now] ok prev by blast+
  have "t \<in> set (st_order r)" if "st_entries s t \<noteq> None" using that r(1) by (auto simp: store_inv_def r_def)
  then show ?thesis unfolding eq using r next_ok ok by (auto simp: store_inv_def)
qed (auto simp: BeaconStore_Record_def assms)

lemma store_inv_Forget: "store_inv s \<Longrightarrow> store_inv (BeaconStore_Forget t s)"
  using length_remove1 [of t "st_order s"] by (auto simp: store_inv_def BeaconStore_Forget_def set_remove1_eq split: if_splits)

end
