(* ===== verification/Install_Liveness.thy ===== *)
theory Install_Liveness
  imports Beacon_Store Object_Status
begin

text \<open>
  \<open>installerRespondingCondition\<close> of \<open>internal/controller/frame/frameinstall_controller.go\<close>: what the controller
  makes of the beacons it reads back from provisiond. The interface between the two is the locale below.
\<close>

section \<open>Printing times\<close>

text \<open>\<open>Duration.Round(time.Second)\<close>, half a second away from zero.\<close>

definition round_second :: "duration \<Rightarrow> duration" where
  "round_second d = (let a = \<bar>d\<bar>; q = (2 * a + second) div (2 * second) * second in if d < 0 then - q else q)"

text \<open>\<open>t.UTC().Format(time.RFC3339)\<close>; an instant counts from 1970.\<close>

definition civil :: "int \<Rightarrow> int \<times> int \<times> int" where
  "civil days =
     (let z = days + 719468;
          era = z div 146097;
          doe = z mod 146097;
          yoe = (doe - doe div 1460 + doe div 36524 - doe div 146096) div 365;
          doy = doe - (365 * yoe + yoe div 4 - yoe div 100);
          mp = (5 * doy + 2) div 153;
          m = (if mp < 10 then mp + 3 else mp - 9)
      in (yoe + era * 400 + (if m \<le> 2 then 1 else 0), m, doy - (153 * mp + 2) div 5 + 1))"

definition pad_to :: "nat \<Rightarrow> int \<Rightarrow> string" where
  "pad_to n i = (let s = nat_str (nat i) in replicate (n - length s) (CHR ''0'') @ s)"

definition rfc3339_str :: "instant \<Rightarrow> string" where
  "rfc3339_str t =
     (let s = t div second; (y, m, d) = civil (s div 86400); r = s mod 86400 in
      pad_to 4 y @ ''-'' @ pad_to 2 m @ ''-'' @ pad_to 2 d @ ''T'' @ pad_to 2 (r div 3600) @ '':'' @ pad_to 2 (r div 60 mod 60) @ '':''
        @ pad_to 2 (r mod 60) @ ''Z'')"

section \<open>The condition\<close>

definition beaconLostAfter :: duration where "beaconLostAfter = 60 * second"
definition reasonInstallerUnavailable :: string where "reasonInstallerUnavailable = ''Unavailable''"

text \<open>The arguments \<open>st\<close> and \<open>known\<close> are one: \<^const>\<open>None\<close> is an installation provisiond does not know.\<close>

definition installerRespondingCondition :: "beacon_state option \<Rightarrow> bool \<Rightarrow> string option \<Rightarrow> instant \<Rightarrow> condition" where
  "installerRespondingCondition st everKnown err now =
     (let cond = (\<lambda>status reason msg. \<lparr>cd_status = status, cd_reason = reason, cd_message = msg, cd_observedGeneration = 0\<rparr>) in
      case err of
        Some e \<Rightarrow> cond ''Unknown'' reasonInstallerUnavailable (''could not read installer progress: '' @ e)
      | None \<Rightarrow>
     (case st of
        None \<Rightarrow>
          if everKnown then
            cond ''Unknown'' reasonInstallerUnavailable
              ''beacon history was lost (frame-provisiond likely restarted); this says nothing about whether the installer is still running''
          else cond ''False'' ''NeverSeen''
            ''nothing has been heard from the installer: it may not have booted the media, or the network may never have come up''
      | Some b \<Rightarrow>
          (let age = now - bs_lastSeen b; ago = dur_secs_str (round_second age) in
           if bs_lastCheckpoint b = CheckpointFailed then
             cond ''False'' ''InstallerFailed''
               (case bs_failedAt b of
                  None \<Rightarrow> ''the installer reported that the install failed; the cause is on the machine's console''
                | Some f \<Rightarrow> ''the installer reported that the install failed at '' @ rfc3339_str f @ '', '' @ dur_secs_str (round_second (now - f))
                    @ '' ago; the cause is on the machine's console'')
           else if age > beaconLostAfter \<and> bs_lastCheckpoint b = CheckpointLate then
             cond ''False'' ''Rebooting'' (''base system installed '' @ ago @ '' ago; the machine is rebooting into it'')
           else if age > beaconLostAfter then
             cond ''False'' ''HeartbeatLost'' (''last reached '' @ bs_lastCheckpoint b @ '', '' @ ago @ '' ago, and has not reported since'')
           else cond ''True'' ''Heartbeat''
             (''at '' @ bs_lastCheckpoint b @ '', last reported '' @ ago @ '' ago; an installer that stays here is waiting on a question''))))"

section \<open>The interface\<close>

text \<open>
  What the controller relies on: a beacon moves the entry of its own token forward, and does to another
  token's entry nothing, or drops it.
\<close>

locale progress_log =
  fixes rec :: "string \<Rightarrow> string \<Rightarrow> instant \<Rightarrow> 's \<Rightarrow> 's"
    and get :: "'s \<Rightarrow> string \<Rightarrow> beacon_state option"
  assumes get_rec: "get (rec t c now s) t = (if beaconToken t \<and> ValidCheckpoint c then Some (beacon_next (get s t) c now) else get s t)"
    and get_rec_other: "u \<noteq> t \<Longrightarrow> get (rec t c now s) u = get s u \<or> get (rec t c now s) u = None"
begin

definition says :: "bool \<Rightarrow> instant \<Rightarrow> 's \<Rightarrow> string \<Rightarrow> string" where
  "says ever now s t = cd_reason (installerRespondingCondition (get s t) ever None now)"

lemma failed_entry_next:
  "bs_lastCheckpoint b = CheckpointFailed \<Longrightarrow> ValidCheckpoint c \<Longrightarrow> bs_lastCheckpoint (beacon_next (Some b) c now) = CheckpointFailed"
  by (auto simp: beacon_next_def Let_def ValidCheckpoint_def checkpointRank_def)

lemma failed_date_next: "bs_failedAt b = Some f \<Longrightarrow> bs_failedAt (beacon_next (Some b) c now) = Some f"
  by (simp add: beacon_next_def)

lemma failed_says:
  assumes "get s t = Some b" "bs_lastCheckpoint b = CheckpointFailed"
  shows "says ever now s t = ''InstallerFailed''"
  using assms by (simp add: says_def installerRespondingCondition_def Let_def)

lemma failed_step:
  assumes "get s t = Some b" "bs_lastCheckpoint b = CheckpointFailed" "bs_failedAt b = Some f" "get (rec u c now s) t \<noteq> None"
  shows "\<exists>b'. get (rec u c now s) t = Some b' \<and> bs_lastCheckpoint b' = CheckpointFailed \<and> bs_failedAt b' = Some f"
proof (cases "u = t")
  case True
  then show ?thesis using assms get_rec [of t c now s] failed_entry_next [of b c now] failed_date_next [of b f c now] by auto
next
  case False
  then show ?thesis using assms get_rec_other [of t u c now s] by auto
qed

text \<open>The states after each beacon of a sequence.\<close>

fun after :: "(string \<times> string \<times> instant) list \<Rightarrow> 's \<Rightarrow> 's list" where
  "after [] s = [s]"
| "after ((t, c, now) # xs) s = s # after xs (rec t c now s)"

lemma failed_stays:
  assumes "get s t = Some b" "bs_lastCheckpoint b = CheckpointFailed" "bs_failedAt b = Some f" "\<forall>r \<in> set (after xs s). get r t \<noteq> None"
  shows "\<forall>r \<in> set (after xs s). says ever now r t = ''InstallerFailed'' \<and> map_option bs_failedAt (get r t) = Some (Some f)"
  using assms
proof (induction xs s arbitrary: b rule: after.induct)
  case (1 s)
  then show ?case using failed_says by simp
next
  case (2 u c now' xs s)
  have "get (rec u c now' s) t \<noteq> None" using 2(5) by (cases xs) auto
  then obtain b' where "get (rec u c now' s) t = Some b'" "bs_lastCheckpoint b' = CheckpointFailed" "bs_failedAt b' = Some f"
    using failed_step [OF 2(2,3,4)] by blast
  then show ?case using 2(1) [of b'] 2(2,3,4,5) failed_says by simp
qed

end

definition store_rec :: "string \<Rightarrow> string \<Rightarrow> instant \<Rightarrow> beacon_store \<Rightarrow> beacon_store" where
  "store_rec t c now s = fst (BeaconStore_Record t c now s)"

interpretation beacons: progress_log store_rec BeaconStore_Get
  by unfold_locales (auto simp: store_rec_def BeaconStore_Record_def BeaconStore_Get_def make_room_def Let_def split: if_splits)

section \<open>Properties\<close>

text \<open>What the routes of provisiond do to the store, in any order.\<close>

datatype store_op = Beacon string string instant | Dropped string

fun store_step :: "store_op \<Rightarrow> beacon_store \<Rightarrow> beacon_store" where
  "store_step (Beacon t c now) s = store_rec t c now s"
| "store_step (Dropped t) s = BeaconStore_Forget t s"

lemma capacity_step: "st_capacity (store_step x s) = st_capacity s"
  by (cases x) (auto simp: store_rec_def BeaconStore_Record_def BeaconStore_Forget_def make_room_def Let_def)

lemma store_run_inv: "store_inv s \<Longrightarrow> store_inv (fold store_step xs s) \<and> st_capacity (fold store_step xs s) = st_capacity s"
proof (induction xs arbitrary: s)
  case (Cons x xs)
  have "store_inv (store_step x s)"
    using Cons.prems by (cases x) (auto simp: store_rec_def intro: store_inv_Record store_inv_Forget)
  then show ?case using Cons.IH capacity_step by simp
qed simp

text \<open>
  C38. However many beacons reach the unauthenticated route, the store holds no more installations than its capacity,
  64 when none is configured, and only under well-formed tokens and with one of the three checkpoints.
\<close>

theorem beacon_store_bounded:
  "card (dom (st_entries (fold store_step xs (NewBeaconStore capacity)))) \<le> nat (if capacity \<le> 0 then 64 else capacity)
   \<and> (\<forall>t b. BeaconStore_Get (fold store_step xs (NewBeaconStore capacity)) t = Some b \<longrightarrow> beaconToken t \<and> ValidCheckpoint (bs_lastCheckpoint b))"
proof -
  let ?s = "fold store_step xs (NewBeaconStore capacity)"
  have inv: "store_inv ?s" "st_capacity ?s = nat (if capacity \<le> 0 then 64 else capacity)"
    using store_run_inv [OF store_inv_New] by (auto simp: NewBeaconStore_def defaultBeaconCapacity_def)
  then have "card (dom (st_entries ?s)) = length (st_order ?s)" unfolding store_inv_def by (metis distinct_card)
  then show ?thesis using inv unfolding store_inv_def BeaconStore_Get_def by auto
qed

definition w_token :: string where "w_token = replicate 32 (CHR ''a'')"

theorem beacon_store_bounded_witness:
  "BeaconStore_Get (fold store_step [Beacon w_token CheckpointEarly 5] (NewBeaconStore 0)) w_token \<noteq> None \<and> beaconToken w_token
   \<and> card (dom (st_entries (fold store_step [Beacon w_token CheckpointEarly 5] (NewBeaconStore 0)))) \<le> 64"
proof -
  have "BeaconStore_Get (fold store_step [Beacon w_token CheckpointEarly 5] (NewBeaconStore 0)) w_token \<noteq> None" by code_simp
  then show ?thesis using beacon_store_bounded [of "[Beacon w_token CheckpointEarly 5]" 0] by auto
qed

definition store_after :: "(string \<times> string \<times> instant) list \<Rightarrow> beacon_store \<Rightarrow> beacon_store list" where
  "store_after xs s = beacons.after xs s"

text \<open>
  C37. Once an installer reported a failure, the condition stays InstallerFailed and the failure keeps its date,
  whatever heartbeats of the same installation and beacons of others follow, for as long as the store keeps the
  installation at all.
\<close>

theorem installer_failure_stays_reported:
  assumes "BeaconStore_Get s t = Some b" "bs_lastCheckpoint b = CheckpointFailed" "bs_failedAt b = Some f"
    and "\<forall>r \<in> set (store_after xs s). BeaconStore_Get r t \<noteq> None"
  shows "\<forall>r \<in> set (store_after xs s). cd_reason (installerRespondingCondition (BeaconStore_Get r t) ever None now) = ''InstallerFailed''
    \<and> map_option bs_failedAt (BeaconStore_Get r t) = Some (Some f)"
  using beacons.failed_stays [OF assms(1,2,3), of xs ever now] assms(4) unfolding store_after_def beacons.says_def by blast

definition w_failed :: beacon_store where "w_failed = store_rec w_token CheckpointFailed 5 (NewBeaconStore 0)"

theorem installer_failure_stays_reported_witness:
  "cd_reason (installerRespondingCondition (BeaconStore_Get (store_rec w_token CheckpointEarly 20 w_failed) w_token) True None 20) = ''InstallerFailed''"
proof -
  have b: "BeaconStore_Get w_failed w_token = Some \<lparr>bs_lastCheckpoint = CheckpointFailed, bs_lastSeen = 5, bs_failedAt = Some 5, bs_count = 1\<rparr>"
    and n: "BeaconStore_Get (store_rec w_token CheckpointEarly 20 w_failed) w_token \<noteq> None"
    by code_simp+
  have after: "set (store_after [(w_token, CheckpointEarly, 20)] w_failed) = {w_failed, store_rec w_token CheckpointEarly 20 w_failed}"
    by (simp add: store_after_def)
  show ?thesis
    using installer_failure_stays_reported [OF b, where f = 5 and xs = "[(w_token, CheckpointEarly, 20)]" and ever = True and now = 20] b n
    unfolding after by simp
qed

end
