(* ===== verification/Install_Controller.thy ===== *)
theory Install_Controller
  imports Provision_Install Install_Liveness
begin

text \<open>
  \<open>FrameInstallReconciler\<close> of \<open>internal/controller/frame/frameinstall_controller.go\<close>: the memory of the running
  manager, one pass over an object, the goroutine's writes, and the finalizer. What the API and the BMC
  answer to one call is an environment.
\<close>

section \<open>Objects\<close>

record install_spec =
  is_machineRef :: string
  is_confirmSerial :: string
  is_hostname :: string
  is_network :: pv_network
  is_layout :: pv_layout
  is_mode :: string
  is_serverURL :: string
  is_joinTokenRef :: string
  is_k3sVersion :: string
  is_bootMode :: string
  is_sshKeyRef :: string

record install_status =
  it_phase :: string
  it_phaseSince :: "instant option"
  it_failedPhase :: string
  it_message :: string
  it_hostKey :: string
  it_nodeName :: string
  it_kubeconfigSecret :: string
  it_conditions :: "(string \<times> condition) list"
  it_observedGeneration :: int

record frame_install =
  fi_name :: string
  fi_namespace :: string
  fi_uid :: string
  fi_generation :: int
  fi_deleting :: bool
  fi_finalizer :: bool
  fi_spec :: install_spec
  fi_status :: install_status

text \<open>\<open>client.MergeFrom\<close>: a patch carries the fields in which the new status differs from the one read.\<close>

definition merged :: "('r \<Rightarrow> 'a) \<Rightarrow> 'r \<Rightarrow> 'r \<Rightarrow> 'r \<Rightarrow> 'a" where
  "merged f old new cur = (if f new = f old then f cur else f new)"

definition merge_status :: "install_status \<Rightarrow> install_status \<Rightarrow> install_status \<Rightarrow> install_status" where
  "merge_status old new cur =
     \<lparr>it_phase = merged it_phase old new cur, it_phaseSince = merged it_phaseSince old new cur,
      it_failedPhase = merged it_failedPhase old new cur, it_message = merged it_message old new cur,
      it_hostKey = merged it_hostKey old new cur, it_nodeName = merged it_nodeName old new cur,
      it_kubeconfigSecret = merged it_kubeconfigSecret old new cur, it_conditions = merged it_conditions old new cur,
      it_observedGeneration = merged it_observedGeneration old new cur\<rparr>"

record bmc_spec =
  bm_address :: string
  bm_credentialsRef :: string
  bm_insecureSkipVerify :: bool
  bm_caBundleRef :: string

record cluster_node =
  cn_name :: string
  cn_conditions :: "(string \<times> string) list"
  cn_addresses :: "string list"

section \<open>The manager's memory\<close>

record installer =
  rc_inFlight :: "string \<rightharpoonup> string"
  rc_tokens :: "string \<rightharpoonup> string"
  rc_seenBeacon :: "string \<Rightarrow> bool"

definition new_installer :: installer where
  "new_installer = \<lparr>rc_inFlight = Map.empty, rc_tokens = Map.empty, rc_seenBeacon = (\<lambda>u. False)\<rparr>"

definition running :: "installer \<Rightarrow> string \<Rightarrow> bool" where
  "running r machineRef \<longleftrightarrow> rc_inFlight r machineRef \<noteq> None"

definition startInstall :: "string \<Rightarrow> string \<Rightarrow> installer \<Rightarrow> installer \<times> bool" where
  "startInstall machineRef uid r =
     (if rc_inFlight r machineRef \<noteq> None then (r, False) else (r\<lparr>rc_inFlight := (rc_inFlight r)(machineRef \<mapsto> uid)\<rparr>, True))"

definition finishInstall :: "string \<Rightarrow> string \<Rightarrow> installer \<Rightarrow> installer" where
  "finishInstall machineRef uid r =
     r\<lparr>rc_inFlight := (rc_inFlight r)(machineRef := None), rc_tokens := (rc_tokens r)(uid := None),
       rc_seenBeacon := (rc_seenBeacon r)(uid := False)\<rparr>"

definition rememberToken :: "string \<Rightarrow> string \<Rightarrow> installer \<Rightarrow> installer" where
  "rememberToken uid token r = r\<lparr>rc_tokens := (rc_tokens r)(uid \<mapsto> token)\<rparr>"

definition tokenFor :: "installer \<Rightarrow> string \<Rightarrow> string option" where
  "tokenFor r uid = rc_tokens r uid"

definition markSeenBeacon :: "string \<Rightarrow> installer \<Rightarrow> installer" where
  "markSeenBeacon uid r = r\<lparr>rc_seenBeacon := (rc_seenBeacon r)(uid := True)\<rparr>"

definition everSeenBeacon :: "installer \<Rightarrow> string \<Rightarrow> bool" where
  "everSeenBeacon r uid = rc_seenBeacon r uid"

section \<open>Configuration and answers\<close>

record inst_config =
  cf_progress :: bool
  cf_mediaURL :: string
  cf_operatorNamespace :: string
  cf_phaseTimeout :: "(string \<rightharpoonup> duration) option"
  cf_poll :: duration

datatype node_read = NodeFound | NodeNotFound | NodeError string

text \<open>
  The answers to one pass. \<open>pe_latest\<close> is the second reading \<open>setCondition\<close> makes, \<^const>\<open>None\<close> when it
  fails; \<open>pe_nodeGet\<close> what reading a node by its name gives; \<open>pe_patch\<close>, \<open>pe_update\<close> the errors of the writes,
  \<open>pe_patchAgain\<close> that of the second status patch of a pass that has two; \<open>pe_rand\<close> sixteen random bytes.
\<close>

record pass_env =
  pe_now :: instant
  pe_parseURL :: url_parser
  pe_toLower :: "string \<Rightarrow> string"
  pe_machine :: "string + bmc_spec"
  pe_secret :: "string \<Rightarrow> string + (string \<rightharpoonup> string)"
  pe_configMap :: "string \<Rightarrow> string + (string \<rightharpoonup> string)"
  pe_usableCA :: "string \<Rightarrow> bool"
  pe_nodes :: "string + cluster_node list"
  pe_nodeGet :: "string \<Rightarrow> node_read"
  pe_installs :: "string + frame_install list"
  pe_rand :: "string + nat list"
  pe_eject :: "string option"
  pe_clear :: "string option"
  pe_progress :: "string + beacon_state option"
  pe_latest :: "frame_install option"
  pe_patch :: "string option"
  pe_patchAgain :: "string option"
  pe_update :: "string option"

text \<open>What a pass does outside the object: BMC writes, events, audit entries, and the start of an installation.\<close>

datatype eff =
    Ejects
  | Clears
  | Event string string
  | Task string string
  | Starts string pv_spec inst_opts

datatype pass_res = Done | RequeueAfter duration | PassError string

section \<open>Reading\<close>

datatype bmc_tls = TLSInsecure | TLSBundle string | TLSSystem

record redfish_bmc =
  rb_url :: string
  rb_user :: string
  rb_pass :: string
  rb_tls :: bmc_tls

definition data_of :: "(string \<rightharpoonup> string) \<Rightarrow> string \<Rightarrow> string" where
  "data_of d k = (case d k of None \<Rightarrow> '''' | Some v \<Rightarrow> v)"

definition BuildRedfishBMC :: "pass_env \<Rightarrow> string \<Rightarrow> bmc_spec \<Rightarrow> string + redfish_bmc" where
  "BuildRedfishBMC e namespace b =
     (case pe_secret e (bm_credentialsRef b) of
        Inl x \<Rightarrow> Inl x
      | Inr sec \<Rightarrow>
          (let user = data_of sec ''username''; pass = data_of sec ''password'';
               ok = (\<lambda>t. Inr \<lparr>rb_url = ''https://'' @ bm_address b, rb_user = user, rb_pass = pass, rb_tls = t\<rparr>)
           in if user = '''' \<or> pass = '''' then
                Inl (''secret '' @ namespace @ ''/'' @ bm_credentialsRef b @ '' must carry both username and password'')
              else if bm_insecureSkipVerify b then ok TLSInsecure
              else if bm_caBundleRef b \<noteq> '''' then
                (case pe_configMap e (bm_caBundleRef b) of
                   Inl x \<Rightarrow> Inl x
                 | Inr cm \<Rightarrow>
                     if \<not> pe_usableCA e (data_of cm ''ca.crt'') then
                       Inl (''configmap '' @ namespace @ ''/'' @ bm_caBundleRef b @ '' has no usable ca.crt'')
                     else ok (TLSBundle (data_of cm ''ca.crt'')))
              else ok TLSSystem))"

definition addressWithoutCIDR :: "string \<Rightarrow> string" where
  "addressWithoutCIDR s = takeWhile (\<lambda>c. c \<noteq> CHR ''/'') s"

fun live_member :: "string \<Rightarrow> string \<Rightarrow> cluster_node list \<Rightarrow> string option" where
  "live_member hostname address [] = None"
| "live_member hostname address (n # ns) =
     (if \<not> ready_condition (cn_conditions n) then live_member hostname address ns
      else if cn_name n = hostname then
        Some (''a Node named '' @ quoted hostname @ '' is Ready in this cluster; remove it from the cluster before reinstalling it'')
      else if address \<in> set (cn_addresses n) then
        Some (''a Ready Node ('' @ quoted (cn_name n) @ '') already carries address '' @ address @ ''; remove it from the cluster before reinstalling it'')
      else live_member hostname address ns)"

definition checkNotALiveClusterMember :: "pass_env \<Rightarrow> string \<Rightarrow> string \<Rightarrow> string option" where
  "checkNotALiveClusterMember e hostname cidrAddress =
     (case pe_nodes e of
        Inl x \<Rightarrow> Some (''listing nodes: '' @ x)
      | Inr nodes \<Rightarrow> live_member hostname (addressWithoutCIDR cidrAddress) nodes)"

definition terminal :: "frame_install \<Rightarrow> bool" where
  "terminal fi \<longleftrightarrow> it_phase (fi_status fi) = PhaseReady \<or> it_phase (fi_status fi) = PhaseFailed"

definition checkHostnameNotTaken :: "pass_env \<Rightarrow> frame_install \<Rightarrow> string option" where
  "checkHostnameNotTaken e fi =
     (let host = is_hostname (fi_spec fi) in
      case pe_nodeGet e host of
        NodeFound \<Rightarrow> Some (''a Node named '' @ quoted host @ '' already exists'')
      | NodeError x \<Rightarrow> Some (''checking for a Node named '' @ quoted host @ '': '' @ x)
      | NodeNotFound \<Rightarrow>
          (case pe_installs e of
             Inl x \<Rightarrow> Some (''listing FrameInstalls: '' @ x)
           | Inr items \<Rightarrow>
               map_option (\<lambda>x. ''FrameInstall '' @ quoted (fi_namespace x @ ''/'' @ fi_name x) @ '' already targets hostname '' @ quoted host
                   @ '' and has not reached a terminal phase'')
                 (find (\<lambda>x. fi_uid x \<noteq> fi_uid fi \<and> is_hostname (fi_spec x) = host \<and> \<not> terminal x) items)))"

definition readSSHKey :: "pass_env \<Rightarrow> string \<Rightarrow> string \<Rightarrow> string + (string \<times> string)" where
  "readSSHKey e namespace name =
     (case pe_secret e name of
        Inl x \<Rightarrow> Inl x
      | Inr d \<Rightarrow>
          if data_of d ''id.pub'' = '''' then Inl (''secret '' @ namespace @ ''/'' @ name @ '' has no id.pub'')
          else if data_of d ''id'' = '''' then Inl (''secret '' @ namespace @ ''/'' @ name @ '' has no id'')
          else Inr (trim_space (data_of d ''id.pub''), data_of d ''id''))"

definition readJoinToken :: "pass_env \<Rightarrow> string \<Rightarrow> string \<Rightarrow> string + string" where
  "readJoinToken e namespace name =
     (case pe_secret e name of
        Inl x \<Rightarrow> Inl x
      | Inr d \<Rightarrow>
          if data_of d ''node-token'' \<noteq> '''' then Inr (trim_space (data_of d ''node-token''))
          else if data_of d ''token'' \<noteq> '''' then Inr (trim_space (data_of d ''token''))
          else Inl (''secret '' @ namespace @ ''/'' @ name @ '' has neither a node-token nor a token key''))"

definition hex_bytes :: "nat list \<Rightarrow> string" where
  "hex_bytes bs = concat (map (\<lambda>b. [hex_char (b div 16), hex_char (b mod 16)]) bs)"

definition newInstallUID :: "pass_env \<Rightarrow> string + string" where
  "newInstallUID e = (case pe_rand e of Inl x \<Rightarrow> Inl (''generating install UID: '' @ x) | Inr b \<Rightarrow> Inr (hex_bytes b))"

definition ValidateMediaURLSyntax :: "url_parser \<Rightarrow> string \<Rightarrow> string option" where
  "ValidateMediaURLSyntax parse_url raw =
     (if trim_space raw = '''' then
        Some ''is not set: every built image bakes this address into its own boot arguments, so an image built against it would fetch its autoinstall seed from nowhere''
      else case parse_url raw of
        Inl x \<Rightarrow> Some (quoted raw @ '': '' @ x)
      | Inr u \<Rightarrow>
          if up_scheme u \<noteq> ''http'' \<and> up_scheme u \<noteq> schemeHTTPS then
            Some (quoted raw @ '': scheme must be http or https, got '' @ quoted (up_scheme u))
          else if up_host u = '''' then Some (quoted raw @ '': has no host'')
          else None)"

definition ValidateMediaURL :: "url_parser \<Rightarrow> (string \<Rightarrow> string) \<Rightarrow> string \<Rightarrow> string option" where
  "ValidateMediaURL parse_url to_lower raw =
     (case ValidateMediaURLSyntax parse_url raw of
        Some x \<Rightarrow> Some x
      | None \<Rightarrow>
          (case parse_url raw of
             Inl x \<Rightarrow> Some (quoted raw @ '': '' @ x)
           | Inr u \<Rightarrow>
               (let host = to_lower (up_hostname u) in
                if host = ''invalid'' \<or> has_suffix host ''.invalid'' then
                  Some (quoted raw @ '': .invalid is reserved by RFC 2606 and never resolves -- this is the placeholder the shipped manifests carry, not an address any BMC can fetch from'')
                else None)))"

section \<open>What an installation is given\<close>

definition toProvisionSpec :: "frame_install \<Rightarrow> string \<Rightarrow> string \<Rightarrow> string \<Rightarrow> pv_spec" where
  "toProvisionSpec fi installUID sshPublicKey joinToken =
     (let s = fi_spec fi in
      \<lparr>ps_uid = installUID, ps_hostname = is_hostname s, ps_network = is_network s, ps_layout = is_layout s, ps_sshPublicKey = sshPublicKey,
       ps_cluster = \<lparr>pc_mode = is_mode s, pc_serverURL = is_serverURL s, pc_joinToken = joinToken, pc_k3sVersion = is_k3sVersion s\<rparr>,
       ps_bootMode = ''''\<rparr>)"

definition defaultPhaseTimeouts :: "string \<rightharpoonup> duration" where
  "defaultPhaseTimeouts = map_of
     [(PhasePending, 30 * second), (PhasePreparing, 30 * minute), (PhaseMediaAttached, 2 * minute), (PhaseInstalling, 90 * minute),
      (PhaseJoining, 5 * minute), (PhaseReady, 5 * minute)]"

definition defaultPoll :: duration where "defaultPoll = 5 * second"
definition frameInstallSSHUser :: string where "frameInstallSSHUser = ''frame''"

definition options :: "inst_config \<Rightarrow> frame_install \<Rightarrow> string \<Rightarrow> inst_opts" where
  "options cf fi sshKey =
     \<lparr>io_bootMode = is_bootMode (fi_spec fi), io_sshUser = frameInstallSSHUser, io_sshKey = sshKey,
      io_nodeAddress = addressWithoutCIDR (pn_address (is_network (fi_spec fi))), io_confirmSerial = is_confirmSerial (fi_spec fi),
      io_phaseTimeout = (case cf_phaseTimeout cf of None \<Rightarrow> defaultPhaseTimeouts | Some t \<Rightarrow> t),
      io_poll = (if cf_poll cf \<le> 0 then defaultPoll else cf_poll cf)\<rparr>"

section \<open>Writing\<close>

definition patch_status :: "pass_env \<Rightarrow> install_status \<Rightarrow> install_status \<Rightarrow> frame_install \<Rightarrow> string + frame_install" where
  "patch_status e old new cur =
     (case pe_patch e of Some x \<Rightarrow> Inl x | None \<Rightarrow> Inr (cur\<lparr>fi_status := merge_status old new (fi_status cur)\<rparr>))"

definition recordTask :: "string \<Rightarrow> string \<Rightarrow> eff" where
  "recordTask verb action = Task verb (truncateString action 200)"

definition on_machine :: "frame_install \<Rightarrow> string" where
  "on_machine fi = ''install '' @ is_hostname (fi_spec fi) @ '' on machine '' @ is_machineRef (fi_spec fi)"

text \<open>The result of a pass: the memory, the stored object, what was done, and the answer to the work queue.\<close>

type_synonym pass = "installer \<times> frame_install \<times> eff list \<times> pass_res"

definition failPending :: "pass_env \<Rightarrow> installer \<Rightarrow> frame_install \<Rightarrow> frame_install \<Rightarrow> string \<Rightarrow> pass" where
  "failPending e r fi cur msg =
     (let old = fi_status fi;
          new = old\<lparr>it_phase := PhaseFailed, it_failedPhase := PhasePending, it_message := truncateString msg 512,
            it_phaseSince := Some (trunc_second (pe_now e))\<rparr>
      in case patch_status e old new cur of
           Inl x \<Rightarrow> (r, cur, [], PassError x)
         | Inr cur' \<Rightarrow> (r, cur', [Event ''InstallRefused'' msg, recordTask ''update'' (''refused: '' @ msg @ '' ('' @ on_machine cur' @ '')'')], Done))"

text \<open>The cleanup of a machine no goroutine drives: the calls made, and the two errors if it was tried.\<close>

definition clean_machine :: "pass_env \<Rightarrow> frame_install \<Rightarrow> eff list \<times> (string option \<times> string option)" where
  "clean_machine e fi =
     (case pe_machine e of
        Inl _ \<Rightarrow> ([], None, None)
      | Inr b \<Rightarrow>
          (case BuildRedfishBMC e (fi_namespace fi) b of
             Inl _ \<Rightarrow> ([], None, None)
           | Inr _ \<Rightarrow> ([Ejects, Clears], pe_eject e, pe_clear e)))"

definition failRestarted :: "pass_env \<Rightarrow> installer \<Rightarrow> frame_install \<Rightarrow> frame_install \<Rightarrow> pass" where
  "failRestarted e r fi cur =
     (let old = fi_status fi;
          prevPhase = (if it_phase old = '''' then PhasePending else it_phase old);
          msg0 = ''the controller restarted mid-install (was in phase '' @ prevPhase
            @ ''); a mid-install restart cannot be resumed safely and is not retried automatically -- the machine may still have installer media attached and a one-time boot override set''
      in case clean_machine e fi of
           (as, ej, cl) \<Rightarrow>
             (let msg = (if ej \<noteq> None \<or> cl \<noteq> None then
                     msg0 @ '' (cleanup also failed: eject='' @ err_text ej @ '' clear='' @ err_text cl @ '')'' else msg0);
                  new = old\<lparr>it_phase := PhaseFailed, it_failedPhase := prevPhase, it_message := truncateString msg 512,
                    it_phaseSince := Some (trunc_second (pe_now e)), it_conditions := RemoveStatusCondition ''InstallerResponding'' (it_conditions old)\<rparr>
              in case patch_status e old new cur of
                   Inl x \<Rightarrow> (r, cur, as, PassError x)
                 | Inr cur' \<Rightarrow>
                     (r, cur', as @ [Event ''InstallRestarted'' msg,
                        recordTask ''update'' (on_machine cur' @ '' reached Failed: controller restarted mid-install'')], Done)))"

definition setCondition :: "pass_env \<Rightarrow> condition \<Rightarrow> frame_install \<Rightarrow> frame_install" where
  "setCondition e cond cur =
     (case pe_latest e of
        None \<Rightarrow> cur
      | Some latest \<Rightarrow>
          if it_phase (fi_status latest) \<noteq> PhaseInstalling then cur
          else
            (let old = fi_status latest;
                 new = old\<lparr>it_conditions := SetStatusCondition ''InstallerResponding'' (cond\<lparr>cd_observedGeneration := fi_generation latest\<rparr>) (it_conditions old)\<rparr>
             in case patch_status e old new cur of Inl _ \<Rightarrow> cur | Inr cur' \<Rightarrow> cur'))"

definition reportInstallerLiveness ::
  "inst_config \<Rightarrow> pass_env \<Rightarrow> installer \<Rightarrow> frame_install \<Rightarrow> frame_install \<Rightarrow> installer \<times> frame_install" where
  "reportInstallerLiveness cf e r fi cur =
     (if \<not> cf_progress cf \<or> it_phase (fi_status fi) \<noteq> PhaseInstalling then (r, cur)
      else case tokenFor r (fi_uid fi) of
        None \<Rightarrow>
          (r, setCondition e (installerRespondingCondition None (everSeenBeacon r (fi_uid fi))
             (Some (''this manager holds no image token for this installation -- another FrameInstall now owns machine ''
                @ quoted (is_machineRef (fi_spec fi)))) (pe_now e)) cur)
      | Some token \<Rightarrow>
          (case pe_progress e of
             Inl x \<Rightarrow> (r, setCondition e (installerRespondingCondition None (everSeenBeacon r (fi_uid fi)) (Some x) (pe_now e)) cur)
           | Inr st \<Rightarrow>
               (let r' = (if st \<noteq> None then markSeenBeacon (fi_uid fi) r else r) in
                (r', setCondition e (installerRespondingCondition st (everSeenBeacon r' (fi_uid fi)) None (pe_now e)) cur))))"

definition finalize :: "pass_env \<Rightarrow> installer \<Rightarrow> frame_install \<Rightarrow> frame_install \<Rightarrow> pass" where
  "finalize e r fi cur =
     (if \<not> fi_finalizer fi then (r, cur, [], Done)
      else if running r (is_machineRef (fi_spec fi)) then (r, cur, [], RequeueAfter (5 * second))
      else case clean_machine e fi of
        (as, ej, cl) \<Rightarrow>
          if ej \<noteq> None \<or> cl \<noteq> None then
            (r, cur, as, PassError (''finalizer: ejecting media / clearing boot override for '' @ fi_name fi @ '': eject='' @ err_text ej @ '' clear='' @ err_text cl))
          else case pe_update e of
            Some x \<Rightarrow> (r, cur, as, PassError x)
          | None \<Rightarrow> (r, cur\<lparr>fi_finalizer := False\<rparr>, as, Done))"

section \<open>A pass\<close>

text \<open>The guards of a first start, in their order: what the installation is given, or the refusal.\<close>

definition start_guards :: "inst_config \<Rightarrow> pass_env \<Rightarrow> frame_install \<Rightarrow> string + (string \<times> string \<times> string)" where
  "start_guards cf e fi =
     (let s = fi_spec fi in
      case pe_machine e of
        Inl x \<Rightarrow> Inl (''machine '' @ quoted (is_machineRef s) @ '': '' @ x)
      | Inr b \<Rightarrow>
     (case ValidateMediaURL (pe_parseURL e) (pe_toLower e) (cf_mediaURL cf) of
        Some x \<Rightarrow> Inl (''frame-provisiond's media URL (the manager's -provisiond-media-url flag, the chart's provisiond.media.url) '' @ x
          @ '' -- this cluster is not configured to provision machines: expose the frame-provisiond-media Service (ClusterIP, closed, by default) to the BMCs' network and set this URL to the address they reach it at'')
      | None \<Rightarrow>
     (case checkNotALiveClusterMember e (is_hostname s) (pn_address (is_network s)) of
        Some x \<Rightarrow> Inl x
      | None \<Rightarrow>
     (case checkHostnameNotTaken e fi of
        Some x \<Rightarrow> Inl x
      | None \<Rightarrow>
     (case BuildRedfishBMC e (fi_namespace fi) b of
        Inl x \<Rightarrow> Inl (''building a BMC client for machine '' @ is_machineRef s @ '': '' @ x)
      | Inr _ \<Rightarrow>
     (case readSSHKey e (fi_namespace fi) (is_sshKeyRef s) of
        Inl x \<Rightarrow> Inl (''reading SSH key '' @ is_sshKeyRef s @ '': '' @ x)
      | Inr (pub, priv) \<Rightarrow>
          if is_mode s = ClusterJoin then
            (case readJoinToken e (fi_namespace fi) (is_joinTokenRef s) of
               Inl x \<Rightarrow> Inl (''reading join token '' @ is_joinTokenRef s @ '': '' @ x)
             | Inr t \<Rightarrow> Inr (pub, priv, t))
          else Inr (pub, priv, '''')))))))"

text \<open>
  \<open>fi\<close> is the object as the pass read it, \<open>cur\<close> the object as it is stored. A successful patch leaves the
  stored object in \<open>fi\<close>, specification included, so from there on the code works on that one.
\<close>

definition Install_Reconcile :: "inst_config \<Rightarrow> pass_env \<Rightarrow> installer \<Rightarrow> frame_install \<Rightarrow> frame_install \<Rightarrow> pass" where
  "Install_Reconcile cf e r fi cur =
     (if fi_deleting fi then finalize e r fi cur
      else if \<not> fi_finalizer fi then
        (case pe_update e of Some x \<Rightarrow> (r, cur, [], PassError x) | None \<Rightarrow> (r, cur\<lparr>fi_finalizer := True\<rparr>, [], Done))
      else if terminal fi then (r, cur, [], Done)
      else if running r (is_machineRef (fi_spec fi)) then
        (case reportInstallerLiveness cf e r fi cur of (r', cur') \<Rightarrow> (r', cur', [], RequeueAfter (15 * second)))
      else if it_observedGeneration (fi_status fi) = fi_generation fi then failRestarted e r fi cur
      else case start_guards cf e fi of
        Inl msg \<Rightarrow> failPending e r fi cur msg
      | Inr (pub, priv, token) \<Rightarrow>
          (case startInstall (is_machineRef (fi_spec fi)) (fi_uid fi) r of
             (r1, False) \<Rightarrow> (r1, cur, [], RequeueAfter (15 * second))
           | (r1, True) \<Rightarrow>
               (let new = (fi_status fi)\<lparr>it_observedGeneration := fi_generation fi\<rparr> in
                case patch_status e (fi_status fi) new cur of
                  Inl x \<Rightarrow> (finishInstall (is_machineRef (fi_spec fi)) (fi_uid fi) r1, cur, [], PassError x)
                | Inr cur1 \<Rightarrow>
                    (case newInstallUID e of
                       Inl x \<Rightarrow>
                         failPending (e\<lparr>pe_patch := pe_patchAgain e\<rparr>) (finishInstall (is_machineRef (fi_spec cur1)) (fi_uid cur1) r1) cur1 cur1
                           (''generating an install UID: '' @ x)
                     | Inr uid \<Rightarrow>
                         (r1, cur1,
                          [recordTask ''create'' (on_machine cur1),
                           Starts (is_machineRef (fi_spec cur1)) (toProvisionSpec cur1 uid pub token) (options cf cur1 priv)],
                          RequeueAfter (15 * second))))))"

section \<open>The goroutine's writes\<close>

text \<open>The answers to one of its writes: the object as it is read, and the errors.\<close>

record write_env =
  we_now :: instant
  we_get :: "frame_install option"
  we_patch :: "string option"
  we_secret :: "string option"

definition store_patch :: "write_env \<Rightarrow> install_status \<Rightarrow> install_status \<Rightarrow> frame_install \<Rightarrow> frame_install option" where
  "store_patch w old new cur =
     (case we_patch w of Some _ \<Rightarrow> None | None \<Rightarrow> Some (cur\<lparr>fi_status := merge_status old new (fi_status cur)\<rparr>))"

definition reportPhase :: "write_env \<Rightarrow> string \<Rightarrow> frame_install \<Rightarrow> frame_install" where
  "reportPhase w p cur =
     (case we_get w of
        None \<Rightarrow> cur
      | Some fi \<Rightarrow>
          (let old = fi_status fi; new = old\<lparr>it_phase := p, it_phaseSince := Some (trunc_second (we_now w))\<rparr> in
           case store_patch w old new cur of None \<Rightarrow> cur | Some cur' \<Rightarrow> cur'))"

text \<open>The Secret of a new cluster's kubeconfig: its namespace and name, the data, and whether the install owns it.\<close>

datatype secret_write = NoSecret | SecretFor string string string bool

definition writeKubeconfigSecret :: "string \<Rightarrow> frame_install \<Rightarrow> string \<Rightarrow> secret_write" where
  "writeKubeconfigSecret namespace owner kubeconfig =
     SecretFor namespace (fi_name owner @ ''-kubeconfig'') kubeconfig (namespace = fi_namespace owner)"

text \<open>The final status of an installation that returned \<open>res\<close> and \<open>err\<close>, before the kubeconfig is saved.\<close>

definition result_status :: "write_env \<Rightarrow> install_status \<Rightarrow> inst_res \<Rightarrow> string option \<Rightarrow> install_status" where
  "result_status w old res err =
     old\<lparr>it_phase := ir_phase res, it_phaseSince := Some (trunc_second (we_now w)), it_failedPhase := ir_failedPhase res,
       it_message := (case err of Some x \<Rightarrow> truncateString x 512 | None \<Rightarrow> ''''), it_hostKey := ir_hostKey res, it_nodeName := ir_nodeName res,
       it_conditions := RemoveStatusCondition ''InstallerResponding'' (it_conditions old)\<rparr>"

definition kubeconfig_status :: "write_env \<Rightarrow> string \<Rightarrow> frame_install \<Rightarrow> install_status \<Rightarrow> install_status" where
  "kubeconfig_status w ns fi st =
     (case we_secret w of
        None \<Rightarrow> st\<lparr>it_kubeconfigSecret := fi_name fi @ ''-kubeconfig''\<rparr>
      | Some x \<Rightarrow>
          (let msg = ''the cluster was created but saving kubeconfig Secret '' @ ns @ ''/'' @ fi_name fi @ ''-kubeconfig failed, so nobody can talk to it: '' @ x
           in st\<lparr>it_phase := PhaseFailed, it_failedPhase := (if it_failedPhase st = '''' then PhaseReady else it_failedPhase st),
                it_message := truncateString ((if it_message st \<noteq> '''' then it_message st @ ''; additionally, '' else '''') @ msg) 512\<rparr>))"

definition finishStatus ::
  "inst_config \<Rightarrow> write_env \<Rightarrow> string \<Rightarrow> inst_res \<Rightarrow> string option \<Rightarrow> frame_install \<Rightarrow> frame_install \<times> secret_write \<times> eff list" where
  "finishStatus cf w machineRef res err cur =
     (case we_get w of
        None \<Rightarrow> (cur, NoSecret, [])
      | Some fi \<Rightarrow>
          (let st = result_status w (fi_status fi) res err;
               ns = (if cf_operatorNamespace cf = '''' then fi_namespace fi else cf_operatorNamespace cf);
               saves = (is_mode (fi_spec fi) = ClusterInit \<and> ir_kubeconfig res \<noteq> None \<and> ir_kubeconfig res \<noteq> Some '''');
               new = (if saves then kubeconfig_status w ns fi st else st);
               sec = (if saves then writeKubeconfigSecret ns fi (the (ir_kubeconfig res)) else NoSecret)
           in case store_patch w (fi_status fi) new cur of
                None \<Rightarrow> (cur, sec, [])
              | Some cur' \<Rightarrow>
                  (cur', sec,
                   [if it_phase (fi_status cur') = PhaseReady then Event ''InstallReady'' ''installation reached Ready''
                    else Event ''InstallFailed'' (it_message (fi_status cur')),
                    recordTask ''update'' (''install '' @ is_hostname (fi_spec cur') @ '' on machine '' @ machineRef @ '' reached '' @ it_phase (fi_status cur'))])))"

end
