(* ===== verification/Install_System.thy ===== *)
theory Install_System
  imports Install_Controller
begin

text \<open>
  The manager over time: passes over the objects, the goroutines it started, restarts that lose them, and
  the users who create, edit and delete \<open>FrameInstall\<close>s. The machines in use are an interface of their own.
  A pass, and each write of a goroutine, is one step: an edit comes before or after it. What an edit inside a
  pass does is a matter of single passes and is shown in \<open>Install_Once\<close>.
\<close>

section \<open>Slots\<close>

text \<open>What the passes rely on: a machine is claimed by one owner at a time, and freed by name.\<close>

locale job_slots =
  fixes holder :: "'m \<Rightarrow> string \<Rightarrow> string option"
    and claim :: "string \<Rightarrow> string \<Rightarrow> 'm \<Rightarrow> 'm \<times> bool"
    and free :: "string \<Rightarrow> string \<Rightarrow> 'm \<Rightarrow> 'm"
    and fresh :: 'm
  assumes claimed: "claim m u r = (r', True) \<Longrightarrow> holder r m = None \<and> holder r' = (holder r)(m \<mapsto> u)"
    and refused: "claim m u r = (r', False) \<Longrightarrow> r' = r"
    and freed: "holder (free m u r) = (holder r)(m := None)"
    and fresh: "holder fresh = Map.empty"
begin

definition matches :: "'m \<Rightarrow> (string \<times> string) list \<Rightarrow> bool" where
  "matches r jobs \<longleftrightarrow> distinct (map fst jobs) \<and> (\<forall>m u. holder r m = Some u \<longleftrightarrow> (m, u) \<in> set jobs)"

lemma matches_fresh: "matches fresh []"
  by (simp add: matches_def fresh)

lemma matches_claim:
  assumes "matches r jobs" "claim m u r = (r', True)"
  shows "matches r' ((m, u) # jobs)"
proof -
  note c = claimed [OF assms(2)]
  then have "m \<notin> fst ` set jobs" using assms(1) by (force simp: matches_def)
  then show ?thesis using assms(1) c by (auto simp: matches_def) force
qed

lemma matches_free:
  assumes "matches r jobs" "(m, u) \<in> set jobs"
  shows "matches (free m u r) (remove1 (m, u) jobs)"
proof -
  have d: "distinct (map fst jobs)" "distinct jobs" using assms(1) by (auto simp: matches_def distinct_map)
  have only: "v = u" if "(m, v) \<in> set jobs" for v using that assms(2) d(1) eq_key_imp_eq_value by metis
  have "set (remove1 (m, u) jobs) = set jobs - {(m, u)}" using d(2) by (rule set_remove1_eq)
  moreover have "distinct (map fst (remove1 (m, u) jobs))"
    using d set_remove1_subset [of "(m, u)" jobs] by (auto simp: distinct_map distinct_remove1 intro: inj_on_subset)
  ultimately show ?thesis using assms(1) only by (auto simp: matches_def freed)
qed

lemma matches_undo:
  assumes "matches r jobs" "claim m u r = (r', True)"
  shows "matches (free m u r') jobs"
proof -
  have "matches (free m u r') (remove1 (m, u) ((m, u) # jobs))"
    by (rule matches_free [OF matches_claim [OF assms]]) simp
  then show ?thesis by simp
qed

end

interpretation slots: job_slots rc_inFlight startInstall finishInstall new_installer
  by unfold_locales (auto simp: startInstall_def finishInstall_def new_installer_def split: if_splits)

section \<open>The system\<close>

text \<open>
  \<open>sy_jobs\<close> are the goroutines, by machine and object; \<open>sy_log\<close> every start ever made, by object and
  generation; \<open>sy_used\<close> every UID the API server ever gave out.
\<close>

record inst_sys =
  sy_objs :: "string \<rightharpoonup> frame_install"
  sy_mem :: installer
  sy_jobs :: "(string \<times> string) list"
  sy_log :: "(string \<times> int) list"
  sy_used :: "string set"

fun machines_started :: "eff list \<Rightarrow> string list" where
  "machines_started [] = []"
| "machines_started (Starts m s opt # es) = m # machines_started es"
| "machines_started (x # es) = machines_started es"

definition new_status :: install_status where
  "new_status = \<lparr>it_phase = '''', it_phaseSince = None, it_failedPhase = '''', it_message = '''', it_hostKey = '''', it_nodeName = '''',
     it_kubeconfigSecret = '''', it_conditions = [], it_observedGeneration = 0\<rparr>"

definition new_sys :: inst_sys where
  "new_sys = \<lparr>sy_objs = Map.empty, sy_mem = new_installer, sy_jobs = [], sy_log = [], sy_used = {}\<rparr>"

inductive sys_step :: "inst_config \<Rightarrow> inst_sys \<Rightarrow> inst_sys \<Rightarrow> bool" for cf :: inst_config where
  pass: "sy_objs s u = Some fi \<Longrightarrow> pe_latest e = None \<or> pe_latest e = Some fi \<Longrightarrow>
    Install_Reconcile cf e (sy_mem s) fi fi = (r, cur, effs, res) \<Longrightarrow>
    sys_step cf s (s\<lparr>sy_mem := r, sy_objs := (sy_objs s)(u \<mapsto> cur), sy_jobs := map (\<lambda>m. (m, u)) (machines_started effs) @ sy_jobs s,
      sy_log := map (\<lambda>m. (u, fi_generation fi)) (machines_started effs) @ sy_log s\<rparr>)"
| phase: "(m, u) \<in> set (sy_jobs s) \<Longrightarrow> sy_objs s u = Some fi \<Longrightarrow> we_get w = None \<or> we_get w = Some fi \<Longrightarrow>
    sys_step cf s (s\<lparr>sy_objs := (sy_objs s)(u \<mapsto> reportPhase w p fi)\<rparr>)"
| token: "(m, u) \<in> set (sy_jobs s) \<Longrightarrow> sys_step cf s (s\<lparr>sy_mem := rememberToken u t (sy_mem s)\<rparr>)"
| finish: "(m, u) \<in> set (sy_jobs s) \<Longrightarrow> sy_objs s u = Some fi \<Longrightarrow> we_get w = None \<or> we_get w = Some fi \<Longrightarrow>
    finishStatus cf w m out err fi = (cur, sec, effs) \<Longrightarrow>
    sys_step cf s (s\<lparr>sy_objs := (sy_objs s)(u \<mapsto> cur), sy_mem := finishInstall m u (sy_mem s), sy_jobs := remove1 (m, u) (sy_jobs s)\<rparr>)"
| finish_gone: "(m, u) \<in> set (sy_jobs s) \<Longrightarrow> sy_objs s u = None \<Longrightarrow>
    sys_step cf s (s\<lparr>sy_mem := finishInstall m u (sy_mem s), sy_jobs := remove1 (m, u) (sy_jobs s)\<rparr>)"
| restart: "sys_step cf s (s\<lparr>sy_mem := new_installer, sy_jobs := []\<rparr>)"
| create: "u \<notin> sy_used s \<Longrightarrow> fi_uid fi = u \<Longrightarrow> fi_generation fi = 1 \<Longrightarrow> fi_status fi = new_status \<Longrightarrow>
    sys_step cf s (s\<lparr>sy_objs := (sy_objs s)(u \<mapsto> fi), sy_used := insert u (sy_used s)\<rparr>)"
| edit: "sy_objs s u = Some fi \<Longrightarrow>
    sys_step cf s (s\<lparr>sy_objs := (sy_objs s)(u \<mapsto> fi\<lparr>fi_spec := sp, fi_generation := fi_generation fi + 1\<rparr>)\<rparr>)"
| delete: "sy_objs s u = Some fi \<Longrightarrow> sys_step cf s (s\<lparr>sy_objs := (sy_objs s)(u \<mapsto> fi\<lparr>fi_deleting := True\<rparr>)\<rparr>)"
| gone: "sy_objs s u = Some fi \<Longrightarrow> fi_deleting fi \<Longrightarrow> \<not> fi_finalizer fi \<Longrightarrow> sys_step cf s (s\<lparr>sy_objs := (sy_objs s)(u := None)\<rparr>)"

definition sys_reachable :: "inst_config \<Rightarrow> inst_sys \<Rightarrow> bool" where
  "sys_reachable cf s \<longleftrightarrow> (sys_step cf)\<^sup>*\<^sup>* new_sys s"

section \<open>What a pass changes\<close>

lemma merge_fresh [simp]: "merge_status old new old = new"
  by (simp add: merge_status_def merged_def)

text \<open>A write keeps the identity of the object, and its observed generation unless it starts an installation.\<close>

definition same_object :: "frame_install \<Rightarrow> frame_install \<Rightarrow> bool" where
  "same_object a b \<longleftrightarrow> fi_uid b = fi_uid a \<and> fi_generation b = fi_generation a \<and> fi_spec b = fi_spec a"

definition quiet_write :: "frame_install \<Rightarrow> frame_install \<Rightarrow> bool" where
  "quiet_write a b \<longleftrightarrow> same_object a b \<and> it_observedGeneration (fi_status b) = it_observedGeneration (fi_status a)"

lemma patch_fresh:
  assumes "patch_status e (fi_status fi) new fi = Inr cur"
  shows "cur = fi\<lparr>fi_status := new\<rparr>"
  using assms by (auto simp: patch_status_def split: option.splits)

lemma failPending_quiet:
  assumes "failPending e r fi fi msg = (r', cur, effs, res)"
  shows "r' = r \<and> quiet_write fi cur \<and> machines_started effs = []"
  using assms by (auto simp: failPending_def Let_def recordTask_def quiet_write_def same_object_def dest: patch_fresh split: sum.splits)

lemma clean_machine_quiet: "clean_machine e fi = (as, x) \<Longrightarrow> machines_started (as @ bs) = machines_started bs"
  by (auto simp: clean_machine_def split: sum.splits)

lemma failRestarted_quiet:
  assumes "failRestarted e r fi fi = (r', cur, effs, res)"
  shows "r' = r \<and> quiet_write fi cur \<and> machines_started effs = []"
proof -
  obtain as ej cl where c: "clean_machine e fi = (as, ej, cl)" by (cases "clean_machine e fi") auto
  show ?thesis using assms clean_machine_quiet [OF c, of "[]"] clean_machine_quiet [OF c]
    by (auto simp: failRestarted_def c Let_def recordTask_def quiet_write_def same_object_def dest: patch_fresh split: sum.splits)
qed

lemma setCondition_quiet: "pe_latest e = None \<or> pe_latest e = Some fi \<Longrightarrow> quiet_write fi (setCondition e c fi)"
  by (auto simp: setCondition_def quiet_write_def same_object_def Let_def dest!: patch_fresh split: sum.splits)

lemma liveness_quiet:
  assumes "reportInstallerLiveness cf e r fi fi = (r', cur)" "pe_latest e = None \<or> pe_latest e = Some fi"
  shows "rc_inFlight r' = rc_inFlight r \<and> quiet_write fi cur"
  using assms(1) setCondition_quiet [OF assms(2)]
  by (auto simp: reportInstallerLiveness_def markSeenBeacon_def Let_def quiet_write_def same_object_def split: if_splits option.splits sum.splits)

lemma finalize_quiet:
  assumes "finalize e r fi fi = (r', cur, effs, res)"
  shows "r' = r \<and> quiet_write fi cur \<and> machines_started effs = []"
proof -
  obtain as ej cl where c: "clean_machine e fi = (as, ej, cl)" by (cases "clean_machine e fi") auto
  show ?thesis using assms clean_machine_quiet [OF c, of "[]"]
    by (auto simp: finalize_def c quiet_write_def same_object_def split: if_splits option.splits)
qed

lemma store_patch_fresh: "store_patch w (fi_status fi) new fi = Some cur \<Longrightarrow> cur = fi\<lparr>fi_status := new\<rparr>"
  by (auto simp: store_patch_def split: option.splits)

lemma reportPhase_quiet: "we_get w = None \<or> we_get w = Some fi \<Longrightarrow> quiet_write fi (reportPhase w p fi)"
  by (auto simp: reportPhase_def quiet_write_def same_object_def Let_def dest!: store_patch_fresh split: option.splits)

lemma finishStatus_quiet:
  assumes "finishStatus cf w m out err fi = (cur, sec, effs)" "we_get w = None \<or> we_get w = Some fi"
  shows "quiet_write fi cur"
proof (cases "we_get w")
  case (Some fi')
  then have g: "we_get w = Some fi" using assms(2) by simp
  have "it_observedGeneration (kubeconfig_status w ns fi (result_status w (fi_status fi) out err)) = it_observedGeneration (fi_status fi)" for ns
    by (simp add: kubeconfig_status_def result_status_def Let_def split: option.splits)
  moreover have "it_observedGeneration (result_status w (fi_status fi) out err) = it_observedGeneration (fi_status fi)"
    by (simp add: result_status_def)
  ultimately show ?thesis using assms(1) g
    by (auto simp: finishStatus_def quiet_write_def same_object_def Let_def dest!: store_patch_fresh split: option.splits)
qed (use assms in \<open>auto simp: finishStatus_def quiet_write_def same_object_def\<close>)

text \<open>A pass that read the stored object either starts nothing, or claims the machine, commits the generation and starts once.\<close>

definition pass_idle :: "installer \<Rightarrow> frame_install \<Rightarrow> installer \<Rightarrow> frame_install \<Rightarrow> eff list \<Rightarrow> bool" where
  "pass_idle r fi r' cur effs \<longleftrightarrow>
     machines_started effs = [] \<and> same_object fi cur \<and> rc_inFlight r' = rc_inFlight r
     \<and> (it_observedGeneration (fi_status cur) = it_observedGeneration (fi_status fi) \<or> it_observedGeneration (fi_status cur) = fi_generation fi)"

definition pass_starts :: "inst_config \<Rightarrow> pass_env \<Rightarrow> installer \<Rightarrow> frame_install \<Rightarrow> installer \<Rightarrow> frame_install \<Rightarrow> eff list \<Rightarrow> bool" where
  "pass_starts cf e r fi r' cur effs \<longleftrightarrow>
     machines_started effs = [is_machineRef (fi_spec fi)]
     \<and> (\<forall>m s opt. Starts m s opt \<in> set effs \<longrightarrow> ps_hostname s = is_hostname (fi_spec fi) \<and> ps_layout s = is_layout (fi_spec fi)
          \<and> io_confirmSerial opt = is_confirmSerial (fi_spec fi)) \<and> startInstall (is_machineRef (fi_spec fi)) (fi_uid fi) r = (r', True)
     \<and> same_object fi cur \<and> it_observedGeneration (fi_status cur) = fi_generation fi
     \<and> it_observedGeneration (fi_status fi) \<noteq> fi_generation fi \<and> \<not> terminal fi \<and> (\<exists>x. start_guards cf e fi = Inr x)"

lemma pass_idle_quiet: "quiet_write fi cur \<Longrightarrow> machines_started effs = [] \<Longrightarrow> rc_inFlight r' = rc_inFlight r \<Longrightarrow> pass_idle r fi r' cur effs"
  by (auto simp: pass_idle_def quiet_write_def)

lemma Reconcile_new:
  assumes run: "Install_Reconcile cf e r fi fi = (r', cur, effs, res)"
    and new: "\<not> fi_deleting fi" "fi_finalizer fi" "\<not> terminal fi" "\<not> running r (is_machineRef (fi_spec fi))"
      "it_observedGeneration (fi_status fi) \<noteq> fi_generation fi"
  shows "pass_idle r fi r' cur effs \<or> pass_starts cf e r fi r' cur effs"
proof (cases "start_guards cf e fi")
  case (Inl x)
  then have "failPending e r fi fi x = (r', cur, effs, res)" using new run by (simp add: Install_Reconcile_def)
  then show ?thesis using failPending_quiet pass_idle_quiet by blast
next
  case (Inr k)
  let ?m = "is_machineRef (fi_spec fi)"
  let ?new = "(fi_status fi)\<lparr>it_observedGeneration := fi_generation fi\<rparr>"
  obtain pub priv tok where k: "k = (pub, priv, tok)" by (cases k)
  obtain r1 where c: "startInstall ?m (fi_uid fi) r = (r1, True)" using new(4) by (auto simp: startInstall_def running_def)
  then have h: "rc_inFlight (finishInstall ?m (fi_uid fi) r1) = rc_inFlight r"
    by (auto simp: startInstall_def finishInstall_def split: if_splits)
  note step = run new Inr k c
  show ?thesis
  proof (cases "patch_status e (fi_status fi) ?new fi")
    case (Inl x)
    then show ?thesis using step h by (auto simp: Install_Reconcile_def Let_def pass_idle_def same_object_def)
  next
    case p: (Inr cur1)
    note cur1 = patch_fresh [OF p]
    show ?thesis
    proof (cases "newInstallUID e")
      case (Inl x)
      then obtain msg where "failPending (e\<lparr>pe_patch := pe_patchAgain e\<rparr>) (finishInstall ?m (fi_uid fi) r1) cur1 cur1 msg = (r', cur, effs, res)"
        using step p cur1 by (auto simp: Install_Reconcile_def Let_def)
      from failPending_quiet [OF this] show ?thesis using h cur1 by (auto simp: pass_idle_def quiet_write_def same_object_def)
    next
      case (Inr uid)
      then show ?thesis using step p cur1
        by (auto simp: Install_Reconcile_def Let_def recordTask_def pass_starts_def same_object_def toProvisionSpec_def options_def)
    qed
  qed
qed

lemma Install_Reconcile_cases:
  assumes "Install_Reconcile cf e r fi fi = (r', cur, effs, res)" "pe_latest e = None \<or> pe_latest e = Some fi"
  shows "pass_idle r fi r' cur effs \<or> pass_starts cf e r fi r' cur effs"
proof -
  let ?m = "is_machineRef (fi_spec fi)"
  consider (del) "fi_deleting fi" | (fin) "\<not> fi_deleting fi" "\<not> fi_finalizer fi" | (over) "\<not> fi_deleting fi" "fi_finalizer fi" "terminal fi"
    | (run) "\<not> fi_deleting fi" "fi_finalizer fi" "\<not> terminal fi" "running r ?m"
    | (again) "\<not> fi_deleting fi" "fi_finalizer fi" "\<not> terminal fi" "\<not> running r ?m" "it_observedGeneration (fi_status fi) = fi_generation fi"
    | (new) "\<not> fi_deleting fi" "fi_finalizer fi" "\<not> terminal fi" "\<not> running r ?m" "it_observedGeneration (fi_status fi) \<noteq> fi_generation fi"
    by blast
  then show ?thesis
  proof cases
    case del
    then show ?thesis using assms(1) finalize_quiet [of e r fi r' cur effs res] pass_idle_quiet by (auto simp: Install_Reconcile_def)
  next
    case fin
    then show ?thesis using assms(1) by (auto simp: Install_Reconcile_def pass_idle_def same_object_def split: option.splits)
  next
    case over
    then show ?thesis using assms(1) by (auto simp: Install_Reconcile_def pass_idle_def same_object_def)
  next
    case run
    obtain r1 cur1 where l: "reportInstallerLiveness cf e r fi fi = (r1, cur1)" by (cases "reportInstallerLiveness cf e r fi fi")
    show ?thesis using run assms(1) liveness_quiet [OF l assms(2)] pass_idle_quiet [of fi cur1 "[]" r1 r] by (auto simp: Install_Reconcile_def l)
  next
    case again
    then show ?thesis using assms(1) failRestarted_quiet [of e r fi r' cur effs res] pass_idle_quiet by (auto simp: Install_Reconcile_def)
  next
    case new
    then show ?thesis using Reconcile_new [OF assms(1)] by blast
  qed
qed

end
