(* ===== verification/Install_Once.thy ===== *)
theory Install_Once
  imports Install_System
begin

text \<open>
  The properties of the \<open>FrameInstall\<close> controller over time: one installation per machine, one start per
  generation across restarts, what is checked before a start and before a release, and where a stale or
  an edited object escapes these.
\<close>

section \<open>The invariant\<close>

definition sys_inv :: "inst_sys \<Rightarrow> bool" where
  "sys_inv s \<longleftrightarrow>
     slots.matches (sy_mem s) (sy_jobs s)
     \<and> (\<forall>u fi. sy_objs s u = Some fi \<longrightarrow> fi_uid fi = u \<and> u \<in> sy_used s \<and> it_observedGeneration (fi_status fi) \<le> fi_generation fi)
     \<and> distinct (sy_log s)
     \<and> (\<forall>u g. (u, g) \<in> set (sy_log s) \<longrightarrow> u \<in> sy_used s
          \<and> (\<forall>fi. sy_objs s u = Some fi \<longrightarrow> g \<le> it_observedGeneration (fi_status fi)))"

lemma sys_inv_new: "sys_inv new_sys"
  using slots.matches_fresh by (simp add: sys_inv_def new_sys_def)

lemma matches_cong: "rc_inFlight r' = rc_inFlight r \<Longrightarrow> slots.matches r' jobs = slots.matches r jobs"
  by (simp add: slots.matches_def)

text \<open>Writing an object whose identity and observed generation are kept, or moved forward within its generation.\<close>

lemma sys_inv_write:
  assumes "sys_inv s" "sy_objs s u = Some fi" "fi_uid cur = fi_uid fi"
    "it_observedGeneration (fi_status fi) \<le> it_observedGeneration (fi_status cur)" "it_observedGeneration (fi_status cur) \<le> fi_generation cur"
  shows "sys_inv (s\<lparr>sy_objs := (sy_objs s)(u \<mapsto> cur)\<rparr>)"
proof -
  have "g \<le> it_observedGeneration (fi_status cur)" if "(u, g) \<in> set (sy_log s)" for g
    using assms(1,2,4) that unfolding sys_inv_def by (meson order_trans)
  then show ?thesis using assms unfolding sys_inv_def by auto
qed

lemma sys_inv_mem:
  assumes "sys_inv s" "slots.matches r jobs"
  shows "sys_inv (s\<lparr>sy_mem := r, sy_jobs := jobs\<rparr>)"
  using assms by (simp add: sys_inv_def)

lemma sys_inv_quiet:
  assumes "sys_inv s" "sy_objs s u = Some fi" "quiet_write fi cur"
  shows "sys_inv (s\<lparr>sy_objs := (sy_objs s)(u \<mapsto> cur)\<rparr>)"
proof (rule sys_inv_write [OF assms(1,2)])
  show "it_observedGeneration (fi_status cur) \<le> fi_generation cur"
    using assms unfolding sys_inv_def quiet_write_def same_object_def by auto
qed (use assms(3) in \<open>auto simp: quiet_write_def same_object_def\<close>)

lemma sys_inv_pass:
  assumes inv: "sys_inv s" and obj: "sy_objs s u = Some fi" and latest: "pe_latest e = None \<or> pe_latest e = Some fi"
    and run: "Install_Reconcile cf e (sy_mem s) fi fi = (r, cur, effs, res)"
  shows "sys_inv (s\<lparr>sy_mem := r, sy_objs := (sy_objs s)(u \<mapsto> cur), sy_jobs := map (\<lambda>m. (m, u)) (machines_started effs) @ sy_jobs s,
      sy_log := map (\<lambda>m. (u, fi_generation fi)) (machines_started effs) @ sy_log s\<rparr>)"
proof -
  have o: "fi_uid fi = u" "u \<in> sy_used s" "it_observedGeneration (fi_status fi) \<le> fi_generation fi"
    using inv obj unfolding sys_inv_def by auto
  consider "pass_idle (sy_mem s) fi r cur effs" | "pass_starts cf e (sy_mem s) fi r cur effs"
    using Install_Reconcile_cases [OF run latest] by blast
  then show ?thesis
  proof cases
    case 1
    then have "slots.matches r (sy_jobs s)" using inv matches_cong unfolding sys_inv_def pass_idle_def by metis
    then have "sys_inv (s\<lparr>sy_mem := r, sy_jobs := sy_jobs s\<rparr>)" by (rule sys_inv_mem [OF inv])
    then have "sys_inv (s\<lparr>sy_mem := r, sy_jobs := sy_jobs s, sy_objs := (sy_objs s)(u \<mapsto> cur)\<rparr>)"
      using sys_inv_write [of "s\<lparr>sy_mem := r, sy_jobs := sy_jobs s\<rparr>" u fi cur] 1 o obj by (auto simp: pass_idle_def same_object_def)
    moreover have "machines_started effs = []" using 1 by (simp add: pass_idle_def)
    ultimately show ?thesis by simp
  next
    case 2
    let ?m = "is_machineRef (fi_spec fi)"
    have ms: "machines_started effs = [?m]" and c: "startInstall ?m u (sy_mem s) = (r, True)" and same: "same_object fi cur"
      and obs: "it_observedGeneration (fi_status cur) = fi_generation fi" "it_observedGeneration (fi_status fi) < fi_generation fi"
      using 2 o by (auto simp: pass_starts_def)
    have "slots.matches r ((?m, u) # sy_jobs s)" using slots.matches_claim [OF _ c] inv unfolding sys_inv_def by blast
    moreover have "(u, fi_generation fi) \<notin> set (sy_log s)" using inv obj obs(2) unfolding sys_inv_def by force
    ultimately show ?thesis
      using inv o obj obs same unfolding sys_inv_def ms by (auto simp: same_object_def) force+
  qed
qed

lemma sys_inv_step: "sys_step cf s s' \<Longrightarrow> sys_inv s \<Longrightarrow> sys_inv s'"
proof (induction rule: sys_step.induct)
  case (pass s u fi e r cur effs res)
  then show ?case by (intro sys_inv_pass)
next
  case (phase m u s fi w p)
  then show ?case using sys_inv_quiet [OF _ _ reportPhase_quiet] by blast
next
  case (token m u s t)
  have "slots.matches (rememberToken u t (sy_mem s)) (sy_jobs s)"
    using token.prems matches_cong [of "rememberToken u t (sy_mem s)" "sy_mem s"] by (simp add: sys_inv_def rememberToken_def)
  from sys_inv_mem [OF token.prems this] show ?case by simp
next
  case (finish m u s fi w out err cur sec effs)
  have "slots.matches (finishInstall m u (sy_mem s)) (remove1 (m, u) (sy_jobs s))"
    using finish.prems finish.hyps(1) slots.matches_free unfolding sys_inv_def by blast
  from sys_inv_mem [OF sys_inv_quiet [OF finish.prems finish.hyps(2) finishStatus_quiet [OF finish.hyps(4,3)]] this]
  show ?case by simp
next
  case (finish_gone m u s)
  have "slots.matches (finishInstall m u (sy_mem s)) (remove1 (m, u) (sy_jobs s))"
    using finish_gone slots.matches_free unfolding sys_inv_def by blast
  from sys_inv_mem [OF finish_gone.prems this] show ?case by simp
next
  case (restart s)
  from sys_inv_mem [OF restart.prems slots.matches_fresh] show ?case by simp
next
  case (create u s fi)
  then show ?case unfolding sys_inv_def by (auto simp: new_status_def)
next
  case (edit s u fi sp)
  then have "it_observedGeneration (fi_status fi) \<le> fi_generation fi" unfolding sys_inv_def by auto
  then show ?case using edit by (intro sys_inv_write) auto
next
  case (delete s u fi)
  then show ?case by (intro sys_inv_quiet) (auto simp: quiet_write_def same_object_def)
next
  case (gone s u fi)
  then show ?case unfolding sys_inv_def by auto
qed

lemma sys_inv_reachable: "sys_reachable cf s \<Longrightarrow> sys_inv s"
  unfolding sys_reachable_def by (induction rule: rtranclp_induct) (auto intro: sys_inv_new sys_inv_step)

section \<open>A sample manager\<close>

definition w_cf :: inst_config where
  "w_cf = \<lparr>cf_progress = True, cf_mediaURL = ''http://192.0.2.9:30581'', cf_operatorNamespace = '''', cf_phaseTimeout = None, cf_poll = 0\<rparr>"

definition w_ispec :: "string \<Rightarrow> string \<Rightarrow> install_spec" where
  "w_ispec machine host = \<lparr>is_machineRef = machine, is_confirmSerial = ''CZ3'', is_hostname = host,
     is_network = \<lparr>pn_address = ''192.0.2.210/24'', pn_gateway = ''192.0.2.1'', pn_dns = [''192.0.2.53'']\<rparr>,
     is_layout = \<lparr>pl_kind = LayoutSingleDisk, pl_disks = []\<rparr>, is_mode = ClusterInit, is_serverURL = '''', is_joinTokenRef = '''',
     is_k3sVersion = ''v1.33.4+k3s1'', is_bootMode = bootUEFI, is_sshKeyRef = ''ssh''\<rparr>"

definition w_fi :: frame_install where
  "w_fi = \<lparr>fi_name = ''fi'', fi_namespace = ''default'', fi_uid = ''u1'', fi_generation = 1, fi_deleting = False, fi_finalizer = True,
     fi_spec = w_ispec ''m1'' ''node-1'', fi_status = new_status\<rparr>"

definition w_secret :: "string \<Rightarrow> string + (string \<rightharpoonup> string)" where
  "w_secret name = Inr (map_of [(''username'', ''u''), (''password'', ''p''), (''id'', ''PRIVATE''), (''id.pub'', ''ssh-ed25519 A'')])"

definition w_penv :: pass_env where
  "w_penv = \<lparr>pe_now = 0,
     pe_parseURL = (\<lambda>u. Inr \<lparr>up_scheme = ''http'', up_host = ''192.0.2.9:30581'', up_hostname = ''192.0.2.9'', up_user = False, up_path = '''',
       up_rawQuery = '''', up_fragment = '''', up_redacted = u\<rparr>),
     pe_toLower = (\<lambda>s. s), pe_machine = Inr \<lparr>bm_address = ''192.0.2.40'', bm_credentialsRef = ''bmc'', bm_insecureSkipVerify = True, bm_caBundleRef = ''''\<rparr>,
     pe_secret = w_secret, pe_configMap = (\<lambda>n. Inl ''not found''), pe_usableCA = (\<lambda>t. False),
     pe_nodes = Inr [\<lparr>cn_name = ''live'', cn_conditions = [(''Ready'', ''True'')], cn_addresses = [''192.0.2.7'']\<rparr>], pe_nodeGet = (\<lambda>host. NodeNotFound),
     pe_installs = Inr [], pe_rand = Inr (replicate 16 7), pe_eject = None, pe_clear = None, pe_progress = Inr None, pe_latest = None,
     pe_patch = None, pe_patchAgain = None, pe_update = None\<rparr>"

definition w_start :: pass where "w_start = Install_Reconcile w_cf w_penv new_installer w_fi w_fi"

definition w_committed :: frame_install where
  "w_committed = w_fi\<lparr>fi_status := new_status\<lparr>it_observedGeneration := 1\<rparr>\<rparr>"

definition w_edited :: frame_install where
  "w_edited = w_committed\<lparr>fi_spec := w_ispec ''m2'' ''node-1'', fi_generation := 2\<rparr>"

definition w_again :: pass where
  "w_again = Install_Reconcile w_cf w_penv (new_installer\<lparr>rc_inFlight := [''m1'' \<mapsto> ''u1'']\<rparr>) w_edited w_edited"

lemma w_guards:
  "start_guards w_cf w_penv w_fi = Inr (''ssh-ed25519 A'', ''PRIVATE'', [])"
  "start_guards w_cf w_penv w_edited = Inr (''ssh-ed25519 A'', ''PRIVATE'', [])"
  "\<not> terminal w_fi" "\<not> terminal w_edited"
  by code_simp+

lemmas iw_defs = w_fi_def w_committed_def w_edited_def w_ispec_def new_installer_def new_status_def w_penv_def

lemmas pass_defs = running_def startInstall_def patch_status_def newInstallUID_def recordTask_def

lemma w_start_runs:
  "fst w_start = new_installer\<lparr>rc_inFlight := [''m1'' \<mapsto> ''u1'']\<rparr>" "fst (snd w_start) = w_committed"
  "machines_started (fst (snd (snd w_start))) = [''m1'']"
  unfolding w_start_def Install_Reconcile_def w_guards(1) using w_guards(3) by (simp_all add: iw_defs pass_defs Let_def)

lemma w_again_runs:
  "fst w_again = new_installer\<lparr>rc_inFlight := [''m1'' \<mapsto> ''u1'', ''m2'' \<mapsto> ''u1'']\<rparr>"
  "machines_started (fst (snd (snd w_again))) = [''m2'']"
  unfolding w_again_def Install_Reconcile_def w_guards(2) using w_guards(4) by (simp_all add: iw_defs pass_defs Let_def)

lemma w_facts: "pe_latest w_penv = None" "fi_generation w_fi = 1" "fi_generation w_edited = 2"
  by (simp_all add: w_penv_def w_fi_def w_edited_def)

definition w_sys1 :: inst_sys where
  "w_sys1 = \<lparr>sy_objs = [''u1'' \<mapsto> w_fi], sy_mem = new_installer, sy_jobs = [], sy_log = [], sy_used = {''u1''}\<rparr>"

definition w_sys2 :: inst_sys where
  "w_sys2 = \<lparr>sy_objs = [''u1'' \<mapsto> w_committed], sy_mem = new_installer\<lparr>rc_inFlight := [''m1'' \<mapsto> ''u1'']\<rparr>, sy_jobs = [(''m1'', ''u1'')],
     sy_log = [(''u1'', 1)], sy_used = {''u1''}\<rparr>"

definition w_sys4 :: inst_sys where
  "w_sys4 = \<lparr>sy_objs = [''u1'' \<mapsto> fst (snd w_again)], sy_mem = fst w_again, sy_jobs = [(''m2'', ''u1''), (''m1'', ''u1'')],
     sy_log = [(''u1'', 2), (''u1'', 1)], sy_used = {''u1''}\<rparr>"

lemma w_sys2_reachable: "sys_reachable w_cf w_sys2"
proof -
  have "sys_step w_cf new_sys w_sys1"
    using sys_step.create [of "''u1''" new_sys w_fi w_cf] by (simp add: new_sys_def w_sys1_def w_fi_def)
  moreover have "sys_step w_cf w_sys1 w_sys2"
  proof -
    have "Install_Reconcile w_cf w_penv (sy_mem w_sys1) w_fi w_fi = (fst w_start, fst (snd w_start), fst (snd (snd w_start)), snd (snd (snd w_start)))"
      by (simp add: w_sys1_def w_start_def)
    from sys_step.pass [OF _ _ this, where u = "''u1''"] show ?thesis by (simp add: w_sys1_def w_sys2_def w_start_runs w_facts)
  qed
  ultimately show ?thesis unfolding sys_reachable_def by (meson converse_rtranclp_into_rtranclp rtranclp.rtrancl_refl)
qed

lemma w_sys4_reachable: "sys_reachable w_cf w_sys4"
proof -
  define s3 where "s3 = w_sys2\<lparr>sy_objs := [''u1'' \<mapsto> w_edited]\<rparr>"
  have "sys_step w_cf w_sys2 s3"
    using sys_step.edit [of w_sys2 "''u1''" w_committed w_cf "w_ispec ''m2'' ''node-1''"] by (simp add: w_sys2_def s3_def w_edited_def w_committed_def w_fi_def)
  moreover have "sys_step w_cf s3 w_sys4"
  proof -
    have "Install_Reconcile w_cf w_penv (sy_mem s3) w_edited w_edited = (fst w_again, fst (snd w_again), fst (snd (snd w_again)), snd (snd (snd w_again)))"
      by (simp add: s3_def w_sys2_def w_again_def)
    from sys_step.pass [OF _ _ this, where u = "''u1''"] show ?thesis
      by (simp add: s3_def w_sys2_def w_sys4_def w_again_runs(2) w_facts)
  qed
  ultimately show ?thesis using w_sys2_reachable unfolding sys_reachable_def by (meson rtranclp.rtrancl_into_rtrancl)
qed

section \<open>Properties\<close>

text \<open>
  C7. Whatever passes, restarts and deletions happen, with edits between passes and never inside one, at most one installation runs against a machine, and the
  manager's memory says exactly which machines are being driven.
\<close>

theorem one_install_per_machine:
  assumes "sys_reachable cf s"
  shows "distinct (map fst (sy_jobs s)) \<and> (\<forall>m. running (sy_mem s) m \<longleftrightarrow> m \<in> fst ` set (sy_jobs s))"
proof -
  have "slots.matches (sy_mem s) (sy_jobs s)" using sys_inv_reachable [OF assms] by (simp add: sys_inv_def)
  then show ?thesis by (simp add: slots.matches_def running_def image_iff Bex_def split_paired_Ex)
qed

theorem one_install_per_machine_witness:
  "running (sy_mem w_sys2) ''m1'' \<and> \<not> running (sy_mem w_sys2) ''m2''"
  using one_install_per_machine [OF w_sys2_reachable] by (simp add: w_sys2_def)

text \<open>
  C6. No generation of a \<open>FrameInstall\<close> is ever started twice: not by a later pass, not after a failure and not after
  the manager restarted in the middle of it. Edits fall between passes here, never inside one.
\<close>

theorem install_once_per_generation:
  assumes "sys_reachable cf s"
  shows "distinct (sy_log s)"
  using sys_inv_reachable [OF assms] unfolding sys_inv_def by blast

theorem install_once_per_generation_witness: "distinct (sy_log w_sys4) \<and> length (sy_log w_sys4) = 2"
  using install_once_per_generation [OF w_sys4_reachable] by (simp add: w_sys4_def)

lemma live_member_None:
  "live_member host addr ns = None \<longleftrightarrow> (\<forall>n \<in> set ns. ready_condition (cn_conditions n) \<longrightarrow> cn_name n \<noteq> host \<and> addr \<notin> set (cn_addresses n))"
  by (induction host addr ns rule: live_member.induct) auto

text \<open>
  C8. A pass that starts an installation on an object it read as stored had found no Ready node with its name or its
  address, no node of its name at all, no other unfinished \<open>FrameInstall\<close> for its hostname and nobody driving its
  machine, and it starts exactly that machine, under the object's name, with its disks and the serial it confirms.
\<close>

theorem start_is_checked:
  assumes "Install_Reconcile cf e r fi fi = (r', cur, effs, res)" "pe_latest e = None \<or> pe_latest e = Some fi"
    and "Starts m s opt \<in> set effs"
  shows "m = is_machineRef (fi_spec fi) \<and> \<not> running r m \<and> rc_inFlight r' m = Some (fi_uid fi) \<and> \<not> terminal fi
    \<and> (\<exists>nodes. pe_nodes e = Inr nodes \<and> (\<forall>n \<in> set nodes. ready_condition (cn_conditions n) \<longrightarrow>
         cn_name n \<noteq> is_hostname (fi_spec fi) \<and> addressWithoutCIDR (pn_address (is_network (fi_spec fi))) \<notin> set (cn_addresses n)))
    \<and> pe_nodeGet e (is_hostname (fi_spec fi)) = NodeNotFound
    \<and> (\<exists>items. pe_installs e = Inr items \<and> (\<forall>x \<in> set items. fi_uid x \<noteq> fi_uid fi \<and> is_hostname (fi_spec x) = is_hostname (fi_spec fi) \<longrightarrow> terminal x))
    \<and> ps_hostname s = is_hostname (fi_spec fi) \<and> ps_layout s = is_layout (fi_spec fi) \<and> io_confirmSerial opt = is_confirmSerial (fi_spec fi)
    \<and> it_observedGeneration (fi_status cur) = fi_generation fi"
proof -
  have "m \<in> set (machines_started effs)" using assms(3) by (induction effs rule: machines_started.induct) auto
  then have p: "pass_starts cf e r fi r' cur effs" and m: "m = is_machineRef (fi_spec fi)"
    using Install_Reconcile_cases [OF assms(1,2)] by (auto simp: pass_idle_def pass_starts_def)
  then obtain x where g: "start_guards cf e fi = Inr x" by (auto simp: pass_starts_def)
  have live: "checkNotALiveClusterMember e (is_hostname (fi_spec fi)) (pn_address (is_network (fi_spec fi))) = None"
    and taken: "checkHostnameNotTaken e fi = None"
    using g by (auto simp: start_guards_def Let_def split: sum.splits option.splits)
  have "pe_nodeGet e (is_hostname (fi_spec fi)) = NodeNotFound" using taken by (auto simp: checkHostnameNotTaken_def Let_def split: node_read.splits)
  moreover have "ps_hostname s = is_hostname (fi_spec fi) \<and> ps_layout s = is_layout (fi_spec fi) \<and> io_confirmSerial opt = is_confirmSerial (fi_spec fi)"
    using p assms(3) unfolding pass_starts_def by blast
  moreover obtain items where "pe_installs e = Inr items"
    "find (\<lambda>x. fi_uid x \<noteq> fi_uid fi \<and> is_hostname (fi_spec x) = is_hostname (fi_spec fi) \<and> \<not> terminal x) items = None"
    using taken by (auto simp: checkHostnameNotTaken_def Let_def split: node_read.splits sum.splits)
  moreover obtain nodes where "pe_nodes e = Inr nodes"
    "live_member (is_hostname (fi_spec fi)) (addressWithoutCIDR (pn_address (is_network (fi_spec fi)))) nodes = None"
    using live by (auto simp: checkNotALiveClusterMember_def split: sum.splits)
  ultimately show ?thesis using p m
    by (auto simp: pass_starts_def startInstall_def running_def find_None_iff live_member_None split: if_splits)
qed

lemma machines_started_in: "m \<in> set (machines_started effs) \<Longrightarrow> \<exists>s opt. Starts m s opt \<in> set effs"
  by (induction effs rule: machines_started.induct) auto

theorem start_is_checked_witness: "rc_inFlight (fst w_start) ''m1'' = Some ''u1'' \<and> \<not> running new_installer ''m1''"
proof -
  have "''m1'' \<in> set (machines_started (fst (snd (snd w_start))))" by (simp add: w_start_runs(3))
  then obtain s opt where st: "Starts ''m1'' s opt \<in> set (fst (snd (snd w_start)))" using machines_started_in by blast
  have run: "Install_Reconcile w_cf w_penv new_installer w_fi w_fi = (fst w_start, fst (snd w_start), fst (snd (snd w_start)), snd (snd (snd w_start)))"
    by (simp add: w_start_def)
  have "rc_inFlight (fst w_start) ''m1'' = Some (fi_uid w_fi) \<and> \<not> running new_installer ''m1''"
    using start_is_checked [OF run disjI1 [OF w_facts(1)] st] by (elim conjE) (intro conjI)
  then show ?thesis by (simp add: w_fi_def)
qed

text \<open>
  C9. A \<open>FrameInstall\<close> being deleted is released only when no installation drives its machine, and only after media
  was ejected and the boot override cleared without error, unless its machine or its BMC cannot be reached.
\<close>

theorem released_only_clean:
  assumes "Install_Reconcile cf e r fi fi = (r', cur, effs, res)" "fi_deleting fi" "fi_finalizer fi" "\<not> fi_finalizer cur"
  shows "\<not> running r (is_machineRef (fi_spec fi))
    \<and> (effs = [Ejects, Clears] \<and> pe_eject e = None \<and> pe_clear e = None
       \<or> (case pe_machine e of Inl _ \<Rightarrow> True | Inr b \<Rightarrow> (\<exists>x. BuildRedfishBMC e (fi_namespace fi) b = Inl x)))"
proof -
  have "finalize e r fi fi = (r', cur, effs, res)" using assms(1,2) by (simp add: Install_Reconcile_def)
  then show ?thesis using assms(3,4)
    by (auto simp: finalize_def clean_machine_def split: if_splits option.splits sum.splits prod.splits)
qed

definition w_deleted :: frame_install where "w_deleted = w_fi\<lparr>fi_deleting := True\<rparr>"

theorem released_only_clean_witness:
  "pe_eject w_penv = None \<and> pe_clear w_penv = None \<and> \<not> running new_installer ''m1''"
proof -
  define p where "p = Install_Reconcile w_cf w_penv new_installer w_deleted w_deleted"
  have "\<not> fi_finalizer (fst (snd p))" unfolding p_def w_deleted_def by code_simp
  moreover have "Install_Reconcile w_cf w_penv new_installer w_deleted w_deleted = (fst p, fst (snd p), fst (snd (snd p)), snd (snd (snd p)))"
    by (simp add: p_def)
  ultimately show ?thesis using released_only_clean [of w_cf w_penv new_installer w_deleted]
    by (simp add: w_deleted_def w_fi_def w_ispec_def w_penv_def new_installer_def running_def)
qed

section \<open>What escapes\<close>

text \<open>A pass that finds nothing against its object claims the machine it read and starts the object the patch returned.\<close>

lemma pass_commits:
  assumes "\<not> fi_deleting fi" "fi_finalizer fi" "\<not> terminal fi" "\<not> running r (is_machineRef (fi_spec fi))"
    and "it_observedGeneration (fi_status fi) \<noteq> fi_generation fi" "start_guards cf e fi = Inr (pub, priv, tok)"
    and "pe_patch e = None" "pe_rand e = Inr bs"
    and cur1: "cur1 = cur\<lparr>fi_status := merge_status (fi_status fi) ((fi_status fi)\<lparr>it_observedGeneration := fi_generation fi\<rparr>) (fi_status cur)\<rparr>"
  shows "Install_Reconcile cf e r fi cur =
    (r\<lparr>rc_inFlight := (rc_inFlight r)(is_machineRef (fi_spec fi) \<mapsto> fi_uid fi)\<rparr>, cur1,
     [recordTask ''create'' (on_machine cur1),
      Starts (is_machineRef (fi_spec cur1)) (toProvisionSpec cur1 (hex_bytes bs) pub tok) (options cf cur1 priv)],
     RequeueAfter (15 * second))"
  using assms(1-8) unfolding cur1 Install_Reconcile_def by (simp add: pass_defs Let_def)

text \<open>
  C39. The guarantee is per generation only: when the \<open>machineRef\<close> of an object is edited while an installation of
  it runs, to a machine nobody drives and that passes the guards, the next pass starts a second installation of the
  same object beside the first, and the manager holds both machines for it.
\<close>

theorem edited_install_runs_twice:
  assumes "sys_reachable cf s" "(m, u) \<in> set (sy_jobs s)" "sy_objs s u = Some fi" "\<not> fi_deleting fi" "fi_finalizer fi" "\<not> terminal fi"
    and "\<not> running (sy_mem s) (is_machineRef sp)"
    and "start_guards cf e (fi\<lparr>fi_spec := sp, fi_generation := fi_generation fi + 1\<rparr>) = Inr (pub, priv, tok)"
    and "pe_latest e = None" "pe_patch e = None" "pe_rand e = Inr bs"
  shows "\<exists>s1 s2. s1 = s\<lparr>sy_objs := (sy_objs s)(u \<mapsto> fi\<lparr>fi_spec := sp, fi_generation := fi_generation fi + 1\<rparr>)\<rparr>
    \<and> sys_step cf s s1 \<and> sys_step cf s1 s2 \<and> m \<noteq> is_machineRef sp
    \<and> {(m, u), (is_machineRef sp, u)} \<subseteq> set (sy_jobs s2)
    \<and> rc_inFlight (sy_mem s2) m = Some u \<and> rc_inFlight (sy_mem s2) (is_machineRef sp) = Some u"
proof -
  define fi' where "fi' = fi\<lparr>fi_spec := sp, fi_generation := fi_generation fi + 1\<rparr>"
  define s1 where "s1 = s\<lparr>sy_objs := (sy_objs s)(u \<mapsto> fi')\<rparr>"
  note inv = sys_inv_reachable [OF assms(1)]
  have o: "fi_uid fi = u" "it_observedGeneration (fi_status fi) \<le> fi_generation fi" using inv assms(3) unfolding sys_inv_def by auto
  have held: "rc_inFlight (sy_mem s) m = Some u" using inv assms(2) by (simp add: sys_inv_def slots.matches_def)
  then have m: "m \<noteq> is_machineRef sp" using assms(7) by (auto simp: running_def)
  have edit: "sys_step cf s s1" unfolding s1_def fi'_def by (rule sys_step.edit [OF assms(3)])
  have f: "\<not> fi_deleting fi'" "fi_finalizer fi'" "\<not> terminal fi'" "\<not> running (sy_mem s1) (is_machineRef (fi_spec fi'))"
    "it_observedGeneration (fi_status fi') \<noteq> fi_generation fi'" "start_guards cf e fi' = Inr (pub, priv, tok)" "fi_uid fi' = u" "fi_spec fi' = sp"
    using assms(4-8) o by (simp_all add: fi'_def s1_def terminal_def)
  note run = pass_commits [OF f(1-6) assms(10,11) refl, of fi']
  have "sy_objs s1 u = Some fi'" by (simp add: s1_def)
  from sys_step.pass [OF this disjI1 [OF assms(9)] run] obtain s2 where "sys_step cf s1 s2"
    "sy_jobs s2 = (is_machineRef sp, u) # sy_jobs s1" "rc_inFlight (sy_mem s2) = (rc_inFlight (sy_mem s1))(is_machineRef sp \<mapsto> u)"
    using f(7,8) by (auto simp: recordTask_def)
  moreover have "sy_mem s1 = sy_mem s" "sy_jobs s1 = sy_jobs s" by (simp_all add: s1_def)
  ultimately show ?thesis using edit m held assms(2) unfolding s1_def fi'_def by auto
qed

theorem edited_install_runs_twice_witness:
  "\<exists>s1 s2. sys_step w_cf w_sys2 s1 \<and> sys_step w_cf s1 s2 \<and> {(''m1'', ''u1''), (''m2'', ''u1'')} \<subseteq> set (sy_jobs s2)"
proof -
  have e: "w_committed\<lparr>fi_spec := w_ispec ''m2'' ''node-1'', fi_generation := fi_generation w_committed + 1\<rparr> = w_edited"
    by (simp add: w_edited_def w_committed_def w_fi_def)
  have h: "(''m1'', ''u1'') \<in> set (sy_jobs w_sys2)" "sy_objs w_sys2 ''u1'' = Some w_committed" "\<not> fi_deleting w_committed"
    "fi_finalizer w_committed" "\<not> terminal w_committed" "\<not> running (sy_mem w_sys2) (is_machineRef (w_ispec ''m2'' ''node-1''))"
    "pe_patch w_penv = None" "pe_rand w_penv = Inr (replicate 16 7)" "is_machineRef (w_ispec ''m2'' ''node-1'') = ''m2''"
    by (simp_all add: w_sys2_def iw_defs terminal_def running_def phase_defs)
  from edited_install_runs_twice [OF w_sys2_reachable h(1-6) _ w_facts(1) h(7,8)] show ?thesis
    unfolding e h(9) using w_guards(2) by blast
qed





text \<open>
  A pass that read its object before the goroutine ended, and looks at the running installations after it, takes
  the end for a restart and writes Failed over the Ready that was stored.
\<close>

theorem stale_pass_overwrites_ready:
  assumes "\<not> fi_deleting fi" "fi_finalizer fi" "it_phase (fi_status fi) = PhaseJoining" "it_observedGeneration (fi_status fi) = fi_generation fi"
    and "\<not> running r (is_machineRef (fi_spec fi))" "pe_patch e = None" "it_phase (fi_status cur) = PhaseReady"
    and "Install_Reconcile cf e r fi cur = (r', cur', effs, res)"
  shows "it_phase (fi_status cur') = PhaseFailed"
proof -
  have "failRestarted e r fi cur = (r', cur', effs, res)"
    using assms by (simp add: Install_Reconcile_def terminal_def phase_defs)
  then show ?thesis using assms(3,6)
    by (auto simp: failRestarted_def patch_status_def merge_status_def merged_def Let_def phase_defs split: prod.splits)
qed

definition w_joining :: frame_install where
  "w_joining = w_fi\<lparr>fi_status := new_status\<lparr>it_phase := PhaseJoining, it_observedGeneration := 1\<rparr>\<rparr>"

definition w_ready :: frame_install where
  "w_ready = w_fi\<lparr>fi_status := new_status\<lparr>it_phase := PhaseReady, it_observedGeneration := 1\<rparr>\<rparr>"

theorem stale_pass_overwrites_ready_witness:
  "it_phase (fi_status w_ready) = PhaseReady
   \<and> it_phase (fi_status (fst (snd (Install_Reconcile w_cf w_penv new_installer w_joining w_ready)))) = PhaseFailed"
proof -
  define p where "p = Install_Reconcile w_cf w_penv new_installer w_joining w_ready"
  have "Install_Reconcile w_cf w_penv new_installer w_joining w_ready = (fst p, fst (snd p), fst (snd (snd p)), snd (snd (snd p)))"
    by (simp add: p_def)
  moreover have "\<not> fi_deleting w_joining" "fi_finalizer w_joining" "it_phase (fi_status w_joining) = PhaseJoining"
    "it_observedGeneration (fi_status w_joining) = fi_generation w_joining" "\<not> running new_installer (is_machineRef (fi_spec w_joining))"
    "pe_patch w_penv = None" "it_phase (fi_status w_ready) = PhaseReady"
    by (simp_all add: w_joining_def w_ready_def w_fi_def w_penv_def new_installer_def running_def)
  ultimately show ?thesis using stale_pass_overwrites_ready unfolding p_def by blast
qed

end
